(* ===== verification/Prelude.thy ===== *)
theory Prelude
  imports Main "HOL-Library.Word" "HOL-Library.List_Lexorder" "HOL-Library.Char_ord"
    "HOL-Library.Multiset"
begin

text \<open>
  The vocabulary the components share: bytes and byte slices, Go's fixed-size array copy,
  big-endian integers (encoding/binary), the renderings of \<open>fmt\<close> and \<open>encoding/hex\<close>
  that build storage keys, UTF-8 validity (unicode/utf8), and generic facts on lists and maps.
  A Go string is an HOL string (a list of bytes as characters), a byte slice a list of
  8-bit words, a fixed-size array a list that \<open>copyN\<close> has brought to its size.
\<close>

type_synonym byte = "8 word"
type_synonym bytes = "byte list"
type_synonym u16 = "16 word"
type_synonym u32 = "32 word"
type_synonym u64 = "64 word"

named_theorems keyrender \<open>length and injectivity of the storage key renderings\<close>
named_theorems bebytes \<open>big-endian encodings and their lengths\<close>

section \<open>Words\<close>

lemma word_succ:
  assumes "(c::'a::len word) \<noteq> - 1"
  shows "unat (c + 1) = Suc (unat c)" "c < c + 1"
proof -
  have "1 + c \<noteq> 0" using assms by (metis add.commute eq_neg_iff_add_eq_0)
  then show "unat (c + 1) = Suc (unat c)" using unatSuc [of c] by (simp add: add.commute)
  then show "c < c + 1" by (simp add: word_less_nat_alt)
qed

section \<open>Fixed-size arrays\<close>

text \<open>\<open>var a [n]byte; copy(a[:], b)\<close>: the first n bytes of b, zero-filled.\<close>

definition copyN :: "nat \<Rightarrow> bytes \<Rightarrow> bytes" where
  "copyN n b = take n b @ replicate (n - length b) 0"

abbreviation copy32 :: "bytes \<Rightarrow> bytes" where
  "copy32 \<equiv> copyN 32"

abbreviation copy64 :: "bytes \<Rightarrow> bytes" where
  "copy64 \<equiv> copyN 64"

abbreviation zero32 :: bytes where
  "zero32 \<equiv> replicate 32 0"

lemma length_copyN [simp]: "length (copyN n b) = n"
  by (simp add: copyN_def)

lemma copyN_id [simp]: "length b = n \<Longrightarrow> copyN n b = b"
  by (simp add: copyN_def)

lemma copyN_copyN [simp]: "copyN n (copyN n b) = copyN n b"
  by simp

section \<open>Big-endian integers\<close>

fun be_nat :: "nat \<Rightarrow> nat \<Rightarrow> bytes" where
  "be_nat 0 v = []"
| "be_nat (Suc n) v = be_nat n (v div 256) @ [word_of_nat (v mod 256)]"

definition of_be :: "bytes \<Rightarrow> nat" where
  "of_be bs = foldl (\<lambda>a b. a * 256 + unat b) 0 bs"

definition be16 :: "u16 \<Rightarrow> bytes" where "be16 w = be_nat 2 (unat w)"
definition be32 :: "u32 \<Rightarrow> bytes" where "be32 w = be_nat 4 (unat w)"
definition be64 :: "u64 \<Rightarrow> bytes" where "be64 w = be_nat 8 (unat w)"

definition of_be16 :: "bytes \<Rightarrow> u16" where "of_be16 bs = word_of_nat (of_be bs)"
definition of_be64 :: "bytes \<Rightarrow> u64" where "of_be64 bs = word_of_nat (of_be bs)"

lemma length_be_nat [simp]: "length (be_nat n v) = n"
  by (induction n arbitrary: v) auto

lemma length_be [simp, bebytes]:
  "length (be16 a) = 2" "length (be32 b) = 4" "length (be64 c) = 8"
  by (simp_all add: be16_def be32_def be64_def)

lemma be_nat_0 [simp]: "be_nat n 0 = replicate n 0"
  by (induction n) (auto simp: replicate_append_same)

lemma of_be_snoc: "of_be (bs @ [b]) = of_be bs * 256 + unat b"
  by (simp add: of_be_def)

lemma of_be_Nil [simp]: "of_be [] = 0"
  by (simp add: of_be_def)

lemma of_be_be_nat: "of_be (be_nat n v) = v mod 256 ^ n"
proof (induction n arbitrary: v)
  case (Suc n)
  have "unat (word_of_nat (v mod 256) :: byte) = v mod 256"
    by (simp add: unat_of_nat)
  then show ?case
    by (simp add: of_be_snoc Suc mod_mult2_eq)
qed simp

lemma of_be_bound: "of_be bs < 256 ^ length bs"
proof (induction bs rule: rev_induct)
  case (snoc b bs)
  have "unat b < 256" using unsigned_less [of b] by simp
  with snoc show ?case by (simp add: of_be_snoc)
qed simp

lemma be_nat_of_be: "be_nat (length bs) (of_be bs) = bs"
proof (induction bs rule: rev_induct)
  case (snoc b bs)
  have "unat b < 256" using unsigned_less [of b] by simp
  with snoc show ?case by (simp add: of_be_snoc)
qed simp

lemma be_nat_inject:
  assumes "be_nat n a = be_nat n b" "a < 256 ^ n" "b < 256 ^ n"
  shows "a = b"
proof -
  have "a mod 256 ^ n = b mod 256 ^ n"
    using assms(1) of_be_be_nat by metis
  then show ?thesis by (simp only: mod_less [OF assms(2)] mod_less [OF assms(3)])
qed

lemma of_be64_be64 [simp, bebytes]: "of_be64 (be64 w) = w"
proof -
  have "unat w < 256 ^ 8" using unsigned_less [of w] by simp
  then have "of_be (be_nat 8 (unat w)) = unat w"
    by (simp add: of_be_be_nat)
  then show ?thesis by (simp add: of_be64_def be64_def)
qed

lemma of_be16_be16 [simp, bebytes]: "of_be16 (be16 w) = w"
proof -
  have "unat w < 256 ^ 2" using unsigned_less [of w] by simp
  then have "of_be (be_nat 2 (unat w)) = unat w"
    by (simp add: of_be_be_nat)
  then show ?thesis by (simp add: of_be16_def be16_def)
qed

lemma be64_inject [simp]: "be64 a = be64 b \<longleftrightarrow> a = b"
  by (metis of_be64_be64)

lemma be16_inject [simp]: "be16 a = be16 b \<longleftrightarrow> a = b"
  by (metis of_be16_be16)

section \<open>Lexicographic comparison of byte strings (bytes.Compare)\<close>

lemma append_less_iff:
  fixes xs ys :: "'a::linorder list"
  assumes "length xs = length ys"
  shows "xs @ us < ys @ vs \<longleftrightarrow> xs < ys \<or> (xs = ys \<and> us < vs)"
  using assms by (induction xs ys rule: list_induct2) auto

lemma byte_less_iff: "(a::byte) < b \<longleftrightarrow> unat a < unat b"
  by (rule word_less_nat_alt)

lemma be_nat_less_iff:
  assumes "a < 256 ^ n" "b < 256 ^ n"
  shows "be_nat n a < be_nat n b \<longleftrightarrow> a < b"
  using assms
proof (induction n arbitrary: a b)
  case (Suc n)
  have lt: "a div 256 < 256 ^ n" "b div 256 < 256 ^ n"
    using Suc.prems by (simp_all add: less_mult_imp_div_less mult.commute)
  have eq: "be_nat n (a div 256) = be_nat n (b div 256) \<longleftrightarrow> a div 256 = b div 256"
    using lt by (auto dest: be_nat_inject)
  have un: "unat (word_of_nat (a mod 256) :: byte) = a mod 256"
    "unat (word_of_nat (b mod 256) :: byte) = b mod 256"
    by (simp_all add: unat_of_nat)
  have "a < b \<longleftrightarrow> a div 256 < b div 256 \<or> (a div 256 = b div 256 \<and> a mod 256 < b mod 256)"
  proof -
    have "a = 256 * (a div 256) + a mod 256" "b = 256 * (b div 256) + b mod 256"
      by simp_all
    moreover have "a mod 256 < 256" "b mod 256 < 256" by simp_all
    ultimately show ?thesis by linarith
  qed
  then show ?case
    using Suc.IH [OF lt] by (simp add: append_less_iff eq byte_less_iff un)
qed simp

lemma be64_less_iff: "be64 a < be64 b \<longleftrightarrow> a < b"
proof -
  have "unat a < 256 ^ 8" "unat b < 256 ^ 8"
    using unsigned_less [of a] unsigned_less [of b] by simp_all
  then show ?thesis by (simp add: be64_def be_nat_less_iff word_less_nat_alt)
qed

lemma be16_less_iff: "be16 a < be16 b \<longleftrightarrow> a < b"
proof -
  have "unat a < 256 ^ 2" "unat b < 256 ^ 2"
    using unsigned_less [of a] unsigned_less [of b] by simp_all
  then show ?thesis by (simp add: be16_def be_nat_less_iff word_less_nat_alt)
qed

section \<open>Strings: conversion, hexadecimal and decimal renderings\<close>

text \<open>\<open>[]byte(s)\<close> and \<open>string(b)\<close>.\<close>

definition bytes_of :: "string \<Rightarrow> bytes" where
  "bytes_of s = map of_char s"

definition string_of :: "bytes \<Rightarrow> string" where
  "string_of b = map (\<lambda>x. char_of (unat x)) b"

lemma length_bytes_of [simp]: "length (bytes_of s) = length s"
  by (simp add: bytes_of_def)

lemma unat_of_char [simp]: "unat (of_char c :: byte) = (of_char c :: nat)"
proof -
  have "(of_char c :: nat) < 256" by simp
  moreover have "(of_char c :: byte) = word_of_nat (of_char c :: nat)"
    by (simp only: of_nat_of_char)
  ultimately show ?thesis by (simp add: unat_of_nat)
qed

lemma string_of_bytes_of [simp]: "string_of (bytes_of s) = s"
  by (simp add: bytes_of_def string_of_def comp_def)

lemma bytes_of_inject [simp]: "bytes_of s = bytes_of t \<longleftrightarrow> s = t"
  by (metis string_of_bytes_of)

text \<open>\<open>%x\<close> of a byte slice, and \<open>hex.EncodeToString\<close>.\<close>

definition hexdigit :: "nat \<Rightarrow> char" where
  "hexdigit n = ''0123456789abcdef'' ! n"

fun hex :: "bytes \<Rightarrow> string" where
  "hex [] = []"
| "hex (b # bs) = hexdigit (unat b div 16) # hexdigit (unat b mod 16) # hex bs"

text \<open>\<open>%d\<close> of an unsigned and of a signed integer.\<close>

definition decdigit :: "nat \<Rightarrow> char" where
  "decdigit n = ''0123456789'' ! n"

fun dec_nat :: "nat \<Rightarrow> string" where
  "dec_nat n = (if n < 10 then [decdigit n] else dec_nat (n div 10) @ [decdigit (n mod 10)])"

declare dec_nat.simps [simp del]

definition dec_int :: "int \<Rightarrow> string" where
  "dec_int i = (if i < 0 then CHR ''-'' # dec_nat (nat (- i)) else dec_nat (nat i))"

lemma length_hex [simp, keyrender]: "length (hex bs) = 2 * length bs"
  by (induction bs) auto

lemma hexdigit_inject:
  assumes "a < 16" "b < 16" "hexdigit a = hexdigit b"
  shows "a = b"
proof -
  have "a \<in> set [0..<16]" "b \<in> set [0..<16]" using assms by auto
  then show ?thesis using assms(3)
    unfolding hexdigit_def by (simp add: upt_rec) (elim disjE; simp)
qed

lemma hex_inject [simp, keyrender]: "hex a = hex b \<longleftrightarrow> a = b"
proof
  show "hex a = hex b \<Longrightarrow> a = b"
  proof (induction a arbitrary: b)
    case Nil
    then show ?case by (cases b) auto
  next
    case (Cons x a)
    then obtain y b' where b: "b = y # b'" by (cases b) auto
    have lt: "unat x < 256" "unat y < 256"
      using unsigned_less [of x] unsigned_less [of y] by simp_all
    from Cons.prems b have "hexdigit (unat x div 16) = hexdigit (unat y div 16)"
      and "hexdigit (unat x mod 16) = hexdigit (unat y mod 16)" and "hex a = hex b'"
      by auto
    then have "unat x div 16 = unat y div 16" "unat x mod 16 = unat y mod 16" "a = b'"
      using lt by (auto intro: hexdigit_inject Cons.IH)
    then have "unat x = unat y" by (metis div_mult_mod_eq)
    then have "x = y" by (simp only: word_unat_eq_iff)
    then show ?case using b \<open>a = b'\<close> by simp
  qed
qed simp

lemma hexdigit_ne_slash: "n < 16 \<Longrightarrow> hexdigit n \<noteq> CHR ''/''"
proof -
  assume "n < 16"
  then have "n \<in> set [0..<16]" by auto
  then show ?thesis unfolding hexdigit_def by (simp add: upt_rec) (elim disjE; simp)
qed

lemma slash_notin_hex [simp, keyrender]: "CHR ''/'' \<notin> set (hex bs)"
proof (induction bs)
  case (Cons b bs)
  have "unat b < 256" using unsigned_less [of b] by simp
  then have "hexdigit (unat b div 16) \<noteq> CHR ''/''" "hexdigit (unat b mod 16) \<noteq> CHR ''/''"
    by (simp_all add: hexdigit_ne_slash less_mult_imp_div_less)
  with Cons show ?case by (metis hex.simps(2) set_ConsD)
qed simp

lemma decdigit_facts:
  assumes "n < 10"
  shows "decdigit n \<noteq> CHR ''/''" "decdigit n \<noteq> CHR ''-''"
    "decdigit n = decdigit m \<Longrightarrow> m < 10 \<Longrightarrow> n = m"
proof -
  have n: "n \<in> set [0..<10]" using assms by auto
  then show "decdigit n \<noteq> CHR ''/''" "decdigit n \<noteq> CHR ''-''"
    unfolding decdigit_def by (simp_all add: upt_rec) (elim disjE; simp)+
  assume eq: "decdigit n = decdigit m" and "m < 10"
  then have "m \<in> set [0..<10]" by auto
  then show "n = m" using n eq
    unfolding decdigit_def by (simp add: upt_rec) (elim disjE; simp)
qed

lemma dec_nat_chars: "c \<in> set (dec_nat n) \<Longrightarrow> c \<noteq> CHR ''/'' \<and> c \<noteq> CHR ''-''"
proof (induction n rule: dec_nat.induct)
  case (1 n)
  then show ?case
    by (subst (asm) (2) dec_nat.simps) (auto simp: decdigit_facts split: if_splits)
qed

lemma dec_nat_nonempty [simp]: "dec_nat n \<noteq> []"
  by (subst dec_nat.simps) simp

lemma dec_nat_inject [simp, keyrender]: "dec_nat a = dec_nat b \<longleftrightarrow> a = b"
proof
  show "dec_nat a = dec_nat b \<Longrightarrow> a = b"
  proof (induction a arbitrary: b rule: dec_nat.induct)
    case (1 a)
    note eq = "1.prems" [unfolded dec_nat.simps [of a] dec_nat.simps [of b]]
    show ?case
    proof (cases "a < 10")
      case True
      have "b < 10"
      proof (rule ccontr)
        assume "\<not> b < 10"
        with eq True have "[] = dec_nat (b div 10)" by simp
        then show False by (metis dec_nat_nonempty)
      qed
      with eq True show ?thesis by (auto dest: decdigit_facts(3))
    next
      case False
      have "\<not> b < 10"
      proof
        assume "b < 10"
        with eq False have "dec_nat (a div 10) = []" by simp
        then show False by simp
      qed
      with eq False have "dec_nat (a div 10) = dec_nat (b div 10)"
        and d: "decdigit (a mod 10) = decdigit (b mod 10)" by auto
      with "1.IH" False have "a div 10 = b div 10" by blast
      moreover have "a mod 10 = b mod 10" by (rule decdigit_facts(3) [OF _ d]) simp_all
      ultimately show ?thesis by (metis div_mult_mod_eq)
    qed
  qed
qed simp

lemma slash_notin_dec_int [simp, keyrender]: "CHR ''/'' \<notin> set (dec_int i)"
  by (auto simp: dec_int_def dest: dec_nat_chars)

lemma dec_int_inject [simp, keyrender]: "dec_int a = dec_int b \<longleftrightarrow> a = b"
proof
  have neg: "hd (dec_nat n) \<noteq> CHR ''-''" for n
    using dec_nat_chars [of "hd (dec_nat n)" n] by simp
  show "dec_int a = dec_int b \<Longrightarrow> a = b"
    using neg [of "nat a"] neg [of "nat b"]
    by (auto simp: dec_int_def split: if_splits) (metis list.sel(1))+
qed simp

section \<open>UTF-8 validity\<close>

text \<open>\<open>utf8.ValidString\<close>: the well-formed byte sequences of the Unicode standard (no
  overlong forms, no surrogates, nothing above U+10FFFF).\<close>

definition utf8_cont :: "nat \<Rightarrow> bool" where
  "utf8_cont b = (0x80 \<le> b \<and> b \<le> 0xBF)"

fun utf8_valid_bytes :: "nat list \<Rightarrow> bool" where
  "utf8_valid_bytes [] = True"
| "utf8_valid_bytes (a # r) =
     (if a < 0x80 then utf8_valid_bytes r
      else if 0xC2 \<le> a \<and> a \<le> 0xDF then
        (case r of b # r' \<Rightarrow> utf8_cont b \<and> utf8_valid_bytes r' | [] \<Rightarrow> False)
      else if 0xE0 \<le> a \<and> a \<le> 0xEF then
        (case r of b # c # r' \<Rightarrow>
            (if a = 0xE0 then 0xA0 \<le> b else 0x80 \<le> b) \<and>
            (if a = 0xED then b \<le> 0x9F else b \<le> 0xBF) \<and>
            utf8_cont c \<and> utf8_valid_bytes r'
         | _ \<Rightarrow> False)
      else if 0xF0 \<le> a \<and> a \<le> 0xF4 then
        (case r of b # c # d # r' \<Rightarrow>
            (if a = 0xF0 then 0x90 \<le> b else 0x80 \<le> b) \<and>
            (if a = 0xF4 then b \<le> 0x8F else b \<le> 0xBF) \<and>
            utf8_cont c \<and> utf8_cont d \<and> utf8_valid_bytes r'
         | _ \<Rightarrow> False)
      else False)"

definition utf8_valid :: "string \<Rightarrow> bool" where
  "utf8_valid s = utf8_valid_bytes (map of_char s)"

section \<open>Generic facts on maps and lists\<close>

lemma set_upd_card:
  "finite (dom m) \<Longrightarrow> card (dom (m(k \<mapsto> v))) \<le> Suc (card (dom m))"
  by (simp add: card_insert_if)

lemma sep_append_inject:
  assumes "c \<notin> set a" "c \<notin> set b"
  shows "a @ c # x = b @ c # y \<longleftrightarrow> a = b \<and> x = y"
  using assms
proof (induction a arbitrary: b)
  case Nil
  then show ?case by (cases b) auto
next
  case (Cons d a)
  then show ?case by (cases b) auto
qed

lemma append_sep_inject:
  assumes "c \<notin> set a" "c \<notin> set b"
  shows "x @ c # a = y @ c # b \<longleftrightarrow> x = y \<and> a = b"
proof -
  have "x @ c # a = y @ c # b \<longleftrightarrow> rev (x @ c # a) = rev (y @ c # b)"
    by (simp only: rev_is_rev_conv)
  also have "\<dots> \<longleftrightarrow> rev a @ c # rev x = rev b @ c # rev y" by simp
  also have "\<dots> \<longleftrightarrow> rev a = rev b \<and> rev x = rev y"
    using assms by (intro sep_append_inject) auto
  finally show ?thesis by auto
qed

lemma distinct_set_singleton: "distinct xs \<Longrightarrow> set xs = {k} \<Longrightarrow> xs = [k]"
  by (cases xs; cases "tl xs") auto

lemma append_suffix_inject:
  "length a = length b \<Longrightarrow> x @ a = y @ b \<longleftrightarrow> x = y \<and> a = b"
  by auto

end
