(* ===== verification/StateTypes.thy ===== *)
theory StateTypes
  imports Prelude
begin

text \<open>
  Model of internal/types/types.go: the entries of a group's key-value state, the snapshot
  that holds them, the in-place insertion sort that canonicalises a snapshot, its root hash,
  snapshot equality and the conversions to and from the protobuf form. SHA-256 is the
  parameter \<open>sha\<close> of the definitions that hash.
\<close>

type_synonym hash = bytes
type_synonym public_key = bytes
type_synonym signature = bytes
type_synonym group_id = public_key
type_synonym hashfun = "bytes \<Rightarrow> bytes"

record state_entry =
  se_key :: string
  se_value :: bytes
  se_seq :: u64

record state_snapshot =
  Entries :: "state_entry list"

text \<open>The protobuf messages StateEntry and StateSnapshot (the root is unset by ToProto).\<close>

record pb_state_entry =
  pbe_key :: string
  pbe_value :: bytes
  pbe_seq :: u64

record pb_state_snapshot =
  pbs_root :: "bytes option"
  pbs_entries :: "pb_state_entry list"

section \<open>Operations\<close>

text \<open>\<open>sortEntries\<close>: the inner loop moves the element at j down by swaps while the one
  before it has a greater key; the outer loop runs i from 1 to len-1.\<close>

fun sift :: "state_entry list \<Rightarrow> nat \<Rightarrow> state_entry list" where
  "sift e 0 = e"
| "sift e (Suc j) =
     (if se_key (e ! j) > se_key (e ! Suc j)
      then sift (e[j := e ! Suc j, Suc j := e ! j]) j
      else e)"

definition sortEntries :: "state_entry list \<Rightarrow> state_entry list" where
  "sortEntries e = foldl sift e [1..<length e]"

definition writeLP :: "bytes \<Rightarrow> bytes" where
  "writeLP b = be64 (word_of_nat (length b)) @ b"

definition entry_bytes :: "state_entry \<Rightarrow> bytes" where
  "entry_bytes e = writeLP (bytes_of (se_key e)) @ writeLP (se_value e) @ be64 (se_seq e)"

text \<open>What Root and CanonicalBytes feed to the hash.\<close>

definition root_preimage :: "state_snapshot \<Rightarrow> bytes" where
  "root_preimage s = concat (map entry_bytes (sortEntries (Entries s)))"

definition Root :: "hashfun \<Rightarrow> state_snapshot \<Rightarrow> hash" where
  "Root sha s = copy32 (sha (root_preimage s))"

definition CanonicalBytes :: "hashfun \<Rightarrow> state_snapshot \<Rightarrow> bytes" where
  "CanonicalBytes sha s = sha (root_preimage s)"

definition bytesEq :: "bytes \<Rightarrow> bytes \<Rightarrow> bool" where
  "bytesEq a b =
     (if length a \<noteq> length b then False
      else list_all (\<lambda>i. a ! i = b ! i) [0..<length a])"

definition Equal :: "state_snapshot \<Rightarrow> state_snapshot \<Rightarrow> bool" where
  "Equal s t =
     (let a = sortEntries (Entries s); b = sortEntries (Entries t)
      in if length a \<noteq> length b then False
         else list_all (\<lambda>i. se_key (a ! i) = se_key (b ! i) \<and> se_seq (a ! i) = se_seq (b ! i)
                \<and> bytesEq (se_value (a ! i)) (se_value (b ! i))) [0..<length a])"

definition ToProto :: "state_snapshot \<Rightarrow> pb_state_snapshot" where
  "ToProto s = \<lparr>pbs_root = None,
     pbs_entries = map (\<lambda>e. \<lparr>pbe_key = se_key e, pbe_value = se_value e, pbe_seq = se_seq e\<rparr>)
       (Entries s)\<rparr>"

definition SnapshotFromProto :: "pb_state_snapshot \<Rightarrow> state_snapshot" where
  "SnapshotFromProto p = \<lparr>Entries =
     map (\<lambda>e. \<lparr>se_key = pbe_key e, se_value = pbe_value e, se_seq = pbe_seq e\<rparr>)
       (pbs_entries p)\<rparr>"

section \<open>The insertion sort\<close>

text \<open>Inserting after every element whose key is not greater.\<close>

fun ins_after :: "state_entry \<Rightarrow> state_entry list \<Rightarrow> state_entry list" where
  "ins_after x [] = [x]"
| "ins_after x (y # ys) =
     (if se_key y \<le> se_key x then y # ins_after x ys else x # y # ys)"

lemma ins_after_snoc:
  "se_key x < se_key y \<Longrightarrow> ins_after x (xs @ [y]) = ins_after x xs @ [y]"
  by (induction xs) auto

lemma ins_after_end:
  "\<forall>z\<in>set xs. se_key z \<le> se_key x \<Longrightarrow> ins_after x xs = xs @ [x]"
  by (induction xs) auto

lemma swap_adjacent:
  "length xs = j \<Longrightarrow> (xs @ y # x # zs)[j := x, Suc j := y] = xs @ x # y # zs"
  by (simp add: list_update_append)

lemma sift_spec:
  assumes "sorted (map se_key xs)"
  shows "sift (xs @ x # ys) (length xs) = ins_after x xs @ ys"
  using assms
proof (induction xs arbitrary: ys rule: rev_induct)
  case Nil
  then show ?case by simp
next
  case (snoc y xs)
  have nth: "(xs @ y # x # ys) ! length xs = y" "(xs @ y # x # ys) ! Suc (length xs) = x"
    by (simp_all add: nth_append)
  have sorted: "sorted (map se_key xs)" and below: "\<forall>z\<in>set xs. se_key z \<le> se_key y"
    using snoc.prems by (auto simp: sorted_append)
  show ?case
  proof (cases "se_key x < se_key y")
    case True
    then have "ins_after x (xs @ [y]) = ins_after x xs @ [y]"
      by (rule ins_after_snoc)
    moreover have "sift ((xs @ [y]) @ x # ys) (length (xs @ [y])) =
        sift (xs @ x # (y # ys)) (length xs)"
      using True nth swap_adjacent [of xs "length xs" y x ys] by simp
    ultimately show ?thesis using snoc.IH [OF sorted, of "y # ys"] by simp
  next
    case False
    with below have "\<forall>z\<in>set (xs @ [y]). se_key z \<le> se_key x" by auto
    then have "ins_after x (xs @ [y]) = xs @ [y, x]"
      by (simp add: ins_after_end)
    then show ?thesis using False nth by simp
  qed
qed

lemma mset_ins_after [simp]: "mset (ins_after x xs) = add_mset x (mset xs)"
  by (induction xs) auto

lemma set_ins_after [simp]: "set (ins_after x xs) = insert x (set xs)"
  by (induction xs) auto

lemma length_ins_after [simp]: "length (ins_after x xs) = Suc (length xs)"
  by (induction xs) auto

lemma sorted_ins_after:
  "sorted (map se_key xs) \<Longrightarrow> sorted (map se_key (ins_after x xs))"
  by (induction xs) (auto simp: not_le intro: order.trans less_imp_le)

lemma filter_ins_after:
  assumes "sorted (map se_key xs)"
  shows "filter (\<lambda>z. k = se_key z) (ins_after x xs) =
         filter (\<lambda>z. k = se_key z) xs @ (if k = se_key x then [x] else [])"
  using assms
proof (induction xs)
  case (Cons z zs)
  show ?case
  proof (cases "se_key z \<le> se_key x")
    case True
    with Cons show ?thesis by auto
  next
    case False
    with Cons.prems have "se_key x < se_key y" if "y \<in> set (z # zs)" for y
      using that by (auto intro: less_le_trans simp: not_le)
    then have "k = se_key x \<Longrightarrow> filter (\<lambda>z. k = se_key z) (z # zs) = []"
      by (force simp: filter_empty_conv)
    then show ?thesis using False by (simp del: filter.simps add: filter.simps(2) [of _ x])
  qed
qed simp

lemma foldl_sift:
  assumes "n \<le> length e" "0 < n"
  shows "\<exists>p. foldl sift e [1..<n] = p @ drop n e \<and> length p = n \<and> sorted (map se_key p)
     \<and> mset p = mset (take n e)
     \<and> (\<forall>k. filter (\<lambda>z. k = se_key z) p = filter (\<lambda>z. k = se_key z) (take n e))"
  using assms
proof (induction n)
  case (Suc n)
  show ?case
  proof (cases "n = 0")
    case True
    with Suc.prems obtain a e' where "e = a # e'" by (cases e) auto
    with True show ?thesis by (intro exI [of _ "[a]"]) simp
  next
    case False
    with Suc obtain p where p: "foldl sift e [1..<n] = p @ drop n e" "length p = n"
      "sorted (map se_key p)" "mset p = mset (take n e)"
      "\<forall>k. filter (\<lambda>z. k = se_key z) p = filter (\<lambda>z. k = se_key z) (take n e)"
      by auto
    have split: "drop n e = e ! n # drop (Suc n) e" "take (Suc n) e = take n e @ [e ! n]"
      using Suc.prems by (simp_all add: Cons_nth_drop_Suc take_Suc_conv_app_nth)
    have "foldl sift e [1..<Suc n] = sift (p @ e ! n # drop (Suc n) e) (length p)"
      using False p(1,2) split(1) by simp
    also have "\<dots> = ins_after (e ! n) p @ drop (Suc n) e"
      by (rule sift_spec [OF p(3)])
    finally show ?thesis
      using p sorted_ins_after [OF p(3)] filter_ins_after [OF p(3)] split(2)
      by (intro exI [of _ "ins_after (e ! n) p"]) auto
  qed
qed simp

lemma sortEntries_eq_sort_key: "sortEntries e = sort_key se_key e"
proof (cases "e = []")
  case False
  then obtain p where p: "foldl sift e [1..<length e] = p" "sorted (map se_key p)"
    "mset p = mset e" "\<forall>k. filter (\<lambda>z. k = se_key z) p = filter (\<lambda>z. k = se_key z) e"
    using foldl_sift [of "length e" e] by auto
  have "sort_key se_key e = p"
    by (rule properties_for_sort_key) (use p in auto)
  then show ?thesis using p(1) by (simp add: sortEntries_def)
qed (simp add: sortEntries_def)

lemma mset_sortEntries [simp]: "mset (sortEntries e) = mset e"
  by (simp add: sortEntries_eq_sort_key)

lemma set_sortEntries [simp]: "set (sortEntries e) = set e"
  by (simp add: sortEntries_eq_sort_key)

lemma length_sortEntries [simp]: "length (sortEntries e) = length e"
  by (simp add: sortEntries_eq_sort_key)

lemma sorted_sortEntries: "sorted (map se_key (sortEntries e))"
  by (simp add: sortEntries_eq_sort_key)

section \<open>The canonical bytes of a snapshot\<close>

text \<open>Every Go slice is shorter than 2^64 bytes; the length prefix needs this.\<close>

definition wf_entry :: "state_entry \<Rightarrow> bool" where
  "wf_entry e = (length (se_key e) < 2 ^ 64 \<and> length (se_value e) < 2 ^ 64)"

definition wf_snapshot :: "state_snapshot \<Rightarrow> bool" where
  "wf_snapshot s = list_all wf_entry (Entries s)"

lemma writeLP_prefix_free:
  assumes "length a < 2 ^ 64" "length b < 2 ^ 64" "writeLP a @ x = writeLP b @ y"
  shows "a = b \<and> x = y"
proof -
  from assms(3) have len: "be64 (word_of_nat (length a)) = be64 (word_of_nat (length b))"
    and rest: "a @ x = b @ y"
    by (simp_all add: writeLP_def append_eq_append_conv)
  from len have "(word_of_nat (length a) :: u64) = word_of_nat (length b)" by simp
  then have "unat (word_of_nat (length a) :: u64) = unat (word_of_nat (length b) :: u64)"
    by simp
  then have "length a = length b"
    using assms(1,2) by (simp add: unat_of_nat)
  with rest show ?thesis by simp
qed

lemma entry_bytes_prefix_free:
  assumes "wf_entry a" "wf_entry b" "entry_bytes a @ x = entry_bytes b @ y"
  shows "a = b \<and> x = y"
proof -
  have k: "bytes_of (se_key a) = bytes_of (se_key b) \<and>
      writeLP (se_value a) @ be64 (se_seq a) @ x = writeLP (se_value b) @ be64 (se_seq b) @ y"
    by (rule writeLP_prefix_free) (use assms in \<open>simp_all add: wf_entry_def entry_bytes_def\<close>)
  then have v: "se_value a = se_value b \<and> be64 (se_seq a) @ x = be64 (se_seq b) @ y"
    by (intro writeLP_prefix_free) (use assms in \<open>simp_all add: wf_entry_def\<close>)
  then have "se_seq a = se_seq b \<and> x = y"
    by (simp add: append_eq_append_conv)
  with k v show ?thesis by simp
qed

lemma entry_bytes_nonempty [simp]: "entry_bytes e \<noteq> []"
  by (metis append_is_Nil_conv entry_bytes_def length_0_conv length_be(3) zero_neq_numeral)

lemma concat_entry_bytes_inject:
  assumes "list_all wf_entry xs" "list_all wf_entry ys"
    "concat (map entry_bytes xs) = concat (map entry_bytes ys)"
  shows "xs = ys"
  using assms
proof (induction xs arbitrary: ys)
  case Nil
  then show ?case by (cases ys) auto
next
  case (Cons x xs)
  have "ys \<noteq> []"
  proof
    assume "ys = []"
    then show False using Cons.prems(3) by simp
  qed
  then obtain y ys' where ys: "ys = y # ys'" by (cases ys) simp_all
  have "x = y \<and> concat (map entry_bytes xs) = concat (map entry_bytes ys')"
    by (rule entry_bytes_prefix_free) (use Cons.prems ys in simp_all)
  then show ?case using Cons.IH [of ys'] Cons.prems(1,2) ys by simp
qed

lemma root_preimage_inject:
  assumes "wf_snapshot s" "wf_snapshot t" "root_preimage s = root_preimage t"
  shows "sortEntries (Entries s) = sortEntries (Entries t)"
proof (rule concat_entry_bytes_inject)
  show "concat (map entry_bytes (sortEntries (Entries s))) =
    concat (map entry_bytes (sortEntries (Entries t)))"
    using assms(3) by (simp add: root_preimage_def)
qed (use assms(1,2) in \<open>simp_all add: wf_snapshot_def list_all_iff\<close>)

lemma bytesEq_iff [simp]: "bytesEq a b \<longleftrightarrow> a = b"
  by (auto simp: bytesEq_def list_all_iff nth_equalityI)

lemma Equal_iff: "Equal s t \<longleftrightarrow> sortEntries (Entries s) = sortEntries (Entries t)"
proof
  let ?a = "sortEntries (Entries s)" and ?b = "sortEntries (Entries t)"
  assume "Equal s t"
  then have len: "length ?a = length ?b" and
    el: "\<And>i. i < length ?a \<Longrightarrow> se_key (?a ! i) = se_key (?b ! i) \<and> se_seq (?a ! i) = se_seq (?b ! i)
      \<and> se_value (?a ! i) = se_value (?b ! i)"
    by (auto simp: Equal_def Let_def list_all_iff split: if_splits)
  show "?a = ?b"
    by (rule nth_equalityI) (use len el in \<open>auto intro!: state_entry.equality\<close>)
qed (simp add: Equal_def Let_def list_all_iff)

lemma sortEntries_perm:
  assumes "mset a = mset b" "distinct (map se_key a)"
  shows "sortEntries a = sortEntries b"
proof -
  have "inj_on se_key (set a)" using assms(2) by (simp add: distinct_map)
  then have inj: "inj_on se_key (set_mset (mset a))" by simp
  have "sort_key se_key a = sort_key se_key b"
  proof (rule properties_for_sort_key)
    show "mset (sort_key se_key b) = mset a" using assms(1) by simp
    show "sorted (map se_key (sort_key se_key b))" by simp
    fix k assume "k \<in> set (sort_key se_key b)"
    then have k: "k \<in> set a" using assms(1) by (metis set_mset_mset set_sort)
    have da: "distinct a" using assms(2) by (rule distinct_map [THEN iffD1, THEN conjunct1])
    have ex: "filter (\<lambda>x. se_key k = se_key x) xs = [k]" if "mset xs = mset a" for xs
    proof -
      have d: "distinct xs" using that da by (metis mset_eq_imp_distinct_iff)
      have "set xs = set a" using that by (metis set_mset_mset)
      then have "set (filter (\<lambda>x. se_key k = se_key x) xs) = {k}"
        using inj k by (auto dest: inj_onD)
      with d show ?thesis by (intro distinct_set_singleton) simp_all
    qed
    show "filter (\<lambda>x. se_key k = se_key x) (sort_key se_key b) =
        filter (\<lambda>x. se_key k = se_key x) a"
      using ex [of a] ex [of "sort_key se_key b"] assms(1) by simp
  qed
  then show ?thesis by (simp add: sortEntries_eq_sort_key)
qed

section \<open>Properties\<close>

text \<open>
  sortEntries returns a permutation of its input, ordered by key, and is stable: the
  entries that carry one key keep their relative order.
\<close>

theorem sortEntries_stable_sort:
  "mset (sortEntries e) = mset e \<and> sorted (map se_key (sortEntries e)) \<and>
   filter (\<lambda>z. k = se_key z) (sortEntries e) = filter (\<lambda>z. k = se_key z) e"
proof (cases "e = []")
  case False
  then obtain p where p: "foldl sift e [1..<length e] = p" "sorted (map se_key p)"
    "mset p = mset e" "filter (\<lambda>z. k = se_key z) p = filter (\<lambda>z. k = se_key z) e"
    using foldl_sift [of "length e" e] by auto
  then show ?thesis using p by (simp add: sortEntries_def)
qed (simp add: sortEntries_def)

text \<open>
  the root does not depend on the order in which a state machine stored its entries: two
  snapshots that hold the same entries under distinct keys have the same root, for every hash.
\<close>

theorem Root_order_independent:
  assumes "mset (Entries s) = mset (Entries t)" "distinct (map se_key (Entries s))"
  shows "Root sha s = Root sha t \<and> CanonicalBytes sha s = CanonicalBytes sha t"
  using sortEntries_perm [OF assms] by (simp add: Root_def CanonicalBytes_def root_preimage_def)

definition ex_entry :: "string \<Rightarrow> byte \<Rightarrow> u64 \<Rightarrow> state_entry" where
  "ex_entry k v n = \<lparr>se_key = k, se_value = [v], se_seq = n\<rparr>"

theorem Root_order_independent_witness:
  "Root id \<lparr>Entries = [ex_entry ''b'' 1 1, ex_entry ''a'' 2 1]\<rparr> =
   Root id \<lparr>Entries = [ex_entry ''a'' 2 1, ex_entry ''b'' 1 1]\<rparr>"
  using Root_order_independent [of "\<lparr>Entries = [ex_entry ''b'' 1 1, ex_entry ''a'' 2 1]\<rparr>"
      "\<lparr>Entries = [ex_entry ''a'' 2 1, ex_entry ''b'' 1 1]\<rparr>" id]
  by (simp add: ex_entry_def)

text \<open>
  C28: the root commits to the whole snapshot: when two snapshots have one root, either their
  canonical entry lists are equal, so they agree on every key, value and sequence number, or
  their two encodings are a collision of the hash.
\<close>

theorem Root_commits:
  assumes "wf_snapshot s" "wf_snapshot t" "Root sha s = Root sha t"
  shows "Equal s t \<or>
    (root_preimage s \<noteq> root_preimage t \<and>
     copy32 (sha (root_preimage s)) = copy32 (sha (root_preimage t)))"
proof (cases "root_preimage s = root_preimage t")
  case True
  then show ?thesis using root_preimage_inject [OF assms(1,2)] by (simp add: Equal_iff)
next
  case False
  then show ?thesis using assms(3) by (simp add: Root_def)
qed

theorem Root_commits_witness:
  "Equal \<lparr>Entries = [ex_entry ''b'' 1 1, ex_entry ''a'' 2 1]\<rparr>
         \<lparr>Entries = [ex_entry ''a'' 2 1, ex_entry ''b'' 1 1]\<rparr>"
  using Root_commits [of "\<lparr>Entries = [ex_entry ''b'' 1 1, ex_entry ''a'' 2 1]\<rparr>"
      "\<lparr>Entries = [ex_entry ''a'' 2 1, ex_entry ''b'' 1 1]\<rparr>" id]
  by (simp add: wf_snapshot_def wf_entry_def ex_entry_def Root_def root_preimage_def
      sortEntries_eq_sort_key)

end
