(* ===== verification/KVStore.thy ===== *)
theory KVStore
  imports StateTypes
begin

text \<open>
  Model of appendOrUpdate and appendOrUpdateUnchecked (internal/group/group.go): the write
  primitive of a group's key-value state, with its caps on value size, total bytes and entry
  count. A nil value (\<open>None\<close>) removes the key. The locale \<open>kv_writes\<close> is the contract the
  transition handlers rely on; it is interpreted on the code's function below.
\<close>

section \<open>Operations\<close>

definition MaxKVValueSize :: int where
  "MaxKVValueSize = 1024 * 1024"

definition entry_size :: "state_entry \<Rightarrow> int" where
  "entry_size e = int (length (se_key e)) + int (length (se_value e))"

text \<open>The scan over the entries that computes currentBytes.\<close>

fun current_bytes :: "state_entry list \<Rightarrow> int" where
  "current_bytes [] = 0"
| "current_bytes (e # es) = entry_size e + current_bytes es"

text \<open>The scan that stops at the first entry of the key: (oldBytes, found).\<close>

fun scan_old :: "state_entry list \<Rightarrow> string \<Rightarrow> int \<times> bool" where
  "scan_old [] k = (0, False)"
| "scan_old (e # es) k = (if se_key e = k then (entry_size e, True) else scan_old es k)"

text \<open>The scan that computes maxSeq over the entries of the key.\<close>

fun max_seq :: "state_entry list \<Rightarrow> string \<Rightarrow> u64 \<Rightarrow> u64" where
  "max_seq [] k m = m"
| "max_seq (e # es) k m =
     max_seq es k (if se_key e = k \<and> se_seq e > m then se_seq e else m)"

definition appendOrUpdateUnchecked ::
  "state_entry list \<Rightarrow> string \<Rightarrow> bytes option \<Rightarrow> state_entry list" where
  "appendOrUpdateUnchecked entries key value =
     (let maxSeq = max_seq entries key 0;
          out = filter (\<lambda>e. se_key e \<noteq> key) entries
      in case value of
           None \<Rightarrow> out
         | Some v \<Rightarrow> out @ [\<lparr>se_key = key, se_value = v, se_seq = maxSeq + 1\<rparr>])"

definition appendOrUpdate ::
  "state_entry list \<Rightarrow> string \<Rightarrow> bytes option \<Rightarrow> int \<Rightarrow> int \<Rightarrow> state_entry list \<times> bool" where
  "appendOrUpdate entries key value maxEntries maxBytes =
     (case value of
        None \<Rightarrow> (appendOrUpdateUnchecked entries key None, True)
      | Some v \<Rightarrow>
          if int (length v) > MaxKVValueSize then (entries, False)
          else if maxBytes > 0 \<and>
             (let currentBytes = current_bytes entries;
                  (oldBytes, found) = scan_old entries key;
                  newBytes = int (length key) + int (length v);
                  projected = currentBytes - oldBytes + newBytes
              in \<not> found \<and> projected > maxBytes)
          then (entries, False)
          else if maxEntries > 0 \<and> int (length entries) \<ge> maxEntries \<and> \<not> snd (scan_old entries key)
          then (entries, False)
          else (appendOrUpdateUnchecked entries key (Some v), True))"

section \<open>Lookup, and the facts the handlers use\<close>

definition kv_lookup :: "state_entry list \<Rightarrow> string \<Rightarrow> bytes option" where
  "kv_lookup es k = map_option se_value (find (\<lambda>e. se_key e = k) es)"

definition kv_seq :: "state_entry list \<Rightarrow> string \<Rightarrow> u64" where
  "kv_seq es k = (case find (\<lambda>e. se_key e = k) es of None \<Rightarrow> 0 | Some e \<Rightarrow> se_seq e)"

definition kv_keys :: "state_entry list \<Rightarrow> string list" where
  "kv_keys es = map se_key es"

lemma scan_old_found [simp]: "snd (scan_old es k) \<longleftrightarrow> k \<in> set (kv_keys es)"
  by (induction es) (auto simp: kv_keys_def)

lemma kv_lookup_None [simp]: "kv_lookup es k = None \<longleftrightarrow> k \<notin> set (kv_keys es)"
  by (auto simp: kv_lookup_def kv_keys_def find_None_iff)

lemma find_filter_other:
  "k \<noteq> key \<Longrightarrow> find (\<lambda>e. se_key e = k) (filter (\<lambda>e. se_key e \<noteq> key) es) = find (\<lambda>e. se_key e = k) es"
  by (induction es) auto

lemma find_append:
  "find P (xs @ ys) = (case find P xs of None \<Rightarrow> find P ys | Some x \<Rightarrow> Some x)"
  by (induction xs) auto

lemma find_filter_same: "find (\<lambda>e. se_key e = k) (filter (\<lambda>e. se_key e \<noteq> k) es) = None"
  by (simp add: find_None_iff)

lemma lookup_unchecked:
  "kv_lookup (appendOrUpdateUnchecked es key v) k = (if k = key then v else kv_lookup es k)"
  by (auto simp: appendOrUpdateUnchecked_def Let_def kv_lookup_def find_append find_filter_same
      find_filter_other split: option.splits)

lemma max_seq_absent: "k \<notin> set (kv_keys es) \<Longrightarrow> max_seq es k m = m"
  by (induction es arbitrary: m) (auto simp: kv_keys_def)

lemma max_seq_distinct:
  "distinct (kv_keys es) \<Longrightarrow> max_seq es k 0 = kv_seq es k"
proof (induction es)
  case (Cons e es)
  then show ?case
    using max_seq_absent [of k es]
    by (auto simp: kv_seq_def kv_keys_def word_gt_0)
qed (simp add: kv_seq_def)

lemma seq_unchecked:
  assumes "distinct (kv_keys es)"
  shows "kv_seq (appendOrUpdateUnchecked es key (Some v)) key = kv_seq es key + 1"
  using max_seq_distinct [OF assms, of key]
  by (simp add: appendOrUpdateUnchecked_def Let_def kv_seq_def find_append find_filter_same)

lemma seq_unchecked_other:
  "k \<noteq> key \<Longrightarrow> kv_seq (appendOrUpdateUnchecked es key v) k = kv_seq es k"
  by (auto simp: appendOrUpdateUnchecked_def Let_def kv_seq_def find_append find_filter_other
      split: option.splits)

lemma kv_keys_filter: "kv_keys (filter (\<lambda>e. se_key e \<noteq> k) es) = filter (\<lambda>x. x \<noteq> k) (kv_keys es)"
  by (induction es) (auto simp: kv_keys_def)

lemma kv_keys_unchecked:
  "kv_keys (appendOrUpdateUnchecked es key v) =
   filter (\<lambda>x. x \<noteq> key) (kv_keys es) @ (case v of None \<Rightarrow> [] | Some _ \<Rightarrow> [key])"
proof -
  have app: "kv_keys (xs @ ys) = kv_keys xs @ kv_keys ys" for xs ys by (simp add: kv_keys_def)
  show ?thesis
    by (cases v) (simp_all add: appendOrUpdateUnchecked_def Let_def app kv_keys_filter,
        simp add: kv_keys_def)
qed

lemma distinct_unchecked:
  "distinct (kv_keys es) \<Longrightarrow> distinct (kv_keys (appendOrUpdateUnchecked es key v))"
  by (auto simp: kv_keys_unchecked split: option.splits)

lemma current_bytes_append [simp]: "current_bytes (xs @ ys) = current_bytes xs + current_bytes ys"
  by (induction xs) auto

lemma current_bytes_filter:
  "distinct (kv_keys es) \<Longrightarrow>
   current_bytes (filter (\<lambda>e. se_key e \<noteq> k) es) = current_bytes es - fst (scan_old es k)"
proof (induction es)
  case (Cons e es)
  show ?case
  proof (cases "se_key e = k")
    case True
    with Cons.prems have "\<forall>x\<in>set es. se_key x \<noteq> k"
      by (metis kv_keys_def distinct.simps(2) image_eqI list.set_map list.simps(9))
    then have "filter (\<lambda>x. se_key x \<noteq> k) es = es" by (simp add: filter_id_conv)
    with True show ?thesis by simp
  qed (use Cons in \<open>auto simp: kv_keys_def\<close>)
qed simp

lemma current_bytes_unchecked:
  "distinct (kv_keys es) \<Longrightarrow>
   current_bytes (appendOrUpdateUnchecked es key (Some v)) =
   current_bytes es - fst (scan_old es key) + (int (length key) + int (length v))"
  by (simp add: appendOrUpdateUnchecked_def Let_def current_bytes_filter entry_size_def)

lemma length_unchecked:
  "length (appendOrUpdateUnchecked es key v) \<le> Suc (length es)"
  by (auto simp: appendOrUpdateUnchecked_def Let_def le_SucI split: option.splits)

lemma length_unchecked_found:
  assumes "key \<in> set (kv_keys es)"
  shows "length (appendOrUpdateUnchecked es key v) \<le> length es"
proof -
  obtain e where "e \<in> set es" "se_key e = key" using assms by (auto simp: kv_keys_def)
  then have "length (filter (\<lambda>x. se_key x \<noteq> key) es) < length es"
    by (intro length_filter_less) auto
  then show ?thesis by (auto simp: appendOrUpdateUnchecked_def Let_def split: option.splits)
qed

lemma appendOrUpdate_allowed:
  "snd (appendOrUpdate es key v maxE maxB) \<Longrightarrow>
   fst (appendOrUpdate es key v maxE maxB) = appendOrUpdateUnchecked es key v"
  by (auto simp: appendOrUpdate_def Let_def split: option.splits if_splits)

lemma appendOrUpdate_refused:
  "\<not> snd (appendOrUpdate es key v maxE maxB) \<Longrightarrow> fst (appendOrUpdate es key v maxE maxB) = es"
  by (auto simp: appendOrUpdate_def Let_def split: option.splits if_splits)

section \<open>The contract of a bounded key-value writer\<close>

text \<open>
  What a client of the store relies on: a write that is allowed changes exactly its key, a
  refused write changes nothing, and keys stay distinct.
\<close>

locale kv_writes =
  fixes put :: "'s \<Rightarrow> string \<Rightarrow> bytes option \<Rightarrow> 's \<times> bool"
    and get :: "'s \<Rightarrow> string \<Rightarrow> bytes option"
    and inv :: "'s \<Rightarrow> bool"
  assumes get_put: "put s k v = (s', True) \<Longrightarrow> get s' j = (if j = k then v else get s j)"
    and put_refused: "put s k v = (s', False) \<Longrightarrow> s' = s"
    and inv_put: "inv s \<Longrightarrow> put s k v = (s', b) \<Longrightarrow> inv s'"
begin

text \<open>A batch of writes, abandoned at the first refusal as the handlers do.\<close>

fun put_all :: "'s \<Rightarrow> (string \<times> bytes option) list \<Rightarrow> 's option" where
  "put_all s [] = Some s"
| "put_all s ((k, v) # ws) =
     (case put s k v of (s', b) \<Rightarrow> if b then put_all s' ws else None)"

lemma put_all_inv: "inv s \<Longrightarrow> put_all s ws = Some s' \<Longrightarrow> inv s'"
proof (induction ws arbitrary: s)
  case (Cons w ws)
  then show ?case by (cases w) (auto split: prod.splits if_splits dest: inv_put)
qed simp

lemma put_all_frame:
  "put_all s ws = Some s' \<Longrightarrow> j \<notin> fst ` set ws \<Longrightarrow> get s' j = get s j"
proof (induction ws arbitrary: s)
  case (Cons w ws)
  obtain k v where w: "w = (k, v)" by (cases w)
  with Cons.prems obtain s1 where s1: "put s k v = (s1, True)" "put_all s1 ws = Some s'"
    by (auto split: prod.splits if_splits)
  then have "get s' j = get s1 j" using Cons by auto
  also have "\<dots> = get s j" using get_put [OF s1(1)] w Cons.prems(2) by auto
  finally show ?case .
qed simp

lemma put_all_last:
  "put_all s (ws @ [(k, v)]) = Some s' \<Longrightarrow> get s' k = v"
proof (induction ws arbitrary: s)
  case Nil
  then show ?case by (auto split: prod.splits if_splits dest: get_put)
next
  case (Cons w ws)
  then show ?case by (cases w) (auto split: prod.splits if_splits)
qed

lemma put_all_get:
  "put_all s ws = Some s' \<Longrightarrow> distinct (map fst ws) \<Longrightarrow> (k, v) \<in> set ws \<Longrightarrow> get s' k = v"
proof (induction ws arbitrary: s)
  case (Cons w ws)
  obtain k1 v1 where w: "w = (k1, v1)" by (cases w)
  with Cons.prems obtain s1 where s1: "put s k1 v1 = (s1, True)" "put_all s1 ws = Some s'"
    by (auto split: prod.splits if_splits)
  show ?case
  proof (cases "(k, v) = w")
    case True
    with w have "k \<notin> fst ` set ws" using Cons.prems(2) by auto
    then have "get s' k = get s1 k" by (rule put_all_frame [OF s1(2)])
    also have "\<dots> = v" using get_put [OF s1(1)] True w by auto
    finally show ?thesis .
  next
    case False
    then show ?thesis using Cons.IH [OF s1(2)] Cons.prems w by auto
  qed
qed simp

end

lemma appendOrUpdate_distinct:
  "distinct (kv_keys es) \<Longrightarrow> appendOrUpdate es k v maxE maxB = (es', b) \<Longrightarrow> distinct (kv_keys es')"
  using appendOrUpdate_allowed [of es k v maxE maxB] appendOrUpdate_refused [of es k v maxE maxB]
    distinct_unchecked [of es k v]
  by (cases b) auto

interpretation kvw: kv_writes
  "\<lambda>es k v. appendOrUpdate es k v maxE maxB" kv_lookup "\<lambda>es. distinct (kv_keys es)"
  for maxE maxB
proof unfold_locales
  fix s s' :: "state_entry list" and k j v
  assume "appendOrUpdate s k v maxE maxB = (s', True)"
  then have "s' = appendOrUpdateUnchecked s k v"
    using appendOrUpdate_allowed [of s k v maxE maxB] by simp
  then show "kv_lookup s' j = (if j = k then v else kv_lookup s j)"
    by (simp add: lookup_unchecked)
next
  fix s s' :: "state_entry list" and k v
  assume "appendOrUpdate s k v maxE maxB = (s', False)"
  then show "s' = s" using appendOrUpdate_refused [of s k v maxE maxB] by simp
next
  fix s s' :: "state_entry list" and k v b
  assume "distinct (kv_keys s)" "appendOrUpdate s k v maxE maxB = (s', b)"
  then show "distinct (kv_keys s')" by (rule appendOrUpdate_distinct)
qed

section \<open>The caps\<close>

text \<open>What the caps guarantee of a stored state, for positive caps.\<close>

definition kv_capped :: "int \<Rightarrow> state_entry list \<Rightarrow> bool" where
  "kv_capped maxEntries es =
     (distinct (kv_keys es) \<and> int (length es) \<le> maxEntries \<and>
      list_all (\<lambda>e. int (length (se_value e)) \<le> MaxKVValueSize) es)"

lemma appendOrUpdate_capped:
  assumes "kv_capped maxE es" "0 < maxE"
  shows "kv_capped maxE (fst (appendOrUpdate es k v maxE maxB))"
proof (cases "snd (appendOrUpdate es k v maxE maxB)")
  case False
  then show ?thesis using assms by (simp add: appendOrUpdate_refused)
next
  case True
  note res = appendOrUpdate_allowed [OF True]
  have len: "int (length (appendOrUpdateUnchecked es k v)) \<le> maxE"
  proof (cases "v = None \<or> k \<in> set (kv_keys es)")
    case True
    then have "length (appendOrUpdateUnchecked es k v) \<le> length es"
      by (elim disjE) (simp add: appendOrUpdateUnchecked_def, rule length_unchecked_found)
    then show ?thesis using assms by (simp add: kv_capped_def)
  next
    case False
    with True assms(2) have "int (length es) < maxE"
      by (auto simp: appendOrUpdate_def Let_def split: if_splits prod.splits)
    then show ?thesis using length_unchecked [of es k v] by linarith
  qed
  have "v = Some w \<Longrightarrow> int (length w) \<le> MaxKVValueSize" for w
    using True by (auto simp: appendOrUpdate_def split: if_splits)
  then have "list_all (\<lambda>e. int (length (se_value e)) \<le> MaxKVValueSize) (appendOrUpdateUnchecked es k v)"
    using assms(1)
    by (auto simp: appendOrUpdateUnchecked_def Let_def kv_capped_def list_all_iff split: option.splits)
  then show ?thesis
    using len distinct_unchecked assms(1) by (simp add: res kv_capped_def)
qed

section \<open>Properties\<close>

text \<open>
  an allowed write changes exactly its key: the key reads back the written value (nothing
  after a nil value) with its sequence number one above the previous one, every other key keeps
  value and sequence number, and keys stay distinct. A refused write returns the entries as
  they were.
\<close>

theorem appendOrUpdate_functional:
  assumes "distinct (kv_keys es)"
  shows "case appendOrUpdate es key v maxE maxB of
      (es', allowed) \<Rightarrow>
        (if allowed
         then kv_lookup es' key = v \<and> distinct (kv_keys es') \<and>
              kv_seq es' key = (if v = None then 0 else kv_seq es key + 1) \<and>
              (\<forall>k. k = key \<or> (kv_lookup es' k = kv_lookup es k \<and> kv_seq es' k = kv_seq es k))
         else es' = es)"
proof (cases "snd (appendOrUpdate es key v maxE maxB)")
  case True
  note res = appendOrUpdate_allowed [OF True]
  have "kv_seq (appendOrUpdateUnchecked es key v) key = (if v = None then 0 else kv_seq es key + 1)"
  proof (cases v)
    case None
    then show ?thesis
      by (simp add: appendOrUpdateUnchecked_def Let_def kv_seq_def find_filter_same)
  qed (simp add: seq_unchecked assms)
  then show ?thesis
    using True res distinct_unchecked [OF assms]
    by (auto simp: case_prod_unfold lookup_unchecked seq_unchecked_other)
next
  case False
  then show ?thesis by (simp add: case_prod_unfold appendOrUpdate_refused)
qed

theorem appendOrUpdate_functional_witness:
  "kv_lookup (fst (appendOrUpdate [ex_entry ''a'' 1 7] ''a'' (Some [2]) 10 100)) ''a'' = Some [2] \<and>
   kv_seq (fst (appendOrUpdate [ex_entry ''a'' 1 7] ''a'' (Some [2]) 10 100)) ''a'' = 8"
  using appendOrUpdate_functional [of "[ex_entry ''a'' 1 7]" "''a''" "Some [2]" 10 100]
  by (simp add: kv_keys_def ex_entry_def appendOrUpdate_def MaxKVValueSize_def Let_def
      kv_lookup_def kv_seq_def entry_size_def)

text \<open>
  exactly when a write is refused: the value is over 1 MiB, or the key is new and the
  total bytes would pass a positive byte cap, or the key is new and a positive entry cap is
  reached. Removing a key and overwriting one are never refused on the caps.
\<close>

theorem appendOrUpdate_refused_iff:
  "snd (appendOrUpdate es key v maxE maxB) \<longleftrightarrow>
   (case v of None \<Rightarrow> True
    | Some w \<Rightarrow> int (length w) \<le> MaxKVValueSize \<and>
        (key \<in> set (kv_keys es) \<or>
         ((maxB \<le> 0 \<or> current_bytes es + int (length key) + int (length w) \<le> maxB) \<and>
          (maxE \<le> 0 \<or> int (length es) < maxE))))"
proof (cases "key \<in> set (kv_keys es)")
  case True
  then obtain n where "scan_old es key = (n, True)"
    by (metis scan_old_found prod.exhaust_sel)
  with True show ?thesis by (auto simp: appendOrUpdate_def Let_def split: option.splits)
next
  case False
  then have "scan_old es key = (0, False)"
    by (induction es) (auto simp: kv_keys_def)
  with False show ?thesis
    by (auto simp: appendOrUpdate_def Let_def algebra_simps split: option.splits)
qed

text \<open>
  the entry cap and the value cap are invariants of every write, allowed or refused.
\<close>

theorem kv_caps_invariant:
  assumes "kv_capped maxE es" "0 < maxE"
  shows "kv_capped maxE (fst (appendOrUpdate es k v maxE maxB))"
  by (rule appendOrUpdate_capped [OF assms])

theorem kv_caps_invariant_witness:
  "kv_capped 1 (fst (appendOrUpdate [ex_entry ''a'' 1 1] ''b'' (Some [1]) 1 100))"
  by (rule kv_caps_invariant)
    (simp_all add: kv_capped_def kv_keys_def ex_entry_def MaxKVValueSize_def)

text \<open>
  the byte cap is not an invariant: overwriting a key is allowed even when it takes the
  state past MaxKVBytes, from within the cap to beyond it.
\<close>

theorem kv_bytes_cap_overrun:
  "\<exists>es v. current_bytes es \<le> 100 \<and> snd (appendOrUpdate es ''k'' (Some v) 10 100) \<and>
     current_bytes (fst (appendOrUpdate es ''k'' (Some v) 10 100)) > 100"
proof -
  let ?es = "[ex_entry ''k'' 1 1]" and ?v = "replicate 1000 (0::byte)"
  have allowed: "snd (appendOrUpdate ?es ''k'' (Some ?v) 10 100)"
    by (simp add: appendOrUpdate_refused_iff ex_entry_def MaxKVValueSize_def kv_keys_def)
  have "current_bytes (appendOrUpdateUnchecked ?es ''k'' (Some ?v)) > 100"
    by (subst current_bytes_unchecked) (simp_all add: ex_entry_def kv_keys_def entry_size_def)
  moreover have "current_bytes ?es \<le> 100" by (simp add: ex_entry_def entry_size_def)
  ultimately show ?thesis using allowed appendOrUpdate_allowed [OF allowed]
    by (intro exI [of _ ?es] exI [of _ ?v]) simp
qed

end
