(* ===== verification/HLC.thy ===== *)
theory HLC
  imports Prelude
begin

text \<open>
  Model of internal/hlc/hlc.go: hybrid logical clock values as 18-byte strings (8 bytes of
  wall nanoseconds, 8 bytes that the code leaves zero, 2 bytes of counter, all big-endian),
  with Tick for local events and Observe for received ones. A nil HLC is \<open>None\<close>. The wall
  clock argument is \<open>uint64(now.UnixNano())\<close>. The locale \<open>causal_clock\<close> states what a host
  needs of its clock; the HLC operations are its interpretation.
\<close>

section \<open>Values\<close>

type_synonym hlc = bytes

datatype hlc_error = BadSize nat | BadPriorSize nat | BadHLCSize nat

definition Size :: nat where
  "Size = 18"

definition Zero :: hlc where
  "Zero = replicate Size 0"

text \<open>A fresh 18-byte slice with the wall and counter fields written.\<close>

definition mkHLC :: "u64 \<Rightarrow> u16 \<Rightarrow> hlc" where
  "mkHLC ns c = be64 ns @ replicate 8 0 @ be16 c"

definition wallNanos :: "hlc \<Rightarrow> u64" where
  "wallNanos h = of_be64 (take 8 h)"

definition counterOf :: "hlc \<Rightarrow> u16" where
  "counterOf h = of_be16 (take 2 (drop 16 h))"

definition New :: "u64 \<Rightarrow> hlc" where
  "New now = mkHLC now 0"

definition FromProto :: "bytes \<Rightarrow> hlc_error + hlc" where
  "FromProto b =
     (if length b = 0 then Inr Zero
      else if length b \<noteq> Size then Inl (BadSize (length b))
      else Inr b)"

definition Clone :: "hlc \<Rightarrow> hlc" where
  "Clone h = (if length h = 0 then Zero else h)"

text \<open>\<open>Time\<close>: \<open>None\<close> is the zero time.Time, otherwise the Unix nanoseconds as int64.\<close>

definition Time :: "hlc \<Rightarrow> int option" where
  "Time h = (if length h \<noteq> Size then None else Some (sint (wallNanos h)))"

definition Counter :: "hlc \<Rightarrow> u16" where
  "Counter h = (if length h \<noteq> Size then 0 else counterOf h)"

definition Compare :: "hlc \<Rightarrow> hlc \<Rightarrow> int" where
  "Compare h g = (if h < g then - 1 else if h = g then 0 else 1)"

definition After :: "hlc \<Rightarrow> hlc \<Rightarrow> bool" where "After h g = (Compare h g > 0)"
definition Before :: "hlc \<Rightarrow> hlc \<Rightarrow> bool" where "Before h g = (Compare h g < 0)"
definition EqualHLC :: "hlc \<Rightarrow> hlc \<Rightarrow> bool" where "EqualHLC h g = (Compare h g = 0)"

section \<open>Tick and Observe\<close>

definition PartitionWindowNanos :: u64 where
  "PartitionWindowNanos = 60 * 1000000000"

text \<open>The counter bump, with the carry into the wall component at 0xFFFF.\<close>

definition bump :: "u64 \<Rightarrow> u16 \<Rightarrow> hlc" where
  "bump ns c = (if c = 0xFFFF then mkHLC (ns + 1) 0 else mkHLC ns (c + 1))"

definition Tick :: "hlc option \<Rightarrow> u64 \<Rightarrow> hlc_error + hlc" where
  "Tick lasth nowNanos =
     (let lasth = (case lasth of None \<Rightarrow> Zero | Some l \<Rightarrow> l)
      in if length lasth \<noteq> 0 \<and> length lasth \<noteq> Size then Inl (BadPriorSize (length lasth))
      else
        let lastNanos = (if length lasth = Size then wallNanos lasth else 0)
        in if length lasth \<noteq> Size then Inr (mkHLC nowNanos 0)
           else if lastNanos \<ge> nowNanos then Inr (bump lastNanos (counterOf lasth))
           else
             let counter = counterOf lasth; jump = nowNanos - lastNanos
             in if counter > 0 \<and> jump \<le> PartitionWindowNanos
                then Inr (bump nowNanos counter)
                else Inr (mkHLC nowNanos 0))"

definition Observe :: "hlc option \<Rightarrow> hlc option \<Rightarrow> u64 \<Rightarrow> hlc_error + hlc" where
  "Observe lasth remote nowNanos =
     (let lasth = (case lasth of None \<Rightarrow> Zero | Some l \<Rightarrow> l);
          remote = (case remote of None \<Rightarrow> Zero | Some r \<Rightarrow> r)
      in if length lasth \<noteq> 0 \<and> length lasth \<noteq> Size then Inl (BadHLCSize (length lasth))
      else if length remote \<noteq> 0 \<and> length remote \<noteq> Size then Inl (BadHLCSize (length remote))
      else
        let lastNanos = (if length lasth = Size then wallNanos lasth else 0);
            remoteNanos = (if length remote = Size then wallNanos remote else 0);
            maxNanos = (if lastNanos > nowNanos then lastNanos else nowNanos);
            maxNanos = (if remoteNanos > maxNanos then remoteNanos else maxNanos);
            lc = (if length lasth = Size then counterOf lasth else 0);
            rc = (if length remote = Size then counterOf remote else 0)
        in if maxNanos = remoteNanos \<and> remoteNanos = lastNanos then
             Inr (bump maxNanos (if rc > lc then rc else lc))
           else if maxNanos = remoteNanos then Inr (bump maxNanos rc)
           else if maxNanos = lastNanos then Inr (bump maxNanos lc)
           else Inr (mkHLC maxNanos 0))"

section \<open>Field access and order\<close>

lemma length_mkHLC [simp]: "length (mkHLC ns c) = Size"
  by (simp add: mkHLC_def Size_def)

lemma wallNanos_mkHLC [simp]: "wallNanos (mkHLC ns c) = ns"
  by (simp add: wallNanos_def mkHLC_def)

lemma counterOf_mkHLC [simp]: "counterOf (mkHLC ns c) = c"
  by (simp add: counterOf_def mkHLC_def)

lemma mkHLC_inject [simp]: "mkHLC a c = mkHLC b d \<longleftrightarrow> a = b \<and> c = d"
  by (auto simp: mkHLC_def append_eq_append_conv)

lemma mkHLC_less_iff: "mkHLC a c < mkHLC b d \<longleftrightarrow> a < b \<or> (a = b \<and> c < d)"
  by (simp add: mkHLC_def append_less_iff be64_less_iff be16_less_iff)

lemma Zero_eq: "Zero = mkHLC 0 0"
proof -
  have "be64 0 = replicate 8 0" "be16 0 = replicate 2 0"
    by (simp_all add: be64_def be16_def)
  then have "mkHLC 0 0 = replicate (8 + (8 + 2)) 0"
    by (simp only: mkHLC_def replicate_add)
  then show ?thesis by (simp add: Zero_def Size_def)
qed

text \<open>A value the clock itself produces: the eight middle bytes are zero.\<close>

definition wf_hlc :: "hlc \<Rightarrow> bool" where
  "wf_hlc h = (h = mkHLC (wallNanos h) (counterOf h))"

lemma wf_mkHLC [simp]: "wf_hlc (mkHLC a c)"
  by (simp add: wf_hlc_def)

lemma wf_hlc_cases: "wf_hlc h \<Longrightarrow> (\<And>ns c. h = mkHLC ns c \<Longrightarrow> P) \<Longrightarrow> P"
  unfolding wf_hlc_def by metis

lemma length_wf [simp]: "wf_hlc h \<Longrightarrow> length h = Size"
  by (metis length_mkHLC wf_hlc_def)

lemma Size_pos [simp]: "Size \<noteq> 0" "0 < Size" by (simp_all add: Size_def)

lemma bump_spec:
  assumes "ns \<noteq> - 1"
  shows "wf_hlc (bump ns c)" "mkHLC ns c < bump ns c" "ns \<le> wallNanos (bump ns c)"
    "unat (wallNanos (bump ns c)) \<le> Suc (unat ns)"
proof -
  have "(0xFFFF :: u16) = - 1" by simp
  then have c: "c \<noteq> 0xFFFF \<Longrightarrow> c < c + 1" using word_succ(2) [of c] by metis
  show "wf_hlc (bump ns c)" by (simp add: bump_def)
  show "mkHLC ns c < bump ns c"
    using c word_succ(2) [OF assms] by (auto simp: bump_def mkHLC_less_iff)
  show "ns \<le> wallNanos (bump ns c)" "unat (wallNanos (bump ns c)) \<le> Suc (unat ns)"
    using word_succ [OF assms] by (auto simp: bump_def)
qed

lemma less_bump:
  assumes "ns \<noteq> - 1" "a < ns \<or> (a = ns \<and> d \<le> c)"
  shows "mkHLC a d < bump ns c"
proof -
  have "mkHLC a d \<le> mkHLC ns c"
    unfolding not_less [symmetric] mkHLC_less_iff using assms(2) by auto
  then show ?thesis using bump_spec(2) [OF assms(1)] by (rule le_less_trans)
qed

section \<open>Tick and Observe on well-formed clocks\<close>

lemma Tick_spec:
  assumes "wf_hlc lasth" "wallNanos lasth \<noteq> - 1" "now \<noteq> - 1"
  shows "\<exists>h. Tick (Some lasth) now = Inr h \<and> wf_hlc h \<and> lasth < h \<and> now \<le> wallNanos h
    \<and> wallNanos lasth \<le> wallNanos h
    \<and> unat (wallNanos h) \<le> Suc (max (unat (wallNanos lasth)) (unat now))"
proof -
  obtain ns c where lasth: "lasth = mkHLC ns c" using assms(1) by (rule wf_hlc_cases)
  then have ns: "ns \<noteq> - 1" using assms(2) by simp
  have T: "Tick (Some lasth) now =
    (if now \<le> ns then Inr (bump ns c)
     else if 0 < c \<and> now - ns \<le> PartitionWindowNanos then Inr (bump now c)
     else Inr (mkHLC now 0))"
    by (simp add: Tick_def lasth Let_def)
  show ?thesis
  proof (cases "now \<le> ns")
    case True
    then have "Tick (Some lasth) now = Inr (bump ns c)" by (simp add: T)
    then show ?thesis
      using True bump_spec [OF ns, of c] unfolding lasth
      by (intro exI [of _ "bump ns c"]) (auto simp: word_le_nat_alt)
  next
    case False
    then have lt: "ns < now" by simp
    then have b: "lasth < mkHLC now 0" "lasth < bump now c"
      using less_bump [OF assms(3), of ns c c] by (simp_all add: lasth mkHLC_less_iff)
    show ?thesis
    proof (cases "0 < c \<and> now - ns \<le> PartitionWindowNanos")
      case True
      then have "Tick (Some lasth) now = Inr (bump now c)" using False by (simp add: T)
      then show ?thesis
        using lt b bump_spec [OF assms(3), of c] unfolding lasth
        by (intro exI [of _ "bump now c"]) (auto simp: word_le_nat_alt word_less_nat_alt)
    next
      case nf: False
      then have "Tick (Some lasth) now = Inr (mkHLC now 0)" using False by (auto simp: T)
      then show ?thesis
        using lt b unfolding lasth
        by (intro exI [of _ "mkHLC now 0"]) (auto simp: word_le_nat_alt word_less_nat_alt)
    qed
  qed
qed

lemma Observe_spec:
  assumes "wf_hlc lasth" "wf_hlc remote" "wallNanos lasth \<noteq> - 1" "wallNanos remote \<noteq> - 1"
    "now \<noteq> - 1"
  shows "\<exists>h. Observe (Some lasth) (Some remote) now = Inr h \<and> wf_hlc h \<and> lasth < h \<and> remote < h
    \<and> now \<le> wallNanos h \<and> wallNanos lasth \<le> wallNanos h \<and> wallNanos remote \<le> wallNanos h
    \<and> unat (wallNanos h) \<le> Suc (max (max (unat (wallNanos lasth)) (unat (wallNanos remote))) (unat now))"
proof -
  obtain ns c where lasth: "lasth = mkHLC ns c" using assms(1) by (rule wf_hlc_cases)
  obtain rs d where remote: "remote = mkHLC rs d" using assms(2) by (rule wf_hlc_cases)
  let ?m = "max rs (max ns now)"
  have m: "(if rs > (if ns > now then ns else now) then rs else (if ns > now then ns else now)) = ?m"
    by (auto simp: max_def)
  have m1: "?m \<noteq> - 1" using assms(3-5) by (auto simp: lasth remote max_def)
  have O: "Observe (Some lasth) (Some remote) now =
    (if ?m = rs \<and> rs = ns then Inr (bump ?m (if d > c then d else c))
     else if ?m = rs then Inr (bump ?m d)
     else if ?m = ns then Inr (bump ?m c)
     else Inr (mkHLC ?m 0))"
    unfolding Observe_def lasth remote option.case Let_def
    by (simp only: m length_mkHLC wallNanos_mkHLC counterOf_mkHLC simp_thms if_True if_False Size_pos)
  have le: "ns \<le> ?m" "rs \<le> ?m" "now \<le> ?m" by (auto simp: max_def)
  have un: "unat ?m \<le> Suc (max (max (unat ns) (unat rs)) (unat now))"
    by (auto simp: max_def word_le_nat_alt)
  consider (both) "?m = rs" "rs = ns" | (rem) "?m = rs" "rs \<noteq> ns"
    | (loc) "?m \<noteq> rs" "?m = ns" | (nw) "?m \<noteq> rs" "?m \<noteq> ns" by blast
  then show ?thesis
  proof cases
    case both
    let ?c = "if d > c then d else c"
    have "lasth < bump ?m ?c"
      unfolding lasth by (rule less_bump [OF m1]) (use both in auto)
    moreover have "remote < bump ?m ?c"
      unfolding remote by (rule less_bump [OF m1]) (use both in auto)
    ultimately show ?thesis
      using O both le un bump_spec [OF m1, of ?c] m1
      by (intro exI [of _ "bump ?m ?c"]) (auto simp: lasth remote word_le_nat_alt)
  next
    case rem
    have "lasth < bump ?m d"
      unfolding lasth by (rule less_bump [OF m1]) (use rem le in auto)
    moreover have "remote < bump ?m d"
      unfolding remote by (rule less_bump [OF m1]) (use rem le in auto)
    ultimately show ?thesis
      using O rem le bump_spec [OF m1, of d]
      by (intro exI [of _ "bump ?m d"]) (auto simp: lasth remote word_le_nat_alt)
  next
    case loc
    have rs: "rs < ns" using loc le(2) by (metis order.not_eq_order_implies_strict)
    have "lasth < bump ?m c"
      unfolding lasth by (rule less_bump [OF m1]) (use loc le rs in auto)
    moreover have "remote < bump ?m c"
      unfolding remote by (rule less_bump [OF m1]) (use loc le rs in auto)
    ultimately show ?thesis
      using O loc le bump_spec [OF m1, of c]
      by (intro exI [of _ "bump ?m c"]) (auto simp: lasth remote word_le_nat_alt)
  next
    case nw
    then have "ns < ?m" "rs < ?m" using le by (metis order.not_eq_order_implies_strict)+
    then have "lasth < mkHLC ?m 0" "remote < mkHLC ?m 0"
      by (simp_all add: lasth remote mkHLC_less_iff)
    then show ?thesis
      using O nw le un by (intro exI [of _ "mkHLC ?m 0"]) (auto simp: lasth remote)
  qed
qed

section \<open>The contract of a causal clock\<close>

text \<open>
  What a host that stamps its events relies on: while the clock has room below its limit, a
  local event gets a later stamp than everything before it, and a received stamp is overtaken.
  \<open>within B c\<close> bounds a stamp, \<open>before B t\<close> a wall reading. The client's lemma is about a whole
  history of local and received events.
\<close>

datatype ('c, 't) clock_event = Local 't | Receive 'c 't

locale causal_clock =
  fixes lt :: "'c \<Rightarrow> 'c \<Rightarrow> bool"
    and tick :: "'c \<Rightarrow> 't \<Rightarrow> 'c option"
    and observe :: "'c \<Rightarrow> 'c \<Rightarrow> 't \<Rightarrow> 'c option"
    and within :: "nat \<Rightarrow> 'c \<Rightarrow> bool"
    and before :: "nat \<Rightarrow> 't \<Rightarrow> bool"
    and limit :: nat
  assumes lt_trans: "lt a b \<Longrightarrow> lt b c \<Longrightarrow> lt a c"
    and within_Suc: "within B c \<Longrightarrow> within (Suc B) c"
    and before_Suc: "before B t \<Longrightarrow> before (Suc B) t"
    and tick_later: "within B c \<Longrightarrow> before B t \<Longrightarrow> B < limit \<Longrightarrow>
      \<exists>c'. tick c t = Some c' \<and> lt c c' \<and> within (Suc B) c'"
    and observe_later: "within B c \<Longrightarrow> within B r \<Longrightarrow> before B t \<Longrightarrow> B < limit \<Longrightarrow>
      \<exists>c'. observe c r t = Some c' \<and> lt c c' \<and> lt r c' \<and> within (Suc B) c'"
begin

definition step :: "'c \<Rightarrow> ('c, 't) clock_event \<Rightarrow> 'c option" where
  "step c e = (case e of Local t \<Rightarrow> tick c t | Receive r t \<Rightarrow> observe c r t)"

fun run :: "'c \<Rightarrow> ('c, 't) clock_event list \<Rightarrow> 'c list option" where
  "run c [] = Some []"
| "run c (e # es) =
     (case step c e of None \<Rightarrow> None
      | Some c' \<Rightarrow> map_option (Cons c') (run c' es))"

definition event_ok :: "nat \<Rightarrow> ('c, 't) clock_event \<Rightarrow> bool" where
  "event_ok B e = (case e of Local t \<Rightarrow> before B t | Receive r t \<Rightarrow> within B r \<and> before B t)"

lemma event_ok_Suc: "event_ok B e \<Longrightarrow> event_ok (Suc B) e"
  by (auto simp: event_ok_def intro: within_Suc before_Suc split: clock_event.splits)

lemma step_later:
  "within B c \<Longrightarrow> event_ok B e \<Longrightarrow> B < limit \<Longrightarrow>
   \<exists>c'. step c e = Some c' \<and> lt c c' \<and> within (Suc B) c' \<and> (\<forall>r t. e = Receive r t \<longrightarrow> lt r c')"
  by (cases e) (auto simp: step_def event_ok_def dest: tick_later observe_later)

lemma run_increasing:
  assumes "within B c" "\<forall>e\<in>set es. event_ok B e" "B + length es \<le> limit"
  shows "\<exists>cs. run c es = Some cs \<and> length cs = length es \<and> sorted_wrt lt (c # cs) \<and>
    (\<forall>i r t. i < length es \<longrightarrow> es ! i = Receive r t \<longrightarrow> lt r (cs ! i))"
  using assms
proof (induction es arbitrary: c B)
  case Nil
  then show ?case by simp
next
  case (Cons e es)
  then obtain c' where c': "step c e = Some c'" "lt c c'" "within (Suc B) c'"
    "\<forall>r t. e = Receive r t \<longrightarrow> lt r c'"
    using step_later [of B c e] by auto
  have "\<forall>e\<in>set es. event_ok (Suc B) e" using Cons.prems(2) by (auto intro: event_ok_Suc)
  then obtain cs where cs: "run c' es = Some cs" "length cs = length es" "sorted_wrt lt (c' # cs)"
    "\<forall>i r t. i < length es \<longrightarrow> es ! i = Receive r t \<longrightarrow> lt r (cs ! i)"
    using Cons.IH [OF c'(3)] Cons.prems(3) by auto
  have "sorted_wrt lt (c # c' # cs)"
    using cs(3) c'(2) by (auto intro: lt_trans)
  moreover have "\<forall>i r t. i < length (e # es) \<longrightarrow> (e # es) ! i = Receive r t \<longrightarrow> lt r ((c' # cs) ! i)"
    using cs(4) c'(4) by (auto simp: nth_Cons split: nat.splits)
  ultimately show ?case using c'(1) cs(1,2) by (intro exI [of _ "c' # cs"]) simp
qed

end

text \<open>The host's use of the package: stamp a history, starting from its clock.\<close>

definition tickO :: "hlc \<Rightarrow> u64 \<Rightarrow> hlc option" where
  "tickO c now = (case Tick (Some c) now of Inl _ \<Rightarrow> None | Inr h \<Rightarrow> Some h)"

definition observeO :: "hlc \<Rightarrow> hlc \<Rightarrow> u64 \<Rightarrow> hlc option" where
  "observeO c r now = (case Observe (Some c) (Some r) now of Inl _ \<Rightarrow> None | Inr h \<Rightarrow> Some h)"

fun hlc_history :: "hlc \<Rightarrow> (hlc, u64) clock_event list \<Rightarrow> hlc list option" where
  "hlc_history c [] = Some []"
| "hlc_history c (e # es) =
     (case (case e of Local t \<Rightarrow> tickO c t | Receive r t \<Rightarrow> observeO c r t) of
        None \<Rightarrow> None
      | Some c' \<Rightarrow> map_option (Cons c') (hlc_history c' es))"

definition hlc_within :: "nat \<Rightarrow> hlc \<Rightarrow> bool" where
  "hlc_within B h = (wf_hlc h \<and> unat (wallNanos h) \<le> B)"

definition wall_before :: "nat \<Rightarrow> u64 \<Rightarrow> bool" where
  "wall_before B t = (unat t \<le> B)"

lemma not_max: "unat (w :: u64) \<le> B \<Longrightarrow> B < 2 ^ 64 - 1 \<Longrightarrow> w \<noteq> - 1"
  by (auto simp: unsigned_minus_1_eq_mask mask_eq_exp_minus_1)

interpretation clk: causal_clock "(<)" tickO observeO hlc_within wall_before "2 ^ 64 - 1"
proof (unfold_locales, goal_cases)
  case (4 B c t)
  then show ?case
    using Tick_spec [of c t] not_max [of _ B]
    by (fastforce simp: hlc_within_def wall_before_def tickO_def)
next
  case (5 B c r t)
  then show ?case
    using Observe_spec [of c r t] not_max [of _ B]
    by (fastforce simp: hlc_within_def wall_before_def observeO_def)
qed (auto simp: hlc_within_def wall_before_def)

lemma hlc_history_run: "hlc_history c es = clk.run c es"
  by (induction es arbitrary: c) (auto simp: clk.step_def split: clock_event.splits option.splits)

section \<open>Properties\<close>

text \<open>
  Tick is strictly monotone on clocks the package produces: short of the last nanosecond
  of the 64-bit range it returns a well-formed HLC above the previous one, whose wall component
  is neither before the wall clock nor before the previous stamp.
\<close>

theorem Tick_monotone:
  assumes "wf_hlc prior" "wallNanos prior \<noteq> - 1" "now \<noteq> - 1"
  shows "\<exists>h. Tick (Some prior) now = Inr h \<and> wf_hlc h \<and> After h prior \<and>
     now \<le> wallNanos h \<and> wallNanos prior \<le> wallNanos h"
proof -
  obtain h where "Tick (Some prior) now = Inr h" "wf_hlc h" "prior < h" "now \<le> wallNanos h"
    "wallNanos prior \<le> wallNanos h"
    using Tick_spec [OF assms] by blast
  then show ?thesis by (intro exI [of _ h]) (auto simp: After_def Compare_def)
qed

theorem Tick_monotone_witness:
  "\<exists>h. Tick (Some (mkHLC 5 0xFFFF)) 3 = Inr h \<and> After h (mkHLC 5 0xFFFF)"
  using Tick_monotone [of "mkHLC 5 0xFFFF" 3] by auto

text \<open>
  Observe overtakes both clocks: the result is above the local and the remote HLC, and its
  wall component is not before any of the three inputs.
\<close>

theorem Observe_overtakes:
  assumes "wf_hlc local" "wf_hlc remote" "wallNanos local \<noteq> - 1" "wallNanos remote \<noteq> - 1"
    "now \<noteq> - 1"
  shows "\<exists>h. Observe (Some local) (Some remote) now = Inr h \<and> wf_hlc h \<and>
     After h local \<and> After h remote \<and>
     max now (max (wallNanos local) (wallNanos remote)) \<le> wallNanos h"
proof -
  obtain h where "Observe (Some local) (Some remote) now = Inr h" "wf_hlc h" "local < h"
    "remote < h" "now \<le> wallNanos h" "wallNanos local \<le> wallNanos h"
    "wallNanos remote \<le> wallNanos h"
    using Observe_spec [OF assms] by blast
  then show ?thesis by (intro exI [of _ h]) (auto simp: After_def Compare_def)
qed

theorem Observe_overtakes_witness:
  "\<exists>h. Observe (Some (mkHLC 5 1)) (Some (mkHLC 9 0xFFFF)) 7 = Inr h \<and> After h (mkHLC 9 0xFFFF)"
  using Observe_overtakes [of "mkHLC 5 1" "mkHLC 9 0xFFFF" 7] by auto

text \<open>
  C36: causality over a history: a host that stamps local events with Tick and merges received
  stamps with Observe never fails, issues strictly increasing stamps, and every stamp it issues
  for a received message is above the received one, as long as the wall readings, the first clock and the received
  stamps, plus one nanosecond per event, stay below the 64-bit limit, and the eight padding bytes of the first
  clock and of every received stamp are zero, as they are in every stamp that New, Tick and Observe make. (FromProto lets any
  18 bytes in; \<open>Tick_padding_regression\<close> shows a stamp with other padding above its successor.)
\<close>

theorem hlc_history_causal:
  assumes "hlc_within B c" "B + length es \<le> 2 ^ 64 - 1"
    "\<forall>e\<in>set es. case e of Local t \<Rightarrow> wall_before B t
       | Receive r t \<Rightarrow> hlc_within B r \<and> wall_before B t"
  shows "\<exists>cs. hlc_history c es = Some cs \<and> length cs = length es \<and>
     sorted_wrt (\<lambda>g h. After h g) (c # cs) \<and>
     (\<forall>i r t. i < length es \<longrightarrow> es ! i = Receive r t \<longrightarrow> After (cs ! i) r)"
proof -
  have after: "After h g \<longleftrightarrow> g < h" for g h by (auto simp: After_def Compare_def)
  show ?thesis
    using clk.run_increasing [of B c es] assms
    unfolding after hlc_history_run clk.event_ok_def by blast
qed

theorem hlc_history_causal_witness:
  "\<exists>cs. hlc_history (mkHLC 3 0) [Local 5, Receive (mkHLC 9 2) 6, Local 7] = Some cs \<and>
     sorted_wrt (\<lambda>g h. After h g) (mkHLC 3 0 # cs)"
  using hlc_history_causal [of 9 "mkHLC 3 0" "[Local 5, Receive (mkHLC 9 2) 6, Local 7]"]
  by (auto simp: hlc_within_def wall_before_def)

text \<open>
  New, Time, Counter and FromProto agree on the layout: an HLC built from a wall reading
  reads back that reading as signed nanoseconds with counter 0, and its 18 bytes decode to
  itself.
\<close>

theorem New_roundtrip:
  "Time (New now) = Some (sint now) \<and> Counter (New now) = 0 \<and> FromProto (New now) = Inr (New now)
   \<and> Clone (New now) = New now"
  using Size_pos(1) by (simp add: New_def Time_def Counter_def FromProto_def Clone_def)

text \<open>
  the comparison of two produced HLCs is decided by the wall component first and by the
  counter within one nanosecond.
\<close>

theorem Compare_lexicographic:
  "Compare (mkHLC a c) (mkHLC b d) =
     (if a < b \<or> (a = b \<and> c < d) then - 1 else if a = b \<and> c = d then 0 else 1)"
  by (simp add: Compare_def mkHLC_less_iff)

text \<open>
  Tick is not monotone on every value FromProto accepts: with a non-zero byte in the eight
  middle bytes the next stamp can compare below the one it was computed from, since Tick writes
  zeros there.
\<close>

theorem Tick_padding_regression:
  "\<exists>b h h'. FromProto b = Inr h \<and> Tick (Some h) 0 = Inr h' \<and> Before h' h"
proof -
  let ?b = "be64 1 @ replicate 8 1 @ be16 0"
  have len: "length ?b = Size" by (simp add: Size_def)
  have f: "wallNanos ?b = 1" "counterOf ?b = 0"
    by (simp_all add: wallNanos_def counterOf_def)
  have "Tick (Some ?b) 0 = Inr (mkHLC 1 1)"
    using len f by (simp add: Tick_def Let_def bump_def)
  moreover have "mkHLC 1 1 < ?b"
    by (simp add: mkHLC_def append_less_iff numeral_eq_Suc)
  moreover have "FromProto ?b = Inr ?b"
    using len by (auto simp: FromProto_def)
  ultimately show ?thesis
    by (intro exI [of _ ?b] exI [of _ "mkHLC 1 1"]) (simp add: Before_def Compare_def)
qed

end
