(* ===== verification/Crypto.thy ===== *)
theory Crypto
  imports StateTypes
begin

text \<open>
  Model of internal/crypto: the canonical signing bytes, signature verification, the multisig
  envelope, and the typed public keys with the X25519 guard. SHA-256, Ed25519 verification and
  X25519 are parameters (fields of \<open>prims\<close>); the constants of the package are the code's.
\<close>

section \<open>Primitives and errors\<close>

record prims =
  sha256 :: hashfun
  ed25519_verify :: "bytes \<Rightarrow> bytes \<Rightarrow> bytes \<Rightarrow> bool"  \<comment> \<open>public key, message, signature\<close>
  x25519 :: "bytes \<Rightarrow> bytes \<Rightarrow> bytes option"             \<comment> \<open>private scalar, point\<close>

datatype crypto_error =
    VerificationFailed
  | ThresholdZero
  | NeedSignatures u32 u32
  | NeedDistinct nat u32
  | KeySize nat
  | X25519Failed
  | AllZeroSecret

text \<open>The message kinds MsgKindTransition and MsgKindUserAction.\<close>

definition MsgKindTransition :: byte where "MsgKindTransition = 1"
definition MsgKindUserAction :: byte where "MsgKindUserAction = 2"

section \<open>Signing bytes and verification\<close>

definition CanonicalSignBytes :: "('a prims_scheme) \<Rightarrow> public_key \<Rightarrow> byte \<Rightarrow> bytes \<Rightarrow> bytes" where
  "CanonicalSignBytes P groupKey kind payload =
     copy32 (sha256 P (bytes_of ''federated-meetup/v1/signing'')) @ groupKey @ [kind] @
     be64 (word_of_nat (length payload)) @ payload"

text \<open>An error-valued function returns \<open>None\<close> for Go's nil error.\<close>

definition VerifyWithMessage ::
  "('a prims_scheme) \<Rightarrow> public_key \<Rightarrow> signature \<Rightarrow> bytes \<Rightarrow> crypto_error option" where
  "VerifyWithMessage P pub sig msg =
     (if ed25519_verify P pub msg sig then None else Some VerificationFailed)"

definition Verify ::
  "('a prims_scheme) \<Rightarrow> public_key \<Rightarrow> signature \<Rightarrow> public_key \<Rightarrow> byte \<Rightarrow> bytes \<Rightarrow> crypto_error option" where
  "Verify P pub sig groupKey kind payload =
     VerifyWithMessage P pub sig (CanonicalSignBytes P groupKey kind payload)"

text \<open>
  The loops of VerifyMultisig: each signature marks the first steward, in list order, that is
  not yet marked and under whose key it verifies. The set of marked stewards is a list here;
  a key is never marked twice.
\<close>

fun match_sig :: "('a prims_scheme) \<Rightarrow> bytes \<Rightarrow> public_key list \<Rightarrow> signature \<Rightarrow> public_key list \<Rightarrow> public_key list" where
  "match_sig P msg verified sig [] = verified"
| "match_sig P msg verified sig (s # stewards) =
     (if s \<in> set verified then match_sig P msg verified sig stewards
      else if VerifyWithMessage P s sig msg = None then s # verified
      else match_sig P msg verified sig stewards)"

definition verified_set :: "('a prims_scheme) \<Rightarrow> bytes \<Rightarrow> public_key list \<Rightarrow> signature list \<Rightarrow> public_key list" where
  "verified_set P msg stewards sigs =
     foldl (\<lambda>verified sig. match_sig P msg verified sig stewards) [] sigs"

definition VerifyMultisig ::
  "('a prims_scheme) \<Rightarrow> public_key list \<Rightarrow> u32 \<Rightarrow> signature list \<Rightarrow> public_key \<Rightarrow> byte \<Rightarrow> bytes
   \<Rightarrow> crypto_error option" where
  "VerifyMultisig P stewards threshold sigs groupKey kind payload =
     (if threshold = 0 then Some ThresholdZero
      else if (word_of_nat (length sigs) :: u32) < threshold
      then Some (NeedSignatures (word_of_nat (length sigs)) threshold)
      else
        let msg = CanonicalSignBytes P groupKey kind payload;
            verified = verified_set P msg stewards sigs
        in if (word_of_nat (length verified) :: u32) < threshold
           then Some (NeedDistinct (length verified) threshold)
           else None)"

section \<open>Typed keys (keys.go)\<close>

datatype StewardPublicKey = StewardPublicKey bytes
datatype WireGuardPublicKey = WireGuardPublicKey bytes
datatype TLSPublicKey = TLSPublicKey bytes
datatype CoSignerPublicKey = CoSignerPublicKey bytes

definition StewardPublicKeyFromBytes :: "bytes \<Rightarrow> crypto_error + StewardPublicKey" where
  "StewardPublicKeyFromBytes b =
     (if length b \<noteq> 32 then Inl (KeySize (length b)) else Inr (StewardPublicKey b))"

definition WireGuardPublicKeyFromBytes :: "bytes \<Rightarrow> crypto_error + WireGuardPublicKey" where
  "WireGuardPublicKeyFromBytes b =
     (if length b \<noteq> 32 then Inl (KeySize (length b)) else Inr (WireGuardPublicKey (copy32 b)))"

definition TLSPublicKeyFromBytes :: "bytes \<Rightarrow> crypto_error + TLSPublicKey" where
  "TLSPublicKeyFromBytes b =
     (if length b \<noteq> 32 then Inl (KeySize (length b)) else Inr (TLSPublicKey b))"

definition CoSignerPublicKeyFromBytes :: "bytes \<Rightarrow> crypto_error + CoSignerPublicKey" where
  "CoSignerPublicKeyFromBytes b =
     (if length b \<noteq> 32 then Inl (KeySize (length b)) else Inr (CoSignerPublicKey b))"

definition SharedSecret ::
  "('a prims_scheme) \<Rightarrow> bytes \<Rightarrow> WireGuardPublicKey \<Rightarrow> crypto_error + bytes" where
  "SharedSecret P priv remote =
     (case remote of WireGuardPublicKey pub \<Rightarrow>
       (case x25519 P priv pub of
          None \<Rightarrow> Inl X25519Failed
        | Some out \<Rightarrow> if copy32 out = zero32 then Inl AllZeroSecret else Inr out))"

definition Fingerprint :: "('a prims_scheme) \<Rightarrow> bytes \<Rightarrow> string" where
  "Fingerprint P pubBytes = hex (take 6 (copy32 (sha256 P pubBytes)))"

section \<open>The multisig loop\<close>

definition signed_by :: "('a prims_scheme) \<Rightarrow> bytes \<Rightarrow> public_key \<Rightarrow> signature \<Rightarrow> bool" where
  "signed_by P msg s sig = ed25519_verify P s msg sig"

definition signers :: "('a prims_scheme) \<Rightarrow> bytes \<Rightarrow> public_key list \<Rightarrow> signature list \<Rightarrow> public_key set" where
  "signers P msg stewards sigs = {s \<in> set stewards. \<exists>sig\<in>set sigs. signed_by P msg s sig}"

lemma VerifyWithMessage_None [simp]: "VerifyWithMessage P s sig msg = None \<longleftrightarrow> signed_by P msg s sig"
  by (simp add: VerifyWithMessage_def signed_by_def)

lemma match_sig_cases:
  "match_sig P msg verified sig stewards = verified \<and>
     (\<forall>s\<in>set stewards. signed_by P msg s sig \<longrightarrow> s \<in> set verified) \<or>
   (\<exists>s\<in>set stewards. s \<notin> set verified \<and> signed_by P msg s sig \<and>
     match_sig P msg verified sig stewards = s # verified)"
  by (induction stewards) auto

lemma match_sig_distinct: "distinct v \<Longrightarrow> distinct (match_sig P msg v sig stewards)"
  using match_sig_cases [of P msg v sig stewards] by auto

lemma verified_set_snoc:
  "verified_set P msg stewards (sigs @ [sig]) =
   match_sig P msg (verified_set P msg stewards sigs) sig stewards"
  by (simp add: verified_set_def)

lemma verified_set_sound:
  "distinct (verified_set P msg stewards sigs) \<and>
   set (verified_set P msg stewards sigs) \<subseteq> signers P msg stewards sigs \<and>
   length (verified_set P msg stewards sigs) \<le> length sigs"
proof (induction sigs rule: rev_induct)
  case Nil
  then show ?case by (simp add: verified_set_def)
next
  case (snoc sig sigs)
  let ?v = "verified_set P msg stewards sigs"
  have mono: "signers P msg stewards sigs \<subseteq> signers P msg stewards (sigs @ [sig])"
    by (auto simp: signers_def)
  from match_sig_cases [of P msg ?v sig stewards] show ?case
  proof (elim disjE conjE bexE)
    assume "match_sig P msg ?v sig stewards = ?v"
    then show ?thesis using snoc mono by (auto simp: verified_set_snoc)
  next
    fix s assume "s \<in> set stewards" "s \<notin> set ?v" "signed_by P msg s sig"
      "match_sig P msg ?v sig stewards = s # ?v"
    moreover from this have "s \<in> signers P msg stewards (sigs @ [sig])"
      by (auto simp: signers_def)
    ultimately show ?thesis using snoc mono by (auto simp: verified_set_snoc)
  qed
qed

text \<open>When no signature verifies under two stewards, greedy matching misses nobody.\<close>

definition unambiguous :: "('a prims_scheme) \<Rightarrow> bytes \<Rightarrow> public_key list \<Rightarrow> signature list \<Rightarrow> bool" where
  "unambiguous P msg stewards sigs =
     (\<forall>sig\<in>set sigs. \<forall>s\<in>set stewards. \<forall>t\<in>set stewards.
        signed_by P msg s sig \<longrightarrow> signed_by P msg t sig \<longrightarrow> s = t)"

lemma verified_set_complete:
  "unambiguous P msg stewards sigs \<Longrightarrow>
   set (verified_set P msg stewards sigs) = signers P msg stewards sigs"
proof (induction sigs rule: rev_induct)
  case Nil
  then show ?case by (simp add: verified_set_def signers_def)
next
  case (snoc sig sigs)
  let ?v = "verified_set P msg stewards sigs"
  have IH: "set ?v = signers P msg stewards sigs"
    using snoc by (auto simp: unambiguous_def)
  have step: "signers P msg stewards (sigs @ [sig]) =
      signers P msg stewards sigs \<union> {s \<in> set stewards. signed_by P msg s sig}"
    by (auto simp: signers_def)
  from match_sig_cases [of P msg ?v sig stewards] show ?case
  proof (elim disjE conjE bexE)
    assume "match_sig P msg ?v sig stewards = ?v"
      "\<forall>s\<in>set stewards. signed_by P msg s sig \<longrightarrow> s \<in> set ?v"
    then show ?thesis using IH step by (auto simp: verified_set_snoc)
  next
    fix s assume s: "s \<in> set stewards" "signed_by P msg s sig"
      "match_sig P msg ?v sig stewards = s # ?v"
    then have "{t \<in> set stewards. signed_by P msg t sig} = {s}"
      using snoc.prems by (auto simp: unambiguous_def)
    then show ?thesis using s IH step by (auto simp: verified_set_snoc)
  qed
qed

lemma finite_signers [simp]: "finite (signers P msg stewards sigs)"
  by (simp add: signers_def)

lemma length_verified_le: "length (verified_set P msg stewards sigs) \<le> card (signers P msg stewards sigs)"
  using verified_set_sound [of P msg stewards sigs]
  by (metis card_mono distinct_card finite_signers)

lemma not_less_word_of_nat:
  "\<not> (word_of_nat n :: u32) < t \<Longrightarrow> unat t \<le> n"
proof (rule ccontr)
  assume a: "\<not> (word_of_nat n :: u32) < t" "\<not> unat t \<le> n"
  have "unat t < 2 ^ 32" using unsigned_less [of t] by simp
  with a(2) have "unat (word_of_nat n :: u32) = n" by (simp add: unat_of_nat)
  with a show False by (simp add: word_less_nat_alt)
qed

section \<open>Properties\<close>

text \<open>
  an accepted multisig envelope is backed by at least \<open>threshold\<close> distinct stewards of the
  list, each of whom signed these canonical bytes, and the threshold is not zero.
\<close>

theorem VerifyMultisig_sound:
  assumes "VerifyMultisig P stewards threshold sigs groupKey kind payload = None"
  shows "0 < unat threshold \<and>
     unat threshold \<le> card (signers P (CanonicalSignBytes P groupKey kind payload) stewards sigs)"
proof -
  let ?msg = "CanonicalSignBytes P groupKey kind payload"
  let ?v = "verified_set P ?msg stewards sigs"
  from assms have pos: "threshold \<noteq> 0" and nl: "\<not> (word_of_nat (length ?v) :: u32) < threshold"
    by (simp_all add: VerifyMultisig_def Let_def split: if_split_asm)
  have "unat threshold \<le> length ?v" by (rule not_less_word_of_nat [OF nl])
  also have "\<dots> \<le> card (signers P ?msg stewards sigs)" by (rule length_verified_le)
  finally show ?thesis using pos by (simp add: unat_gt_0)
qed

definition ex_prims :: prims where
  "ex_prims = \<lparr>sha256 = (\<lambda>b. b), ed25519_verify = (\<lambda>pub msg sig. sig = pub @ pub),
     x25519 = (\<lambda>priv pub. Some pub)\<rparr>"

definition ex_key :: "nat \<Rightarrow> bytes" where
  "ex_key n = replicate 32 (word_of_nat n)"

definition ex_sig :: "nat \<Rightarrow> bytes" where
  "ex_sig n = ex_key n @ ex_key n"

lemma length_ex [simp]: "length (ex_key n) = 32" "length (ex_sig n) = 64"
  by (simp_all add: ex_key_def ex_sig_def)

lemma ex_sig_self [simp]: "ex_sig n = k @ k \<longleftrightarrow> k = ex_key n"
proof
  assume eq: "ex_sig n = k @ k"
  then have "length (k @ k) = 64" by (metis length_ex(2))
  then have "length k = length (ex_key n)" by simp
  with eq show "k = ex_key n" by (simp add: ex_sig_def)
qed (simp add: ex_sig_def)

theorem VerifyMultisig_sound_witness:
  "unat (2::u32) \<le> card (signers ex_prims
     (CanonicalSignBytes ex_prims (ex_key 9) MsgKindTransition []) [ex_key 1, ex_key 2, ex_key 3]
     [ex_sig 3, ex_sig 1])"
  by (rule VerifyMultisig_sound [THEN conjunct2])
    (simp add: VerifyMultisig_def verified_set_def VerifyWithMessage_def ex_prims_def,
     simp add: ex_key_def)

text \<open>
  C26: exactness of the envelope: when no signature verifies under two stewards and there are
  fewer than 2^32 signatures, the envelope is accepted if and only if the threshold is not zero
  and at least that many distinct stewards signed, whatever the order of the signatures and
  however often one steward's signature is repeated.
\<close>

theorem VerifyMultisig_exact:
  assumes "unambiguous P (CanonicalSignBytes P groupKey kind payload) stewards sigs"
    "length sigs < 2 ^ 32"
  shows "VerifyMultisig P stewards threshold sigs groupKey kind payload = None \<longleftrightarrow>
     0 < unat threshold \<and>
     unat threshold \<le> card (signers P (CanonicalSignBytes P groupKey kind payload) stewards sigs)"
proof -
  let ?msg = "CanonicalSignBytes P groupKey kind payload"
  let ?v = "verified_set P ?msg stewards sigs"
  have v: "length ?v = card (signers P ?msg stewards sigs)" "length ?v \<le> length sigs"
    using verified_set_sound [of P ?msg stewards sigs] verified_set_complete [OF assms(1)]
    by (metis distinct_card)+
  have less: "(word_of_nat n :: u32) < threshold \<longleftrightarrow> n < unat threshold" if "n < 2 ^ 32" for n
    using that by (simp add: word_less_nat_alt unat_of_nat)
  have "threshold = 0 \<longleftrightarrow> unat threshold = 0" by (simp add: unat_eq_zero)
  then show ?thesis
    using v assms(2) less [of "length sigs"] less [of "length ?v"]
    by (auto simp: VerifyMultisig_def Let_def not_less)
qed

theorem VerifyMultisig_exact_witness:
  "VerifyMultisig ex_prims [ex_key 1, ex_key 2] 2 [ex_sig 1, ex_sig 1] (ex_key 9) MsgKindTransition []
   \<noteq> None"
proof -
  have u: "unambiguous ex_prims (CanonicalSignBytes ex_prims (ex_key 9) MsgKindTransition [])
      [ex_key 1, ex_key 2] [ex_sig 1, ex_sig 1]"
    by (auto simp: unambiguous_def signed_by_def ex_prims_def)
  have "ex_key 1 \<noteq> ex_key 2" by (simp add: ex_key_def numeral_eq_Suc)
  then have "signers ex_prims (CanonicalSignBytes ex_prims (ex_key 9) MsgKindTransition [])
      [ex_key 1, ex_key 2] [ex_sig 1, ex_sig 1] = {ex_key 1}"
    by (auto simp: signers_def signed_by_def ex_prims_def)
  then show ?thesis using VerifyMultisig_exact [OF u, of 2] by simp
qed

text \<open>
  C27: the sign bytes determine what was signed: two calls of CanonicalSignBytes give the same bytes exactly if the group
  keys, the kinds of message and the payloads are the same. So the bytes that a signature is made and checked over are
  never those of another group, another kind or another payload (lengths being below 2^64, and group keys 32 bytes).
\<close>

theorem CanonicalSignBytes_injective:
  assumes "length g = 32" "length h = 32" "length p < 2 ^ 64" "length q < 2 ^ 64"
  shows "CanonicalSignBytes P g k p = CanonicalSignBytes P h l q \<longleftrightarrow> g = h \<and> k = l \<and> p = q"
  using assms by (auto simp: CanonicalSignBytes_def append_eq_append_conv)

text \<open>Another group, another kind, or a byte moved from the payload's front: other bytes.\<close>

theorem CanonicalSignBytes_injective_witness:
  "CanonicalSignBytes ex_prims (ex_key 1) MsgKindTransition [5, 6] \<noteq> CanonicalSignBytes ex_prims (ex_key 2) MsgKindTransition [5, 6] \<and>
   CanonicalSignBytes ex_prims (ex_key 1) MsgKindTransition [5, 6] \<noteq> CanonicalSignBytes ex_prims (ex_key 1) 2 [5, 6] \<and>
   CanonicalSignBytes ex_prims (ex_key 1) MsgKindTransition [5, 6] \<noteq> CanonicalSignBytes ex_prims (ex_key 1) MsgKindTransition [6]"
proof -
  have n: "length (ex_key 1) = 32" "length (ex_key 2) = 32" "length [5, 6 :: byte] < 2 ^ 64" "length [6 :: byte] < 2 ^ 64"
    by (simp_all add: ex_key_def)
  have "ex_key 1 \<noteq> ex_key 2" "MsgKindTransition \<noteq> 2" "[5, 6 :: byte] \<noteq> [6]"
    by (simp_all add: ex_key_def MsgKindTransition_def)
  then show ?thesis
    unfolding CanonicalSignBytes_injective [OF n(1,2,3,3)] CanonicalSignBytes_injective [OF n(1,1,3,3)]
      CanonicalSignBytes_injective [OF n(1,1,3,4)] by blast
qed

text \<open>
  SharedSecret never hands out the all-zero secret that a low-order remote point produces,
  and a typed public key is made from exactly the 32-byte strings.
\<close>

theorem typed_keys_guarded:
  "(case SharedSecret P priv remote of Inl _ \<Rightarrow> True | Inr out \<Rightarrow> copy32 out \<noteq> zero32) \<and>
   (StewardPublicKeyFromBytes b = Inr (StewardPublicKey b) \<longleftrightarrow> length b = 32) \<and>
   (WireGuardPublicKeyFromBytes b = Inr (WireGuardPublicKey b) \<longleftrightarrow> length b = 32) \<and>
   (TLSPublicKeyFromBytes b = Inr (TLSPublicKey b) \<longleftrightarrow> length b = 32) \<and>
   (CoSignerPublicKeyFromBytes b = Inr (CoSignerPublicKey b) \<longleftrightarrow> length b = 32)"
  by (auto simp: SharedSecret_def StewardPublicKeyFromBytes_def WireGuardPublicKeyFromBytes_def
      TLSPublicKeyFromBytes_def CoSignerPublicKeyFromBytes_def
      split: WireGuardPublicKey.splits option.splits)

end
