(* ===== verification/Transition.thy ===== *)
theory Transition
  imports Crypto HLC
begin

text \<open>
  The transition messages of proto/federated_meetup/v1/state.proto as internal/group sees them,
  the in-memory Transition with its cached canonical bytes, the errors of the package, and the
  string field check. Protobuf marshalling is third-party code: \<open>env\<close> carries one marshaller per
  message the code marshals (\<open>None\<close> is a marshalling error, as for invalid UTF-8).
  A nil message pointer whose getters read zero values is the empty byte string; where the code
  tells nil from empty the field is an option.
\<close>

section \<open>Messages\<close>

datatype ttype =
    TT_UNSPECIFIED | CREATE_GROUP | ADD_STEWARD | REMOVE_STEWARD | CHANGE_THRESHOLD
  | ADD_MEMBER | REMOVE_MEMBER | CREATE_EVENT | UPDATE_EVENT | CANCEL_EVENT | RSVP | CANCEL_RSVP
  | ATTEST | FORK | MIGRATE | ISSUE_HOST_CERT | REVOKE_HOST_CERT | ADD_HOST_PEER
  | REMOVE_HOST_PEER | DECLARE_STEWARD_CUSTODY | SLASH_STEWARD | NAME_BIND | BRANCH_CREATE
  | TT_OTHER int

record timestamp =
  ts_seconds :: int
  ts_nanos :: int

record initial_mesh_peer =
  imp_host_wg_key :: bytes
  imp_mesh_ip :: "bytes option"
  imp_cosigner_key :: bytes

record create_group =
  cg_canonical_name :: string
  cg_display_name :: string
  cg_initial_stewards :: "bytes list"
  cg_threshold :: u32
  cg_metadata :: "(string \<times> bytes) list"
  cg_initial_mesh_peers :: "initial_mesh_peer list"

record create_event =
  ce_event_id :: string
  ce_title :: string
  ce_starts_at :: "timestamp option"
  ce_ends_at :: "timestamp option"
  ce_location :: string
  ce_capacity :: u32
  ce_paid :: bool
  ce_metadata :: "(string \<times> bytes) list"

record update_event =
  ue_event_id :: string
  ue_patch :: "(string \<times> bytes) list"

record attest =
  at_from_identity :: bytes
  at_to_identity :: bytes
  at_schema :: string
  at_payload :: bytes

record host_cert =
  hc_hostname :: string
  hc_host_tls_key :: bytes
  hc_not_before :: "timestamp option"
  hc_not_after :: "timestamp option"
  hc_host_challenge_signature :: bytes

record revoke_host_cert =
  rh_hostname :: string
  rh_host_tls_key :: bytes
  rh_not_after :: "timestamp option"
  rh_reason :: string

record add_host_peer =
  ap_host_wg_key :: bytes
  ap_mesh_ip :: bytes
  ap_cosigner_peer_key :: bytes
  ap_cosigner_peer_signature :: bytes

datatype custody_tier =
    CUSTODY_UNSPECIFIED | CUSTODY_HSM | CUSTODY_HARDWARE_WALLET | CUSTODY_ENCRYPTED_DISK
  | CUSTODY_LIVE_SYSTEM | CUSTODY_SCRIPTED | CUSTODY_OTHER int

record slash_steward =
  sl_slashed_steward :: bytes
  sl_prior_state :: bytes
  sl_hlc_a :: bytes
  sl_hlc_b :: bytes
  sl_tx_hash_a :: bytes
  sl_tx_hash_b :: bytes

record name_bind =
  nb_name :: string
  nb_directory_host :: string
  nb_not_after :: "timestamp option"

text \<open>The oneof \<open>payload\<close>, one constructor per arm.\<close>

datatype payload =
    P_CreateGroup create_group
  | P_AddSteward bytes                      \<comment> \<open>new_steward\<close>
  | P_RemoveSteward bytes                   \<comment> \<open>steward\<close>
  | P_ChangeThreshold u32                   \<comment> \<open>new_threshold\<close>
  | P_AddMember bytes                       \<comment> \<open>user\<close>
  | P_RemoveMember bytes                    \<comment> \<open>user\<close>
  | P_CreateEvent create_event
  | P_UpdateEvent update_event
  | P_CancelEvent string string             \<comment> \<open>event_id, reason\<close>
  | P_Rsvp string bytes                     \<comment> \<open>event_id, user\<close>
  | P_CancelRsvp string bytes               \<comment> \<open>event_id, user\<close>
  | P_Attest attest
  | P_Fork "bytes option"                   \<comment> \<open>new_group_key\<close>
  | P_Migrate string "timestamp option"     \<comment> \<open>new_host, deadline\<close>
  | P_BranchCreate string                   \<comment> \<open>reason\<close>
  | P_IssueHostCert host_cert
  | P_RevokeHostCert revoke_host_cert
  | P_AddHostPeer add_host_peer
  | P_RemoveHostPeer bytes bytes            \<comment> \<open>host_wg_key, mesh_ip\<close>
  | P_DeclareStewardCustody bytes custody_tier
  | P_SlashSteward slash_steward
  | P_NameBind name_bind
  | P_Custom bytes

record multisig =
  ms_signatures :: "bytes list"
  ms_threshold :: u32

record pb_transition =
  tp_type :: ttype
  tp_prior_state :: "bytes option"          \<comment> \<open>nil, or the hash of the StateRoot\<close>
  tp_payload :: "payload option"
  tp_signed_at :: "timestamp option"
  tp_hlc :: bytes
  tp_steward_signatures :: "multisig option"
  tp_branch_id :: u32

record transition =
  Proto :: pb_transition
  canonical :: bytes
  tr_groupID :: group_id

section \<open>The environment of the state machine\<close>

record env = prims +
  marshal_transition :: "pb_transition \<Rightarrow> bytes option"
  marshal_create_event :: "create_event \<Rightarrow> bytes option"
  marshal_update_event :: "update_event \<Rightarrow> bytes option"
  marshal_attest :: "attest \<Rightarrow> bytes option"
  marshal_host_cert :: "host_cert \<Rightarrow> bytes option"
  marshal_revoke_host_cert :: "revoke_host_cert \<Rightarrow> bytes option"
  marshal_add_host_peer :: "add_host_peer \<Rightarrow> bytes option"
  unmarshal_transition :: "bytes \<Rightarrow> pb_transition option"

section \<open>Errors\<close>

datatype mesh_error =
    ErrDuplicateMeshPeer | ErrDuplicateMeshIP | ErrInvalidMeshPeer | ErrUnknownMeshPeer

datatype route_error =
    UnknownBranch u32
  | MaxBranchesExceeded int int
  | InvalidHLCSize nat
  | PriorStateMismatch hash hash
  | RateLimited public_key group_id
  | EquivocationDetected public_key hash

datatype envelope_error =
    FirstNotCreateGroup
  | CreateThresholdZero
  | CreateInsufficientSignatures
  | CreateSignatureVerification crypto_error
  | NoStewardSignatures
  | SignatureVerification crypto_error

datatype field_error =
    FieldTooShort string nat nat
  | FieldTooLong string nat nat
  | FieldInvalidUTF8 string

datatype peer_error =
    MeshIPLength nat
  | CosignerKeySize
  | CosignerNotMember public_key
  | CosignatureInvalid
  | MeshPeersOverCap int int

datatype rule_error =
    AddStewardOverCap nat int
  | ChangeThresholdZero
  | ChangeThresholdTooHigh u32 nat
  | MigrateNoDeadline
  | MigrateDeadlinePast
  | CustodyTierUnspecified
  | CustodyNotSteward public_key
  | SlashNotCurrent public_key
  | SlashNoSignatures
  | SlashSelfSigned public_key
  | NameBindNoNotAfter

datatype group_error =
    Route route_error
  | Envelope envelope_error
  | MissingPayload ttype
  | UnsupportedType ttype
  | Field field_error
  | ErrKVSizeExceeded
  | Mesh mesh_error
  | CreateMeshPeers mesh_error
  | Peer peer_error
  | Rule rule_error
  | MarshalFailed
  | PersistFailed

section \<open>Transitions\<close>

text \<open>NewTransition: the canonical bytes are the message without its signatures.\<close>

definition NewTransition :: "env \<Rightarrow> pb_transition \<Rightarrow> group_id \<Rightarrow> transition option" where
  "NewTransition E t gid =
     (case marshal_transition E (t\<lparr>tp_steward_signatures := None\<rparr>) of
        None \<Rightarrow> None
      | Some c \<Rightarrow> Some \<lparr>Proto = t, canonical = c, tr_groupID = gid\<rparr>)"

definition MarshalCanonicalForSigningHelper :: "env \<Rightarrow> pb_transition \<Rightarrow> bytes option" where
  "MarshalCanonicalForSigningHelper E t =
     marshal_transition E (t\<lparr>tp_steward_signatures := None\<rparr>)"

definition GroupID :: "transition \<Rightarrow> group_id" where "GroupID t = tr_groupID t"
definition Type :: "transition \<Rightarrow> ttype" where "Type t = tp_type (Proto t)"
definition Canonical :: "transition \<Rightarrow> bytes" where "Canonical t = canonical t"

definition transitionTxHash :: "env \<Rightarrow> transition \<Rightarrow> hash" where
  "transitionTxHash E t = copy32 (sha256 E (canonical t))"

definition EncodeTransition :: "env \<Rightarrow> transition \<Rightarrow> bytes" where
  "EncodeTransition E t = (case marshal_transition E (Proto t) of None \<Rightarrow> [] | Some b \<Rightarrow> b)"

definition DecodeTransition :: "env \<Rightarrow> bytes \<Rightarrow> group_id \<Rightarrow> transition option" where
  "DecodeTransition E b gid =
     (case unmarshal_transition E b of None \<Rightarrow> None | Some p \<Rightarrow> NewTransition E p gid)"

text \<open>The hash of the prior state as a [32]byte, and whether one was given at all.\<close>

definition has_prior :: "transition \<Rightarrow> bool" where
  "has_prior t = (case tp_prior_state (Proto t) of None \<Rightarrow> False | Some h \<Rightarrow> length h > 0)"

definition prior_of :: "transition \<Rightarrow> hash" where
  "prior_of t = (case tp_prior_state (Proto t) of None \<Rightarrow> zero32 | Some h \<Rightarrow> copy32 h)"

text \<open>The signatures of the envelope as [64]byte arrays.\<close>

definition sig_array :: "multisig \<Rightarrow> signature list" where
  "sig_array m = map copy64 (ms_signatures m)"

definition validateStringField :: "string \<Rightarrow> string \<Rightarrow> nat \<Rightarrow> nat \<Rightarrow> group_error option" where
  "validateStringField name value minLen maxLen =
     (let n = length value
      in if n < minLen then Some (Field (FieldTooShort name n minLen))
         else if n > maxLen then Some (Field (FieldTooLong name n maxLen))
         else if \<not> utf8_valid value then Some (Field (FieldInvalidUTF8 name))
         else None)"

definition binaryUint32 :: "u32 \<Rightarrow> bytes" where "binaryUint32 v = be32 v"
definition binaryUint64 :: "u64 \<Rightarrow> bytes" where "binaryUint64 v = be64 v"

lemma validateStringField_ok:
  "validateStringField name v lo hi = None \<longleftrightarrow> lo \<le> length v \<and> length v \<le> hi \<and> utf8_valid v"
  by (auto simp: validateStringField_def Let_def)

lemma length_prior_of [simp]: "length (prior_of t) = 32"
  by (simp add: prior_of_def split: option.splits)

section \<open>Properties\<close>

text \<open>
  the canonical bytes do not depend on the signatures an envelope carries, so every steward
  signs the same bytes and adding signatures does not change what was signed or its tx hash.
\<close>

theorem canonical_ignores_signatures:
  "NewTransition E (t\<lparr>tp_steward_signatures := m\<rparr>) gid =
     map_option (\<lambda>tr. tr\<lparr>Proto := t\<lparr>tp_steward_signatures := m\<rparr>\<rparr>) (NewTransition E t gid) \<and>
   map_option (transitionTxHash E) (NewTransition E (t\<lparr>tp_steward_signatures := m\<rparr>) gid) =
     map_option (transitionTxHash E) (NewTransition E t gid)"
  by (simp add: NewTransition_def transitionTxHash_def split: option.splits)

text \<open>
  the wire round trip: when the marshaller round-trips a message, decoding an encoded
  transition for its group gives the transition back, canonical bytes included.
\<close>

theorem encode_decode_transition:
  assumes "NewTransition E p gid = Some t"
    "marshal_transition E p = Some b" "unmarshal_transition E b = Some p"
  shows "DecodeTransition E (EncodeTransition E t) gid = Some t"
  using assms by (auto simp: DecodeTransition_def EncodeTransition_def NewTransition_def
      split: option.splits)

definition ex_env :: env where
  "ex_env = prims.extend ex_prims
     \<lparr>marshal_transition = (\<lambda>t. Some (tp_hlc t)),
      marshal_create_event = (\<lambda>p. Some (bytes_of (ce_event_id p))),
      marshal_update_event = (\<lambda>p. Some (bytes_of (ue_event_id p))),
      marshal_attest = (\<lambda>p. Some (at_to_identity p)),
      marshal_host_cert = (\<lambda>p. Some (hc_host_tls_key p)),
      marshal_revoke_host_cert = (\<lambda>p. Some (rh_host_tls_key p)),
      marshal_add_host_peer = (\<lambda>p. Some (ap_host_wg_key p)),
      unmarshal_transition = (\<lambda>b. Some \<lparr>tp_type = TT_UNSPECIFIED, tp_prior_state = None,
        tp_payload = None, tp_signed_at = None, tp_hlc = b, tp_steward_signatures = None,
        tp_branch_id = 0\<rparr>)\<rparr>"

definition ex_pb :: "bytes \<Rightarrow> pb_transition" where
  "ex_pb b = \<lparr>tp_type = TT_UNSPECIFIED, tp_prior_state = None, tp_payload = None,
     tp_signed_at = None, tp_hlc = b, tp_steward_signatures = None, tp_branch_id = 0\<rparr>"

theorem encode_decode_transition_witness:
  "DecodeTransition ex_env (EncodeTransition ex_env
     \<lparr>Proto = ex_pb [7], canonical = [7], tr_groupID = ex_key 1\<rparr>) (ex_key 1) =
   Some \<lparr>Proto = ex_pb [7], canonical = [7], tr_groupID = ex_key 1\<rparr>"
  by (rule encode_decode_transition [of _ "ex_pb [7]" _ _ "[7]"])
    (simp_all add: NewTransition_def ex_env_def ex_pb_def prims.defs)

end
