(* ===== verification/Fifo.thy ===== *)
theory Fifo
  imports Prelude
begin

text \<open>
  The contract of a bounded first-in-first-out buffer, which five parts of the program share:
  the equivocation log's insertion order, the evidence list, the transition log, and each
  subscriber's channel. A push appends and then drops from the head until the cap holds. The
  client lemmas say what a sequence of pushes leaves behind.
\<close>

section \<open>The drop loop\<close>

text \<open>\<open>for len(q) > max { q = q[1:] }\<close>.\<close>

function drop_while_over :: "nat \<Rightarrow> 'a list \<Rightarrow> 'a list" where
  "drop_while_over cap q = (if length q > cap then drop_while_over cap (tl q) else q)"
  by pat_completeness auto
termination
  by (relation "measure (\<lambda>(cap, q). length q)") auto

declare drop_while_over.simps [simp del]

lemma drop_while_over_eq: "drop_while_over cap q = drop (length q - cap) q"
proof (induction cap q rule: drop_while_over.induct)
  case (1 cap q)
  show ?case
  proof (cases "length q > cap")
    case True
    then obtain a r where q: "q = a # r" by (cases q) auto
    have "drop_while_over cap q = drop (length r - cap) r"
      using 1 [OF True] True by (subst drop_while_over.simps) (simp add: q)
    also have "\<dots> = drop (length q - cap) q"
      using True q by (simp add: Suc_diff_le)
    finally show ?thesis .
  qed (simp add: drop_while_over.simps [of cap q])
qed

definition keep_last :: "nat \<Rightarrow> 'a list \<Rightarrow> 'a list" where
  "keep_last n xs = drop (length xs - n) xs"

lemma length_keep_last [simp]: "length (keep_last n xs) = min n (length xs)"
  by (auto simp: keep_last_def)

lemma keep_last_short: "length xs \<le> n \<Longrightarrow> keep_last n xs = xs"
  by (simp add: keep_last_def)

lemma keep_last_append: "keep_last n (keep_last n xs @ ys) = keep_last n (xs @ ys)"
proof (cases "length xs \<le> n")
  case True
  then show ?thesis by (simp add: keep_last_short)
next
  case False
  then have "keep_last n (keep_last n xs @ ys) = drop (length ys) (drop (length xs - n) xs @ ys)"
    by (simp add: keep_last_def)
  also have "\<dots> = drop (length ys) (drop (length xs - n) (xs @ ys))"
    using False by simp
  also have "\<dots> = keep_last n (xs @ ys)"
    using False by (simp add: keep_last_def add.commute del: drop_append)
  finally show ?thesis .
qed

lemma set_keep_last: "set (keep_last n xs) \<subseteq> set xs"
  by (simp add: keep_last_def set_drop_subset)

lemma last_keep_last: "0 < n \<Longrightarrow> x \<in> set (keep_last n (xs @ [x]))"
  by (simp add: keep_last_def)

section \<open>The contract\<close>

locale bounded_fifo =
  fixes push :: "'s \<Rightarrow> 'a \<Rightarrow> 's" and items :: "'s \<Rightarrow> 'a list" and cap :: nat
  assumes items_push: "items (push s a) = keep_last cap (items s @ [a])"
begin

lemma items_pushes: "items (foldl push s as) = keep_last cap (items s @ as) \<or> as = []"
proof (induction as rule: rev_induct)
  case (snoc a as)
  show ?case
  proof (cases "as = []")
    case True
    then show ?thesis by (simp add: items_push)
  next
    case False
    with snoc have "items (foldl push s (as @ [a])) = keep_last cap (keep_last cap (items s @ as) @ [a])"
      by (simp add: items_push)
    also have "\<dots> = keep_last cap (items s @ (as @ [a]))"
      using keep_last_append [of cap "items s @ as" "[a]"] by simp
    finally show ?thesis by blast
  qed
qed simp

lemma bounded_push: "length (items (push s a)) \<le> cap"
  by (simp add: items_push)

lemma bounded_pushes: "length (items s) \<le> cap \<Longrightarrow> length (items (foldl push s as)) \<le> cap"
  using items_pushes [of s as] by auto

lemma newest_kept: "0 < cap \<Longrightarrow> a \<in> set (items (push s a))"
  by (simp add: items_push last_keep_last)

lemma nothing_invented: "set (items (push s a)) \<subseteq> insert a (set (items s))"
  using set_keep_last [of cap "items s @ [a]"] by (simp add: items_push)

lemma no_loss_below_cap: "length (items s) < cap \<Longrightarrow> items (push s a) = items s @ [a]"
  by (simp add: items_push keep_last_short)

end

end
