(* ===== verification/Mesh.thy ===== *)
theory Mesh
  imports Transition "HOL-Library.AList"
begin

text \<open>
  Model of internal/group/mesh.go: the registry of WireGuard mesh peers with its three indexes
  (by wg key, by mesh IP, by co-signer key) and its add and remove logs. The Go maps are
  association lists, updated by \<open>AList.update\<close> and \<open>AList.delete\<close>; the empty \<open>mp_cosigner\<close> is
  the nil key of a peer without one.
\<close>

section \<open>State and operations\<close>

record mesh_peer =
  mp_wg :: bytes
  mp_ip :: bytes
  mp_cosigner :: bytes

record mesh_registry =
  peers :: "(bytes \<times> mesh_peer) list"
  byIP :: "(bytes \<times> mesh_peer) list"
  byCoSigner :: "(bytes \<times> mesh_peer) list"
  addLog :: "mesh_peer list"
  removeLog :: "mesh_peer list"

definition newMeshPeerRegistry :: mesh_registry where
  "newMeshPeerRegistry = \<lparr>peers = [], byIP = [], byCoSigner = [], addLog = [], removeLog = []\<rparr>"

definition PeerID :: "mesh_peer \<Rightarrow> bytes option" where
  "PeerID p = (if length (mp_wg p) \<noteq> 32 then None else Some (copy32 (mp_wg p)))"

definition mesh_add :: "mesh_registry \<Rightarrow> mesh_peer \<Rightarrow> mesh_error + mesh_registry" where
  "mesh_add r p =
     (case PeerID p of
        None \<Rightarrow> Inl ErrInvalidMeshPeer
      | Some pid \<Rightarrow>
          if map_of (peers r) pid \<noteq> None then Inl ErrDuplicateMeshPeer
          else if map_of (byIP r) (mp_ip p) \<noteq> None then Inl ErrDuplicateMeshIP
          else Inr (r\<lparr>peers := AList.update pid p (peers r),
                      byIP := AList.update (mp_ip p) p (byIP r),
                      byCoSigner := (if length (mp_cosigner p) = 32
                                     then AList.update (copy32 (mp_cosigner p)) p (byCoSigner r)
                                     else byCoSigner r),
                      addLog := addLog r @ [p]\<rparr>))"

definition mesh_remove :: "mesh_registry \<Rightarrow> mesh_peer \<Rightarrow> mesh_error + mesh_registry" where
  "mesh_remove r p =
     (case PeerID p of
        None \<Rightarrow> Inl ErrInvalidMeshPeer
      | Some pid \<Rightarrow>
          if map_of (peers r) pid = None then Inl ErrUnknownMeshPeer
          else Inr (r\<lparr>peers := AList.delete pid (peers r),
                      byIP := AList.delete (mp_ip p) (byIP r),
                      byCoSigner := (if length (mp_cosigner p) = 32
                                     then AList.delete (copy32 (mp_cosigner p)) (byCoSigner r)
                                     else byCoSigner r),
                      removeLog := removeLog r @ [p]\<rparr>))"

definition IsMember :: "mesh_registry option \<Rightarrow> bytes \<Rightarrow> bool" where
  "IsMember r wgKey = (case r of None \<Rightarrow> False | Some r \<Rightarrow> map_of (peers r) wgKey \<noteq> None)"

definition mesh_len :: "mesh_registry option \<Rightarrow> nat" where
  "mesh_len r = (case r of None \<Rightarrow> 0 | Some r \<Rightarrow> length (peers r))"

definition mesh_snapshot :: "mesh_registry option \<Rightarrow> mesh_peer list" where
  "mesh_snapshot r = (case r of None \<Rightarrow> [] | Some r \<Rightarrow> map snd (peers r))"

text \<open>The State methods on its \<open>meshPeers\<close> field, which is nil until the first addition.\<close>

definition MeshPeerByCoSigner :: "mesh_registry option \<Rightarrow> bytes \<Rightarrow> mesh_peer option" where
  "MeshPeerByCoSigner r k = (case r of None \<Rightarrow> None | Some r \<Rightarrow> map_of (byCoSigner r) k)"

definition addMeshPeerLocked ::
  "mesh_registry option \<Rightarrow> mesh_peer \<Rightarrow> mesh_error option \<times> mesh_registry" where
  "addMeshPeerLocked r p =
     (let r = (case r of None \<Rightarrow> newMeshPeerRegistry | Some r \<Rightarrow> r)
      in case mesh_add r p of Inl e \<Rightarrow> (Some e, r) | Inr r' \<Rightarrow> (None, r'))"

definition removeMeshPeerLocked :: "mesh_registry option \<Rightarrow> mesh_peer \<Rightarrow> mesh_error + mesh_registry" where
  "removeMeshPeerLocked r p = (case r of None \<Rightarrow> Inl ErrUnknownMeshPeer | Some r \<Rightarrow> mesh_remove r p)"

section \<open>Consistency of the indexes\<close>

text \<open>
  Every peer is filed under its own 32-byte key and under its IP, the IP index holds exactly
  the member peers, and no key is filed twice.
\<close>

definition indexes_agree :: "(bytes \<Rightarrow> mesh_peer option) \<Rightarrow> (bytes \<Rightarrow> mesh_peer option) \<Rightarrow> bool" where
  "indexes_agree P I \<longleftrightarrow>
     (\<forall>k p. P k = Some p \<longrightarrow> k = mp_wg p \<and> length k = 32 \<and> I (mp_ip p) = Some p) \<and>
     (\<forall>i p. I i = Some p \<longrightarrow> i = mp_ip p \<and> P (mp_wg p) = Some p)"

definition mesh_consistent :: "mesh_registry \<Rightarrow> bool" where
  "mesh_consistent r \<longleftrightarrow>
     distinct (map fst (peers r)) \<and> distinct (map fst (byIP r)) \<and>
     indexes_agree (map_of (peers r)) (map_of (byIP r))"

lemma indexes_agreeD:
  assumes "indexes_agree P I"
  shows "P k = Some p \<Longrightarrow> k = mp_wg p" "P k = Some p \<Longrightarrow> length k = 32"
    "P k = Some p \<Longrightarrow> I (mp_ip p) = Some p" "I i = Some p \<Longrightarrow> i = mp_ip p"
    "I i = Some p \<Longrightarrow> P (mp_wg p) = Some p"
  using assms unfolding indexes_agree_def by blast+

lemma indexes_agreeI:
  assumes "\<And>k p. P k = Some p \<Longrightarrow> k = mp_wg p \<and> length k = 32 \<and> I (mp_ip p) = Some p"
    "\<And>i p. I i = Some p \<Longrightarrow> i = mp_ip p \<and> P (mp_wg p) = Some p"
  shows "indexes_agree P I"
  using assms unfolding indexes_agree_def by blast

lemma indexes_agree_add:
  assumes ag: "indexes_agree P I"
    and new: "P (mp_wg p) = None" "I (mp_ip p) = None" "length (mp_wg p) = 32"
  shows "indexes_agree (P(mp_wg p \<mapsto> p)) (I(mp_ip p \<mapsto> p))"
proof (rule indexes_agreeI)
  fix k x assume k: "(P(mp_wg p \<mapsto> p)) k = Some x"
  show "k = mp_wg x \<and> length k = 32 \<and> (I(mp_ip p \<mapsto> p)) (mp_ip x) = Some x"
  proof (cases "k = mp_wg p")
    case True
    then show ?thesis using k new(3) by simp
  next
    case False
    then have "P k = Some x" using k by simp
    note x = indexes_agreeD(1-3) [OF ag this]
    then have "mp_ip x \<noteq> mp_ip p" using new(2) by (metis option.discI)
    then show ?thesis using x by simp
  qed
next
  fix i x assume i: "(I(mp_ip p \<mapsto> p)) i = Some x"
  show "i = mp_ip x \<and> (P(mp_wg p \<mapsto> p)) (mp_wg x) = Some x"
  proof (cases "i = mp_ip p")
    case True
    then show ?thesis using i by simp
  next
    case False
    then have "I i = Some x" using i by simp
    note x = indexes_agreeD(4,5) [OF ag this]
    then have "mp_wg x \<noteq> mp_wg p" using new(1) by (metis option.discI)
    then show ?thesis using x by simp
  qed
qed

lemma indexes_agree_delete:
  assumes ag: "indexes_agree P I" and q: "P k = Some q"
  shows "indexes_agree (P(k := None)) (I(mp_ip q := None))"
proof (rule indexes_agreeI)
  fix j x assume "(P(k := None)) j = Some x"
  then have j: "P j = Some x" "j \<noteq> k" by (simp_all split: if_split_asm)
  note x = indexes_agreeD(1-3) [OF ag j(1)]
  have "mp_ip x \<noteq> mp_ip q"
    using x indexes_agreeD(1,3) [OF ag q] j(2) by (metis option.inject)
  then show "j = mp_wg x \<and> length j = 32 \<and> (I(mp_ip q := None)) (mp_ip x) = Some x"
    using x by simp
next
  fix i x assume "(I(mp_ip q := None)) i = Some x"
  then have i: "I i = Some x" "i \<noteq> mp_ip q" by (simp_all split: if_split_asm)
  note x = indexes_agreeD(4,5) [OF ag i(1)]
  have "mp_wg x \<noteq> k" using x i(2) q by (metis option.inject)
  then show "i = mp_ip x \<and> (P(k := None)) (mp_wg x) = Some x" using x by simp
qed

lemma map_of_update [simp]: "map_of (AList.update k v al) = (map_of al)(k \<mapsto> v)"
  by (rule update_conv')

lemma map_of_delete [simp]: "map_of (AList.delete k al) = (map_of al)(k := None)"
  by (rule delete_conv')

lemma map_of_None_notin: "map_of al k = None \<longleftrightarrow> k \<notin> fst ` set al"
  by (rule map_of_eq_None_iff)

lemma length_update_fresh: "map_of al k = None \<Longrightarrow> length (AList.update k v al) = Suc (length al)"
  by (induction al) auto

lemma mesh_add_cases:
  assumes "mesh_add r p = Inr r'"
  shows "length (mp_wg p) = 32" "map_of (peers r) (mp_wg p) = None" "map_of (byIP r) (mp_ip p) = None"
    "peers r' = AList.update (mp_wg p) p (peers r)" "byIP r' = AList.update (mp_ip p) p (byIP r)"
    "addLog r' = addLog r @ [p]"
  using assms by (auto simp: mesh_add_def PeerID_def split: if_splits option.splits)

lemma mesh_add_consistent:
  assumes "mesh_consistent r" "mesh_add r p = Inr r'"
  shows "mesh_consistent r'"
proof -
  note c = mesh_add_cases [OF assms(2)]
  show ?thesis
    using assms(1) c(1-3)
    by (simp add: mesh_consistent_def c(4,5) distinct_update indexes_agree_add)
qed

lemma mesh_remove_consistent:
  assumes "mesh_consistent r" "mesh_remove r p = Inr r'" "map_of (peers r) (mp_wg p) = Some q"
    "mp_ip p = mp_ip q"
  shows "mesh_consistent r'"
proof -
  have r': "peers r' = AList.delete (mp_wg p) (peers r)" "byIP r' = AList.delete (mp_ip p) (byIP r)"
    using assms(2) by (auto simp: mesh_remove_def PeerID_def split: if_splits option.splits)
  show ?thesis
    using assms(1) indexes_agree_delete [of "map_of (peers r)" "map_of (byIP r)", OF _ assms(3)]
    by (simp add: mesh_consistent_def r' distinct_delete assms(4))
qed

lemma mesh_consistent_new [simp]: "mesh_consistent newMeshPeerRegistry"
  by (simp add: mesh_consistent_def newMeshPeerRegistry_def indexes_agree_def)

section \<open>Properties\<close>

text \<open>
  a successful addition keeps the registry consistent: the peer gets its own key and its
  own IP, both unused before, and becomes a member while every other member stays; the peer
  count grows by one.
\<close>

theorem mesh_add_correct:
  assumes "mesh_consistent r" "mesh_add r p = Inr r'"
  shows "mesh_consistent r' \<and> IsMember (Some r') (mp_wg p) \<and> \<not> IsMember (Some r) (mp_wg p) \<and>
     map_of (byIP r) (mp_ip p) = None \<and> mesh_len (Some r') = Suc (mesh_len (Some r)) \<and>
     (\<forall>k. k = mp_wg p \<or> IsMember (Some r') k = IsMember (Some r) k)"
proof -
  note c = mesh_add_cases [OF assms(2)]
  show ?thesis
    using mesh_add_consistent [OF assms] c(2,3) length_update_fresh [OF c(2)]
    by (auto simp: IsMember_def mesh_len_def c(4))
qed

definition ex_peer :: "nat \<Rightarrow> nat \<Rightarrow> mesh_peer" where
  "ex_peer k i = \<lparr>mp_wg = ex_key k, mp_ip = [10, 0, 0, word_of_nat i], mp_cosigner = ex_key (k + 100)\<rparr>"

theorem mesh_add_correct_witness:
  "\<exists>r'. mesh_add newMeshPeerRegistry (ex_peer 1 1) = Inr r' \<and> IsMember (Some r') (ex_key 1)"
proof -
  obtain r' where r': "mesh_add newMeshPeerRegistry (ex_peer 1 1) = Inr r'"
    by (simp add: mesh_add_def PeerID_def newMeshPeerRegistry_def ex_peer_def)
  have "mp_wg (ex_peer 1 1) = ex_key 1" by (simp add: ex_peer_def)
  then show ?thesis
    using mesh_add_correct [OF mesh_consistent_new r'] r' by auto
qed

text \<open>
  removing a member with the IP it is registered under keeps the registry consistent, and
  the key is no longer a member.
\<close>

theorem mesh_remove_correct:
  assumes "mesh_consistent r" "mesh_remove r p = Inr r'" "map_of (peers r) (mp_wg p) = Some q"
    "mp_ip p = mp_ip q"
  shows "mesh_consistent r' \<and> \<not> IsMember (Some r') (mp_wg p) \<and>
     (\<forall>k. k = mp_wg p \<or> IsMember (Some r') k = IsMember (Some r) k)"
proof -
  have "peers r' = AList.delete (mp_wg p) (peers r)"
    using assms(2) by (auto simp: mesh_remove_def PeerID_def split: if_splits option.splits)
  then show ?thesis using mesh_remove_consistent [OF assms] by (auto simp: IsMember_def)
qed

lemma ex_registry:
  "\<exists>r. mesh_add newMeshPeerRegistry (ex_peer 1 1) = Inr r \<and> mesh_consistent r \<and>
     map_of (peers r) (ex_key 1) = Some (ex_peer 1 1)"
proof -
  obtain r where r: "mesh_add newMeshPeerRegistry (ex_peer 1 1) = Inr r"
    by (simp add: mesh_add_def PeerID_def newMeshPeerRegistry_def ex_peer_def)
  moreover have "mp_wg (ex_peer 1 1) = ex_key 1" by (simp add: ex_peer_def)
  ultimately show ?thesis
    using mesh_add_consistent [OF mesh_consistent_new r] mesh_add_cases(4) [OF r] by auto
qed

theorem mesh_remove_correct_witness:
  "\<exists>r r'. mesh_remove r (ex_peer 1 1) = Inr r' \<and> \<not> IsMember (Some r') (ex_key 1)"
proof -
  obtain r where r: "mesh_consistent r" "map_of (peers r) (ex_key 1) = Some (ex_peer 1 1)"
    using ex_registry by blast
  have k: "mp_wg (ex_peer 1 1) = ex_key 1" by (simp add: ex_peer_def)
  obtain r' where r': "mesh_remove r (ex_peer 1 1) = Inr r'"
    using r(2) unfolding mesh_remove_def PeerID_def k by simp
  have "\<not> IsMember (Some r') (mp_wg (ex_peer 1 1))"
    by (rule mesh_remove_correct [OF r(1) r', THEN conjunct2, THEN conjunct1])
      (use r(2) k in simp_all)
  then show ?thesis using r' k by auto
qed

text \<open>
  a removal that does not carry the peer's co-signer key (the record that the
  REMOVE_HOST_PEER handler builds has none) leaves the co-signer index as it was: the key is
  no longer a member, and still resolves as a co-signer.
\<close>

theorem mesh_remove_keeps_cosigner:
  assumes "mesh_remove r p = Inr r'" "mp_cosigner p = []"
  shows "\<not> IsMember (Some r') (mp_wg p) \<and>
     (\<forall>k. MeshPeerByCoSigner (Some r') k = MeshPeerByCoSigner (Some r) k)"
  using assms
  by (auto simp: mesh_remove_def PeerID_def IsMember_def MeshPeerByCoSigner_def
      split: if_splits option.splits)

theorem mesh_remove_keeps_cosigner_witness:
  "\<exists>r r' p. mesh_remove r p = Inr r' \<and> \<not> IsMember (Some r') (mp_wg p) \<and>
     MeshPeerByCoSigner (Some r') (ex_key 101) \<noteq> None"
proof -
  let ?p = "\<lparr>mp_wg = ex_key 1, mp_ip = [10, 0, 0, 1], mp_cosigner = []\<rparr>"
  obtain r where r: "mesh_add newMeshPeerRegistry (ex_peer 1 1) = Inr r"
    "map_of (peers r) (ex_key 1) = Some (ex_peer 1 1)"
    using ex_registry by blast
  from r(1) have c: "MeshPeerByCoSigner (Some r) (ex_key 101) \<noteq> None"
    by (auto simp: mesh_add_def PeerID_def newMeshPeerRegistry_def ex_peer_def MeshPeerByCoSigner_def)
  obtain r' where r': "mesh_remove r ?p = Inr r'"
    using r(2) by (simp add: mesh_remove_def PeerID_def)
  from mesh_remove_keeps_cosigner [OF r'] c r' show ?thesis
    by (intro exI [of _ r] exI [of _ r'] exI [of _ ?p]) simp
qed

end
