(* ===== verification/Custody.thy ===== *)
theory Custody
  imports Transition
begin

text \<open>
  Model of internal/group/custody.go: the log of custody declarations and the view the
  threshold policy reads. A nil view is \<open>None\<close>. Tiers compare by their enum number.
\<close>

section \<open>State and operations\<close>

record custody_declaration =
  cd_steward :: bytes
  cd_tier :: custody_tier

type_synonym custody_view = "public_key \<Rightarrow> custody_tier option"

record custody_log =
  declared :: "public_key \<Rightarrow> custody_tier option"
  history :: "custody_declaration list"

definition newCustodyLog :: custody_log where
  "newCustodyLog = \<lparr>declared = Map.empty, history = []\<rparr>"

fun tier_number :: "custody_tier \<Rightarrow> int" where
  "tier_number CUSTODY_UNSPECIFIED = 0"
| "tier_number CUSTODY_HSM = 1"
| "tier_number CUSTODY_HARDWARE_WALLET = 2"
| "tier_number CUSTODY_ENCRYPTED_DISK = 3"
| "tier_number CUSTODY_LIVE_SYSTEM = 4"
| "tier_number CUSTODY_SCRIPTED = 5"
| "tier_number (CUSTODY_OTHER n) = n"

definition TierFor :: "custody_view option \<Rightarrow> public_key \<Rightarrow> custody_tier" where
  "TierFor v s =
     (case v of
        None \<Rightarrow> CUSTODY_LIVE_SYSTEM
      | Some tier \<Rightarrow> (case tier s of Some t \<Rightarrow> t | None \<Rightarrow> CUSTODY_LIVE_SYSTEM))"

text \<open>The counting loop over the given stewards.\<close>

fun count_at_least :: "custody_view option \<Rightarrow> public_key list \<Rightarrow> custody_tier \<Rightarrow> nat \<Rightarrow> nat" where
  "count_at_least v [] maxTier n = n"
| "count_at_least v (s # stewards) maxTier n =
     count_at_least v stewards maxTier
       (if tier_number (TierFor v s) \<le> tier_number maxTier then n + 1 else n)"

definition CountAtLeast :: "custody_view option \<Rightarrow> public_key list \<Rightarrow> custody_tier \<Rightarrow> nat" where
  "CountAtLeast v stewards maxTier =
     (case v of None \<Rightarrow> 0 | Some _ \<Rightarrow> count_at_least v stewards maxTier 0)"

definition custody_record :: "custody_log \<Rightarrow> custody_declaration \<Rightarrow> custody_log" where
  "custody_record c d =
     c\<lparr>declared := (declared c)(copy32 (cd_steward d) \<mapsto> cd_tier d),
       history := history c @ [d]\<rparr>"

definition custody_snapshot :: "custody_log option \<Rightarrow> custody_view option" where
  "custody_snapshot c = (case c of None \<Rightarrow> None | Some c \<Rightarrow> Some (declared c))"

definition recordCustodyLocked :: "custody_log option \<Rightarrow> custody_declaration \<Rightarrow> custody_log" where
  "recordCustodyLocked c d =
     custody_record (case c of None \<Rightarrow> newCustodyLog | Some c \<Rightarrow> c) d"

section \<open>Lemmas\<close>

lemma count_at_least_eq:
  "count_at_least v ss m n =
   n + length (filter (\<lambda>s. tier_number (TierFor v s) \<le> tier_number m) ss)"
  by (induction ss arbitrary: n) auto

lemma CountAtLeast_eq:
  "CountAtLeast (Some v) ss m =
   length (filter (\<lambda>s. tier_number (TierFor (Some v) s) \<le> tier_number m) ss)"
  by (simp add: CountAtLeast_def count_at_least_eq)

lemma record_tier:
  "TierFor (custody_snapshot (Some (recordCustodyLocked c d))) s =
   (if s = copy32 (cd_steward d) then cd_tier d else TierFor (custody_snapshot c) s)"
  by (auto simp: TierFor_def custody_snapshot_def recordCustodyLocked_def custody_record_def
      newCustodyLog_def split: option.splits)

text \<open>A run of declarations, as a replay of the log makes them.\<close>

definition record_all :: "custody_log option \<Rightarrow> custody_declaration list \<Rightarrow> custody_log option" where
  "record_all c ds = foldl (\<lambda>c d. Some (recordCustodyLocked c d)) c ds"

definition last_declared :: "custody_declaration list \<Rightarrow> public_key \<Rightarrow> custody_tier option" where
  "last_declared ds s =
     map_option cd_tier (find (\<lambda>d. copy32 (cd_steward d) = s) (rev ds))"

section \<open>Properties\<close>

text \<open>
  the live view is determined by the declarations: after any sequence of them a steward's
  tier is the one declared last, and LIVE_SYSTEM without a declaration.
\<close>

theorem custody_view_is_last_declaration:
  "TierFor (custody_snapshot (record_all None ds)) s =
     (case last_declared ds s of Some t \<Rightarrow> t | None \<Rightarrow> CUSTODY_LIVE_SYSTEM)"
proof (induction ds rule: rev_induct)
  case Nil
  then show ?case
    by (simp add: record_all_def last_declared_def custody_snapshot_def TierFor_def)
next
  case (snoc d ds)
  have "record_all None (ds @ [d]) = Some (recordCustodyLocked (record_all None ds) d)"
    by (simp add: record_all_def)
  then show ?case using snoc by (simp add: record_tier last_declared_def)
qed

text \<open>
  the threshold policy's count is the number of stewards at or above the tier; it never
  exceeds the number of stewards and grows with the tier bound.
\<close>

theorem CountAtLeast_monotone:
  assumes "tier_number a \<le> tier_number b"
  shows "CountAtLeast v ss a \<le> CountAtLeast v ss b \<and> CountAtLeast v ss b \<le> length ss"
proof (cases v)
  case None
  then show ?thesis by (simp add: CountAtLeast_def)
next
  case (Some w)
  have "length (filter (\<lambda>s. tier_number (TierFor (Some w) s) \<le> tier_number a) ss)
      \<le> length (filter (\<lambda>s. tier_number (TierFor (Some w) s) \<le> tier_number b) ss)"
    using assms by (induction ss) auto
  then show ?thesis by (simp add: Some CountAtLeast_eq)
qed

theorem CountAtLeast_monotone_witness:
  "CountAtLeast (Some [ex_key 1 \<mapsto> CUSTODY_HSM]) [ex_key 1, ex_key 2] CUSTODY_HSM \<le> 2"
  using CountAtLeast_monotone [of CUSTODY_HSM CUSTODY_HSM
      "Some [ex_key 1 \<mapsto> CUSTODY_HSM]" "[ex_key 1, ex_key 2]"] by simp

text \<open>
  the declaration history is never trimmed: it holds every declaration ever recorded, in
  order, however many there are.
\<close>

theorem custody_history_unbounded:
  "history (recordCustodyLocked (Some c) d) = history c @ [d] \<and>
   (\<exists>c'. record_all (Some c) ds = Some c' \<and> history c' = history c @ ds)"
proof
  show "history (recordCustodyLocked (Some c) d) = history c @ [d]"
    by (simp add: recordCustodyLocked_def custody_record_def)
  show "\<exists>c'. record_all (Some c) ds = Some c' \<and> history c' = history c @ ds"
  proof (induction ds rule: rev_induct)
    case (snoc x ds)
    then show ?case
      by (auto simp: record_all_def recordCustodyLocked_def custody_record_def)
  qed (simp add: record_all_def)
qed

end
