(* ===== verification/Broadcaster.thy ===== *)
theory Broadcaster
  imports Transition Fifo "HOL-Library.AList"
begin

text \<open>
  Model of internal/group/broadcaster.go: the fan-out of transition events to subscribers.
  A subscriber's buffered channel is the list of events it has not read yet, oldest first;
  receiving (the subscriber's side of the channel) pops the head. A send never blocks: on a full
  buffer of 64 the oldest event is dropped and counted.
\<close>

section \<open>State and operations\<close>

record transition_event =
  ev_transition :: transition
  ev_newRoot :: hash
  ev_index :: u64

record broadcaster =
  subs :: "(u64 \<times> transition_event list) list"
  b_nextID :: u64
  dropped :: u64

definition NewBroadcaster :: broadcaster where
  "NewBroadcaster = \<lparr>subs = [], b_nextID = 0, dropped = 0\<rparr>"

definition chan_cap :: nat where
  "chan_cap = 64"

definition Subscribe :: "broadcaster \<Rightarrow> u64 \<times> broadcaster" where
  "Subscribe b =
     (let i = b_nextID b
      in (i, b\<lparr>b_nextID := b_nextID b + 1, subs := AList.update i [] (subs b)\<rparr>))"

definition Unsubscribe :: "broadcaster \<Rightarrow> u64 \<Rightarrow> broadcaster" where
  "Unsubscribe b i =
     (if map_of (subs b) i = None then b else b\<lparr>subs := AList.delete i (subs b)\<rparr>)"

text \<open>The select statements of Broadcast for one channel: the new buffer, and whether an event
  was dropped.\<close>

definition send_nonblocking :: "transition_event list \<Rightarrow> transition_event \<Rightarrow> transition_event list \<times> bool" where
  "send_nonblocking ch ev =
     (if length ch < chan_cap then (ch @ [ev], False)
      else
        let ch = (case ch of [] \<Rightarrow> [] | _ # r \<Rightarrow> r)
        in (if length ch < chan_cap then ch @ [ev] else ch, True))"

fun broadcast_subs :: "(u64 \<times> transition_event list) list \<Rightarrow> transition_event \<Rightarrow> u64
    \<Rightarrow> (u64 \<times> transition_event list) list \<times> u64" where
  "broadcast_subs [] ev d = ([], d)"
| "broadcast_subs ((i, ch) # r) ev d =
     (let (ch', drp) = send_nonblocking ch ev;
          (r', d') = broadcast_subs r ev (if drp then d + 1 else d)
      in ((i, ch') # r', d'))"

definition Broadcast :: "broadcaster \<Rightarrow> transition_event \<Rightarrow> broadcaster" where
  "Broadcast b ev =
     (let (s, d) = broadcast_subs (subs b) ev (dropped b) in b\<lparr>subs := s, dropped := d\<rparr>)"

definition Dropped :: "broadcaster \<Rightarrow> u64" where
  "Dropped b = dropped b"

definition SubscriberCount :: "broadcaster \<Rightarrow> nat" where
  "SubscriberCount b = length (subs b)"

text \<open>The subscriber reads its channel.\<close>

definition receive :: "broadcaster \<Rightarrow> u64 \<Rightarrow> (transition_event \<times> broadcaster) option" where
  "receive b i =
     (case map_of (subs b) i of
        Some (ev # r) \<Rightarrow> Some (ev, b\<lparr>subs := AList.update i r (subs b)\<rparr>)
      | _ \<Rightarrow> None)"

section \<open>The channel as a bounded buffer\<close>

definition chan_ok :: "transition_event list \<Rightarrow> bool" where
  "chan_ok ch = (length ch \<le> chan_cap)"

lemma send_nonblocking_keep_last:
  assumes "chan_ok ch"
  shows "fst (send_nonblocking ch ev) = keep_last chan_cap (ch @ [ev])"
proof (cases "length ch < chan_cap")
  case True
  then show ?thesis by (simp add: send_nonblocking_def keep_last_short)
next
  case False
  then obtain a r where "ch = a # r" "Suc (length r) = chan_cap"
    using assms by (cases ch) (auto simp: chan_ok_def chan_cap_def)
  then show ?thesis by (simp add: send_nonblocking_def keep_last_def)
qed

lemma chan_ok_send: "chan_ok ch \<Longrightarrow> chan_ok (fst (send_nonblocking ch ev))"
  by (simp add: send_nonblocking_keep_last) (simp add: chan_ok_def)

lemma broadcast_subs_map: 
  "fst (broadcast_subs s ev d) = map (\<lambda>(i, ch). (i, fst (send_nonblocking ch ev))) s"
  by (induction s ev d rule: broadcast_subs.induct) (auto simp: Let_def split: prod.splits)

text \<open>The buffer of one subscriber, as the contract's state: only well-formed buffers, so the
  contract's push saturates at the cap.\<close>

definition chan_push :: "transition_event list \<Rightarrow> transition_event \<Rightarrow> transition_event list" where
  "chan_push ch ev = fst (send_nonblocking (keep_last chan_cap ch) ev)"

interpretation chan: bounded_fifo chan_push "keep_last chan_cap" chan_cap
proof
  fix s a
  have k: "chan_ok (keep_last chan_cap s)" by (simp add: chan_ok_def)
  have "chan_push s a = keep_last chan_cap (keep_last chan_cap s @ [a])"
    by (simp add: chan_push_def send_nonblocking_keep_last [OF k])
  then show "keep_last chan_cap (chan_push s a) = keep_last chan_cap (keep_last chan_cap s @ [a])"
    by (simp add: keep_last_short)
qed

definition broadcaster_ok :: "broadcaster \<Rightarrow> bool" where
  "broadcaster_ok b = (distinct (map fst (subs b)) \<and> (\<forall>i ch. (i, ch) \<in> set (subs b) \<longrightarrow> chan_ok ch))"

lemma map_of_broadcast:
  "map_of (subs (Broadcast b ev)) i = map_option (\<lambda>ch. fst (send_nonblocking ch ev)) (map_of (subs b) i)"
proof -
  have "subs (Broadcast b ev) = map (\<lambda>(i, ch). (i, fst (send_nonblocking ch ev))) (subs b)"
    by (simp add: Broadcast_def case_prod_unfold broadcast_subs_map)
  then show ?thesis by (simp add: map_of_map)
qed

lemma broadcaster_ok_Broadcast: "broadcaster_ok b \<Longrightarrow> broadcaster_ok (Broadcast b ev)"
  by (auto simp: broadcaster_ok_def Broadcast_def case_prod_unfold broadcast_subs_map comp_def
      intro: chan_ok_send)

lemma chan_push_ok: "chan_ok ch \<Longrightarrow> chan_push ch ev = fst (send_nonblocking ch ev)"
  by (simp add: chan_push_def keep_last_short chan_ok_def)

lemma foldl_chan_ok: "chan_ok ch \<Longrightarrow> chan_ok (foldl chan_push ch evs)"
  by (induction evs arbitrary: ch) (simp_all add: chan_push_ok chan_ok_send)

lemma foldl_broadcast:
  assumes "broadcaster_ok b" "map_of (subs b) i = Some ch"
  shows "map_of (subs (foldl Broadcast b evs)) i = Some (foldl chan_push ch evs)"
  using assms
proof (induction evs arbitrary: b ch)
  case (Cons ev evs)
  have "chan_ok ch"
    using Cons.prems by (auto simp: broadcaster_ok_def dest: map_of_SomeD)
  then have "map_of (subs (Broadcast b ev)) i = Some (chan_push ch ev)"
    using Cons.prems(2) by (simp add: map_of_broadcast chan_push_ok)
  then show ?case using Cons.IH [OF broadcaster_ok_Broadcast [OF Cons.prems(1)]] by simp
qed simp

section \<open>Properties\<close>

text \<open>
  what a subscriber that does not read has waiting after any run of broadcasts: the most
  recent 64 of its waiting events followed by the new ones, in order and without gaps inside
  the window. Below 64 nothing is lost.
\<close>

theorem Broadcast_delivers_latest:
  assumes "broadcaster_ok b" "map_of (subs b) i = Some ch"
  shows "map_of (subs (foldl Broadcast b evs)) i = Some (keep_last chan_cap (ch @ evs))"
proof -
  have ch: "chan_ok ch"
    using assms by (auto simp: broadcaster_ok_def dest: map_of_SomeD)
  then have k: "keep_last chan_cap ch = ch" by (simp add: chan_ok_def keep_last_short)
  have "keep_last chan_cap (foldl chan_push ch evs) = foldl chan_push ch evs"
    using foldl_chan_ok [OF ch] by (simp add: chan_ok_def keep_last_short)
  then have "foldl chan_push ch evs = keep_last chan_cap (ch @ evs)"
    using chan.items_pushes [of ch evs] k by (cases evs) auto
  then show ?thesis using foldl_broadcast [OF assms] by simp
qed

definition ex_event :: "u64 \<Rightarrow> transition_event" where
  "ex_event n = \<lparr>ev_transition = \<lparr>Proto = ex_pb [], canonical = [], tr_groupID = ex_key 9\<rparr>,
     ev_newRoot = ex_key 1, ev_index = n\<rparr>"

theorem Broadcast_delivers_latest_witness:
  "map_of (subs (foldl Broadcast (snd (Subscribe NewBroadcaster)) [ex_event 1, ex_event 2])) 0 =
   Some [ex_event 1, ex_event 2]"
  using Broadcast_delivers_latest [of "snd (Subscribe NewBroadcaster)" 0 "[]" "[ex_event 1, ex_event 2]"]
  by (simp add: Subscribe_def NewBroadcaster_def broadcaster_ok_def chan_ok_def keep_last_def
      chan_cap_def)

text \<open>
  broadcasting affects the subscribers one by one: it neither adds nor removes any, and
  unsubscribing one leaves every other buffer as it is.
\<close>

theorem subscribers_independent:
  "dom (map_of (subs (Broadcast b ev))) = dom (map_of (subs b)) \<and>
   (i \<noteq> j \<longrightarrow> map_of (subs (Unsubscribe b j)) i = map_of (subs b) i) \<and>
   map_of (subs (Unsubscribe b j)) j = None"
  by (auto simp: map_of_broadcast Unsubscribe_def delete_conv' split: option.splits)

theorem subscribers_independent_witness:
  "map_of (subs (Unsubscribe (snd (Subscribe NewBroadcaster)) 5)) 0 = Some []"
  using subscribers_independent [of NewBroadcaster "ex_event 1" 0 5]
    subscribers_independent [of "snd (Subscribe NewBroadcaster)" "ex_event 1" 0 5]
  by (simp add: Subscribe_def NewBroadcaster_def)

end
