(* ===== verification/RateLimit.thy ===== *)
theory RateLimit
  imports Transition "HOL-Library.AList" "HOL-Library.Log_Nat"
    "HOL-Library.Signed_Division"
begin

text \<open>
  Model of internal/ratelimit/ratelimit.go: the token bucket and the per (group, steward)
  limiter. float64 values are rationals and every arithmetic operation is followed by \<open>f64\<close>, the
  IEEE rounding to a 53-bit significand, ties to even (overflow and subnormals are outside the
  range of the values the code handles). Times are nanoseconds; each reading of the clock the
  code makes is an argument.
\<close>

section \<open>float64\<close>

definition flog2 :: "rat \<Rightarrow> int" where
  "flog2 x =
     (let (n, d) = quotient_of x; k = int (floorlog 2 (nat n)) - int (floorlog 2 (nat d))
      in if 2 powi k \<le> x then k else k - 1)"

definition round_half_even :: "rat \<Rightarrow> int" where
  "round_half_even x =
     (let n = \<lfloor>x\<rfloor>; r = x - of_int n
      in if r < 1 / 2 then n else if 1 / 2 < r then n + 1 else if even n then n else n + 1)"

definition f64_at :: "int \<Rightarrow> rat \<Rightarrow> rat" where
  "f64_at e x = of_int (round_half_even (x / 2 powi e)) * 2 powi e"

definition f64 :: "rat \<Rightarrow> rat" where
  "f64 x =
     (if x = 0 then 0
      else if x < 0 then - f64_at (flog2 (- x) - 52) (- x)
      else f64_at (flog2 x - 52) x)"

lemma round_half_even_int [simp]: "round_half_even (of_int n) = n"
  by (simp add: round_half_even_def)

lemma round_half_even_mono: "x \<le> y \<Longrightarrow> round_half_even x \<le> round_half_even y"
proof -
  assume le: "x \<le> y"
  then have fl: "\<lfloor>x\<rfloor> \<le> \<lfloor>y\<rfloor>" by (rule floor_mono)
  have up: "round_half_even z \<le> \<lfloor>z\<rfloor> + 1" "\<lfloor>z\<rfloor> \<le> round_half_even z" for z
    by (simp_all add: round_half_even_def Let_def)
  show ?thesis
  proof (cases "\<lfloor>x\<rfloor> = \<lfloor>y\<rfloor>")
    case True
    then show ?thesis using le by (auto simp: round_half_even_def Let_def)
  next
    case False
    then show ?thesis using fl up(1) [of x] up(2) [of y] by linarith
  qed
qed

lemma round_half_even_near: "\<bar>of_int (round_half_even x) - x\<bar> \<le> 1 / 2"
proof -
  have "of_int \<lfloor>x\<rfloor> \<le> x" "x < of_int \<lfloor>x\<rfloor> + 1" by linarith+
  then show ?thesis by (auto simp: round_half_even_def Let_def abs_le_iff)
qed

lemma floorlog_pow: "0 < n \<Longrightarrow> 2 ^ floorlog 2 n \<le> 2 * n \<and> n < 2 ^ floorlog 2 n"
proof -
  assume n: "0 < n"
  have "2 ^ (floorlog 2 n - 1) \<le> n \<and> n < 2 ^ floorlog 2 n"
    using floorlog_bounds [of n 2] n by auto
  moreover have "floorlog 2 n > 0" using n by (simp add: floorlog_def)
  ultimately show ?thesis by (cases "floorlog 2 n") auto
qed

lemma floorlog_rat:
  assumes "0 < n"
  shows "(2::rat) ^ floorlog 2 (nat n) \<le> 2 * of_int n"
    "of_int n < (2::rat) ^ floorlog 2 (nat n)"
proof -
  have n: "of_nat (nat n) = (of_int n :: rat)" using assms by simp
  have "2 ^ floorlog 2 (nat n) \<le> 2 * nat n" "nat n < 2 ^ floorlog 2 (nat n)"
    using floorlog_pow [of "nat n"] assms by auto
  then have "of_nat (2 ^ floorlog 2 (nat n)) \<le> (of_nat (2 * nat n) :: rat)"
    "of_nat (nat n) < (of_nat (2 ^ floorlog 2 (nat n)) :: rat)"
    by (simp_all only: of_nat_le_iff of_nat_less_iff)
  then show "(2::rat) ^ floorlog 2 (nat n) \<le> 2 * of_int n"
    "of_int n < (2::rat) ^ floorlog 2 (nat n)"
    by (simp_all only: of_nat_mult of_nat_power of_nat_numeral n)
qed

lemma flog2_bounds:
  assumes "0 < x"
  shows "2 powi flog2 x \<le> x \<and> x < 2 powi (flog2 x + 1)"
proof -
  obtain n d where q: "quotient_of x = (n, d)" by (cases "quotient_of x") auto
  have d: "0 < d" using quotient_of_denom_pos [OF q] .
  have x: "x = of_int n / of_int d" by (rule quotient_of_div [OF q])
  have n: "0 < n" using assms x d by (simp add: zero_less_divide_iff)
  let ?a = "floorlog 2 (nat n)" and ?b = "floorlog 2 (nat d)"
  note A = floorlog_rat [OF n] and B = floorlog_rat [OF d]
  let ?k = "int ?a - int ?b"
  have k: "(2::rat) powi ?k = 2 ^ ?a / 2 ^ ?b" by (simp add: power_int_diff)
  have k1: "(2::rat) powi (?k + 1) = 2 ^ ?a / 2 ^ ?b * 2 powi 1"
    unfolding k [symmetric] by (rule power_int_add) simp
  have up: "x < 2 powi (?k + 1)"
  proof -
    have "of_int n * (2::rat) ^ ?b < 2 ^ ?a * (2 * of_int d)"
      using A(2) B(1) n by (intro mult_less_le_imp_less) auto
    then show ?thesis using d unfolding x k1 by (simp add: field_simps)
  qed
  have k2: "(2::rat) powi (?k - 1) = 2 ^ ?a / 2 ^ ?b / 2 powi 1"
    unfolding k [symmetric] by (rule power_int_diff) simp
  have lo: "2 powi (?k - 1) \<le> x"
  proof -
    have "(2::rat) ^ ?a * of_int d \<le> 2 * of_int n * 2 ^ ?b"
      using A(1) B(2) d n by (intro mult_mono) auto
    then show ?thesis using d unfolding x k2 by (simp add: field_simps)
  qed
  show ?thesis using up lo by (simp add: flog2_def q Let_def)
qed

lemma f64_at_mono: "x \<le> y \<Longrightarrow> f64_at e x \<le> f64_at e y"
  by (auto simp: f64_at_def intro!: mult_right_mono round_half_even_mono divide_right_mono)

lemma f64_at_near: "\<bar>f64_at e x - x\<bar> \<le> 2 powi e / 2"
proof -
  have "f64_at e x - x = (of_int (round_half_even (x / 2 powi e)) - x / 2 powi e) * 2 powi e"
    by (simp add: f64_at_def field_simps)
  then have "\<bar>f64_at e x - x\<bar> = \<bar>of_int (round_half_even (x / 2 powi e)) - x / 2 powi e\<bar> * 2 powi e"
    by (simp add: abs_mult)
  also have "\<dots> \<le> (1 / 2) * 2 powi e"
    by (rule mult_right_mono [OF round_half_even_near]) simp
  finally show ?thesis by simp
qed

lemma f64_at_multiple: "x = of_int m * 2 powi e \<Longrightarrow> f64_at e x = x"
  by (simp add: f64_at_def)

lemma f64_0 [simp]: "f64 0 = 0"
  by (simp add: f64_def)

lemma f64_pos: "0 < x \<Longrightarrow> f64 x = f64_at (flog2 x - 52) x"
  by (simp add: f64_def)

text \<open>Rounding stays inside the binade of its argument.\<close>

lemma pow2_multiple:
  assumes "e \<le> k" shows "(2::rat) powi k = of_int (2 ^ nat (k - e)) * 2 powi e"
proof -
  have "(2::rat) powi k = 2 powi (k - e) * 2 powi e"
    by (simp add: power_int_diff)
  also have "(2::rat) powi (k - e) = of_int (2 ^ nat (k - e))"
    using assms by (simp add: power_int_def)
  finally show ?thesis .
qed

lemma f64_binade:
  assumes "0 < x"
  shows "2 powi flog2 x \<le> f64 x" "f64 x \<le> 2 powi (flog2 x + 1)"
proof -
  let ?e = "flog2 x - 52"
  note b = flog2_bounds [OF assms]
  have "f64_at ?e (2 powi flog2 x) = 2 powi flog2 x"
    "f64_at ?e (2 powi (flog2 x + 1)) = 2 powi (flog2 x + 1)"
    by (rule f64_at_multiple [OF pow2_multiple], simp)+
  then show "2 powi flog2 x \<le> f64 x" "f64 x \<le> 2 powi (flog2 x + 1)"
    using f64_at_mono [of "2 powi flog2 x" x ?e] f64_at_mono [of x "2 powi (flog2 x + 1)" ?e] b
    by (simp_all add: f64_pos assms)
qed

lemma f64_nonneg: "0 \<le> x \<Longrightarrow> 0 \<le> f64 x"
proof -
  assume "0 \<le> x"
  then consider "x = 0" | "0 < x" by linarith
  then show ?thesis
  proof cases
    case 2
    have "(0::rat) \<le> 2 powi flog2 x" by simp
    then show ?thesis using f64_binade(1) [OF 2] by linarith
  qed simp
qed

lemma f64_mono_pos:
  assumes "0 < x" "x \<le> y"
  shows "f64 x \<le> f64 y"
proof (cases "flog2 x = flog2 y")
  case True
  then show ?thesis using assms by (simp add: f64_pos f64_at_mono)
next
  case False
  note x = flog2_bounds [OF assms(1)] and y = flog2_bounds [of y]
  have "(2::rat) powi flog2 x < 2 powi (flog2 y + 1)"
    using x y assms by linarith
  then have "flog2 x < flog2 y + 1"
    using power_int_increasing [of "flog2 y + 1" "flog2 x" "2::rat"] by linarith
  with False have "flog2 x + 1 \<le> flog2 y" by simp
  then have "(2::rat) powi (flog2 x + 1) \<le> 2 powi flog2 y"
    by (intro power_int_increasing) auto
  then show ?thesis using f64_binade(2) [OF assms(1)] f64_binade(1) [of y] assms by linarith
qed

lemma f64_mono: "0 \<le> x \<Longrightarrow> x \<le> y \<Longrightarrow> f64 x \<le> f64 y"
  using f64_mono_pos [of x y] f64_nonneg [of y] by (cases "x = 0") auto

text \<open>The relative error of one operation.\<close>

definition ulp_half :: rat where
  "ulp_half = 1 / 2 ^ 53"

lemma f64_error:
  assumes "0 \<le> x"
  shows "\<bar>f64 x - x\<bar> \<le> x * ulp_half"
proof (cases "x = 0")
  case False
  with assms have x: "0 < x" by simp
  have "\<bar>f64 x - x\<bar> \<le> 2 powi (flog2 x - 52) / 2"
    using f64_at_near [of "flog2 x - 52" x] by (simp add: f64_pos x)
  also have "\<dots> = 2 powi flog2 x * ulp_half"
    by (simp add: power_int_diff ulp_half_def)
  also have "\<dots> \<le> x * ulp_half"
    using flog2_bounds [OF x] by (intro mult_right_mono) (auto simp: ulp_half_def)
  finally show ?thesis .
qed simp

text \<open>Integers up to 2^53 are represented exactly.\<close>

lemma f64_nat:
  assumes "n \<le> 2 ^ 53"
  shows "f64 (of_nat n) = of_nat n"
proof (cases "n = 0")
  case False
  let ?x = "of_nat n :: rat"
  have x: "0 < ?x" using False by simp
  note b = flog2_bounds [OF x]
  have "?x \<le> 2 ^ 53" using of_nat_mono [OF assms, where 'a = rat] by simp
  then have le: "?x \<le> 2 powi 53" by simp
  have "(2::rat) powi flog2 ?x \<le> 2 powi 53" using b le by linarith
  then have "flog2 ?x \<le> 53"
    using power_int_strict_increasing [of 53 "flog2 ?x" "2::rat"] by linarith
  then consider "flog2 ?x \<le> 52" | "flog2 ?x = 53" by linarith
  then show ?thesis
  proof cases
    case 1
    then have "(2::rat) powi 0 = of_int (2 ^ nat (0 - (flog2 ?x - 52))) * 2 powi (flog2 ?x - 52)"
      by (intro pow2_multiple) simp
    then have "?x = of_int (int n * 2 ^ nat (0 - (flog2 ?x - 52))) * 2 powi (flog2 ?x - 52)"
      by simp
    then show ?thesis by (simp only: f64_pos [OF x] f64_at_multiple)
  next
    case 2
    then have "?x = 2 powi 53" using b le by simp
    then have "?x = of_int (2 ^ 52) * 2 powi (flog2 ?x - 52)" using 2 by simp
    then show ?thesis by (simp only: f64_pos [OF x] f64_at_multiple)
  qed
qed simp

section \<open>Buckets\<close>

record bucket =
  b_Rate :: rat
  b_Burst :: rat
  tokens :: rat
  b_last :: int

definition NewBucket :: "rat \<Rightarrow> rat \<Rightarrow> int \<Rightarrow> bucket" where
  "NewBucket rate burst now = \<lparr>b_Rate = rate, b_Burst = burst, tokens = burst, b_last = now\<rparr>"

text \<open>time.Time.Sub saturates at the range of a Duration; Duration.Seconds adds the whole
  seconds and the remaining nanoseconds as floats.\<close>

definition time_sub :: "int \<Rightarrow> int \<Rightarrow> int" where
  "time_sub now from = max (- (2 ^ 63)) (min (now - from) (2 ^ 63 - 1))"

definition Seconds :: "int \<Rightarrow> rat" where
  "Seconds d = f64 (f64 (of_int (d sdiv 1000000000)) + f64 (f64 (of_int (d smod 1000000000)) / 1000000000))"

text \<open>The refill that Allow and Tokens share.\<close>

definition refill :: "bucket \<Rightarrow> int \<Rightarrow> bucket" where
  "refill b now =
     (let elapsed = Seconds (time_sub now (b_last b))
      in if elapsed > 0 then
           let t = f64 (tokens b + f64 (elapsed * b_Rate b))
           in b\<lparr>tokens := (if t > b_Burst b then b_Burst b else t), b_last := now\<rparr>
         else b)"

definition bucket_Allow :: "bucket \<Rightarrow> int \<Rightarrow> bool \<times> bucket" where
  "bucket_Allow b now =
     (let b = refill b now
      in if tokens b \<ge> 1 then (True, b\<lparr>tokens := f64 (tokens b - 1)\<rparr>) else (False, b))"

definition Tokens :: "bucket \<Rightarrow> int \<Rightarrow> rat \<times> bucket" where
  "Tokens b now = (let b = refill b now in (tokens b, b))"

text \<open>time.Duration of a float truncates toward zero.\<close>

definition trunc :: "rat \<Rightarrow> int" where
  "trunc x = (if x < 0 then - \<lfloor>- x\<rfloor> else \<lfloor>x\<rfloor>)"

definition retryAfter :: "bucket \<Rightarrow> int \<Rightarrow> int \<times> bucket" where
  "retryAfter b now =
     (if b_Rate b \<le> 0 then (3600 * 1000000000, b)
      else
        let (t, b) = Tokens b now; needed = f64 (1 - t)
        in if needed \<le> 0 then (0, b)
           else (trunc (f64 (f64 (1000000000 * needed) / b_Rate b)), b))"

section \<open>The limiter\<close>

record limiter =
  l_rate :: rat
  l_burst :: rat
  buckets :: "((group_id \<times> public_key) \<times> bucket) list"

record err_rate_limited =
  er_Steward :: public_key
  er_Group :: group_id
  er_RetryIn :: int
  er_Rate :: rat
  er_Burst :: rat

definition NewLimiter :: "rat \<Rightarrow> rat \<Rightarrow> limiter" where
  "NewLimiter rate burst = \<lparr>l_rate = rate, l_burst = burst, buckets = []\<rparr>"

text \<open>The clock is read when a bucket is created, in the bucket's Allow, and by retryAfter.\<close>

type_synonym readings = "int \<times> int \<times> int"

definition limiter_Allow ::
  "limiter \<Rightarrow> group_id \<Rightarrow> public_key \<Rightarrow> readings \<Rightarrow> err_rate_limited option \<times> limiter" where
  "limiter_Allow l gid steward clk =
     (case clk of (t0, t1, t2) \<Rightarrow>
       let k = (gid, steward);
           b = (case map_of (buckets l) k of
                  None \<Rightarrow> NewBucket (l_rate l) (l_burst l) t0 | Some b \<Rightarrow> b);
           (ok, b) = bucket_Allow b t1
       in if ok then (None, l\<lparr>buckets := AList.update k b (buckets l)\<rparr>)
          else
            let (retry, b) = retryAfter b t2
            in (Some \<lparr>er_Steward = steward, er_Group = gid, er_RetryIn = retry,
                      er_Rate = l_rate l, er_Burst = l_burst l\<rparr>,
                l\<lparr>buckets := AList.update k b (buckets l)\<rparr>))"

definition BucketCount :: "limiter \<Rightarrow> nat" where
  "BucketCount l = length (buckets l)"

section \<open>The bucket invariant and the refill bound\<close>

definition bucket_ok :: "bucket \<Rightarrow> bool" where
  "bucket_ok b = (0 \<le> b_Rate b \<and> 0 \<le> tokens b \<and> tokens b \<le> b_Burst b \<and> f64 (b_Burst b) = b_Burst b)"

lemma refill_same [simp]:
  "b_Rate (refill b now) = b_Rate b" "b_Burst (refill b now) = b_Burst b"
  by (simp_all add: refill_def Let_def)

lemma refill_ok: "bucket_ok b \<Longrightarrow> bucket_ok (refill b now)"
  by (auto simp: bucket_ok_def refill_def Let_def intro!: f64_nonneg add_nonneg_nonneg)

lemma bucket_Allow_ok: "bucket_ok b \<Longrightarrow> bucket_ok (snd (bucket_Allow b now))"
proof -
  assume "bucket_ok b"
  then have ok: "bucket_ok (refill b now)" by (rule refill_ok)
  let ?t = "tokens (refill b now)"
  have "f64 (?t - 1) \<le> b_Burst b" if "1 \<le> ?t"
    using f64_mono [of "?t - 1" "b_Burst b"] that ok by (simp add: bucket_ok_def)
  then show ?thesis
    using ok by (auto simp: bucket_Allow_def Let_def bucket_ok_def intro!: f64_nonneg)
qed

lemma bucket_Allow_same [simp]:
  "b_Rate (snd (bucket_Allow b now)) = b_Rate b" "b_Burst (snd (bucket_Allow b now)) = b_Burst b"
  by (simp_all add: bucket_Allow_def Let_def)

lemma f64_le: "0 \<le> x \<Longrightarrow> f64 x \<le> x * (1 + ulp_half)"
  using f64_error [of x] by (simp add: abs_le_iff algebra_simps)

lemma ulp_half_pos: "0 < ulp_half"
  by (simp add: ulp_half_def)

lemma f64_neg: "f64 (- x) = - f64 x"
  by (simp add: f64_def)

lemma Seconds_eq:
  assumes "0 \<le> d"
  shows "Seconds d = f64 (f64 (of_int (d div 1000000000)) + f64 (f64 (of_int (d mod 1000000000)) / 1000000000))"
    "Seconds (- d) = - Seconds d"
proof -
  have s: "d sdiv 1000000000 = d div 1000000000" "d smod 1000000000 = d mod 1000000000"
    "(- d) sdiv 1000000000 = - (d div 1000000000)" "(- d) smod 1000000000 = - (d mod 1000000000)"
    using assms by (auto simp: signed_divide_int_def signed_modulo_int_def sgn_if minus_mult_div_eq_mod)
  show "Seconds d = f64 (f64 (of_int (d div 1000000000)) + f64 (f64 (of_int (d mod 1000000000)) / 1000000000))"
    by (simp add: Seconds_def s)
  show "Seconds (- d) = - Seconds d"
    by (simp add: Seconds_def s f64_neg flip: f64_neg [of "_ + _"])
qed

lemma Seconds_nonneg: "0 \<le> d \<Longrightarrow> 0 \<le> Seconds d"
  by (auto simp: Seconds_eq intro!: f64_nonneg add_nonneg_nonneg divide_nonneg_nonneg)

lemma Seconds_pos: "0 < Seconds d \<Longrightarrow> 0 < d"
  using Seconds_nonneg [of "- d"] Seconds_eq(2) [of "- d"] by (cases "0 < d") auto

lemma Seconds_le:
  assumes "0 \<le> d"
  shows "Seconds d \<le> of_int d / 1000000000 * (1 + ulp_half) ^ 2"
proof -
  let ?s = "of_int (d div 1000000000) :: rat" and ?n = "of_int (d mod 1000000000) :: rat"
  have n: "f64 ?n = ?n"
    using f64_nat [of "nat (d mod 1000000000)"]
      pos_mod_bound [of 1000000000 d] by (simp add: nat_le_iff)
  have d: "of_int d = 1000000000 * ?s + ?n"
  proof -
    have "d = 1000000000 * (d div 1000000000) + d mod 1000000000" by simp
    then show ?thesis by (metis of_int_add of_int_mult of_int_numeral)
  qed
  have s0: "0 \<le> ?s" "0 \<le> ?n" using assms by (simp_all add: pos_imp_zdiv_nonneg_iff)
  have "f64 ?s + f64 (?n / 1000000000) \<le> ?s * (1 + ulp_half) + ?n / 1000000000 * (1 + ulp_half)"
    using s0 by (intro add_mono f64_le) auto
  also have "\<dots> = of_int d / 1000000000 * (1 + ulp_half)"
    by (simp add: d field_simps)
  finally have "(f64 ?s + f64 (?n / 1000000000)) * (1 + ulp_half)
      \<le> of_int d / 1000000000 * (1 + ulp_half) * (1 + ulp_half)"
    using ulp_half_pos by (intro mult_right_mono) auto
  moreover have "Seconds d \<le> (f64 ?s + f64 (?n / 1000000000)) * (1 + ulp_half)"
    unfolding Seconds_eq(1) [OF assms] n using s0
    by (intro f64_le add_nonneg_nonneg f64_nonneg) auto
  ultimately show ?thesis by (simp add: power2_eq_square algebra_simps)
qed

text \<open>What a refill can add: the elapsed time at the rate, up to the errors of its operations.\<close>

definition refill_slack :: rat where
  "refill_slack = (1 + ulp_half) ^ 4"

lemma refill_bound:
  assumes ok: "bucket_ok b"
  shows "b_last b \<le> b_last (refill b now) \<and>
     tokens (refill b now) \<le> tokens b + b_Burst b * ulp_half +
       b_Rate b * (of_int (b_last (refill b now) - b_last b) / 1000000000) * refill_slack"
proof (cases "0 < Seconds (time_sub now (b_last b))")
  case False
  then show ?thesis using ok ulp_half_pos by (simp add: refill_def Let_def bucket_ok_def)
next
  case True
  let ?d = "time_sub now (b_last b)" and ?u = ulp_half
  let ?x = "(of_int (now - b_last b) :: rat) / 1000000000"
  have d: "0 < ?d" by (rule Seconds_pos [OF True])
  then have later: "b_last b < now" and le: "?d \<le> now - b_last b"
    by (auto simp: time_sub_def)
  have r: "0 \<le> b_Rate b" "0 \<le> tokens b" "tokens b \<le> b_Burst b" using ok by (auto simp: bucket_ok_def)
  have S: "Seconds ?d \<le> ?x * (1 + ?u) ^ 2"
  proof -
    have "Seconds ?d \<le> of_int ?d / 1000000000 * (1 + ?u) ^ 2" using d by (intro Seconds_le) simp
    also have "\<dots> \<le> ?x * (1 + ?u) ^ 2"
      using le by (intro mult_right_mono divide_right_mono) (simp_all del: of_int_diff)
    finally show ?thesis .
  qed
  have add: "f64 (Seconds ?d * b_Rate b) \<le> b_Rate b * ?x * (1 + ?u) ^ 3"
  proof -
    have "f64 (Seconds ?d * b_Rate b) \<le> Seconds ?d * b_Rate b * (1 + ?u)"
      using True r by (intro f64_le mult_nonneg_nonneg) auto
    also have "\<dots> \<le> ?x * (1 + ?u) ^ 2 * b_Rate b * (1 + ?u)"
      using S r ulp_half_pos by (intro mult_right_mono) auto
    finally show ?thesis by (simp add: power3_eq_cube power2_eq_square mult.assoc mult.left_commute)
  qed
  have "f64 (tokens b + f64 (Seconds ?d * b_Rate b))
      \<le> (tokens b + f64 (Seconds ?d * b_Rate b)) * (1 + ?u)"
    using True r by (intro f64_le add_nonneg_nonneg f64_nonneg mult_nonneg_nonneg) auto
  also have "\<dots> \<le> (tokens b + b_Rate b * ?x * (1 + ?u) ^ 3) * (1 + ?u)"
    using add ulp_half_pos by (intro mult_right_mono add_left_mono) auto
  also have "\<dots> = tokens b + tokens b * ?u + b_Rate b * ?x * refill_slack"
    by (simp add: refill_slack_def algebra_simps eval_nat_numeral)
  also have "\<dots> \<le> tokens b + b_Burst b * ?u + b_Rate b * ?x * refill_slack"
    using r ulp_half_pos by simp
  finally have "f64 (tokens b + f64 (Seconds ?d * b_Rate b))
    \<le> tokens b + b_Burst b * ?u + b_Rate b * ?x * refill_slack" .
  then show ?thesis using True later by (auto simp: refill_def Let_def)
qed

lemma bucket_Allow_bound:
  assumes ok: "bucket_ok b"
  shows "b_last b \<le> b_last (snd (bucket_Allow b now)) \<and>
     of_bool (fst (bucket_Allow b now)) + tokens (snd (bucket_Allow b now)) \<le>
       tokens b + 2 * (b_Burst b * ulp_half) +
       b_Rate b * (of_int (b_last (snd (bucket_Allow b now)) - b_last b) / 1000000000) * refill_slack"
proof -
  let ?r = "refill b now"
  have r: "bucket_ok ?r" by (rule refill_ok [OF ok])
  have p: "0 \<le> b_Burst b * ulp_half"
    using ok ulp_half_pos by (auto simp: bucket_ok_def intro!: mult_nonneg_nonneg)
  have dec: "f64 (tokens ?r - 1) \<le> tokens ?r - 1 + b_Burst b * ulp_half" if "1 \<le> tokens ?r"
  proof -
    have "f64 (tokens ?r - 1) \<le> tokens ?r - 1 + (tokens ?r - 1) * ulp_half"
      using f64_le [of "tokens ?r - 1"] that by (simp add: algebra_simps)
    moreover have "(tokens ?r - 1) * ulp_half \<le> b_Burst b * ulp_half"
      using r ulp_half_pos by (intro mult_right_mono) (auto simp: bucket_ok_def)
    ultimately show ?thesis by simp
  qed
  show ?thesis
    using refill_bound [OF ok, of now] dec p
    by (auto simp: bucket_Allow_def Let_def)
qed

section \<open>Runs of calls\<close>

fun allow_run :: "bucket \<Rightarrow> int list \<Rightarrow> nat \<times> bucket" where
  "allow_run b [] = (0, b)"
| "allow_run b (t # ts) =
     (let (ok, b) = bucket_Allow b t; (n, b) = allow_run b ts
      in ((if ok then 1 else 0) + n, b))"

lemma allow_run_Cons:
  "allow_run b (t # ts) =
     ((if fst (bucket_Allow b t) then 1 else 0) + fst (allow_run (snd (bucket_Allow b t)) ts),
      snd (allow_run (snd (bucket_Allow b t)) ts))"
  by (simp add: case_prod_unfold Let_def)

lemma allow_run_bound:
  assumes "bucket_ok b"
  shows "b_last b \<le> b_last (snd (allow_run b ts)) \<and>
     of_nat (fst (allow_run b ts)) + tokens (snd (allow_run b ts)) \<le>
       tokens b + of_nat (length ts) * (2 * (b_Burst b * ulp_half)) +
       b_Rate b * (of_int (b_last (snd (allow_run b ts)) - b_last b) / 1000000000) * refill_slack"
  using assms
proof (induction ts arbitrary: b)
  case (Cons t ts)
  let ?b = "snd (bucket_Allow b t)"
  have IH: "b_last ?b \<le> b_last (snd (allow_run ?b ts)) \<and>
     of_nat (fst (allow_run ?b ts)) + tokens (snd (allow_run ?b ts)) \<le>
       tokens ?b + of_nat (length ts) * (2 * (b_Burst b * ulp_half)) +
       b_Rate b * (of_int (b_last (snd (allow_run ?b ts)) - b_last ?b) / 1000000000) * refill_slack"
    using Cons.IH [OF bucket_Allow_ok [OF Cons.prems, of t]] by simp
  define R :: "int \<Rightarrow> rat" where
    "R x = b_Rate b * (of_int x / 1000000000) * refill_slack" for x
  define u where "u = 2 * (b_Burst b * ulp_half)"
  let ?c = "snd (allow_run ?b ts)"
  have eq: "R (b_last ?c - b_last b) = R (b_last ?c - b_last ?b) + R (b_last ?b - b_last b)"
    by (simp add: R_def field_simps)
  have len: "of_nat (length (t # ts)) * u = u + of_nat (length ts) * u"
    by (simp add: algebra_simps)
  have step: "b_last b \<le> b_last ?b"
    "of_bool (fst (bucket_Allow b t)) + tokens ?b \<le> tokens b + u + R (b_last ?b - b_last b)"
    using bucket_Allow_bound [OF Cons.prems, of t] by (simp_all add: R_def u_def)
  have rest: "b_last ?b \<le> b_last ?c"
    "of_nat (fst (allow_run ?b ts)) + tokens ?c \<le>
       tokens ?b + of_nat (length ts) * u + R (b_last ?c - b_last ?b)"
    using IH by (simp_all add: R_def u_def)
  have cnt: "of_nat (fst (allow_run b (t # ts))) =
      of_bool (fst (bucket_Allow b t)) + (of_nat (fst (allow_run ?b ts)) :: rat)"
    by (simp add: allow_run_Cons del: allow_run.simps(2))
  have snd: "snd (allow_run b (t # ts)) = ?c" by (simp add: allow_run_Cons del: allow_run.simps(2))
  show ?case
    using eq step rest unfolding cnt snd u_def [symmetric] R_def [symmetric] len by linarith
qed simp

lemma allow_run_ok: "bucket_ok b \<Longrightarrow> bucket_ok (snd (allow_run b ts))"
  by (induction ts arbitrary: b) (auto simp: allow_run_Cons bucket_Allow_ok simp del: allow_run.simps(2))

lemma refill_same_time [simp]: "refill b (b_last b) = b"
  using Seconds_pos [of "time_sub (b_last b) (b_last b)"]
  by (auto simp: refill_def Let_def time_sub_def)

lemma f64_pred: "0 < n \<Longrightarrow> n \<le> 2 ^ 53 \<Longrightarrow> f64 (of_nat n - 1) = of_nat n - 1"
  using f64_nat [of "n - 1"] by (simp add: of_nat_diff)

lemma burst_run:
  assumes "tokens b = of_nat n" "n \<le> 2 ^ 53"
  shows "fst (allow_run b (replicate m (b_last b))) = min n m"
  using assms
proof (induction m arbitrary: b n)
  case (Suc m)
  show ?case
  proof (cases n)
    case 0
    then have "bucket_Allow b (b_last b) = (False, b)"
      using Suc.prems by (simp add: bucket_Allow_def)
    then show ?thesis using Suc.IH [OF Suc.prems] 0 by (simp add: allow_run_Cons del: allow_run.simps(2))
  next
    case (Suc k)
    have dec: "bucket_Allow b (b_last b) = (True, b\<lparr>tokens := of_nat k\<rparr>)"
      using Suc.prems Suc f64_pred [of n] by (simp add: bucket_Allow_def)
    have "fst (allow_run (b\<lparr>tokens := of_nat k\<rparr>) (replicate m (b_last b))) = min k m"
      using Suc.IH [of "b\<lparr>tokens := of_nat k\<rparr>" k] Suc.prems Suc by simp
    then show ?thesis using dec Suc by (simp add: allow_run_Cons del: allow_run.simps(2))
  qed
qed simp

lemma length_AList_update:
  "length (AList.update k v al) = (if map_of al k = None then Suc (length al) else length al)"
  by (induction al) auto

definition bucket_of :: "limiter \<Rightarrow> group_id \<times> public_key \<Rightarrow> int \<Rightarrow> bucket" where
  "bucket_of l k t0 =
     (case map_of (buckets l) k of None \<Rightarrow> NewBucket (l_rate l) (l_burst l) t0 | Some b \<Rightarrow> b)"

lemma limiter_Allow_shape:
  "\<exists>b. snd (limiter_Allow l g s (t0, t1, t2)) = l\<lparr>buckets := AList.update (g, s) b (buckets l)\<rparr> \<and>
     (fst (limiter_Allow l g s (t0, t1, t2)) = None \<longleftrightarrow> fst (bucket_Allow (bucket_of l (g, s) t0) t1))"
  unfolding limiter_Allow_def bucket_of_def [symmetric] Let_def
  by (cases "bucket_Allow (bucket_of l (g, s) t0) t1")
    (cases "retryAfter (snd (bucket_Allow (bucket_of l (g, s) t0) t1)) t2", auto)

section \<open>Properties\<close>

text \<open>
  C37: the rate limit itself: over any run of calls, whatever the clock readings (repeated and
  backward ones included), a steward gets at most the tokens in the bucket, plus the rate times
  the seconds the bucket's clock advanced, plus the rounding errors of the floating point
  operations; and the token count stays between 0 and the burst.
\<close>

theorem bucket_rate_bound:
  assumes "bucket_ok b" "allow_run b ts = (granted, b')"
  shows "of_nat granted \<le> tokens b
      + b_Rate b * (of_int (b_last b' - b_last b) / 1000000000) * (1 + 1 / 2 ^ 53) ^ 4
      + of_nat (length ts) * (2 * (b_Burst b / 2 ^ 53)) \<and>
    0 \<le> tokens b' \<and> tokens b' \<le> b_Burst b' \<and> b_last b \<le> b_last b'"
proof -
  have b': "b' = snd (allow_run b ts)" "granted = fst (allow_run b ts)" using assms(2) by simp_all
  have ok: "bucket_ok b'" unfolding b' by (rule allow_run_ok [OF assms(1)])
  show ?thesis
    using allow_run_bound [OF assms(1), of ts] ok
    unfolding b' [symmetric] by (auto simp: bucket_ok_def refill_slack_def ulp_half_def)
qed

theorem bucket_rate_bound_witness:
  "of_nat (fst (allow_run (NewBucket 1 2 0) [0, 0, 0])) \<le>
     2 + (of_int (b_last (snd (allow_run (NewBucket 1 2 0) [0, 0, 0]))) / 1000000000) *
       (1 + 1 / 2 ^ 53) ^ 4 + 3 * (2 * (2 / 2 ^ 53) :: rat)"
proof -
  have f2: "f64 2 = 2" using f64_nat [of 2] by simp
  have "bucket_ok (NewBucket 1 2 0)" by (simp add: bucket_ok_def NewBucket_def f2)
  from bucket_rate_bound [OF this, of "[0, 0, 0]", OF prod.collapse [symmetric]]
  have "of_nat (fst (allow_run (NewBucket 1 2 0) [0, 0, 0])) \<le> tokens (NewBucket 1 2 0)
      + b_Rate (NewBucket 1 2 0) * (of_int (b_last (snd (allow_run (NewBucket 1 2 0) [0, 0, 0]))
          - b_last (NewBucket 1 2 0)) / 1000000000) * (1 + 1 / 2 ^ 53) ^ 4
      + of_nat (length [0::int, 0, 0]) * (2 * (b_Burst (NewBucket 1 2 0) / 2 ^ 53))"
    by (rule conjunct1)
  moreover have "tokens (NewBucket 1 2 0) = 2" "b_Rate (NewBucket 1 2 0) = 1"
    "b_last (NewBucket 1 2 0) = 0" "b_Burst (NewBucket 1 2 0) = 2"
    "(of_nat (length [0::int, 0, 0]) :: rat) = 3"
    by (simp_all add: NewBucket_def)
  ultimately show ?thesis by (simp only: mult_1 diff_zero)
qed

text \<open>
  the burst: a new bucket with a whole burst n grants exactly the first n of any number of
  calls made at one clock reading, and refuses the others.
\<close>

theorem bucket_burst_exact:
  assumes "n \<le> 2 ^ 53"
  shows "fst (allow_run (NewBucket rate (of_nat n) now) (replicate m now)) = min n m"
  using burst_run [of "NewBucket rate (of_nat n) now" n m] assms by (simp add: NewBucket_def)

theorem bucket_burst_exact_witness:
  "fst (allow_run (NewBucket 1 (of_nat 3) 7) (replicate 5 7)) = 3"
  using bucket_burst_exact [of 3 1 7 5] by simp

text \<open>
  quotas are per (group, steward): a call creates at most its own bucket, with a full burst,
  leaves every other bucket as it is, and reports an error exactly when its bucket refuses.
\<close>

theorem limiter_buckets_independent:
  assumes "limiter_Allow l g s (t0, t1, t2) = (r, l')"
  shows "(k \<noteq> (g, s) \<longrightarrow> map_of (buckets l') k = map_of (buckets l) k) \<and>
    map_of (buckets l') (g, s) \<noteq> None \<and>
    BucketCount l' = (if map_of (buckets l) (g, s) = None then BucketCount l + 1 else BucketCount l) \<and>
    (r = None \<longleftrightarrow> fst (bucket_Allow (case map_of (buckets l) (g, s) of
        None \<Rightarrow> NewBucket (l_rate l) (l_burst l) t0 | Some b \<Rightarrow> b) t1)) \<and>
    l_rate l' = l_rate l \<and> l_burst l' = l_burst l"
proof -
  obtain b where "l' = l\<lparr>buckets := AList.update (g, s) b (buckets l)\<rparr>"
    "r = None \<longleftrightarrow> fst (bucket_Allow (bucket_of l (g, s) t0) t1)"
    using limiter_Allow_shape [of l g s t0 t1 t2] assms by auto
  then show ?thesis
    unfolding bucket_of_def by (simp add: BucketCount_def length_AList_update update_conv')
qed

theorem limiter_buckets_independent_witness:
  "BucketCount (snd (limiter_Allow (NewLimiter 1 2) (ex_key 1) (ex_key 2) (0, 0, 0))) = 1"
proof -
  have "buckets (NewLimiter 1 2) = []" by (simp add: NewLimiter_def)
  then show ?thesis
    using limiter_buckets_independent [of "NewLimiter 1 2" "ex_key 1" "ex_key 2" 0 0 0,
        OF prod.collapse [symmetric]]
    by (simp add: BucketCount_def)
qed

end
