(* ===== verification/Equivocation.thy ===== *)
theory Equivocation
  imports Transition Fifo "HOL-Library.AList"
begin

text \<open>
  Model of internal/group/equivocation.go without its State receiver: the log of the first
  (HLC, tx hash) seen for every (steward, prior state) pair with its first-in-first-out
  eviction, the evidence list with its cap, and the search for the steward that signed a
  transition. The maps are association lists. The State methods that use them are in Group.
\<close>

section \<open>The equivocation log\<close>

type_synonym steward = public_key

type_synonym equivocation_key = "public_key \<times> hash"

record hlc_seen =
  seen_HLC :: bytes
  seen_TxHash :: hash

record equivocation_log =
  maxEntries :: int
  evictions :: u64
  seen :: "(equivocation_key \<times> hlc_seen) list"
  insertionOrder :: "equivocation_key list"

record evidence =
  evd_GroupID :: group_id
  evd_StewardKey :: public_key
  evd_PriorState :: hash
  evd_TransitionA :: "transition option"
  evd_TransitionB :: "transition option"

definition EquivocationLogMaxEntries :: int where
  "EquivocationLogMaxEntries = 10000"

definition newEquivocationLog :: equivocation_log where
  "newEquivocationLog =
     \<lparr>maxEntries = EquivocationLogMaxEntries, evictions = 0, seen = [], insertionOrder = []\<rparr>"

definition NewEquivocationLogForTest :: "int \<Rightarrow> equivocation_log" where
  "NewEquivocationLogForTest n = \<lparr>maxEntries = n, evictions = 0, seen = [], insertionOrder = []\<rparr>"

definition SetMaxEntries :: "equivocation_log \<Rightarrow> int \<Rightarrow> equivocation_log" where
  "SetMaxEntries e n = e\<lparr>maxEntries := n\<rparr>"

text \<open>The eviction loop: pop the head while the order is longer than the cap.\<close>

fun evict_loop :: "int \<Rightarrow> equivocation_key list \<Rightarrow> (equivocation_key \<times> hlc_seen) list \<Rightarrow> u64
    \<Rightarrow> equivocation_key list \<times> (equivocation_key \<times> hlc_seen) list \<times> u64" where
  "evict_loop cap [] sn ev = ([], sn, ev)"
| "evict_loop cap (k # order) sn ev =
     (if int (length (k # order)) > cap
      then evict_loop cap order (AList.delete k sn) (ev + 1)
      else (k # order, sn, ev))"

definition evictOldestLocked :: "equivocation_log \<Rightarrow> equivocation_log" where
  "evictOldestLocked e =
     (if maxEntries e \<le> 0 \<or> insertionOrder e = [] then e
      else if int (length (insertionOrder e)) \<le> maxEntries e then e
      else
        let (order, sn, ev) = evict_loop (maxEntries e) (insertionOrder e) (seen e) (evictions e)
        in e\<lparr>insertionOrder := order, seen := sn, evictions := ev\<rparr>)"

definition equiv_insert :: "equivocation_log \<Rightarrow> equivocation_key \<Rightarrow> bytes \<Rightarrow> hash \<Rightarrow> equivocation_log" where
  "equiv_insert e key hlcBytes txHash =
     evictOldestLocked (e\<lparr>seen := AList.update key \<lparr>seen_HLC = hlcBytes, seen_TxHash = txHash\<rparr> (seen e),
                          insertionOrder := insertionOrder e @ [key]\<rparr>)"

definition InsertForTest :: "equivocation_log \<Rightarrow> public_key \<Rightarrow> hash \<Rightarrow> bytes \<Rightarrow> hash \<Rightarrow> equivocation_log" where
  "InsertForTest e s prior h tx = equiv_insert e (s, prior) h tx"

definition HasForTest :: "equivocation_log \<Rightarrow> public_key \<Rightarrow> hash \<Rightarrow> bool" where
  "HasForTest e s prior = (map_of (seen e) (s, prior) \<noteq> None)"

definition CheckForTest :: "equivocation_log \<Rightarrow> public_key \<Rightarrow> hash \<Rightarrow> bytes \<Rightarrow> hash \<Rightarrow> bool" where
  "CheckForTest e s prior h tx =
     (case map_of (seen e) (s, prior) of
        None \<Rightarrow> False
      | Some prev \<Rightarrow> if bytesEq (seen_HLC prev) h \<and> seen_TxHash prev = tx then False else True)"

definition Evictions :: "equivocation_log \<Rightarrow> u64" where
  "Evictions e = evictions e"

definition equiv_check :: "equivocation_log \<Rightarrow> public_key \<Rightarrow> hash \<Rightarrow> bytes \<Rightarrow> hash
    \<Rightarrow> evidence option \<times> equivocation_log" where
  "equiv_check e stewardKey priorState hlcBytes txHash =
     (case map_of (seen e) (stewardKey, priorState) of
        None \<Rightarrow> (None, equiv_insert e (stewardKey, priorState) hlcBytes txHash)
      | Some prev \<Rightarrow>
          if bytesEq (seen_HLC prev) hlcBytes \<and> seen_TxHash prev = txHash then (None, e)
          else (Some \<lparr>evd_GroupID = zero32, evd_StewardKey = stewardKey,
                      evd_PriorState = priorState, evd_TransitionA = None,
                      evd_TransitionB = None\<rparr>, e))"

section \<open>Evidence list\<close>

definition capEvidence :: "int \<Rightarrow> evidence list \<Rightarrow> evidence list" where
  "capEvidence cap evs = (if cap \<le> 0 then evs else drop_while_over (nat cap) evs)"

definition store_evidence :: "int \<Rightarrow> evidence list \<Rightarrow> evidence \<Rightarrow> evidence list" where
  "store_evidence cap evs ev = capEvidence cap (evs @ [ev])"

section \<open>The signing steward\<close>

definition verifyOne :: "('a prims_scheme) \<Rightarrow> public_key \<Rightarrow> signature \<Rightarrow> group_id \<Rightarrow> bytes \<Rightarrow> crypto_error option" where
  "verifyOne P pub sig groupKey payload = Verify P pub sig groupKey MsgKindTransition payload"

definition verifySingle :: "('a prims_scheme) \<Rightarrow> public_key \<Rightarrow> signature \<Rightarrow> group_id \<Rightarrow> bytes \<Rightarrow> crypto_error option" where
  "verifySingle P pub sig groupKey payload = verifyOne P pub sig groupKey payload"

text \<open>The loops of findSigningSteward. A match returns at once, so the code's \<open>matched\<close> set is
  empty whenever it is read.\<close>

fun first_verifying :: "('a prims_scheme) \<Rightarrow> transition \<Rightarrow> signature \<Rightarrow> steward list \<Rightarrow> steward option" where
  "first_verifying P t raw [] = None"
| "first_verifying P t raw (s # stewards) =
     (if verifySingle P s raw (tr_groupID t) (canonical t) = None then Some s
      else first_verifying P t raw stewards)"

fun find_signing :: "('a prims_scheme) \<Rightarrow> transition \<Rightarrow> signature list \<Rightarrow> steward list \<Rightarrow> public_key" where
  "find_signing P t [] stewards = zero32"
| "find_signing P t (raw # sigs) stewards =
     (case first_verifying P t raw stewards of
        Some s \<Rightarrow> s
      | None \<Rightarrow> find_signing P t sigs stewards)"

definition findSigningSteward :: "('a prims_scheme) \<Rightarrow> transition \<Rightarrow> steward list \<Rightarrow> public_key" where
  "findSigningSteward P t stewards =
     (case tp_steward_signatures (Proto t) of
        None \<Rightarrow> zero32
      | Some m \<Rightarrow> find_signing P t (sig_array m) stewards)"

section \<open>Lemmas: the log\<close>

text \<open>The insertion order lists exactly the recorded pairs, each once, within the cap.\<close>

definition equiv_ok :: "equivocation_log \<Rightarrow> bool" where
  "equiv_ok e \<longleftrightarrow>
     distinct (insertionOrder e) \<and> set (insertionOrder e) = dom (map_of (seen e)) \<and>
     (0 < maxEntries e \<longrightarrow> int (length (insertionOrder e)) \<le> maxEntries e)"

lemma evict_loop_order: "fst (evict_loop cap order sn ev) = drop (length order - nat cap) order"
proof (induction cap order sn ev rule: evict_loop.induct)
  case (2 cap k order sn ev)
  then show ?case
    by (auto simp: Suc_diff_le not_less not_le nat_le_iff)
qed simp

lemma evict_loop_seen:
  "distinct order \<Longrightarrow>
   map_of (fst (snd (evict_loop cap order sn ev))) k =
     (if k \<in> set (take (length order - nat cap) order) then None else map_of sn k)"
proof (induction cap order sn ev rule: evict_loop.induct)
  case (2 cap a order sn ev)
  then show ?case
    by (auto simp: Suc_diff_le not_less not_le nat_le_iff delete_conv')
qed simp

lemma equiv_insert_order:
  "insertionOrder (equiv_insert e k h x) =
     (if 0 < maxEntries e then keep_last (nat (maxEntries e)) (insertionOrder e @ [k])
      else insertionOrder e @ [k])"
  using evict_loop_order [of "maxEntries e" "insertionOrder e @ [k]"]
  by (auto simp: equiv_insert_def evictOldestLocked_def keep_last_def Let_def case_prod_unfold)

lemma maxEntries_insert [simp]: "maxEntries (equiv_insert e k h x) = maxEntries e"
  by (simp add: equiv_insert_def evictOldestLocked_def case_prod_unfold Let_def)

lemma equiv_insert_seen:
  assumes ok: "equiv_ok e" and new: "map_of (seen e) k = None"
  shows "map_of (seen (equiv_insert e k h x)) j =
     (if j \<in> set (insertionOrder (equiv_insert e k h x))
      then (if j = k then Some \<lparr>seen_HLC = h, seen_TxHash = x\<rparr> else map_of (seen e) j) else None)"
proof -
  let ?o = "insertionOrder e @ [k]" and ?n = "Suc (length (insertionOrder e)) - nat (maxEntries e)"
  have d: "distinct ?o" using ok new by (auto simp: equiv_ok_def)
  have all: "j \<in> set ?o \<longleftrightarrow> j = k \<or> map_of (seen e) j \<noteq> None"
    using ok by (auto simp: equiv_ok_def)
  have split: "set ?o = set (take ?n ?o) \<union> set (drop ?n ?o)"
    by (metis append_take_drop_id set_append)
  have disj: "set (take ?n ?o) \<inter> set (drop ?n ?o) = {}"
    using d by (metis append_take_drop_id distinct_append)
  show ?thesis
  proof (cases "0 < maxEntries e \<and> int (Suc (length (insertionOrder e))) > maxEntries e")
    case False
    then show ?thesis using all
      by (auto simp: equiv_insert_def evictOldestLocked_def update_conv')
  next
    case True
    then have "map_of (seen (equiv_insert e k h x)) j =
        (if j \<in> set (take ?n ?o) then None
         else ((map_of (seen e))(k \<mapsto> \<lparr>seen_HLC = h, seen_TxHash = x\<rparr>)) j)"
      using evict_loop_seen [OF d, of "maxEntries e"]
      by (auto simp: equiv_insert_def evictOldestLocked_def Let_def case_prod_unfold update_conv')
    moreover have "insertionOrder (equiv_insert e k h x) = drop ?n ?o"
      using True by (simp add: equiv_insert_order keep_last_def)
    ultimately show ?thesis using all split disj by auto
  qed
qed

lemma distinct_keep_last: "distinct xs \<Longrightarrow> distinct (keep_last n xs)"
  by (simp add: keep_last_def)

lemma equiv_insert_ok:
  assumes ok: "equiv_ok e" and new: "map_of (seen e) k = None"
  shows "equiv_ok (equiv_insert e k h x)"
proof -
  let ?e = "equiv_insert e k h x"
  have d: "distinct (insertionOrder e @ [k])" using ok new by (auto simp: equiv_ok_def)
  have sub: "set (insertionOrder ?e) \<subseteq> insert k (dom (map_of (seen e)))"
    using ok set_keep_last [of "nat (maxEntries e)" "insertionOrder e @ [k]"]
    by (auto simp: equiv_insert_order equiv_ok_def)
  have "dom (map_of (seen ?e)) = set (insertionOrder ?e)"
    using sub by (auto simp: equiv_insert_seen [OF ok new] dom_def)
  moreover have "distinct (insertionOrder ?e)"
    using d by (simp add: equiv_insert_order distinct_keep_last del: distinct_append)
  moreover have "0 < maxEntries ?e \<longrightarrow> int (length (insertionOrder ?e)) \<le> maxEntries ?e"
    by (auto simp: equiv_insert_order)
  ultimately show ?thesis by (simp add: equiv_ok_def)
qed

lemma equiv_check_cases:
  "map_of (seen e) (s, p) = None \<and> equiv_check e s p h x = (None, equiv_insert e (s, p) h x) \<or>
   (\<exists>prev. map_of (seen e) (s, p) = Some prev \<and> snd (equiv_check e s p h x) = e \<and>
     (fst (equiv_check e s p h x) = None \<longleftrightarrow> seen_HLC prev = h \<and> seen_TxHash prev = x))"
  by (auto simp: equiv_check_def split: option.splits)

lemma equiv_check_ok: "equiv_ok e \<Longrightarrow> equiv_ok (snd (equiv_check e s p h x))"
  using equiv_check_cases [of e s p h x] equiv_insert_ok [of e "(s, p)" h x] by auto

lemma maxEntries_check [simp]: "maxEntries (snd (equiv_check e s p h x)) = maxEntries e"
  using equiv_check_cases [of e s p h x] by auto

lemma equiv_new_ok: "equiv_ok newEquivocationLog"
  by (simp add: equiv_ok_def newEquivocationLog_def)

text \<open>An entry whose successors in the insertion order number at most j.\<close>

definition entry_within :: "nat \<Rightarrow> equivocation_log \<Rightarrow> equivocation_key \<Rightarrow> hlc_seen \<Rightarrow> bool" where
  "entry_within j e k v \<longleftrightarrow>
     map_of (seen e) k = Some v \<and>
     (\<exists>pre post. insertionOrder e = pre @ k # post \<and> length post \<le> j)"

lemma keep_last_suffix: "length (k # post) \<le> n \<Longrightarrow> \<exists>pre'. keep_last n (pre @ k # post) = pre' @ k # post"
  by (rule exI [of _ "drop (length (pre @ k # post) - n) pre"]) (simp add: keep_last_def)

lemma entry_within_insert:
  assumes ok: "equiv_ok e" and new: "map_of (seen e) k' = None" and w: "entry_within j e k v"
    and room: "0 < maxEntries e \<longrightarrow> int j + 2 \<le> maxEntries e"
  shows "entry_within (Suc j) (equiv_insert e k' h x) k v"
proof -
  let ?e = "equiv_insert e k' h x"
  obtain pre post where o: "insertionOrder e = pre @ k # post" "length post \<le> j"
    and v: "map_of (seen e) k = Some v"
    using w by (auto simp: entry_within_def)
  have "\<exists>pre'. insertionOrder ?e = pre' @ k # (post @ [k'])"
    using o room keep_last_suffix [of k "post @ [k']" "nat (maxEntries e)" pre]
    by (auto simp: equiv_insert_order)
  then obtain pre' where o': "insertionOrder ?e = pre' @ k # (post @ [k'])" ..
  have "k \<noteq> k'" using new v by auto
  then have "map_of (seen ?e) k = Some v"
    using o' v by (simp add: equiv_insert_seen [OF ok new])
  then show ?thesis using o(2)
    unfolding entry_within_def o' by (intro conjI exI [of _ pre'] exI [of _ "post @ [k']"]) simp_all
qed

lemma entry_within_Suc: "entry_within j e k v \<Longrightarrow> entry_within (Suc j) e k v"
  unfolding entry_within_def by (meson le_SucI)

lemma entry_within_check:
  assumes "equiv_ok e" "entry_within j e k v" "0 < maxEntries e \<longrightarrow> int j + 2 \<le> maxEntries e"
  shows "entry_within (Suc j) (snd (equiv_check e s p h x)) k v"
  using equiv_check_cases [of e s p h x] entry_within_insert [OF assms(1) _ assms(2,3)]
    entry_within_Suc [OF assms(2)]
  by auto

lemma entry_within_new:
  assumes "equiv_ok e" "map_of (seen e) k = None"
  shows "entry_within 0 (equiv_insert e k h x) k \<lparr>seen_HLC = h, seen_TxHash = x\<rparr>"
proof -
  have "\<exists>pre. insertionOrder (equiv_insert e k h x) = pre @ [k]"
    using keep_last_suffix [of k "[]" "nat (maxEntries e)" "insertionOrder e"]
    by (auto simp: equiv_insert_order)
  then show ?thesis by (auto simp: entry_within_def equiv_insert_seen [OF assms])
qed

text \<open>A run of checks, as Apply makes them.\<close>

type_synonym equiv_query = "public_key \<times> hash \<times> bytes \<times> hash"

definition check_run :: "equivocation_log \<Rightarrow> equiv_query list \<Rightarrow> equivocation_log" where
  "check_run e qs = foldl (\<lambda>e (s, p, h, x). snd (equiv_check e s p h x)) e qs"

lemma check_run_within:
  assumes "equiv_ok e" "entry_within j e k v"
    "0 < maxEntries e \<longrightarrow> int j + int (length qs) + 1 \<le> maxEntries e"
  shows "entry_within (j + length qs) (check_run e qs) k v"
  using assms
proof (induction qs arbitrary: e j)
  case (Cons q qs)
  obtain s p h x where q: "q = (s, p, h, x)" by (cases q) auto
  have "entry_within (Suc j + length qs) (check_run (snd (equiv_check e s p h x)) qs) k v"
    by (rule Cons.IH [OF equiv_check_ok [OF Cons.prems(1)] entry_within_check [OF Cons.prems(1,2)]])
      (use Cons.prems(3) in auto)
  then show ?case by (simp add: check_run_def q)
qed (simp add: check_run_def)

section \<open>Lemmas: evidence and signers\<close>

lemma capEvidence_eq: "capEvidence cap evs = (if cap \<le> 0 then evs else keep_last (nat cap) evs)"
  by (simp add: capEvidence_def drop_while_over_eq keep_last_def)

interpretation evq: bounded_fifo "store_evidence (int (Suc n))" id "Suc n" for n
  by unfold_locales (simp add: store_evidence_def capEvidence_eq del: of_nat_Suc nat_int_add)

lemma first_verifying_Some:
  "first_verifying P t raw stewards = Some s \<Longrightarrow>
   s \<in> set stewards \<and> verifyOne P s raw (tr_groupID t) (canonical t) = None"
  by (induction stewards) (auto simp: verifySingle_def split: if_splits)

lemma find_signing_cases:
  "find_signing P t sigs stewards = zero32 \<or>
   (find_signing P t sigs stewards \<in> set stewards \<and>
    (\<exists>raw\<in>set sigs. verifyOne P (find_signing P t sigs stewards) raw (tr_groupID t) (canonical t) = None))"
  by (induction sigs) (auto split: option.splits dest: first_verifying_Some)

section \<open>Properties\<close>

text \<open>
  the detection window: once a pair (steward, prior state) has been recorded, and until as
  many as the cap of other checks have been made, a second check of the pair with another HLC or
  tx hash yields evidence naming the steward and the prior state, and a replay of the recorded
  one yields none. With a cap of 0 or less nothing is ever forgotten.
\<close>

theorem equivocation_window:
  assumes "equiv_ok e" "map_of (seen e) (s, p) = None"
    "0 < maxEntries e \<longrightarrow> int (length qs) < maxEntries e"
  shows "(case fst (equiv_check (check_run (snd (equiv_check e s p h x)) qs) s p h' x') of
       None \<Rightarrow> h' = h \<and> x' = x
     | Some ev \<Rightarrow> (h' \<noteq> h \<or> x' \<noteq> x) \<and> evd_StewardKey ev = s \<and> evd_PriorState ev = p)"
proof -
  let ?e = "equiv_insert e (s, p) h x"
  have e: "snd (equiv_check e s p h x) = ?e" using assms(2) by (simp add: equiv_check_def)
  have "entry_within (0 + length qs) (check_run ?e qs) (s, p) \<lparr>seen_HLC = h, seen_TxHash = x\<rparr>"
    by (rule check_run_within [OF equiv_insert_ok entry_within_new]) (use assms in auto)
  then have "map_of (seen (check_run ?e qs)) (s, p) = Some \<lparr>seen_HLC = h, seen_TxHash = x\<rparr>"
    by (simp add: entry_within_def)
  then show ?thesis by (auto simp: e equiv_check_def [of "check_run ?e qs"])
qed

theorem equivocation_window_witness:
  "fst (equiv_check (snd (equiv_check (NewEquivocationLogForTest 2) (ex_key 1) (ex_key 2) [1] (ex_key 3)))
     (ex_key 1) (ex_key 2) [2] (ex_key 3)) \<noteq> None"
  using equivocation_window [where e = "NewEquivocationLogForTest 2" and s = "ex_key 1" and
      p = "ex_key 2" and qs = "[]" and h = "[1]" and x = "ex_key 3" and h' = "[2]" and x' = "ex_key 3"]
  by (auto simp: equiv_ok_def NewEquivocationLogForTest_def check_run_def split: option.splits)

text \<open>
  the log stays within its cap and consistent under checks: the insertion order lists each
  recorded pair once, and holds at most the cap of them.
\<close>

theorem equiv_check_invariant:
  assumes "equiv_ok e"
  shows "equiv_ok (snd (equiv_check e s p h x)) \<and>
    (0 < maxEntries e \<longrightarrow> int (length (insertionOrder (snd (equiv_check e s p h x)))) \<le> maxEntries e)"
  using equiv_check_ok [OF assms, of s p h x] by (simp add: equiv_ok_def)

theorem equiv_check_invariant_witness:
  "equiv_ok (snd (equiv_check newEquivocationLog (ex_key 1) (ex_key 2) [1] (ex_key 3)))"
  using equiv_check_invariant [of newEquivocationLog "ex_key 1" "ex_key 2" "[1]" "ex_key 3"]
  by (simp add: equiv_ok_def newEquivocationLog_def)

text \<open>
  attribution: the steward findSigningSteward names is one of the given stewards and one of
  the envelope's signatures verifies under its key over the transition's canonical bytes; the
  zero key means it found none.
\<close>

theorem findSigningSteward_sound:
  assumes "findSigningSteward P t stewards \<noteq> zero32"
  shows "findSigningSteward P t stewards \<in> set stewards \<and>
    (\<exists>m. tp_steward_signatures (Proto t) = Some m \<and>
       (\<exists>raw\<in>set (sig_array m).
          verifyOne P (findSigningSteward P t stewards) raw (tr_groupID t) (canonical t) = None))"
proof (cases "tp_steward_signatures (Proto t)")
  case None
  then show ?thesis using assms by (simp add: findSigningSteward_def)
next
  case (Some m)
  then show ?thesis
    using assms find_signing_cases [of P t "sig_array m" stewards]
    by (auto simp: findSigningSteward_def)
qed

theorem findSigningSteward_sound_witness:
  "findSigningSteward ex_prims \<lparr>Proto = (ex_pb []) \<lparr>tp_steward_signatures :=
       Some \<lparr>ms_signatures = [ex_sig 2], ms_threshold = 1\<rparr>\<rparr>, canonical = [], tr_groupID = ex_key 9\<rparr>
     [ex_key 1, ex_key 2] \<in> set [ex_key 1, ex_key 2]"
proof -
  have "findSigningSteward ex_prims \<lparr>Proto = (ex_pb []) \<lparr>tp_steward_signatures :=
       Some \<lparr>ms_signatures = [ex_sig 2], ms_threshold = 1\<rparr>\<rparr>, canonical = [], tr_groupID = ex_key 9\<rparr>
     [ex_key 1, ex_key 2] = ex_key 2"
    by (simp add: findSigningSteward_def verifySingle_def verifyOne_def Verify_def
        VerifyWithMessage_def ex_prims_def sig_array_def ex_pb_def)
  then show ?thesis
    by (intro findSigningSteward_sound [THEN conjunct1]) (simp add: ex_key_def)
qed

end
