(* ===== verification/Branch.thy ===== *)
theory Branch
  imports Equivocation
begin

text \<open>
  Model of internal/group/branch.go: the per-branch state of a group and the registry of its
  branches. The eight fields that a branch and the State share (snapshot, histories, initial
  sets, log, equivocation log) are the record \<open>chain\<close>; Apply swaps one for the other. Go maps
  keyed by hashes are functions to options; the registry is an association list.
\<close>

section \<open>State\<close>

record chain =
  snapshot :: state_snapshot
  stewardHistory :: "hash \<Rightarrow> steward list option"
  thresholdHistory :: "hash \<Rightarrow> u32 option"
  keySeq :: "string \<Rightarrow> u64 option"
  initialStewards :: "steward list"
  initialThreshold :: u32
  log :: "transition list"
  equivocation :: "equivocation_log option"

definition new_chain :: chain where
  "new_chain = \<lparr>snapshot = \<lparr>Entries = []\<rparr>, stewardHistory = Map.empty,
     thresholdHistory = Map.empty, keySeq = Map.empty, initialStewards = [],
     initialThreshold = 0, log = [], equivocation = None\<rparr>"

record branch =
  br_id :: u32
  br_chain :: chain
  br_transitionCount :: u64
  br_parentBranchID :: u32
  br_genesisHLC :: bytes
  br_reason :: string

definition GenesisBranchID :: u32 where
  "GenesisBranchID = 0"

definition newBranch :: "u32 \<Rightarrow> branch" where
  "newBranch i = \<lparr>br_id = i, br_chain = new_chain, br_transitionCount = 0,
     br_parentBranchID = 0, br_genesisHLC = [], br_reason = []\<rparr>"

section \<open>Accessors\<close>

definition branch_Root :: "hashfun \<Rightarrow> branch \<Rightarrow> hash" where
  "branch_Root sha b = Root sha (snapshot (br_chain b))"

definition branch_Snapshot :: "branch \<Rightarrow> state_snapshot" where
  "branch_Snapshot b = snapshot (br_chain b)"

definition branch_TransitionCount :: "branch \<Rightarrow> u64" where
  "branch_TransitionCount b = br_transitionCount b"

definition branch_ParentBranchID :: "branch \<Rightarrow> u32" where
  "branch_ParentBranchID b = br_parentBranchID b"

definition branch_GenesisHLC :: "branch \<Rightarrow> bytes" where
  "branch_GenesisHLC b = br_genesisHLC b"

definition branch_Reason :: "branch \<Rightarrow> string" where
  "branch_Reason b = br_reason b"

definition branch_InitialStewards :: "branch \<Rightarrow> steward list" where
  "branch_InitialStewards b = initialStewards (br_chain b)"

definition branch_InitialThreshold :: "branch \<Rightarrow> u32" where
  "branch_InitialThreshold b = initialThreshold (br_chain b)"

section \<open>The registry\<close>

record branch_registry =
  branches :: "(u32 \<times> branch) list"
  nextID :: u32

definition newBranchRegistry :: branch_registry where
  "newBranchRegistry = \<lparr>branches = [], nextID = 1\<rparr>"

definition branch_get :: "branch_registry \<Rightarrow> u32 \<Rightarrow> branch option" where
  "branch_get r i = map_of (branches r) i"

definition branch_getOrCreate :: "branch_registry \<Rightarrow> u32 \<Rightarrow> branch \<times> branch_registry" where
  "branch_getOrCreate r i =
     (case map_of (branches r) i of
        Some b \<Rightarrow> (b, r)
      | None \<Rightarrow> (newBranch i, r\<lparr>branches := AList.update i (newBranch i) (branches r)\<rparr>))"

definition branch_allocate :: "branch_registry \<Rightarrow> u32 \<Rightarrow> string \<Rightarrow> branch \<times> branch_registry" where
  "branch_allocate r parent reason =
     (let i = nextID r;
          b = (newBranch i)\<lparr>br_parentBranchID := parent, br_reason := reason\<rparr>
      in (b, r\<lparr>nextID := nextID r + 1, branches := AList.update i b (branches r)\<rparr>))"

text \<open>Writing through the pointer of a registered branch.\<close>

definition branch_put :: "branch_registry \<Rightarrow> u32 \<Rightarrow> branch \<Rightarrow> branch_registry" where
  "branch_put r i b = r\<lparr>branches := AList.update i b (branches r)\<rparr>"

text \<open>The exchange sort of list(): for each i, every later j with a smaller id is swapped in.\<close>

fun exchange_inner :: "u32 list \<Rightarrow> nat \<Rightarrow> nat list \<Rightarrow> u32 list" where
  "exchange_inner ids i [] = ids"
| "exchange_inner ids i (j # js) =
     exchange_inner (if ids ! j < ids ! i then ids[i := ids ! j, j := ids ! i] else ids) i js"

definition exchange_sort :: "u32 list \<Rightarrow> u32 list" where
  "exchange_sort ids =
     foldl (\<lambda>ids i. exchange_inner ids i [Suc i..<length ids]) ids [0..<length ids]"

record branch_info =
  bi_BranchId :: u32
  bi_Head :: hash
  bi_ParentBranchId :: u32
  bi_GenesisHlc :: bytes
  bi_TransitionCount :: u64
  bi_Reason :: string

definition branch_info_of :: "hashfun \<Rightarrow> branch \<Rightarrow> branch_info" where
  "branch_info_of sha b = \<lparr>bi_BranchId = br_id b, bi_Head = branch_Root sha b,
     bi_ParentBranchId = br_parentBranchID b, bi_GenesisHlc = br_genesisHLC b,
     bi_TransitionCount = br_transitionCount b, bi_Reason = br_reason b\<rparr>"

definition branch_list :: "hashfun \<Rightarrow> branch_registry \<Rightarrow> branch_info list" where
  "branch_list sha r =
     map (branch_info_of sha)
       (List.map_filter (\<lambda>i. map_of (branches r) i) (exchange_sort (map fst (branches r))))"

section \<open>Lemmas: the exchange sort\<close>

text \<open>After the inner loop over the positions j up to n, position i holds the least id seen.\<close>

lemma swap_mset:
  assumes "i < length (xs :: 'a list)" "j < length xs"
  shows "mset (xs[i := xs ! j, j := xs ! i]) = mset xs"
  using mset_swap [of j xs i] assms by simp

lemma exchange_inner_inv:
  assumes "i < length ids" "\<forall>j\<in>set js. i < j \<and> j < length ids" "distinct js"
  shows "length (exchange_inner ids i js) = length ids \<and> mset (exchange_inner ids i js) = mset ids \<and>
    take i (exchange_inner ids i js) = take i ids \<and>
    exchange_inner ids i js ! i \<le> ids ! i \<and>
    (\<forall>j\<in>set js. exchange_inner ids i js ! i \<le> exchange_inner ids i js ! j) \<and>
    (\<forall>j. j \<noteq> i \<and> j \<notin> set js \<longrightarrow> exchange_inner ids i js ! j = ids ! j)"
  using assms
proof (induction js arbitrary: ids)
  case (Cons j js)
  let ?s = "if ids ! j < ids ! i then ids[i := ids ! j, j := ids ! i] else ids"
  have j: "i < j" "j < length ids" "j \<notin> set js" using Cons.prems by auto
  have s: "length ?s = length ids" "mset ?s = mset ids" "take i ?s = take i ids"
    "?s ! i \<le> ids ! i" "?s ! i \<le> ?s ! j"
    "\<forall>k. k \<noteq> i \<and> k \<noteq> j \<longrightarrow> ?s ! k = ids ! k"
    using j Cons.prems(1) swap_mset [of i ids j] by auto
  have IH: "length (exchange_inner ?s i js) = length ?s \<and> mset (exchange_inner ?s i js) = mset ?s \<and>
    take i (exchange_inner ?s i js) = take i ?s \<and>
    exchange_inner ?s i js ! i \<le> ?s ! i \<and>
    (\<forall>j\<in>set js. exchange_inner ?s i js ! i \<le> exchange_inner ?s i js ! j) \<and>
    (\<forall>j. j \<noteq> i \<and> j \<notin> set js \<longrightarrow> exchange_inner ?s i js ! j = ?s ! j)"
    by (rule Cons.IH) (use Cons.prems s in auto)
  have unf: "exchange_inner ids i (j # js) = exchange_inner ?s i js" by simp
  have "exchange_inner ?s i js ! j = ?s ! j" using IH j by simp
  with IH s j show ?case unfolding unf
    by (auto simp del: exchange_inner.simps intro: order_trans)
qed simp

lemma exchange_prefix:
  assumes "n \<le> length ids"
  shows "let xs = foldl (\<lambda>ids i. exchange_inner ids i [Suc i..<length ids]) ids [0..<n]
    in length xs = length ids \<and> mset xs = mset ids \<and> sorted (take n xs) \<and>
       (\<forall>a\<in>set (take n xs). \<forall>b\<in>set (drop n xs). a \<le> b)"
  using assms
proof (induction n)
  case (Suc n)
  define xs where "xs = foldl (\<lambda>ids i. exchange_inner ids i [Suc i..<length ids]) ids [0..<n]"
  define ys where "ys = exchange_inner xs n [Suc n..<length xs]"
  have xs: "length xs = length ids" "mset xs = mset ids" "sorted (take n xs)"
    "\<forall>a\<in>set (take n xs). \<forall>b\<in>set (drop n xs). a \<le> b"
    using Suc by (auto simp: xs_def Let_def)
  have n: "n < length xs" using Suc.prems xs by simp
  have ys: "length ys = length xs" "mset ys = mset xs" "take n ys = take n xs"
    "\<forall>j\<in>set [Suc n..<length xs]. ys ! n \<le> ys ! j"
    using exchange_inner_inv [of n xs "[Suc n..<length xs]"] n by (auto simp: ys_def)
  have "mset (take n ys) + mset (drop n ys) = mset (take n xs) + mset (drop n xs)"
    using ys(2) by (metis append_take_drop_id mset_append)
  then have "mset (drop n ys) = mset (drop n xs)" using ys(3) by simp
  then have rest: "set (drop n ys) = set (drop n xs)" by (metis set_mset_mset)
  have dn: "drop n ys = ys ! n # drop (Suc n) ys" "take (Suc n) ys = take n ys @ [ys ! n]"
    using n ys(1) by (simp_all add: Cons_nth_drop_Suc take_Suc_conv_app_nth)
  have below: "\<forall>a\<in>set (take n ys). \<forall>b\<in>set (drop n ys). a \<le> b"
    using xs(4) ys(3) rest by simp
  have min: "\<forall>b\<in>set (drop (Suc n) ys). ys ! n \<le> b"
    using ys(1,4) by (auto simp: in_set_conv_nth)
  have "foldl (\<lambda>ids i. exchange_inner ids i [Suc i..<length ids]) ids [0..<Suc n] = ys"
    by (simp add: ys_def xs_def)
  moreover have "sorted (take (Suc n) ys)"
    using below dn xs(3) ys(3) by (auto simp: sorted_append)
  moreover have "\<forall>a\<in>set (take (Suc n) ys). \<forall>b\<in>set (drop (Suc n) ys). a \<le> b"
    using below dn min by auto
  ultimately show ?case using xs ys by (simp add: Let_def)
qed (simp add: Let_def)

lemma exchange_sort_eq: "exchange_sort ids = sort ids"
proof -
  have "mset (exchange_sort ids) = mset ids" "sorted (exchange_sort ids)"
    using exchange_prefix [of "length ids" ids] by (auto simp: exchange_sort_def Let_def)
  then show ?thesis by (metis properties_for_sort)
qed

section \<open>Lemmas: the registry\<close>

text \<open>Every branch is filed once, under its own id, and below the next id; genesis is 0.\<close>

definition registry_ok :: "branch_registry \<Rightarrow> bool" where
  "registry_ok r \<longleftrightarrow>
     distinct (map fst (branches r)) \<and> 0 < nextID r \<and>
     (\<forall>i b. branch_get r i = Some b \<longrightarrow> br_id b = i \<and> i < nextID r)"

lemma registry_okD:
  "registry_ok r \<Longrightarrow> branch_get r i = Some b \<Longrightarrow> br_id b = i \<and> i < nextID r"
  by (simp add: registry_ok_def)

lemma branch_get_put [simp]:
  "branch_get (branch_put r i b) j = (if j = i then Some b else branch_get r j)"
  by (simp add: branch_get_def branch_put_def update_conv')

lemma branch_get_allocate [simp]:
  "branch_get (snd (branch_allocate r p reason)) j =
     (if j = nextID r then Some (fst (branch_allocate r p reason)) else branch_get r j)"
  by (simp add: branch_get_def branch_allocate_def Let_def update_conv')

lemma branch_get_genesis [simp]:
  "branch_get (snd (branch_getOrCreate r i)) j =
     (if j = i \<and> branch_get r i = None then Some (newBranch i) else branch_get r j)"
  by (auto simp: branch_get_def branch_getOrCreate_def update_conv' split: option.splits)

lemma nextID_simps [simp]:
  "nextID (branch_put r i b) = nextID r"
  "nextID (snd (branch_allocate r p reason)) = nextID r + 1"
  "nextID (snd (branch_getOrCreate r i)) = nextID r"
  by (simp_all add: branch_put_def branch_allocate_def branch_getOrCreate_def Let_def
      split: option.splits)

lemma allocate_fields [simp]:
  "br_id (fst (branch_allocate r p reason)) = nextID r"
  "br_parentBranchID (fst (branch_allocate r p reason)) = p"
  "br_reason (fst (branch_allocate r p reason)) = reason"
  by (simp_all add: branch_allocate_def Let_def newBranch_def)

lemma distinct_branches:
  assumes "distinct (map fst (branches r))"
  shows "distinct (map fst (branches (branch_put r i b)))"
    "distinct (map fst (branches (snd (branch_allocate r p reason))))"
    "distinct (map fst (branches (snd (branch_getOrCreate r i))))"
  using assms distinct_update [of "branches r"]
  by (simp_all add: branch_put_def branch_allocate_def branch_getOrCreate_def Let_def
      split: option.splits)

lemma registry_ok_new: "registry_ok newBranchRegistry"
  by (simp add: registry_ok_def newBranchRegistry_def branch_get_def)

lemma registry_ok_genesis:
  "registry_ok r \<Longrightarrow> registry_ok (snd (branch_getOrCreate r GenesisBranchID))"
  by (simp add: registry_ok_def distinct_branches GenesisBranchID_def newBranch_def)

lemma registry_ok_allocate:
  assumes "registry_ok r" "nextID r \<noteq> - 1"
  shows "registry_ok (snd (branch_allocate r p reason))"
proof -
  have lt: "nextID r < nextID r + 1" by (rule word_succ(2) [OF assms(2)])
  have pos: "0 < nextID r" using assms(1) by (simp add: registry_ok_def)
  show ?thesis
    unfolding registry_ok_def nextID_simps branch_get_allocate
  proof (intro conjI allI impI)
    show "distinct (map fst (branches (snd (branch_allocate r p reason))))"
      using assms(1) by (simp add: registry_ok_def distinct_branches)
    show "0 < nextID r + 1" by (rule order.strict_trans [OF pos lt])
    fix i b
    assume i: "(if i = nextID r then Some (fst (branch_allocate r p reason)) else branch_get r i) = Some b"
    then show "br_id b = i"
      using registry_okD [OF assms(1), of i b] by (auto split: if_splits)
    show "i < nextID r + 1"
      using i registry_okD [OF assms(1), of i b] lt order.strict_trans
      by (auto split: if_splits)
  qed
qed

lemma registry_ok_put:
  assumes "registry_ok r" "branch_get r i \<noteq> None" "br_id b' = i"
  shows "registry_ok (branch_put r i b')"
  using assms by (auto simp: registry_ok_def distinct_branches)

lemma fresh_nextID: "registry_ok r \<Longrightarrow> branch_get r (nextID r) = None"
  using registry_okD [of r "nextID r"] by (cases "branch_get r (nextID r)") auto

section \<open>Properties\<close>

text \<open>
  allocation never reuses an id: while the 32-bit counter has not reached its last value,
  the new branch has an id that was not in the registry, every existing branch stays as it is,
  and the registry invariant holds again.
\<close>

theorem allocate_fresh:
  assumes "registry_ok r" "nextID r \<noteq> - 1" "branch_allocate r parent reason = (b, r')"
  shows "branch_get r (br_id b) = None \<and> branch_get r' (br_id b) = Some b \<and>
    (\<forall>i. i = br_id b \<or> branch_get r' i = branch_get r i) \<and> registry_ok r' \<and>
    br_parentBranchID b = parent \<and> br_reason b = reason"
proof -
  have b: "b = fst (branch_allocate r parent reason)" "r' = snd (branch_allocate r parent reason)"
    using assms(3) by simp_all
  show ?thesis
    unfolding b using registry_ok_allocate [OF assms(1,2)] fresh_nextID [OF assms(1)] by simp
qed

theorem allocate_fresh_witness:
  "br_id (fst (branch_allocate (snd (branch_allocate newBranchRegistry 0 ''a'')) 0 ''b'')) = 2 \<and>
   branch_get (snd (branch_allocate newBranchRegistry 0 ''a'')) 2 = None"
proof -
  have r: "registry_ok (snd (branch_allocate newBranchRegistry 0 ''a''))"
    by (rule registry_ok_allocate [OF registry_ok_new]) (simp add: newBranchRegistry_def)
  have n: "nextID (snd (branch_allocate newBranchRegistry 0 ''a'')) = 2"
    by (simp add: branch_allocate_def newBranchRegistry_def Let_def)
  then have i: "br_id (fst (branch_allocate (snd (branch_allocate newBranchRegistry 0 ''a'')) 0 ''b'')) = 2"
    by (simp add: branch_allocate_def [of "snd _"] Let_def newBranch_def)
  show ?thesis
    using allocate_fresh [OF r _ prod.collapse [symmetric], of 0 "''b''"] n by simp
qed

text \<open>
  list() reports every branch of the registry exactly once, by increasing id.
\<close>

theorem branch_list_sorted:
  assumes "registry_ok r"
  shows "map bi_BranchId (branch_list sha r) = sort (map fst (branches r)) \<and>
    set (branch_list sha r) = branch_info_of sha ` ran (map_of (branches r))"
proof -
  let ?m = "map_of (branches r)"
  have dom: "set (map fst (branches r)) = dom ?m" by (simp add: dom_map_of_conv_image_fst)
  have ids: "map (br_id) (List.map_filter ?m xs) = xs" if "set xs \<subseteq> dom ?m" for xs
    using that registry_okD [OF assms, unfolded branch_get_def]
    by (induction xs) (auto simp: map_filter_simps split: option.splits)
  have "set (List.map_filter ?m (sort (map fst (branches r)))) = ran ?m"
    using dom by (force simp: map_filter_def ran_def dom_def)
  moreover have "bi_BranchId \<circ> branch_info_of sha = br_id"
    by (auto simp: branch_info_of_def)
  ultimately show ?thesis
    using ids [of "sort (map fst (branches r))"] dom
    by (simp add: branch_list_def exchange_sort_eq)
qed

theorem branch_list_sorted_witness:
  "map bi_BranchId (branch_list id (snd (branch_allocate newBranchRegistry 0 ''a''))) = [1]"
proof -
  have "registry_ok (snd (branch_allocate newBranchRegistry 0 ''a''))"
    by (rule registry_ok_allocate [OF registry_ok_new]) (simp add: newBranchRegistry_def)
  from branch_list_sorted [OF this] show ?thesis
    by (simp add: branch_allocate_def newBranchRegistry_def Let_def)
qed

end
