(* ===== verification/Group.thy ===== *)
theory Group
  imports KVStore HLC RateLimit Mesh Custody Broadcaster Branch
begin

text \<open>
  The State of internal/group/group.go and its lookups: the record of the state machine, the
  constructor with its caps, the steward set and threshold at a root, the equivocation check
  against the log, and the public accessors. \<open>machine\<close> holds the fields the transition logic
  reads and writes; \<open>state\<close> adds the broadcaster and the persister of the same Go struct. The
  fields that belong to the branch in focus are the record \<open>chain\<close> (theory Branch).
\<close>

section \<open>State\<close>

record machine =
  groupID :: group_id
  mbranches :: branch_registry
  mchain :: chain
  meshPeers :: "mesh_registry option"
  custody :: "custody_log option"
  MaxStewards :: int
  Limiter :: "limiter option"
  MaxMeshPeers :: int
  equivocationEvidence :: "evidence list"
  MaxEvidenceEntries :: int
  MaxLogSize :: int
  MaxKVSize :: int
  MaxKVEntries :: int
  MaxKVBytes :: int
  MaxBranches :: int

text \<open>The SQLite log of persistence.go: the rows (canonical bytes, transition bytes) in seq
  order, and the group id that LoadTransitions binds the transitions to.\<close>

record sqlite_persister =
  sp_rows :: "(bytes \<times> bytes) list"
  sp_gid :: group_id

record state =
  core :: machine
  broadcaster :: "broadcaster option"
  persister :: "sqlite_persister option"
  replaying :: bool

definition new_machine :: "group_id \<Rightarrow> machine" where
  "new_machine gid = \<lparr>groupID = gid, mbranches = newBranchRegistry, mchain = new_chain,
     meshPeers = None, custody = None, MaxStewards = 100, Limiter = None, MaxMeshPeers = 100,
     equivocationEvidence = [], MaxEvidenceEntries = 10000, MaxLogSize = 100000,
     MaxKVSize = 100000, MaxKVEntries = 100000, MaxKVBytes = 100000000, MaxBranches = 1000\<rparr>"

definition NewState :: "group_id \<Rightarrow> state" where
  "NewState gid = \<lparr>core = new_machine gid, broadcaster = None, persister = None, replaying = False\<rparr>"

section \<open>Lookups\<close>

definition currentRoot :: "env \<Rightarrow> chain \<Rightarrow> hash" where
  "currentRoot E c = Root (sha256 E) (snapshot c)"

text \<open>\<open>root == nil || len(root.GetHash()) == 0\<close>.\<close>

definition no_hash :: "bytes option \<Rightarrow> bool" where
  "no_hash rt = (case rt of None \<Rightarrow> True | Some h \<Rightarrow> length h = 0)"

definition hash_array :: "bytes option \<Rightarrow> hash" where
  "hash_array rt = (case rt of None \<Rightarrow> zero32 | Some h \<Rightarrow> copy32 h)"

definition stewardsAtLocked :: "env \<Rightarrow> chain \<Rightarrow> bytes option \<Rightarrow> steward list" where
  "stewardsAtLocked E c rt =
     (if no_hash rt then
        (case stewardHistory c (currentRoot E c) of Some st \<Rightarrow> st | None \<Rightarrow> initialStewards c)
      else
        (case stewardHistory c (hash_array rt) of Some st \<Rightarrow> st | None \<Rightarrow> []))"

definition thresholdAtLocked :: "env \<Rightarrow> chain \<Rightarrow> bytes option \<Rightarrow> u32" where
  "thresholdAtLocked E c rt =
     (if no_hash rt then
        (case thresholdHistory c (currentRoot E c) of Some t \<Rightarrow> t | None \<Rightarrow> initialThreshold c)
      else
        (case thresholdHistory c (hash_array rt) of Some t \<Rightarrow> t | None \<Rightarrow> 0))"

definition stewardsAndThresholdAtLocked :: "env \<Rightarrow> chain \<Rightarrow> bytes option \<Rightarrow> steward list \<times> u32" where
  "stewardsAndThresholdAtLocked E c rt = (stewardsAtLocked E c rt, thresholdAtLocked E c rt)"

definition currentStewardsLocked :: "env \<Rightarrow> chain \<Rightarrow> steward list" where
  "currentStewardsLocked E c =
     (case stewardHistory c (currentRoot E c) of Some st \<Rightarrow> st | None \<Rightarrow> initialStewards c)"

text \<open>The deduplicating loop of prospectiveStewardsAfterAddLocked.\<close>

fun dedup_from :: "steward list \<Rightarrow> steward list \<Rightarrow> steward list" where
  "dedup_from out [] = out"
| "dedup_from out (st # cur) =
     (if st \<in> set out then dedup_from out cur else dedup_from (out @ [st]) cur)"

definition prospectiveStewardsAfterAddLocked :: "env \<Rightarrow> chain \<Rightarrow> public_key \<Rightarrow> steward list" where
  "prospectiveStewardsAfterAddLocked E c key =
     (let out = dedup_from [] (currentStewardsLocked E c)
      in if key \<in> set out then out else out @ [key])"

definition computeCurrentStewards :: "env \<Rightarrow> chain \<Rightarrow> pb_transition \<Rightarrow> steward list" where
  "computeCurrentStewards E c t =
     (let current = stewardsAtLocked E c (tp_prior_state t)
      in case tp_type t of
           CREATE_GROUP \<Rightarrow> initialStewards c
         | ADD_STEWARD \<Rightarrow>
             (let key = (case tp_payload t of Some (P_AddSteward k) \<Rightarrow> copy32 k | _ \<Rightarrow> zero32)
              in if key \<in> set current then current else current @ [key])
         | REMOVE_STEWARD \<Rightarrow>
             (let key = (case tp_payload t of Some (P_RemoveSteward k) \<Rightarrow> copy32 k | _ \<Rightarrow> zero32)
              in filter (\<lambda>st. st \<noteq> key) current)
         | SLASH_STEWARD \<Rightarrow>
             (let key = (case tp_payload t of Some (P_SlashSteward p) \<Rightarrow> copy32 (sl_slashed_steward p)
                         | _ \<Rightarrow> zero32)
              in filter (\<lambda>st. st \<noteq> key) current)
         | _ \<Rightarrow> current)"

definition computeCurrentThreshold :: "env \<Rightarrow> chain \<Rightarrow> pb_transition \<Rightarrow> u32" where
  "computeCurrentThreshold E c t =
     (let current =
        (if no_hash (tp_prior_state t) then initialThreshold c
         else (case thresholdHistory c (hash_array (tp_prior_state t)) of
                 Some thr \<Rightarrow> thr | None \<Rightarrow> initialThreshold c))
      in case tp_type t of
           CHANGE_THRESHOLD \<Rightarrow>
             (case tp_payload t of Some (P_ChangeThreshold n) \<Rightarrow> n | _ \<Rightarrow> 0)
         | _ \<Rightarrow> current)"

section \<open>Signatures\<close>

definition verifyStewardSignaturesWith ::
  "env \<Rightarrow> transition \<Rightarrow> steward list \<Rightarrow> u32 \<Rightarrow> envelope_error option" where
  "verifyStewardSignaturesWith E t stewards threshold =
     (case tp_steward_signatures (Proto t) of
        None \<Rightarrow> Some NoStewardSignatures
      | Some m \<Rightarrow>
          map_option SignatureVerification
            (VerifyMultisig E stewards threshold (sig_array m) (tr_groupID t)
               MsgKindTransition (canonical t)))"

definition VerifyStewardSignatures :: "env \<Rightarrow> transition \<Rightarrow> chain \<Rightarrow> envelope_error option" where
  "VerifyStewardSignatures E t c =
     (let (stewards, threshold) = stewardsAndThresholdAtLocked E c (tp_prior_state (Proto t))
      in verifyStewardSignaturesWith E t stewards threshold)"

section \<open>Equivocation at the level of the State\<close>

text \<open>The walk back over the log for the transition seen first.\<close>

definition find_transitionA :: "env \<Rightarrow> chain \<Rightarrow> public_key \<Rightarrow> hash \<Rightarrow> transition option" where
  "find_transitionA E c signing priorState =
     find (\<lambda>t. prior_of t = priorState \<and>
        findSigningSteward E t (stewardsAtLocked E c (tp_prior_state (Proto t))) = signing)
       (rev (log c))"

definition checkEquivocationLocked ::
  "env \<Rightarrow> machine \<Rightarrow> public_key \<Rightarrow> hash \<Rightarrow> bytes \<Rightarrow> hash \<Rightarrow> transition option \<Rightarrow> bool \<times> machine" where
  "checkEquivocationLocked E m signing priorState hlcBytes txHash conflicting =
     (let e = (case equivocation (mchain m) of None \<Rightarrow> newEquivocationLog | Some e \<Rightarrow> e);
          (ev, e') = equiv_check e signing priorState hlcBytes txHash;
          m' = m\<lparr>mchain := (mchain m)\<lparr>equivocation := Some e'\<rparr>\<rparr>
      in case ev of
           None \<Rightarrow> (False, m')
         | Some ev \<Rightarrow>
             let ev = ev\<lparr>evd_TransitionA := find_transitionA E (mchain m') signing priorState,
                         evd_TransitionB := conflicting\<rparr>
             in (True, m'\<lparr>equivocationEvidence :=
                            store_evidence (MaxEvidenceEntries m) (equivocationEvidence m) ev\<rparr>))"

definition StoreEvidence :: "machine \<Rightarrow> evidence \<Rightarrow> machine" where
  "StoreEvidence m ev =
     m\<lparr>equivocationEvidence := store_evidence (MaxEvidenceEntries m) (equivocationEvidence m) ev\<rparr>"

definition StoredEvidence :: "machine \<Rightarrow> evidence list" where
  "StoredEvidence m = equivocationEvidence m"

definition EquivocationEvidenceFor :: "machine \<Rightarrow> public_key \<Rightarrow> hash \<Rightarrow> evidence option" where
  "EquivocationEvidenceFor m stewardKey priorState =
     (case equivocation (mchain m) of
        None \<Rightarrow> None
      | Some e \<Rightarrow>
          if map_of (seen e) (stewardKey, priorState) = None then None
          else Some \<lparr>evd_GroupID = groupID m, evd_StewardKey = stewardKey,
                    evd_PriorState = priorState, evd_TransitionA = None, evd_TransitionB = None\<rparr>)"

definition AllEquivocationEvidence :: "machine \<Rightarrow> evidence list" where
  "AllEquivocationEvidence m =
     (case equivocation (mchain m) of
        None \<Rightarrow> []
      | Some e \<Rightarrow>
          map (\<lambda>(k, v). \<lparr>evd_GroupID = groupID m, evd_StewardKey = fst k, evd_PriorState = snd k,
                        evd_TransitionA = None, evd_TransitionB = None\<rparr>)
            (filter (\<lambda>(k, v). seen_HLC v \<noteq> []) (seen e)))"

definition EquivocationEvictions :: "machine \<Rightarrow> u64" where
  "EquivocationEvictions m =
     (case equivocation (mchain m) of None \<Rightarrow> 0 | Some e \<Rightarrow> Evictions e)"

section \<open>Accessors of the State\<close>

definition state_Snapshot :: "state \<Rightarrow> state_snapshot" where
  "state_Snapshot s = snapshot (mchain (core s))"

definition state_Root :: "env \<Rightarrow> state \<Rightarrow> hash" where
  "state_Root E s = currentRoot E (mchain (core s))"

definition TransitionCount :: "state \<Rightarrow> u64" where
  "TransitionCount s = word_of_nat (length (log (mchain (core s))))"

definition Stewards :: "env \<Rightarrow> state \<Rightarrow> steward list" where
  "Stewards E s = stewardsAtLocked E (mchain (core s)) None"

definition Threshold :: "env \<Rightarrow> state \<Rightarrow> u32" where
  "Threshold E s = thresholdAtLocked E (mchain (core s)) None"

definition StewardsAt :: "env \<Rightarrow> state \<Rightarrow> bytes option \<Rightarrow> steward list" where
  "StewardsAt E s rt = stewardsAtLocked E (mchain (core s)) rt"

definition ThresholdAt :: "env \<Rightarrow> state \<Rightarrow> bytes option \<Rightarrow> u32" where
  "ThresholdAt E s rt = thresholdAtLocked E (mchain (core s)) rt"

definition Log :: "state \<Rightarrow> transition list" where
  "Log s = log (mchain (core s))"

definition MeshPeers :: "state \<Rightarrow> mesh_peer list" where
  "MeshPeers s = mesh_snapshot (meshPeers (core s))"

definition IsMeshMember :: "state \<Rightarrow> bytes \<Rightarrow> bool" where
  "IsMeshMember s wgKey = IsMember (meshPeers (core s)) wgKey"

definition CustodyView :: "state \<Rightarrow> custody_view option" where
  "CustodyView s = custody_snapshot (custody (core s))"

definition Branches :: "env \<Rightarrow> state \<Rightarrow> branch_info list" where
  "Branches E s = branch_list (sha256 E) (mbranches (core s))"

definition state_Branch :: "state \<Rightarrow> u32 \<Rightarrow> branch option" where
  "state_Branch s i = branch_get (mbranches (core s)) i"

definition BranchCount :: "state \<Rightarrow> nat" where
  "BranchCount s = length (branches (mbranches (core s)))"

definition state_Broadcaster :: "state \<Rightarrow> broadcaster \<times> state" where
  "state_Broadcaster s =
     (case broadcaster s of
        Some b \<Rightarrow> (b, s)
      | None \<Rightarrow> (NewBroadcaster, s\<lparr>broadcaster := Some NewBroadcaster\<rparr>))"

definition broadcastLocked :: "state \<Rightarrow> transition \<Rightarrow> hash \<Rightarrow> u64 \<Rightarrow> state" where
  "broadcastLocked s t rt index =
     (case broadcaster s of
        None \<Rightarrow> s
      | Some b \<Rightarrow> s\<lparr>broadcaster := Some (Broadcast b
           \<lparr>ev_transition = t, ev_newRoot = rt, ev_index = index\<rparr>)\<rparr>)"

end
