(* ===== verification/Gates.thy ===== *)
theory Gates
  imports Group
begin

text \<open>
  Model of internal/group/gates.go: the per-type gates that Apply runs after the multisig
  envelope (the mesh member's co-signature, custody declarations, slashing, name bindings), the
  storage keys of certificates, bindings and attestations, and the co-signature check. A gate
  returns the error, \<open>None\<close> for Go's nil.
\<close>

section \<open>Co-signatures\<close>

definition domainPrefix :: "('a prims_scheme) \<Rightarrow> string \<Rightarrow> bytes \<Rightarrow> bytes" where
  "domainPrefix P domain msg =
     sha256 P (bytes_of domain @ be64 (word_of_nat (length msg)) @ msg)"

definition verifyCoSignerSignature :: "('a prims_scheme) \<Rightarrow> bytes \<Rightarrow> bytes \<Rightarrow> bytes \<Rightarrow> bool" where
  "verifyCoSignerSignature P cosignerPubKey msg sig =
     (if length cosignerPubKey \<noteq> 32 \<or> length sig \<noteq> 64 then False
      else ed25519_verify P cosignerPubKey (domainPrefix P ''add_host_peer_cosig'' msg) sig)"

section \<open>Gates\<close>

definition verifyAddHostPeerPayload :: "env \<Rightarrow> machine \<Rightarrow> add_host_peer \<Rightarrow> group_error option" where
  "verifyAddHostPeerPayload E m p =
     (let cosignerKey = copy32 (ap_cosigner_peer_key p)
      in if length (ap_cosigner_peer_key p) \<noteq> 32 then Some (Peer CosignerKeySize)
         else if MeshPeerByCoSigner (meshPeers m) cosignerKey = None
         then Some (Peer (CosignerNotMember cosignerKey))
         else
           (case marshal_add_host_peer E (p\<lparr>ap_cosigner_peer_signature := []\<rparr>) of
              None \<Rightarrow> Some MarshalFailed
            | Some cb \<Rightarrow>
                if verifyCoSignerSignature E cosignerKey cb (ap_cosigner_peer_signature p)
                then None else Some (Peer CosignatureInvalid)))"

definition verifyDeclareStewardCustody ::
  "env \<Rightarrow> machine \<Rightarrow> bytes \<Rightarrow> custody_tier \<Rightarrow> group_error option" where
  "verifyDeclareStewardCustody E m st tier =
     (if tier = CUSTODY_UNSPECIFIED then Some (Rule CustodyTierUnspecified)
      else if list_ex (\<lambda>s. s = copy32 st) (stewardsAtLocked E (mchain m) None) then None
      else Some (Rule (CustodyNotSteward (copy32 st))))"

definition verifySlashStewardPayload ::
  "env \<Rightarrow> machine \<Rightarrow> slash_steward \<Rightarrow> transition \<Rightarrow> group_error option" where
  "verifySlashStewardPayload E m p t =
     (let slashedKey = copy32 (sl_slashed_steward p);
          stewards = stewardsAtLocked E (mchain m) (tp_prior_state (Proto t))
      in if \<not> list_ex (\<lambda>s. s = slashedKey) stewards then Some (Rule (SlashNotCurrent slashedKey))
         else
           (case tp_steward_signatures (Proto t) of
              None \<Rightarrow> Some (Rule SlashNoSignatures)
            | Some ms \<Rightarrow>
                if list_ex (\<lambda>raw. verifyOne E slashedKey raw (tr_groupID t) (canonical t) = None)
                     (sig_array ms)
                then Some (Rule (SlashSelfSigned slashedKey)) else None))"

definition verifyNameBindPayload :: "name_bind \<Rightarrow> group_error option" where
  "verifyNameBindPayload p =
     (case validateStringField ''name'' (nb_name p) 1 256 of
        Some e \<Rightarrow> Some e
      | None \<Rightarrow> if nb_not_after p = None then Some (Rule NameBindNoNotAfter) else None)"

section \<open>Storage keys\<close>

definition get_seconds :: "timestamp option \<Rightarrow> int" where
  "get_seconds ts = (case ts of None \<Rightarrow> 0 | Some ts \<Rightarrow> ts_seconds ts)"

definition hostCertStorageKey :: "host_cert \<Rightarrow> string" where
  "hostCertStorageKey p =
     ''host_cert/'' @ hc_hostname p @ ''/'' @ hex (hc_host_tls_key p) @ ''/'' @
     dec_int (get_seconds (hc_not_after p))"

definition hostCertRevocationKey :: "revoke_host_cert \<Rightarrow> string" where
  "hostCertRevocationKey p =
     ''host_cert_revoke/'' @ rh_hostname p @ ''/'' @ hex (rh_host_tls_key p) @ ''/'' @
     dec_int (get_seconds (rh_not_after p))"

definition hostCertStorageKeyFromRevoke :: "revoke_host_cert \<Rightarrow> string" where
  "hostCertStorageKeyFromRevoke p =
     ''host_cert/'' @ rh_hostname p @ ''/'' @ hex (rh_host_tls_key p) @ ''/'' @
     dec_int (get_seconds (rh_not_after p))"

definition nameBindStorageKey :: "name_bind \<Rightarrow> string" where
  "nameBindStorageKey p =
     (let dir = (if nb_directory_host p = '''' then ''*'' else nb_directory_host p)
      in ''name_bind/'' @ dir @ ''/'' @ nb_name p @ ''/'' @ dec_int (get_seconds (nb_not_after p)))"

definition attestStorageKey :: "attest \<Rightarrow> string" where
  "attestStorageKey p = ''attest/'' @ hex (at_to_identity p)"

section \<open>Lemmas\<close>

lemma slash_gate_None:
  "verifySlashStewardPayload E m p t = None \<longleftrightarrow>
     copy32 (sl_slashed_steward p) \<in> set (stewardsAtLocked E (mchain m) (tp_prior_state (Proto t))) \<and>
     (\<exists>ms. tp_steward_signatures (Proto t) = Some ms \<and>
        (\<forall>raw\<in>set (sig_array ms).
           verifyOne E (copy32 (sl_slashed_steward p)) raw (tr_groupID t) (canonical t) \<noteq> None))"
  by (auto simp: verifySlashStewardPayload_def Let_def list_ex_iff split: option.splits)

lemma add_host_peer_gate_None:
  "verifyAddHostPeerPayload E m p = None \<longleftrightarrow>
     length (ap_cosigner_peer_key p) = 32 \<and>
     MeshPeerByCoSigner (meshPeers m) (ap_cosigner_peer_key p) \<noteq> None \<and>
     (\<exists>c. marshal_add_host_peer E (p\<lparr>ap_cosigner_peer_signature := []\<rparr>) = Some c \<and>
        length (ap_cosigner_peer_signature p) = 64 \<and>
        ed25519_verify E (ap_cosigner_peer_key p) (domainPrefix E ''add_host_peer_cosig'' c)
          (ap_cosigner_peer_signature p))"
  by (auto simp: verifyAddHostPeerPayload_def verifyCoSignerSignature_def Let_def
      split: option.splits if_splits)

lemma custody_gate_None:
  "verifyDeclareStewardCustody E m st tier = None \<longleftrightarrow>
     tier \<noteq> CUSTODY_UNSPECIFIED \<and> copy32 st \<in> set (stewardsAtLocked E (mchain m) None)"
  by (auto simp: verifyDeclareStewardCustody_def list_ex_iff)

lemma name_bind_gate_None:
  "verifyNameBindPayload p = None \<longleftrightarrow>
     1 \<le> length (nb_name p) \<and> length (nb_name p) \<le> 256 \<and> utf8_valid (nb_name p) \<and>
     nb_not_after p \<noteq> None"
  using validateStringField_ok [of "''name''" "nb_name p" 1 256]
  by (cases "validateStringField ''name'' (nb_name p) 1 256") (auto simp: verifyNameBindPayload_def)

section \<open>Properties\<close>

text \<open>
  the certificate key identifies the certificate: two certificates share a storage key
  exactly when host name, TLS key and expiry second agree, whatever characters the host name
  holds; and a revocation tombstones the entry of exactly the certificate it names.
\<close>

theorem hostCertStorageKey_injective:
  "(hostCertStorageKey a = hostCertStorageKey b \<longleftrightarrow>
      hc_hostname a = hc_hostname b \<and> hc_host_tls_key a = hc_host_tls_key b \<and>
      get_seconds (hc_not_after a) = get_seconds (hc_not_after b)) \<and>
   (hostCertStorageKeyFromRevoke r = hostCertStorageKey a \<longleftrightarrow>
      rh_hostname r = hc_hostname a \<and> rh_host_tls_key r = hc_host_tls_key a \<and>
      get_seconds (rh_not_after r) = get_seconds (hc_not_after a))"
proof -
  have key: "h @ ''/'' @ hex k @ ''/'' @ dec_int n = h' @ ''/'' @ hex k' @ ''/'' @ dec_int n' \<longleftrightarrow>
      h = h' \<and> k = k' \<and> n = n'" for h h' k k' n n'
  proof -
    have "h @ ''/'' @ hex k @ ''/'' @ dec_int n = (h @ ''/'' @ hex k) @ CHR ''/'' # dec_int n"
      "h' @ ''/'' @ hex k' @ ''/'' @ dec_int n' = (h' @ ''/'' @ hex k') @ CHR ''/'' # dec_int n'"
      by simp_all
    then show ?thesis
      using append_sep_inject [OF slash_notin_dec_int slash_notin_dec_int,
          of "h @ ''/'' @ hex k" n "h' @ ''/'' @ hex k'" n']
        append_sep_inject [OF slash_notin_hex slash_notin_hex, of h k h' k']
      by auto
  qed
  show ?thesis
    by (simp only: hostCertStorageKey_def hostCertStorageKeyFromRevoke_def same_append_eq key)
qed

text \<open>
  name bindings of different directories can collide: the key does not separate the
  directory host from the name, so one binding can overwrite another.
\<close>

theorem nameBindStorageKey_collision:
  "\<exists>a b. nb_directory_host a \<noteq> nb_directory_host b \<and> nb_name a \<noteq> nb_name b \<and>
     verifyNameBindPayload a = None \<and> verifyNameBindPayload b = None \<and>
     nameBindStorageKey a = nameBindStorageKey b"
proof -
  let ?n = "Some \<lparr>ts_seconds = 5, ts_nanos = 0\<rparr>"
  let ?a = "\<lparr>nb_name = ''b/c'', nb_directory_host = ''a'', nb_not_after = ?n\<rparr>"
  let ?b = "\<lparr>nb_name = ''c'', nb_directory_host = ''a/b'', nb_not_after = ?n\<rparr>"
  have "verifyNameBindPayload ?a = None" "verifyNameBindPayload ?b = None"
    by (simp_all add: name_bind_gate_None utf8_valid_def)
  then show ?thesis
    by (intro exI [of _ ?a] exI [of _ ?b]) (simp add: nameBindStorageKey_def)
qed

end
