(* ===== verification/Handlers.thy ===== *)
theory Handlers
  imports Gates
begin

text \<open>
  The payload switch of State.Apply (internal/group/group.go): one definition per transition
  type. A type whose case only writes the key-value state is a function to the list of its
  writes, or to the error it returns before any write; a case that also changes the mesh
  registry, the custody log, the evidence list or the branch registry returns the machine, which
  keeps those changes when a later write of the same case is refused.
\<close>

type_synonym writes = "(string \<times> bytes option) list"

section \<open>Writing\<close>

text \<open>appendOrUpdate with the caps of the State; the first refused write ends the case.\<close>

fun put_kvs :: "machine \<Rightarrow> state_entry list \<Rightarrow> writes \<Rightarrow> group_error + state_entry list" where
  "put_kvs m es [] = Inr es"
| "put_kvs m es ((k, v) # ws) =
     (case appendOrUpdate es k v (MaxKVSize m) (MaxKVBytes m) of
        (es', kvAllowed) \<Rightarrow> if kvAllowed then put_kvs m es' ws else Inl ErrKVSizeExceeded)"

definition entries_of :: "machine \<Rightarrow> state_entry list" where
  "entries_of m = Entries (snapshot (mchain m))"

definition run_writes :: "machine \<Rightarrow> group_error + writes \<Rightarrow> (group_error + state_entry list) \<times> machine" where
  "run_writes m r = ((case r of Inl e \<Rightarrow> Inl e | Inr ws \<Rightarrow> put_kvs m (entries_of m) ws), m)"

section \<open>Stewards, threshold, members\<close>

definition writes_add_steward :: "env \<Rightarrow> machine \<Rightarrow> payload option \<Rightarrow> group_error + writes" where
  "writes_add_steward E m p =
     (case p of
        Some (P_AddSteward raw) \<Rightarrow>
          (let key = copy32 raw; prospective = prospectiveStewardsAfterAddLocked E (mchain m) key
           in if MaxStewards m > 0 \<and> int (length prospective) > MaxStewards m
              then Inl (Rule (AddStewardOverCap (length prospective) (MaxStewards m)))
              else Inr [(''steward/'' @ hex key, Some [1])])
      | _ \<Rightarrow> Inl (MissingPayload ADD_STEWARD))"

definition writes_remove_steward :: "payload option \<Rightarrow> group_error + writes" where
  "writes_remove_steward p =
     (case p of
        Some (P_RemoveSteward raw) \<Rightarrow> Inr [(''steward/'' @ hex (copy32 raw), None)]
      | _ \<Rightarrow> Inl (MissingPayload REMOVE_STEWARD))"

definition writes_change_threshold :: "env \<Rightarrow> machine \<Rightarrow> transition \<Rightarrow> group_error + writes" where
  "writes_change_threshold E m t =
     (case tp_payload (Proto t) of
        Some (P_ChangeThreshold newThr) \<Rightarrow>
          (let currentStewards = stewardsAtLocked E (mchain m) (tp_prior_state (Proto t))
           in if newThr = 0 then Inl (Rule ChangeThresholdZero)
              else if newThr > word_of_nat (length currentStewards)
              then Inl (Rule (ChangeThresholdTooHigh newThr (length currentStewards)))
              else Inr [(''threshold'', Some (binaryUint32 newThr))])
      | _ \<Rightarrow> Inl (MissingPayload CHANGE_THRESHOLD))"

definition writes_add_member :: "payload option \<Rightarrow> group_error + writes" where
  "writes_add_member p =
     (case p of
        Some (P_AddMember user) \<Rightarrow> Inr [(''member/'' @ hex (copy32 user), Some [1])]
      | _ \<Rightarrow> Inl (MissingPayload ADD_MEMBER))"

definition writes_remove_member :: "payload option \<Rightarrow> group_error + writes" where
  "writes_remove_member p =
     (case p of
        Some (P_RemoveMember user) \<Rightarrow> Inr [(''member/'' @ hex (copy32 user), Some [0])]
      | _ \<Rightarrow> Inl (MissingPayload REMOVE_MEMBER))"

section \<open>Events\<close>

text \<open>A field check before the writes.\<close>

definition checked :: "group_error option \<Rightarrow> group_error + 'a \<Rightarrow> group_error + 'a" where
  "checked e r = (case e of Some e \<Rightarrow> Inl e | None \<Rightarrow> r)"

definition marshalled :: "bytes option \<Rightarrow> (bytes \<Rightarrow> writes) \<Rightarrow> group_error + writes" where
  "marshalled b f = (case b of None \<Rightarrow> Inl MarshalFailed | Some x \<Rightarrow> Inr (f x))"

definition writes_create_event :: "env \<Rightarrow> payload option \<Rightarrow> group_error + writes" where
  "writes_create_event E p =
     (case p of
        Some (P_CreateEvent ce) \<Rightarrow>
          checked (validateStringField ''event_id'' (ce_event_id ce) 1 256)
            (checked (validateStringField ''title'' (ce_title ce) 1 1024)
              (checked (validateStringField ''location'' (ce_location ce) 0 1024)
                (marshalled (marshal_create_event E ce)
                   (\<lambda>ep. [(''event/'' @ ce_event_id ce, Some ep)]))))
      | _ \<Rightarrow> Inl (MissingPayload CREATE_EVENT))"

definition writes_update_event :: "env \<Rightarrow> payload option \<Rightarrow> group_error + writes" where
  "writes_update_event E p =
     (case p of
        Some (P_UpdateEvent ue) \<Rightarrow>
          checked (validateStringField ''event_id'' (ue_event_id ue) 1 256)
            (marshalled (marshal_update_event E ue)
               (\<lambda>pp. [(''event_patch/'' @ ue_event_id ue, Some pp)]))
      | _ \<Rightarrow> Inl (MissingPayload UPDATE_EVENT))"

definition writes_cancel_event :: "payload option \<Rightarrow> group_error + writes" where
  "writes_cancel_event p =
     (case p of
        Some (P_CancelEvent event_id _) \<Rightarrow>
          checked (validateStringField ''event_id'' event_id 1 256)
            (Inr [(''event_cancelled/'' @ event_id, Some [1])])
      | _ \<Rightarrow> Inl (MissingPayload CANCEL_EVENT))"

definition rsvp_key :: "string \<Rightarrow> bytes \<Rightarrow> string" where
  "rsvp_key event_id user = ''rsvp/'' @ event_id @ ''/'' @ hex (copy32 user)"

definition writes_rsvp :: "payload option \<Rightarrow> group_error + writes" where
  "writes_rsvp p =
     (case p of
        Some (P_Rsvp event_id user) \<Rightarrow>
          checked (validateStringField ''event_id'' event_id 1 256)
            (Inr [(rsvp_key event_id user, Some [1])])
      | _ \<Rightarrow> Inl (MissingPayload RSVP))"

definition writes_cancel_rsvp :: "payload option \<Rightarrow> group_error + writes" where
  "writes_cancel_rsvp p =
     (case p of
        Some (P_CancelRsvp event_id user) \<Rightarrow>
          checked (validateStringField ''event_id'' event_id 1 256)
            (Inr [(rsvp_key event_id user, Some [0])])
      | _ \<Rightarrow> Inl (MissingPayload CANCEL_RSVP))"

section \<open>Attestations, forks, migration, certificates, bindings\<close>

definition writes_attest :: "env \<Rightarrow> payload option \<Rightarrow> group_error + writes" where
  "writes_attest E p =
     (case p of
        Some (P_Attest a) \<Rightarrow>
          marshalled (marshal_attest E a) (\<lambda>b. [(attestStorageKey a, Some b)])
      | _ \<Rightarrow> Inl (MissingPayload ATTEST))"

definition writes_fork :: "payload option \<Rightarrow> group_error + writes" where
  "writes_fork p =
     (case p of
        Some (P_Fork new_group_key) \<Rightarrow> Inr [(''fork_lineage'', new_group_key)]
      | _ \<Rightarrow> Inl (MissingPayload FORK))"

definition AsTime :: "timestamp \<Rightarrow> int" where
  "AsTime ts = ts_seconds ts * 1000000000 + ts_nanos ts"

definition writes_migrate :: "payload option \<Rightarrow> int \<Rightarrow> group_error + writes" where
  "writes_migrate p now =
     (case p of
        Some (P_Migrate new_host deadline) \<Rightarrow>
          checked (validateStringField ''new_host'' new_host 1 256)
            (case deadline of
               None \<Rightarrow> Inl (Rule MigrateNoDeadline)
             | Some d \<Rightarrow>
                 if ts_seconds d = 0 then Inl (Rule MigrateNoDeadline)
                 else if AsTime d < now then Inl (Rule MigrateDeadlinePast)
                 else Inr [(''canonical_host'', Some (bytes_of new_host)),
                           (''canonical_after'', Some (binaryUint64 (word_of_int (ts_seconds d))))])
      | _ \<Rightarrow> Inl (MissingPayload MIGRATE))"

definition writes_issue_host_cert :: "env \<Rightarrow> payload option \<Rightarrow> group_error + writes" where
  "writes_issue_host_cert E p =
     (case p of
        Some (P_IssueHostCert c) \<Rightarrow>
          marshalled (marshal_host_cert E c) (\<lambda>b. [(hostCertStorageKey c, Some b)])
      | _ \<Rightarrow> Inl (MissingPayload ISSUE_HOST_CERT))"

definition writes_revoke_host_cert :: "env \<Rightarrow> payload option \<Rightarrow> group_error + writes" where
  "writes_revoke_host_cert E p =
     (case p of
        Some (P_RevokeHostCert c) \<Rightarrow>
          marshalled (marshal_revoke_host_cert E c)
            (\<lambda>b. [(hostCertRevocationKey c, Some b), (hostCertStorageKeyFromRevoke c, None)])
      | _ \<Rightarrow> Inl (MissingPayload REVOKE_HOST_CERT))"

definition writes_name_bind :: "payload option \<Rightarrow> group_error + writes" where
  "writes_name_bind p =
     (case p of
        Some (P_NameBind nb) \<Rightarrow>
          checked (verifyNameBindPayload nb) (Inr [(nameBindStorageKey nb, Some [1])])
      | _ \<Rightarrow> Inl (MissingPayload NAME_BIND))"

section \<open>Cases that change more than the key-value state\<close>

definition mesh_key :: "bytes \<Rightarrow> string" where
  "mesh_key wg = ''mesh_peer/'' @ hex wg"

text \<open>The loop over initial_mesh_peers: register the peer, then write its key. The written
  value is the mesh IP, whose nil value removes the key.\<close>

fun create_mesh_peers :: "machine \<Rightarrow> state_entry list \<Rightarrow> initial_mesh_peer list
    \<Rightarrow> (group_error + state_entry list) \<times> machine" where
  "create_mesh_peers m es [] = (Inr es, m)"
| "create_mesh_peers m es (mp # mps) =
     (let ip = (case imp_mesh_ip mp of None \<Rightarrow> [] | Some ip \<Rightarrow> ip);
          (err, r) = addMeshPeerLocked (meshPeers m)
            \<lparr>mp_wg = imp_host_wg_key mp, mp_ip = ip, mp_cosigner = imp_cosigner_key mp\<rparr>;
          m = m\<lparr>meshPeers := Some r\<rparr>
      in case err of
           Some e \<Rightarrow> (Inl (CreateMeshPeers e), m)
         | None \<Rightarrow>
             (case put_kvs m es [(mesh_key (imp_host_wg_key mp), imp_mesh_ip mp)] of
                Inl e \<Rightarrow> (Inl e, m)
              | Inr es \<Rightarrow> create_mesh_peers m es mps))"

text \<open>A missing CREATE_GROUP payload reads as an empty one here.\<close>

definition empty_create_group :: create_group where
  "empty_create_group = \<lparr>cg_canonical_name = [], cg_display_name = [], cg_initial_stewards = [],
     cg_threshold = 0, cg_metadata = [], cg_initial_mesh_peers = []\<rparr>"

definition create_payload :: "payload option \<Rightarrow> create_group" where
  "create_payload p = (case p of Some (P_CreateGroup cg) \<Rightarrow> cg | _ \<Rightarrow> empty_create_group)"

definition writes_create_group :: "create_group \<Rightarrow> writes" where
  "writes_create_group p =
     (''name'', Some (bytes_of (cg_canonical_name p))) #
     (''display_name'', Some (bytes_of (cg_display_name p))) #
     map (\<lambda>k. (''steward/'' @ hex k, Some [1])) (cg_initial_stewards p)"

definition handle_create_group :: "machine \<Rightarrow> payload option \<Rightarrow> (group_error + state_entry list) \<times> machine" where
  "handle_create_group m pl =
     (let p = create_payload pl
      in case checked (validateStringField ''canonical_name'' (cg_canonical_name p) 1 256)
           (checked (validateStringField ''display_name'' (cg_display_name p) 1 256)
             (put_kvs m (entries_of m) (writes_create_group p))) of
           Inl e \<Rightarrow> (Inl e, m)
         | Inr es \<Rightarrow> create_mesh_peers m es (cg_initial_mesh_peers p))"

definition handle_add_host_peer :: "env \<Rightarrow> machine \<Rightarrow> payload option
    \<Rightarrow> (group_error + state_entry list) \<times> machine" where
  "handle_add_host_peer E m pl =
     (case pl of
        Some (P_AddHostPeer p) \<Rightarrow>
          if length (ap_mesh_ip p) \<noteq> 4 \<and> length (ap_mesh_ip p) \<noteq> 16
          then (Inl (Peer (MeshIPLength (length (ap_mesh_ip p)))), m)
          else
            (case verifyAddHostPeerPayload E m p of
               Some e \<Rightarrow> (Inl e, m)
             | None \<Rightarrow>
                 let current = int (mesh_len (meshPeers m))
                 in if MaxMeshPeers m > 0 \<and> current + 1 > MaxMeshPeers m
                    then (Inl (Peer (MeshPeersOverCap (current + 1) (MaxMeshPeers m))), m)
                    else
                      let (err, r) = addMeshPeerLocked (meshPeers m)
                            \<lparr>mp_wg = ap_host_wg_key p, mp_ip = ap_mesh_ip p,
                             mp_cosigner = ap_cosigner_peer_key p\<rparr>;
                          m = m\<lparr>meshPeers := Some r\<rparr>
                      in case err of
                           Some e \<Rightarrow> (Inl (Mesh e), m)
                         | None \<Rightarrow> run_writes m
                             (Inr [(mesh_key (ap_host_wg_key p), Some (ap_mesh_ip p))]))
      | _ \<Rightarrow> (Inl (MissingPayload ADD_HOST_PEER), m))"

definition handle_remove_host_peer :: "machine \<Rightarrow> payload option
    \<Rightarrow> (group_error + state_entry list) \<times> machine" where
  "handle_remove_host_peer m pl =
     (case pl of
        Some (P_RemoveHostPeer wg ip) \<Rightarrow>
          (case removeMeshPeerLocked (meshPeers m) \<lparr>mp_wg = wg, mp_ip = ip, mp_cosigner = []\<rparr> of
             Inl e \<Rightarrow> (Inl (Mesh e), m)
           | Inr r \<Rightarrow> run_writes (m\<lparr>meshPeers := Some r\<rparr>) (Inr [(mesh_key wg, Some [])]))
      | _ \<Rightarrow> (Inl (MissingPayload REMOVE_HOST_PEER), m))"

definition handle_declare_custody :: "env \<Rightarrow> machine \<Rightarrow> payload option
    \<Rightarrow> (group_error + state_entry list) \<times> machine" where
  "handle_declare_custody E m pl =
     (case pl of
        Some (P_DeclareStewardCustody st tier) \<Rightarrow>
          (case verifyDeclareStewardCustody E m st tier of
             Some e \<Rightarrow> (Inl e, m)
           | None \<Rightarrow>
               run_writes (m\<lparr>custody := Some (recordCustodyLocked (custody m)
                                               \<lparr>cd_steward = st, cd_tier = tier\<rparr>)\<rparr>)
                 (Inr [(''custody/'' @ hex st, Some [word_of_int (tier_number tier)])]))
      | _ \<Rightarrow> (Inl (MissingPayload DECLARE_STEWARD_CUSTODY), m))"

definition handle_slash_steward :: "env \<Rightarrow> machine \<Rightarrow> transition
    \<Rightarrow> (group_error + state_entry list) \<times> machine" where
  "handle_slash_steward E m t =
     (case tp_payload (Proto t) of
        Some (P_SlashSteward p) \<Rightarrow>
          (case verifySlashStewardPayload E m p t of
             Some e \<Rightarrow> (Inl e, m)
           | None \<Rightarrow>
               let slashedKey = copy32 (sl_slashed_steward p);
                   ev = \<lparr>evd_GroupID = groupID m, evd_StewardKey = slashedKey,
                         evd_PriorState = copy32 (sl_prior_state p),
                         evd_TransitionA = None, evd_TransitionB = None\<rparr>
               in run_writes (m\<lparr>equivocationEvidence := equivocationEvidence m @ [ev]\<rparr>)
                    (Inr [(''steward/'' @ hex slashedKey, None),
                          (''slashed/'' @ hex slashedKey, Some [1])]))
      | _ \<Rightarrow> (Inl (MissingPayload SLASH_STEWARD), m))"

definition branch_key :: "u32 \<Rightarrow> string \<Rightarrow> string" where
  "branch_key i field = ''branch/'' @ dec_nat (unat i) @ ''/'' @ field"

definition handle_branch_create :: "env \<Rightarrow> machine \<Rightarrow> transition
    \<Rightarrow> (group_error + state_entry list) \<times> machine" where
  "handle_branch_create E m t =
     (case tp_payload (Proto t) of
        Some (P_BranchCreate reason) \<Rightarrow>
          (let branchID = tp_branch_id (Proto t);
               parentStewards = stewardsAtLocked E (mchain m) (tp_prior_state (Proto t));
               parentThreshold = thresholdAtLocked E (mchain m) (tp_prior_state (Proto t));
               (b, r) = branch_allocate (mbranches m) branchID reason;
               b = b\<lparr>br_chain := (br_chain b)\<lparr>initialStewards := parentStewards,
                                               initialThreshold := parentThreshold\<rparr>,
                     br_genesisHLC := tp_hlc (Proto t)\<rparr>
           in run_writes (m\<lparr>mbranches := branch_put r (br_id b) b\<rparr>)
                (Inr [(branch_key (br_id b) ''parent'', Some (bytes_of (dec_nat (unat branchID)))),
                      (branch_key (br_id b) ''reason'', Some (bytes_of reason))]))
      | _ \<Rightarrow> (Inl (MissingPayload BRANCH_CREATE), m))"

section \<open>The switch\<close>

definition handle :: "env \<Rightarrow> machine \<Rightarrow> transition \<Rightarrow> int \<Rightarrow> (group_error + state_entry list) \<times> machine" where
  "handle E m t now =
     (let p = tp_payload (Proto t)
      in case tp_type (Proto t) of
           CREATE_GROUP \<Rightarrow> handle_create_group m p
         | ADD_STEWARD \<Rightarrow> run_writes m (writes_add_steward E m p)
         | REMOVE_STEWARD \<Rightarrow> run_writes m (writes_remove_steward p)
         | CHANGE_THRESHOLD \<Rightarrow> run_writes m (writes_change_threshold E m t)
         | ADD_MEMBER \<Rightarrow> run_writes m (writes_add_member p)
         | REMOVE_MEMBER \<Rightarrow> run_writes m (writes_remove_member p)
         | CREATE_EVENT \<Rightarrow> run_writes m (writes_create_event E p)
         | UPDATE_EVENT \<Rightarrow> run_writes m (writes_update_event E p)
         | CANCEL_EVENT \<Rightarrow> run_writes m (writes_cancel_event p)
         | RSVP \<Rightarrow> run_writes m (writes_rsvp p)
         | CANCEL_RSVP \<Rightarrow> run_writes m (writes_cancel_rsvp p)
         | ATTEST \<Rightarrow> run_writes m (writes_attest E p)
         | FORK \<Rightarrow> run_writes m (writes_fork p)
         | MIGRATE \<Rightarrow> run_writes m (writes_migrate p now)
         | ISSUE_HOST_CERT \<Rightarrow> run_writes m (writes_issue_host_cert E p)
         | REVOKE_HOST_CERT \<Rightarrow> run_writes m (writes_revoke_host_cert E p)
         | ADD_HOST_PEER \<Rightarrow> handle_add_host_peer E m p
         | REMOVE_HOST_PEER \<Rightarrow> handle_remove_host_peer m p
         | DECLARE_STEWARD_CUSTODY \<Rightarrow> handle_declare_custody E m p
         | SLASH_STEWARD \<Rightarrow> handle_slash_steward E m t
         | BRANCH_CREATE \<Rightarrow> handle_branch_create E m t
         | NAME_BIND \<Rightarrow> run_writes m (writes_name_bind p)
         | ty \<Rightarrow> (Inl (UnsupportedType ty), m))"

end
