(* ===== verification/Apply.thy ===== *)
theory Apply
  imports Handlers
begin

text \<open>
  State.Apply (internal/group/group.go) as the composition the code makes: routing to a branch
  and the MaxBranches check, the swap of the branch's fields into the State, the HLC and
  prior-state checks, the rate limit and the equivocation check of the signing steward, the
  verification of the envelope, the payload switch, the commit with the steward and threshold
  histories and the log trim, the broadcast, the persistence step, and the restore of the
  genesis fields. The result is the error, \<open>None\<close> for Go's nil, and the new state.
\<close>

section \<open>Inputs\<close>

text \<open>What a call reads from outside: the time argument in nanoseconds, the limiter's clock
  readings, and whether the database accepts an insert.\<close>

record apply_input =
  in_now :: int
  in_clock :: readings
  in_db_ok :: bool

section \<open>Routing\<close>

definition route :: "machine \<Rightarrow> transition \<Rightarrow> group_error option \<times> machine" where
  "route m t =
     (let branchID = tp_branch_id (Proto t);
          m' = (if branch_get (mbranches m) branchID = None
                then m\<lparr>mbranches := snd (branch_getOrCreate (mbranches m) GenesisBranchID)\<rparr> else m);
          branchCount = int (length (branches (mbranches m')))
      in if branch_get (mbranches m) branchID = None \<and> branchID \<noteq> GenesisBranchID
         then (Some (Route (UnknownBranch branchID)), m)
         else if tp_type (Proto t) = BRANCH_CREATE \<and> MaxBranches m > 0 \<and> branchCount \<ge> MaxBranches m
         then (Some (Route (MaxBranchesExceeded (MaxBranches m) branchCount)), m')
         else (None, m'))"

text \<open>Whether this call works on a branch's fields instead of the genesis ones.\<close>

definition swaps :: "transition \<Rightarrow> bool" where
  "swaps t = (tp_branch_id (Proto t) \<noteq> GenesisBranchID \<and> tp_type (Proto t) \<noteq> BRANCH_CREATE)"

definition enter_branch :: "machine \<Rightarrow> transition \<Rightarrow> machine" where
  "enter_branch m t =
     (if swaps t then
        (case branch_get (mbranches m) (tp_branch_id (Proto t)) of
           None \<Rightarrow> m | Some b \<Rightarrow> m\<lparr>mchain := br_chain b\<rparr>)
      else m)"

text \<open>
  restoreGenesis: on success the branch takes all the fields over; on failure only what it shares
  with the State by reference has changed, its two history maps and an equivocation log it
  already had. \<open>saved\<close> holds the genesis fields.
\<close>

definition leave_branch :: "chain \<Rightarrow> transition \<Rightarrow> bool \<Rightarrow> machine \<Rightarrow> machine" where
  "leave_branch saved t ok m =
     (if swaps t then
        (case branch_get (mbranches m) (tp_branch_id (Proto t)) of
           None \<Rightarrow> m
         | Some b \<Rightarrow>
             let c = mchain m; b0 = br_chain b;
                 b' = (if ok
                       then b\<lparr>br_chain := c, br_transitionCount := br_transitionCount b + 1\<rparr>
                       else b\<lparr>br_chain := b0\<lparr>stewardHistory := stewardHistory c,
                                              thresholdHistory := thresholdHistory c,
                                              equivocation := (if equivocation b0 = None then None
                                                               else equivocation c)\<rparr>\<rparr>)
             in m\<lparr>mchain := saved, mbranches := branch_put (mbranches m) (tp_branch_id (Proto t)) b'\<rparr>)
      else m)"

section \<open>Checks before the payload\<close>

definition check_hlc :: "transition \<Rightarrow> group_error option" where
  "check_hlc t =
     (if tp_type (Proto t) \<noteq> CREATE_GROUP \<and> length (tp_hlc (Proto t)) \<noteq> Size
      then Some (Route (InvalidHLCSize (length (tp_hlc (Proto t))))) else None)"

definition check_prior :: "env \<Rightarrow> machine \<Rightarrow> transition \<Rightarrow> group_error option" where
  "check_prior E m t =
     (if has_prior t \<and> prior_of t \<noteq> currentRoot E (mchain m)
      then Some (Route (PriorStateMismatch (currentRoot E (mchain m)) (prior_of t))) else None)"

definition check_limiter :: "machine \<Rightarrow> public_key \<Rightarrow> readings \<Rightarrow> group_error option \<times> machine" where
  "check_limiter m signing clk =
     (case Limiter m of
        None \<Rightarrow> (None, m)
      | Some l \<Rightarrow>
          (case limiter_Allow l (groupID m) signing clk of
             (Some e, l') \<Rightarrow> (Some (Route (RateLimited signing (groupID m))), m\<lparr>Limiter := Some l'\<rparr>)
           | (None, l') \<Rightarrow> (None, m\<lparr>Limiter := Some l'\<rparr>)))"

definition check_signer :: "env \<Rightarrow> machine \<Rightarrow> transition \<Rightarrow> readings \<Rightarrow> group_error option \<times> machine" where
  "check_signer E m t clk =
     (if \<not> has_prior t then (None, m)
      else
        let signing = findSigningSteward E t (stewardsAtLocked E (mchain m) (tp_prior_state (Proto t)))
        in if signing = zero32 then (None, m)
           else
             (case check_limiter m signing clk of
                (Some e, m) \<Rightarrow> (Some e, m)
              | (None, m) \<Rightarrow>
                  (case checkEquivocationLocked E m signing (prior_of t) (tp_hlc (Proto t))
                          (transitionTxHash E t) (Some t) of
                     (True, m) \<Rightarrow> (Some (Route (EquivocationDetected signing (prior_of t))), m)
                   | (False, m) \<Rightarrow> (None, m))))"

text \<open>The genesis case verifies against the stewards that the payload declares, and installs
  them; every other transition verifies against the set and threshold at its prior state.\<close>

definition verify_create :: "env \<Rightarrow> machine \<Rightarrow> transition \<Rightarrow> group_error option \<times> machine" where
  "verify_create E m t =
     (if tp_type (Proto t) \<noteq> CREATE_GROUP then (Some (Envelope FirstNotCreateGroup), m)
      else
        (case tp_payload (Proto t) of
           Some (P_CreateGroup p) \<Rightarrow>
             if cg_threshold p = 0 then (Some (Envelope CreateThresholdZero), m)
             else
               let initStewards = map copy32 (cg_initial_stewards p)
               in (case tp_steward_signatures (Proto t) of
                     None \<Rightarrow> (Some (Envelope CreateInsufficientSignatures), m)
                   | Some ms \<Rightarrow>
                       if (word_of_nat (length (ms_signatures ms)) :: u32) < cg_threshold p
                       then (Some (Envelope CreateInsufficientSignatures), m)
                       else
                         (case VerifyMultisig E initStewards (cg_threshold p) (sig_array ms)
                                 (tr_groupID t) MsgKindTransition (canonical t) of
                            Some e \<Rightarrow> (Some (Envelope (CreateSignatureVerification e)), m)
                          | None \<Rightarrow>
                              (None, m\<lparr>mchain := (mchain m)\<lparr>initialStewards := initStewards,
                                                            initialThreshold := cg_threshold p\<rparr>\<rparr>)))
         | _ \<Rightarrow> (Some (MissingPayload CREATE_GROUP), m)))"

definition verify_envelope :: "env \<Rightarrow> machine \<Rightarrow> transition \<Rightarrow> group_error option \<times> machine" where
  "verify_envelope E m t =
     (if stewardsAtLocked E (mchain m) (tp_prior_state (Proto t)) = [] then verify_create E m t
      else (map_option Envelope (VerifyStewardSignatures E t (mchain m)), m))"

section \<open>Commit\<close>

definition trim_log :: "int \<Rightarrow> transition list \<Rightarrow> transition list" where
  "trim_log maxLog l =
     (if maxLog > 0 \<and> int (length l) > maxLog then drop (nat (int (length l) - maxLog)) l else l)"

definition commit_chain :: "env \<Rightarrow> int \<Rightarrow> chain \<Rightarrow> transition \<Rightarrow> state_entry list \<Rightarrow> chain" where
  "commit_chain E maxLog c t newEntries =
     (let c = c\<lparr>snapshot := \<lparr>Entries = newEntries\<rparr>\<rparr>;
          stewardsAfterApply = computeCurrentStewards E c (Proto t);
          r = currentRoot E c;
          c = c\<lparr>stewardHistory := (stewardHistory c)(r \<mapsto> stewardsAfterApply)\<rparr>;
          c = c\<lparr>thresholdHistory := (thresholdHistory c)(r \<mapsto> computeCurrentThreshold E c (Proto t))\<rparr>
      in c\<lparr>log := trim_log maxLog (log c @ [t])\<rparr>)"

section \<open>Apply\<close>

text \<open>The steps between the swap and the broadcast.\<close>

definition apply_body :: "env \<Rightarrow> machine \<Rightarrow> transition \<Rightarrow> apply_input \<Rightarrow> group_error option \<times> machine" where
  "apply_body E m t inp =
     (case check_hlc t of
        Some e \<Rightarrow> (Some e, m)
      | None \<Rightarrow>
          (case check_prior E m t of
             Some e \<Rightarrow> (Some e, m)
           | None \<Rightarrow>
               (case check_signer E m t (in_clock inp) of
                  (Some e, m) \<Rightarrow> (Some e, m)
                | (None, m) \<Rightarrow>
                    (case verify_envelope E m t of
                       (Some e, m) \<Rightarrow> (Some e, m)
                     | (None, m) \<Rightarrow>
                         (case handle E m t (in_now inp) of
                            (Inl e, m) \<Rightarrow> (Some e, m)
                          | (Inr newEntries, m) \<Rightarrow>
                              (None, m\<lparr>mchain := commit_chain E (MaxLogSize m) (mchain m) t newEntries\<rparr>))))))"

text \<open>SQLitePersister.SaveTransition, and its call at the end of Apply.\<close>

definition SaveTransition :: "env \<Rightarrow> sqlite_persister \<Rightarrow> transition \<Rightarrow> bool \<Rightarrow> group_error option \<times> sqlite_persister" where
  "SaveTransition E sp t db_ok =
     (case marshal_transition E (Proto t) of
        None \<Rightarrow> (Some PersistFailed, sp)
      | Some transitionBytes \<Rightarrow>
          if db_ok then (None, sp\<lparr>sp_rows := sp_rows sp @ [(canonical t, transitionBytes)]\<rparr>)
          else (Some PersistFailed, sp))"

definition persistLocked :: "env \<Rightarrow> state \<Rightarrow> transition \<Rightarrow> apply_input \<Rightarrow> group_error option \<times> state" where
  "persistLocked E s t inp =
     (case persister s of
        None \<Rightarrow> (None, s)
      | Some sp \<Rightarrow>
          if replaying s then (None, s)
          else (case SaveTransition E sp t (in_db_ok inp) of
                  (err, sp') \<Rightarrow> (err, s\<lparr>persister := Some sp'\<rparr>)))"

definition Apply :: "env \<Rightarrow> state \<Rightarrow> transition \<Rightarrow> apply_input \<Rightarrow> group_error option \<times> state" where
  "Apply E s t inp =
     (case route (core s) t of
        (Some e, m) \<Rightarrow> (Some e, s\<lparr>core := m\<rparr>)
      | (None, m) \<Rightarrow>
          (case apply_body E (enter_branch m t) t inp of
             (Some e, m') \<Rightarrow> (Some e, s\<lparr>core := leave_branch (mchain m) t False m'\<rparr>)
           | (None, m') \<Rightarrow>
               let s1 = broadcastLocked (s\<lparr>core := m'\<rparr>) t (currentRoot E (mchain m'))
                          (word_of_nat (length (log (mchain m'))) - 1);
                   (err, s2) = persistLocked E s1 t inp
               in (err, s2\<lparr>core := leave_branch (mchain m) t (err = None) (core s2)\<rparr>)))"

section \<open>Public entry points of the State beside Apply\<close>

definition CheckEquivocation :: "env \<Rightarrow> state \<Rightarrow> public_key \<Rightarrow> hash \<Rightarrow> bytes \<Rightarrow> hash \<Rightarrow> bool \<times> state" where
  "CheckEquivocation E s stewardKey priorState hlcBytes txHash =
     (let (r, m) = checkEquivocationLocked E (core s) stewardKey priorState hlcBytes txHash None
      in (r, s\<lparr>core := m\<rparr>))"

end
