(* ===== verification/ApplyFrame.thy ===== *)
theory ApplyFrame
  imports Apply
begin

text \<open>
  What each stage of Apply leaves alone, and the decomposition of a successful or failed call
  into its stages. The collection \<open>applyframe\<close> holds the frame equations of the stages; the
  lemmas apply_ok and apply_fail are the case rules that the properties start from.
\<close>

named_theorems applyframe \<open>what a stage of Apply leaves unchanged\<close>

section \<open>The configuration and the stages\<close>

text \<open>The caps and the identity of a machine, which no transition changes.\<close>

definition config :: "machine \<Rightarrow> group_id \<times> int \<times> int \<times> int \<times> int \<times> int \<times> int \<times> int \<times> int" where
  "config m = (groupID m, MaxStewards m, MaxMeshPeers m, MaxEvidenceEntries m, MaxLogSize m,
     MaxKVSize m, MaxKVEntries m, MaxKVBytes m, MaxBranches m)"

text \<open>The fields of a chain that only a commit changes.\<close>

definition ledger :: "chain \<Rightarrow> state_snapshot \<times> transition list \<times> (hash \<Rightarrow> steward list option) \<times> (hash \<Rightarrow> u32 option)" where
  "ledger c = (snapshot c, log c, stewardHistory c, thresholdHistory c)"

lemma put_kvs_caps:
  "MaxKVSize m = MaxKVSize m' \<Longrightarrow> MaxKVBytes m = MaxKVBytes m' \<Longrightarrow> put_kvs m es ws = put_kvs m' es ws"
  by (induction ws arbitrary: es) (auto split: prod.splits)

lemma run_writes_snd [simp, applyframe]: "snd (run_writes m r) = m"
  by (simp add: run_writes_def)

lemma create_mesh_peers_frame [applyframe]:
  "mchain (snd (create_mesh_peers m es mps)) = mchain m \<and>
   config (snd (create_mesh_peers m es mps)) = config m \<and>
   mbranches (snd (create_mesh_peers m es mps)) = mbranches m \<and>
   custody (snd (create_mesh_peers m es mps)) = custody m \<and>
   Limiter (snd (create_mesh_peers m es mps)) = Limiter m \<and>
   equivocationEvidence (snd (create_mesh_peers m es mps)) = equivocationEvidence m"
proof (induction m es mps rule: create_mesh_peers.induct)
  case (2 m es mp mps)
  then show ?case
    by (auto simp: Let_def config_def split: prod.splits option.splits sum.splits)
qed simp

lemma handle_create_group_frame:
  "mchain (snd (handle_create_group m p)) = mchain m \<and> config (snd (handle_create_group m p)) = config m
   \<and> mbranches (snd (handle_create_group m p)) = mbranches m
   \<and> Limiter (snd (handle_create_group m p)) = Limiter m"
  using create_mesh_peers_frame
  by (auto simp: handle_create_group_def Let_def split: sum.splits)

lemma handle_mesh_frame:
  "mchain (snd (handle_add_host_peer E m p)) = mchain m \<and> config (snd (handle_add_host_peer E m p)) = config m
   \<and> mbranches (snd (handle_add_host_peer E m p)) = mbranches m
   \<and> Limiter (snd (handle_add_host_peer E m p)) = Limiter m"
  "mchain (snd (handle_remove_host_peer m p)) = mchain m \<and> config (snd (handle_remove_host_peer m p)) = config m
   \<and> mbranches (snd (handle_remove_host_peer m p)) = mbranches m
   \<and> Limiter (snd (handle_remove_host_peer m p)) = Limiter m"
  by (auto simp: handle_add_host_peer_def handle_remove_host_peer_def Let_def config_def
      split: option.splits payload.splits prod.splits sum.splits)

lemma handle_misc_frame:
  "mchain (snd (handle_declare_custody E m p)) = mchain m \<and> config (snd (handle_declare_custody E m p)) = config m
   \<and> mbranches (snd (handle_declare_custody E m p)) = mbranches m
   \<and> Limiter (snd (handle_declare_custody E m p)) = Limiter m"
  "mchain (snd (handle_slash_steward E m t)) = mchain m \<and> config (snd (handle_slash_steward E m t)) = config m
   \<and> mbranches (snd (handle_slash_steward E m t)) = mbranches m
   \<and> Limiter (snd (handle_slash_steward E m t)) = Limiter m"
  "mchain (snd (handle_branch_create E m t)) = mchain m \<and> config (snd (handle_branch_create E m t)) = config m
   \<and> Limiter (snd (handle_branch_create E m t)) = Limiter m"
  by (auto simp: handle_declare_custody_def handle_slash_steward_def handle_branch_create_def Let_def
      config_def split: option.splits payload.splits prod.splits)

lemma handle_frame [applyframe]:
  "mchain (snd (handle E m t now)) = mchain m" "config (snd (handle E m t now)) = config m"
  "Limiter (snd (handle E m t now)) = Limiter m"
  "tp_type (Proto t) \<noteq> BRANCH_CREATE \<Longrightarrow> mbranches (snd (handle E m t now)) = mbranches m"
  using handle_create_group_frame [of m "tp_payload (Proto t)"]
    handle_mesh_frame(1) [of E m "tp_payload (Proto t)"] handle_mesh_frame(2) [of m "tp_payload (Proto t)"]
    handle_misc_frame(1) [of E m "tp_payload (Proto t)"] handle_misc_frame(2,3) [of E m t]
  by (simp_all add: handle_def Let_def split: ttype.splits)

lemma check_limiter_frame [applyframe]:
  "mchain (snd (check_limiter m k clk)) = mchain m" "config (snd (check_limiter m k clk)) = config m"
  "mbranches (snd (check_limiter m k clk)) = mbranches m"
  by (auto simp: check_limiter_def config_def split: option.splits prod.splits)

lemma check_equiv_frame [applyframe]:
  "ledger (mchain (snd (checkEquivocationLocked E m k p h x c))) = ledger (mchain m)"
  "initialStewards (mchain (snd (checkEquivocationLocked E m k p h x c))) = initialStewards (mchain m)"
  "initialThreshold (mchain (snd (checkEquivocationLocked E m k p h x c))) = initialThreshold (mchain m)"
  "config (snd (checkEquivocationLocked E m k p h x c)) = config m"
  "mbranches (snd (checkEquivocationLocked E m k p h x c)) = mbranches m"
  "Limiter (snd (checkEquivocationLocked E m k p h x c)) = Limiter m"
  by (auto simp: checkEquivocationLocked_def Let_def config_def ledger_def
      split: option.splits prod.splits)

lemma check_signer_cases:
  obtains "\<not> has_prior t" "check_signer E m t clk = (None, m)"
  | "findSigningSteward E t (stewardsAtLocked E (mchain m) (tp_prior_state (Proto t))) = zero32"
    "check_signer E m t clk = (None, m)"
  | e m1 where "check_limiter m (findSigningSteward E t (stewardsAtLocked E (mchain m)
        (tp_prior_state (Proto t)))) clk = (Some e, m1)" "check_signer E m t clk = (Some e, m1)"
  | m1 b m2 where "has_prior t"
    "findSigningSteward E t (stewardsAtLocked E (mchain m) (tp_prior_state (Proto t))) \<noteq> zero32"
    "check_limiter m (findSigningSteward E t (stewardsAtLocked E (mchain m)
        (tp_prior_state (Proto t)))) clk = (None, m1)"
    "checkEquivocationLocked E m1 (findSigningSteward E t (stewardsAtLocked E (mchain m)
        (tp_prior_state (Proto t)))) (prior_of t) (tp_hlc (Proto t)) (transitionTxHash E t) (Some t) = (b, m2)"
    "check_signer E m t clk = (if b then Some (Route (EquivocationDetected
        (findSigningSteward E t (stewardsAtLocked E (mchain m) (tp_prior_state (Proto t)))) (prior_of t)))
        else None, m2)"
proof -
  let ?s = "findSigningSteward E t (stewardsAtLocked E (mchain m) (tp_prior_state (Proto t)))"
  consider "\<not> has_prior t" | "?s = zero32" | "has_prior t" "?s \<noteq> zero32" by blast
  then show thesis
  proof cases
    case 3
    note pr = 3
    obtain r m1 where l: "check_limiter m ?s clk = (r, m1)" by fastforce
    obtain b m2 where q: "checkEquivocationLocked E m1 ?s (prior_of t) (tp_hlc (Proto t))
        (transitionTxHash E t) (Some t) = (b, m2)" by fastforce
    show thesis
    proof (cases r)
      case None
      have "check_signer E m t clk = (if b then Some (Route (EquivocationDetected ?s (prior_of t)))
          else None, m2)"
        using pr l q None by (cases b) (simp_all add: check_signer_def Let_def)
      with pr l q None show thesis by (intro that(4)) simp_all
    next
      case (Some e)
      then have "check_signer E m t clk = (Some e, m1)"
        using pr l by (simp add: check_signer_def Let_def)
      with l Some show thesis by (intro that(3)) simp_all
    qed
  qed (auto intro: that(1,2) simp: check_signer_def)
qed

lemma check_signer_frame [applyframe]:
  "ledger (mchain (snd (check_signer E m t clk))) = ledger (mchain m) \<and>
   initialStewards (mchain (snd (check_signer E m t clk))) = initialStewards (mchain m) \<and>
   initialThreshold (mchain (snd (check_signer E m t clk))) = initialThreshold (mchain m) \<and>
   config (snd (check_signer E m t clk)) = config m \<and>
   mbranches (snd (check_signer E m t clk)) = mbranches m"
proof (cases rule: check_signer_cases [of t E m clk])
  case (3 e m1)
  then show ?thesis
    using check_limiter_frame [of m _ clk] by (metis snd_conv)
next
  case (4 m1 b m2)
  have l: "mchain m1 = mchain m" "config m1 = config m" "mbranches m1 = mbranches m"
    using check_limiter_frame [of m _ clk] 4(3) by (metis snd_conv)+
  have "m2 = snd (checkEquivocationLocked E m1 (findSigningSteward E t (stewardsAtLocked E (mchain m)
        (tp_prior_state (Proto t)))) (prior_of t) (tp_hlc (Proto t)) (transitionTxHash E t) (Some t))"
    using 4(4) by simp
  then show ?thesis
    using check_equiv_frame l by (simp add: 4(5))
qed simp_all

lemma verify_envelope_frame [applyframe]:
  "ledger (mchain (snd (verify_envelope E m t))) = ledger (mchain m)"
  "equivocation (mchain (snd (verify_envelope E m t))) = equivocation (mchain m)"
  "config (snd (verify_envelope E m t)) = config m"
  "mbranches (snd (verify_envelope E m t)) = mbranches m"
  "Limiter (snd (verify_envelope E m t)) = Limiter m"
  "equivocationEvidence (snd (verify_envelope E m t)) = equivocationEvidence m"
  "meshPeers (snd (verify_envelope E m t)) = meshPeers m"
  "custody (snd (verify_envelope E m t)) = custody m"
  by (auto simp: verify_envelope_def verify_create_def ledger_def config_def Let_def
      split: option.splits payload.splits)

section \<open>Decomposition of a call\<close>

lemma apply_body_ok:
  assumes "apply_body E m t inp = (None, m')"
  obtains m1 m2 m3 es where "check_hlc t = None" "check_prior E m t = None"
    "check_signer E m t (in_clock inp) = (None, m1)" "verify_envelope E m1 t = (None, m2)"
    "handle E m2 t (in_now inp) = (Inr es, m3)"
    "m' = m3\<lparr>mchain := commit_chain E (MaxLogSize m3) (mchain m3) t es\<rparr>"
  using assms unfolding apply_body_def
  by (auto split: option.splits prod.splits sum.splits)

lemma apply_body_fail_frame:
  assumes "apply_body E m t inp = (Some e, m')"
  shows "ledger (mchain m') = ledger (mchain m)" "config m' = config m"
    "tp_type (Proto t) \<noteq> BRANCH_CREATE \<Longrightarrow> mbranches m' = mbranches m"
proof -
  define m1 where "m1 = snd (check_signer E m t (in_clock inp))"
  define m2 where "m2 = snd (verify_envelope E m1 t)"
  define m3 where "m3 = snd (handle E m2 t (in_now inp))"
  have "m' = m \<or> m' = m1 \<or> m' = m2 \<or> m' = m3"
    using assms unfolding apply_body_def m3_def m2_def m1_def
    by (auto split: option.splits prod.splits sum.splits)
  moreover have "ledger (mchain m1) = ledger (mchain m)" "config m1 = config m" "mbranches m1 = mbranches m"
    by (simp_all add: m1_def check_signer_frame)
  moreover have "ledger (mchain m2) = ledger (mchain m1)" "config m2 = config m1" "mbranches m2 = mbranches m1"
    by (simp_all add: m2_def verify_envelope_frame)
  moreover have "mchain m3 = mchain m2" "config m3 = config m2"
    by (simp_all add: m3_def handle_frame)
  moreover have "tp_type (Proto t) \<noteq> BRANCH_CREATE \<Longrightarrow> mbranches m3 = mbranches m2"
    by (simp add: m3_def handle_frame)
  ultimately show "ledger (mchain m') = ledger (mchain m)" "config m' = config m"
    "tp_type (Proto t) \<noteq> BRANCH_CREATE \<Longrightarrow> mbranches m' = mbranches m"
    by (elim disjE; simp)+
qed

section \<open>Branches across a call\<close>

lemma route_frame [applyframe]:
  "mchain (snd (route m t)) = mchain m" "config (snd (route m t)) = config m"
  by (simp_all add: route_def Let_def config_def)

lemma route_branches:
  "branch_get (mbranches m) i = Some b \<Longrightarrow> branch_get (mbranches (snd (route m t))) i = Some b"
  by (auto simp: route_def Let_def)

lemma route_registry_ok:
  "registry_ok (mbranches m) \<Longrightarrow> registry_ok (mbranches (snd (route m t)))"
  by (simp add: route_def Let_def registry_ok_genesis)

lemma route_ok_branch:
  assumes "route m t = (None, m')" "registry_ok (mbranches m)"
  obtains b where "branch_get (mbranches m') (tp_branch_id (Proto t)) = Some b"
    "br_id b = tp_branch_id (Proto t)"
proof -
  have ok: "registry_ok (mbranches m')" using route_registry_ok [OF assms(2), of t] assms(1) by simp
  have "branch_get (mbranches m') (tp_branch_id (Proto t)) \<noteq> None"
    using assms(1) by (auto simp: route_def Let_def split: if_splits)
  then show thesis using that registry_okD [OF ok] by blast
qed

lemma enter_branch_frame [applyframe]:
  "mbranches (enter_branch m t) = mbranches m" "config (enter_branch m t) = config m"
  "Limiter (enter_branch m t) = Limiter m" "meshPeers (enter_branch m t) = meshPeers m"
  "custody (enter_branch m t) = custody m"
  "equivocationEvidence (enter_branch m t) = equivocationEvidence m"
  by (auto simp: enter_branch_def config_def split: option.splits)

lemma enter_branch_same [simp]: "\<not> swaps t \<Longrightarrow> enter_branch m t = m"
  by (simp add: enter_branch_def)

lemma leave_branch_same [simp]: "\<not> swaps t \<Longrightarrow> leave_branch c t ok m = m"
  by (simp add: leave_branch_def)

lemma config_eqD:
  assumes "config m = config m'"
  shows "groupID m = groupID m'" "MaxStewards m = MaxStewards m'" "MaxMeshPeers m = MaxMeshPeers m'"
    "MaxEvidenceEntries m = MaxEvidenceEntries m'" "MaxLogSize m = MaxLogSize m'"
    "MaxKVSize m = MaxKVSize m'" "MaxKVBytes m = MaxKVBytes m'" "MaxBranches m = MaxBranches m'"
  using assms by (simp_all add: config_def)

lemma leave_branch_config [applyframe]: "config (leave_branch c t ok m) = config m"
  by (simp add: leave_branch_def config_def Let_def split: option.splits)

text \<open>A branch that exists before the switch exists after it, unchanged.\<close>

lemma handle_branches:
  assumes "registry_ok (mbranches m)" "branch_get (mbranches m) i = Some b"
  shows "branch_get (mbranches (snd (handle E m t now))) i = Some b"
proof (cases "tp_type (Proto t) = BRANCH_CREATE")
  case False
  then show ?thesis using assms by (simp add: handle_frame)
next
  case True
  have "i \<noteq> nextID (mbranches m)" using assms fresh_nextID by fastforce
  then show ?thesis
    using assms(2) branch_get_allocate [of "mbranches m"] allocate_fields [of "mbranches m"]
    by (auto simp: handle_def True handle_branch_create_def Let_def case_prod_unfold
        split: option.splits payload.splits)
qed

lemma handle_mbranches_cases:
  "mbranches (snd (handle E m t now)) = mbranches m \<or>
   (\<exists>reason b. tp_type (Proto t) = BRANCH_CREATE \<and>
      mbranches (snd (handle E m t now)) =
        branch_put (snd (branch_allocate (mbranches m) (tp_branch_id (Proto t)) reason)) (nextID (mbranches m)) b \<and>
      br_id b = nextID (mbranches m) \<and>
      br_chain b = new_chain\<lparr>
        initialStewards := stewardsAtLocked E (mchain m) (tp_prior_state (Proto t)),
        initialThreshold := thresholdAtLocked E (mchain m) (tp_prior_state (Proto t))\<rparr>)"
proof (cases "\<exists>r. tp_type (Proto t) = BRANCH_CREATE \<and> tp_payload (Proto t) = Some (P_BranchCreate r)")
  case False
  have "mbranches (snd (handle E m t now)) = mbranches m"
  proof (cases "tp_type (Proto t) = BRANCH_CREATE")
    case True
    with False show ?thesis
      by (simp add: handle_def handle_branch_create_def split: option.splits payload.splits)
  qed (rule handle_frame(4))
  then show ?thesis ..
next
  case True
  then obtain r where r: "tp_type (Proto t) = BRANCH_CREATE" "tp_payload (Proto t) = Some (P_BranchCreate r)"
    by blast
  have "br_chain (fst (branch_allocate (mbranches m) (tp_branch_id (Proto t)) r)) = new_chain"
    by (simp add: branch_allocate_def Let_def newBranch_def)
  then show ?thesis
    using r allocate_fields [of "mbranches m" "tp_branch_id (Proto t)" r]
    by (intro disjI2 exI [of _ r] exI [of _ "(fst (branch_allocate (mbranches m) (tp_branch_id (Proto t)) r))
          \<lparr>br_chain := new_chain\<lparr>
             initialStewards := stewardsAtLocked E (mchain m) (tp_prior_state (Proto t)),
             initialThreshold := thresholdAtLocked E (mchain m) (tp_prior_state (Proto t))\<rparr>,
           br_genesisHLC := tp_hlc (Proto t)\<rparr>"])
      (simp add: handle_def handle_branch_create_def Let_def case_prod_unfold)
qed

lemma body_branches:
  assumes "registry_ok (mbranches m)" "branch_get (mbranches m) i = Some b"
  shows "branch_get (mbranches (snd (apply_body E m t inp))) i = Some b"
proof -
  define m1 where "m1 = snd (check_signer E m t (in_clock inp))"
  define m2 where "m2 = snd (verify_envelope E m1 t)"
  define m3 where "m3 = snd (handle E m2 t (in_now inp))"
  have "mbranches (snd (apply_body E m t inp)) \<in> {mbranches m, mbranches m1, mbranches m2, mbranches m3}"
    unfolding apply_body_def m3_def m2_def m1_def
    by (auto split: option.splits prod.splits sum.splits)
  moreover have "mbranches m1 = mbranches m" by (simp add: m1_def check_signer_frame)
  moreover have m2: "mbranches m2 = mbranches m1" by (simp add: m2_def verify_envelope_frame)
  moreover have "branch_get (mbranches m3) i = Some b"
    unfolding m3_def by (rule handle_branches) (use assms calculation(2) m2 in simp_all)
  ultimately show ?thesis using assms(2) by auto
qed

lemma body_mbranches_same:
  assumes "tp_type (Proto t) \<noteq> BRANCH_CREATE"
  shows "mbranches (snd (apply_body E m t inp)) = mbranches m"
proof -
  define m1 where "m1 = snd (check_signer E m t (in_clock inp))"
  define m2 where "m2 = snd (verify_envelope E m1 t)"
  define m3 where "m3 = snd (handle E m2 t (in_now inp))"
  have "mbranches (snd (apply_body E m t inp)) \<in> {mbranches m, mbranches m1, mbranches m2, mbranches m3}"
    unfolding apply_body_def m3_def m2_def m1_def
    by (auto split: option.splits prod.splits sum.splits)
  moreover have "mbranches m1 = mbranches m" by (simp add: m1_def check_signer_frame)
  moreover have "mbranches m2 = mbranches m1" by (simp add: m2_def verify_envelope_frame)
  moreover have "mbranches m3 = mbranches m2" by (simp add: m3_def handle_frame assms)
  ultimately show ?thesis by auto
qed

section \<open>Broadcast and persistence\<close>

lemma broadcastLocked_frame [applyframe]:
  "core (broadcastLocked s t r n) = core s" "persister (broadcastLocked s t r n) = persister s"
  "replaying (broadcastLocked s t r n) = replaying s"
  by (simp_all add: broadcastLocked_def split: option.splits)

lemma persistLocked_frame [applyframe]:
  "core (snd (persistLocked E s t inp)) = core s" "replaying (snd (persistLocked E s t inp)) = replaying s"
  "broadcaster (snd (persistLocked E s t inp)) = broadcaster s"
  by (auto simp: persistLocked_def split: option.splits prod.splits)

lemma persistLocked_err: "fst (persistLocked E s t inp) \<in> {None, Some PersistFailed}"
  by (auto simp: persistLocked_def SaveTransition_def split: option.splits prod.splits)

section \<open>The case rules\<close>

lemma apply_cases:
  obtains (route) e m where "route (core s) t = (Some e, m)"
    "Apply E s t inp = (Some e, s\<lparr>core := m\<rparr>)"
  | (body) m e m' where "route (core s) t = (None, m)"
    "apply_body E (enter_branch m t) t inp = (Some e, m')"
    "Apply E s t inp = (Some e, s\<lparr>core := leave_branch (mchain m) t False m'\<rparr>)"
  | (commit) m m' err s2 where "route (core s) t = (None, m)"
    "apply_body E (enter_branch m t) t inp = (None, m')"
    "persistLocked E (broadcastLocked (s\<lparr>core := m'\<rparr>) t (currentRoot E (mchain m'))
       (word_of_nat (length (log (mchain m'))) - 1)) t inp = (err, s2)" "core s2 = m'"
    "Apply E s t inp = (err, s2\<lparr>core := leave_branch (mchain m) t (err = None) m'\<rparr>)"
proof -
  obtain r m where r: "route (core s) t = (r, m)" by fastforce
  show thesis
  proof (cases r)
    case (Some e)
    then show thesis using r that(1) by (simp add: Apply_def)
  next
    case None
    obtain e m' where b: "apply_body E (enter_branch m t) t inp = (e, m')" by fastforce
    show thesis
    proof (cases e)
      case (Some e)
      then show thesis using r None b that(2) by (simp add: Apply_def)
    next
      case e: None
      let ?s1 = "broadcastLocked (s\<lparr>core := m'\<rparr>) t (currentRoot E (mchain m'))
          (word_of_nat (length (log (mchain m'))) - 1)"
      obtain err s2 where p: "persistLocked E ?s1 t inp = (err, s2)" by fastforce
      then have c: "core s2 = m'"
        using persistLocked_frame(1) [of E ?s1 t inp] broadcastLocked_frame(1) by simp
      have "Apply E s t inp = (err, s2\<lparr>core := leave_branch (mchain m) t (err = None) m'\<rparr>)"
        using r None b e p c by (simp add: Apply_def)
      with r None b e p c show thesis by (intro that(3)) simp_all
    qed
  qed
qed

text \<open>The chain a transition works on: the branch's fields, or the genesis ones.\<close>

definition work_chain :: "machine \<Rightarrow> transition \<Rightarrow> chain" where
  "work_chain m t = mchain (enter_branch (snd (route m t)) t)"

lemma work_chain_genesis: "\<not> swaps t \<Longrightarrow> work_chain m t = mchain m"
  by (simp add: work_chain_def route_frame)

lemma work_chain_branch:
  "swaps t \<Longrightarrow> branch_get (mbranches m) (tp_branch_id (Proto t)) = Some b \<Longrightarrow> work_chain m t = br_chain b"
  by (simp add: work_chain_def enter_branch_def route_branches)

section \<open>The registry invariant across a call\<close>

lemma handle_registry_ok:
  assumes "registry_ok (mbranches m)" "nextID (mbranches m) \<noteq> - 1"
  shows "registry_ok (mbranches (snd (handle E m t now)))"
  using handle_mbranches_cases [of E m t now]
proof (elim disjE exE conjE)
  fix reason b
  let ?a = "branch_allocate (mbranches m) (tp_branch_id (Proto t)) reason"
  assume "mbranches (snd (handle E m t now)) = branch_put (snd ?a) (nextID (mbranches m)) b"
    "br_id b = nextID (mbranches m)"
  then show ?thesis
    using registry_ok_put [OF registry_ok_allocate [OF assms], where i = "nextID (mbranches m)"] by simp
qed (use assms in simp)

lemma body_mbranches:
  "mbranches (snd (apply_body E m t inp)) = mbranches m \<or>
   (\<exists>m2. mbranches m2 = mbranches m \<and> config m2 = config m \<and>
      mbranches (snd (apply_body E m t inp)) = mbranches (snd (handle E m2 t (in_now inp))))"
proof -
  define m1 where "m1 = snd (check_signer E m t (in_clock inp))"
  define m2 where "m2 = snd (verify_envelope E m1 t)"
  define m3 where "m3 = snd (handle E m2 t (in_now inp))"
  have "mbranches (snd (apply_body E m t inp)) \<in> {mbranches m, mbranches m1, mbranches m2, mbranches m3}"
    unfolding apply_body_def m3_def m2_def m1_def
    by (auto split: option.splits prod.splits sum.splits)
  moreover have "mbranches m1 = mbranches m" "config m1 = config m"
    by (simp_all add: m1_def check_signer_frame)
  moreover have "mbranches m2 = mbranches m1" "config m2 = config m1"
    by (simp_all add: m2_def verify_envelope_frame)
  ultimately show ?thesis unfolding m3_def by auto
qed

lemma leave_registry_ok: "registry_ok (mbranches m) \<Longrightarrow> registry_ok (mbranches (leave_branch c t ok m))"
  using registry_okD [of "mbranches m" "tp_branch_id (Proto t)"]
  by (auto simp: leave_branch_def Let_def split: option.splits intro!: registry_ok_put)

lemma nextID_frame [applyframe]:
  "nextID (mbranches (snd (route m t))) = nextID (mbranches m)"
  "nextID (mbranches (leave_branch c t ok m)) = nextID (mbranches m)"
  by (auto simp: route_def leave_branch_def Let_def split: option.splits)

lemma Apply_registry_ok:
  assumes "registry_ok (mbranches (core s))" "nextID (mbranches (core s)) \<noteq> - 1"
  shows "registry_ok (mbranches (core (snd (Apply E s t inp))))"
proof -
  have r: "registry_ok (mbranches (snd (route (core s) t)))" by (rule route_registry_ok [OF assms(1)])
  have b: "registry_ok (mbranches m')"
    if "route (core s) t = (None, m)" "apply_body E (enter_branch m t) t inp = (e, m')" for m e m'
  proof -
    have "registry_ok (mbranches m)" "nextID (mbranches m) \<noteq> - 1"
      using r that(1) assms(2) nextID_frame(1) [of "core s" t] by simp_all
    then show ?thesis
      using body_mbranches [of E "enter_branch m t" t inp] handle_registry_ok that(2)
      by (auto simp: enter_branch_frame)
  qed
  show ?thesis
    by (cases rule: apply_cases [of s t E inp]) (use r b in \<open>auto intro: leave_registry_ok\<close>)
qed

end
