(* ===== verification/Examples.thy ===== *)
theory Examples
  imports ApplyFrame
begin

text \<open>
  A small concrete group for the witnesses: an environment whose hash reverses its input (so a root is
  made of the last bytes) and whose signatures are the key repeated twice, states with given
  stewards, and a maker for transitions. Facts about runs are evaluated in the kernel.
\<close>

definition ex_sha :: hashfun where
  "ex_sha b = rev b"

definition ex_E :: env where
  "ex_E = ex_env\<lparr>sha256 := ex_sha\<rparr>"

definition ex_inp :: apply_input where
  "ex_inp = \<lparr>in_now = 5, in_clock = (0, 0, 0), in_db_ok = True\<rparr>"

text \<open>A transition on a branch: type, prior state, payload, signing key, and a byte that its HLC
  and canonical bytes are made of.\<close>

definition ex_tx :: "u32 \<Rightarrow> ttype \<Rightarrow> bytes option \<Rightarrow> payload \<Rightarrow> nat \<Rightarrow> byte \<Rightarrow> transition" where
  "ex_tx br ty prior p k b = \<lparr>Proto = \<lparr>tp_type = ty, tp_prior_state = prior, tp_payload = Some p,
     tp_signed_at = None, tp_hlc = replicate 18 b,
     tp_steward_signatures = Some \<lparr>ms_signatures = [ex_sig k], ms_threshold = 1\<rparr>,
     tp_branch_id = br\<rparr>, canonical = [b], tr_groupID = ex_key 9\<rparr>"

definition ex_create_payload :: "nat list \<Rightarrow> payload" where
  "ex_create_payload ks = P_CreateGroup \<lparr>cg_canonical_name = ''g'', cg_display_name = ''G'',
     cg_initial_stewards = map ex_key ks, cg_threshold = 1, cg_metadata = [],
     cg_initial_mesh_peers = []\<rparr>"

text \<open>A group whose head has the given stewards and threshold, with an empty key-value state.\<close>

definition ex_chain :: "nat list \<Rightarrow> u32 \<Rightarrow> chain" where
  "ex_chain ks thr = new_chain\<lparr>initialStewards := map ex_key ks, initialThreshold := thr,
     stewardHistory := [copy32 (ex_sha []) \<mapsto> map ex_key ks],
     thresholdHistory := [copy32 (ex_sha []) \<mapsto> thr]\<rparr>"

definition ex_state :: "nat list \<Rightarrow> u32 \<Rightarrow> state" where
  "ex_state ks thr = (NewState (ex_key 9))\<lparr>core := (new_machine (ex_key 9))\<lparr>mchain := ex_chain ks thr\<rparr>\<rparr>"

text \<open>The same group with a branch 1, as BRANCH_CREATE leaves it.\<close>

definition ex_branch :: "nat list \<Rightarrow> u32 \<Rightarrow> branch" where
  "ex_branch ks thr = (newBranch 1)\<lparr>br_reason := ''x'',
     br_chain := new_chain\<lparr>initialStewards := map ex_key ks, initialThreshold := thr\<rparr>\<rparr>"

definition ex_branched :: "nat list \<Rightarrow> u32 \<Rightarrow> state" where
  "ex_branched ks thr = (ex_state ks thr)\<lparr>core := (core (ex_state ks thr))\<lparr>mbranches :=
     \<lparr>branches = [(0, newBranch 0), (1, ex_branch ks thr)], nextID = 2\<rparr>\<rparr>\<rparr>"

text \<open>A run of transitions, with the root each one is built on computed from the state.\<close>

fun ex_run :: "state \<Rightarrow> (bytes option \<Rightarrow> transition) list \<Rightarrow> group_error option list \<times> state" where
  "ex_run s [] = ([], s)"
| "ex_run s (f # fs) =
     (let (e, s) = Apply ex_E s (f (Some (state_Root ex_E s))) ex_inp; (es, s) = ex_run s fs
      in (e # es, s))"

lemma ex_key_inject [simp]:
  "ex_key a = ex_key b \<longleftrightarrow> (word_of_nat a :: byte) = word_of_nat b"
  by (auto simp: ex_key_def)

lemma ex_key_zero [simp]: "ex_key a = zero32 \<longleftrightarrow> (word_of_nat a :: byte) = 0"
  by (auto simp: ex_key_def)

lemma ex_E_simps [simp]:
  "sha256 ex_E = ex_sha" "ed25519_verify ex_E pub msg sig \<longleftrightarrow> sig = pub @ pub"
  "marshal_transition ex_E = (\<lambda>t. Some (tp_hlc t))"
  by (simp_all add: ex_E_def ex_env_def ex_prims_def prims.defs)

lemma ex_state_registry [simp]: "registry_ok (mbranches (core (ex_state ks thr)))"
  by (simp add: ex_state_def new_machine_def registry_ok_new)

lemma ex_branched_registry [simp]:
  "registry_ok (mbranches (core (ex_branched ks thr)))"
  "branch_get (mbranches (core (ex_branched ks thr))) 1 = Some (ex_branch ks thr)"
  by (auto simp: ex_branched_def registry_ok_def branch_get_def newBranch_def ex_branch_def)

lemma ex_tx_simps [simp]:
  "tp_type (Proto (ex_tx br ty prior p k b)) = ty"
  "tp_prior_state (Proto (ex_tx br ty prior p k b)) = prior"
  "tp_payload (Proto (ex_tx br ty prior p k b)) = Some p"
  "tp_branch_id (Proto (ex_tx br ty prior p k b)) = br"
  "tp_hlc (Proto (ex_tx br ty prior p k b)) = replicate 18 b"
  "swaps (ex_tx br ty prior p k b) \<longleftrightarrow> br \<noteq> 0 \<and> ty \<noteq> BRANCH_CREATE"
  by (simp_all add: ex_tx_def swaps_def GenesisBranchID_def)

end
