(* ===== verification/ApplySafety.thy ===== *)
theory ApplySafety
  imports Examples
begin

text \<open>
  The safety properties of State.Apply: who has authorised a transition that is applied, what a
  rejected transition leaves behind, and that branches do not affect one another.
\<close>

section \<open>Lemmas\<close>

lemma ledgerD:
  assumes "ledger c = ledger c'"
  shows "snapshot c = snapshot c'" "log c = log c'" "stewardHistory c = stewardHistory c'"
    "thresholdHistory c = thresholdHistory c'" "currentRoot E c = currentRoot E c'"
  using assms by (simp_all add: ledger_def currentRoot_def)

lemma stewardsAt_ledger:
  "ledger c = ledger c' \<Longrightarrow> initialStewards c = initialStewards c' \<Longrightarrow>
   stewardsAtLocked E c r = stewardsAtLocked E c' r"
  using ledgerD [of c c'] by (simp add: stewardsAtLocked_def split: option.split)

lemma thresholdAt_ledger:
  "ledger c = ledger c' \<Longrightarrow> initialThreshold c = initialThreshold c' \<Longrightarrow>
   thresholdAtLocked E c r = thresholdAtLocked E c' r"
  using ledgerD [of c c'] by (simp add: thresholdAtLocked_def split: option.split)

text \<open>The envelope that verifies: at least the threshold of distinct stewards signed.\<close>

definition authorised :: "env \<Rightarrow> transition \<Rightarrow> steward list \<Rightarrow> u32 \<Rightarrow> bool" where
  "authorised E t stewards thr \<longleftrightarrow>
     0 < thr \<and> (\<exists>ms. tp_steward_signatures (Proto t) = Some ms \<and>
       unat thr \<le> card (signers E (CanonicalSignBytes E (tr_groupID t) MsgKindTransition (canonical t))
                          stewards (sig_array ms)))"

lemma multisig_authorised:
  assumes "tp_steward_signatures (Proto t) = Some ms"
    "VerifyMultisig E stewards thr (sig_array ms) (tr_groupID t) MsgKindTransition (canonical t) = None"
  shows "authorised E t stewards thr"
proof -
  let ?msg = "CanonicalSignBytes E (tr_groupID t) MsgKindTransition (canonical t)"
  let ?v = "verified_set E ?msg stewards (sig_array ms)"
  have thr: "thr \<noteq> 0" "thr \<le> (word_of_nat (length ?v) :: u32)"
    using assms(2) by (auto simp: VerifyMultisig_def Let_def split: if_splits)
  have v: "distinct ?v" "set ?v \<subseteq> signers E ?msg stewards (sig_array ms)"
    using verified_set_sound [of E ?msg stewards "sig_array ms"] by auto
  have "finite (signers E ?msg stewards (sig_array ms))" by (simp add: signers_def)
  then have "length ?v \<le> card (signers E ?msg stewards (sig_array ms))"
    using v card_mono distinct_card by metis
  moreover have "unat thr \<le> length ?v"
  proof -
    have "unat thr \<le> unat (word_of_nat (length ?v) :: u32)"
      using thr(2) by (simp add: word_le_nat_alt)
    also have "\<dots> \<le> length ?v" by (simp add: unat_of_nat)
    finally show ?thesis .
  qed
  ultimately show ?thesis
    using thr(1) assms(1) by (auto simp: authorised_def word_neq_0_conv)
qed

text \<open>The payload of a genesis transition and the stewards it declares.\<close>

definition declares :: "transition \<Rightarrow> steward list \<Rightarrow> u32 \<Rightarrow> bool" where
  "declares t stewards thr \<longleftrightarrow>
     tp_type (Proto t) = CREATE_GROUP \<and>
     (\<exists>p. tp_payload (Proto t) = Some (P_CreateGroup p) \<and>
          stewards = map copy32 (cg_initial_stewards p) \<and> thr = cg_threshold p)"

lemma verify_envelope_ok:
  assumes "verify_envelope E m t = (None, m')"
  obtains (later) "stewardsAtLocked E (mchain m) (tp_prior_state (Proto t)) \<noteq> []" "m' = m"
    "authorised E t (stewardsAtLocked E (mchain m) (tp_prior_state (Proto t)))
       (thresholdAtLocked E (mchain m) (tp_prior_state (Proto t)))"
  | (genesis) stewards thr where
    "stewardsAtLocked E (mchain m) (tp_prior_state (Proto t)) = []" "declares t stewards thr"
    "authorised E t stewards thr"
    "m' = m\<lparr>mchain := (mchain m)\<lparr>initialStewards := stewards, initialThreshold := thr\<rparr>\<rparr>"
proof (cases "stewardsAtLocked E (mchain m) (tp_prior_state (Proto t)) = []")
  case False
  then have "VerifyStewardSignatures E t (mchain m) = None" "m' = m"
    using assms by (auto simp: verify_envelope_def)
  then show thesis using False
    by (intro later) (auto simp: VerifyStewardSignatures_def stewardsAndThresholdAtLocked_def
        verifyStewardSignaturesWith_def intro: multisig_authorised split: option.splits)
next
  case True
  then have c: "verify_create E m t = (None, m')" using assms by (simp add: verify_envelope_def)
  then obtain p where p: "tp_type (Proto t) = CREATE_GROUP" "tp_payload (Proto t) = Some (P_CreateGroup p)"
    by (auto simp: verify_create_def split: if_splits option.splits payload.splits)
  then obtain ms where ms: "tp_steward_signatures (Proto t) = Some ms"
    "VerifyMultisig E (map copy32 (cg_initial_stewards p)) (cg_threshold p) (sig_array ms)
       (tr_groupID t) MsgKindTransition (canonical t) = None"
    "m' = m\<lparr>mchain := (mchain m)\<lparr>initialStewards := map copy32 (cg_initial_stewards p),
       initialThreshold := cg_threshold p\<rparr>\<rparr>"
    using c by (auto simp: verify_create_def Let_def split: if_splits option.splits)
  show thesis
    by (rule genesis [OF True _ multisig_authorised [OF ms(1,2)] ms(3)])
      (use p in \<open>simp add: declares_def\<close>)
qed

text \<open>What a successful body did, stage by stage, in terms of the chain it started from.\<close>

lemma body_ok_authorised:
  assumes "apply_body E m t inp = (None, m')"
  shows "\<exists>stewards thr. authorised E t stewards thr \<and>
    (stewards = stewardsAtLocked E (mchain m) (tp_prior_state (Proto t)) \<and>
       thr = thresholdAtLocked E (mchain m) (tp_prior_state (Proto t)) \<and> stewards \<noteq> [] \<or>
     stewardsAtLocked E (mchain m) (tp_prior_state (Proto t)) = [] \<and> declares t stewards thr)"
proof -
  from assms obtain m1 m2 where m1: "check_signer E m t (in_clock inp) = (None, m1)"
    and m2: "verify_envelope E m1 t = (None, m2)"
    by (rule apply_body_ok)
  have f: "ledger (mchain m1) = ledger (mchain m)" "initialStewards (mchain m1) = initialStewards (mchain m)"
    "initialThreshold (mchain m1) = initialThreshold (mchain m)"
    using check_signer_frame [of E m t "in_clock inp"] m1 by simp_all
  have s: "stewardsAtLocked E (mchain m1) r = stewardsAtLocked E (mchain m) r"
    "thresholdAtLocked E (mchain m1) r = thresholdAtLocked E (mchain m) r" for r
    using stewardsAt_ledger [OF f(1,2)] thresholdAt_ledger [OF f(1,3)] by simp_all
  from m2 show ?thesis
    by (cases rule: verify_envelope_ok) (auto simp: s)
qed

text \<open>What a commit writes.\<close>

lemma commit_chain_simps [simp]:
  "snapshot (commit_chain E ml c t es) = \<lparr>Entries = es\<rparr>"
  "log (commit_chain E ml c t es) = trim_log ml (log c @ [t])"
  "initialStewards (commit_chain E ml c t es) = initialStewards c"
  "initialThreshold (commit_chain E ml c t es) = initialThreshold c"
  "equivocation (commit_chain E ml c t es) = equivocation c"
  "currentRoot E (commit_chain E ml c t es) = Root (sha256 E) \<lparr>Entries = es\<rparr>"
  by (simp_all add: commit_chain_def Let_def currentRoot_def)

lemma commit_stewards:
  "stewardHistory (commit_chain E ml c t es) =
     (stewardHistory c)(Root (sha256 E) \<lparr>Entries = es\<rparr> \<mapsto>
        computeCurrentStewards E (c\<lparr>snapshot := \<lparr>Entries = es\<rparr>\<rparr>) (Proto t))"
  by (simp add: commit_chain_def Let_def currentRoot_def)

lemma computeCurrentThreshold_cong:
  assumes "initialThreshold c = initialThreshold c'" "thresholdHistory c = thresholdHistory c'"
  shows "computeCurrentThreshold E c p = computeCurrentThreshold E c' p"
  unfolding computeCurrentThreshold_def assms ..

lemma commit_thresholds:
  "thresholdHistory (commit_chain E ml c t es) =
     (thresholdHistory c)(Root (sha256 E) \<lparr>Entries = es\<rparr> \<mapsto> computeCurrentThreshold E c (Proto t))"
  by (simp add: commit_chain_def Let_def currentRoot_def)
    (rule arg_cong [where f = "\<lambda>x. _(_ \<mapsto> x)"], rule computeCurrentThreshold_cong, simp_all)

text \<open>The chain that a transition left behind.\<close>

definition result_chain :: "machine \<Rightarrow> transition \<Rightarrow> chain" where
  "result_chain m t =
     (if swaps t then (case branch_get (mbranches m) (tp_branch_id (Proto t)) of
                         None \<Rightarrow> new_chain | Some b \<Rightarrow> br_chain b)
      else mchain m)"

lemma leave_result:
  assumes "branch_get (mbranches m') (tp_branch_id (Proto t)) \<noteq> None"
  shows "result_chain (leave_branch c t True m') t = mchain m'"
  using assms by (auto simp: result_chain_def leave_branch_def Let_def)

text \<open>A successful call in terms of its stages.\<close>

lemma apply_ok:
  assumes "Apply E s t inp = (None, s')" "registry_ok (mbranches (core s))"
  obtains m m1 m2 m3 es where "route (core s) t = (None, m)"
    "check_hlc t = None" "check_prior E (enter_branch m t) t = None"
    "check_signer E (enter_branch m t) t (in_clock inp) = (None, m1)"
    "verify_envelope E m1 t = (None, m2)" "handle E m2 t (in_now inp) = (Inr es, m3)"
    "mchain m3 = mchain m2" "config m3 = config (core s)"
    "result_chain (core s') t = commit_chain E (MaxLogSize (core s)) (mchain m2) t es"
    "core s' = leave_branch (mchain m) t True
       (m3\<lparr>mchain := commit_chain E (MaxLogSize (core s)) (mchain m2) t es\<rparr>)"
proof (cases rule: apply_cases [of s t E inp])
  case (commit m m' err s2)
  from commit(2) obtain m1 m2 m3 es where st: "check_hlc t = None"
    "check_prior E (enter_branch m t) t = None"
    "check_signer E (enter_branch m t) t (in_clock inp) = (None, m1)"
    "verify_envelope E m1 t = (None, m2)" "handle E m2 t (in_now inp) = (Inr es, m3)"
    "m' = m3\<lparr>mchain := commit_chain E (MaxLogSize m3) (mchain m3) t es\<rparr>"
    by (rule apply_body_ok)
  have m3: "mchain m3 = mchain m2" using handle_frame(1) [of E m2 t "in_now inp"] st(5) by simp
  have cfg: "config m3 = config (core s)"
    using handle_frame(2) [of E m2 t "in_now inp"] verify_envelope_frame(3) [of E m1 t]
      check_signer_frame [of E "enter_branch m t" t "in_clock inp"] enter_branch_frame(2) [of m t]
      route_frame(2) [of "core s" t] st commit(1) by simp
  obtain b where "branch_get (mbranches m) (tp_branch_id (Proto t)) = Some b"
    using route_ok_branch [OF commit(1) assms(2)] by blast
  then have "branch_get (mbranches m') (tp_branch_id (Proto t)) = Some b"
    using body_branches [of "enter_branch m t" "tp_branch_id (Proto t)" b E t inp] commit(1,2)
      route_registry_ok [OF assms(2), of t] by (simp add: enter_branch_frame)
  then have "result_chain (core s') t = mchain m'"
    using leave_result [of m' t "mchain m"] commit(5) assms(1) by simp
  moreover have "core s' = leave_branch (mchain m) t True m'" using commit(5) assms(1) by simp
  ultimately show thesis
    using that [OF commit(1) st(1-5) m3 cfg] st(6) config_eqD(5) [OF cfg] m3 by simp
qed (use assms in auto)

lemma work_chain_route: "route (core s) t = (None, m) \<Longrightarrow> work_chain (core s) t = mchain (enter_branch m t)"
  by (simp add: work_chain_def)

text \<open>The chain a successful call commits to, compared with the one it started from.\<close>

lemma apply_ok_chain:
  assumes "Apply E s t inp = (None, s')" "registry_ok (mbranches (core s))"
  obtains c2 es where "ledger c2 = ledger (work_chain (core s) t)"
    "result_chain (core s') t = commit_chain E (MaxLogSize (core s)) c2 t es"
    "stewardsAtLocked E (work_chain (core s) t) (tp_prior_state (Proto t)) \<noteq> [] \<Longrightarrow>
       initialStewards c2 = initialStewards (work_chain (core s) t) \<and>
       initialThreshold c2 = initialThreshold (work_chain (core s) t)"
    "has_prior t \<Longrightarrow> prior_of t = currentRoot E (work_chain (core s) t)"
proof -
  from assms obtain m m1 m2 m3 es where st: "route (core s) t = (None, m)"
    "check_prior E (enter_branch m t) t = None"
    "check_signer E (enter_branch m t) t (in_clock inp) = (None, m1)"
    "verify_envelope E m1 t = (None, m2)"
    "result_chain (core s') t = commit_chain E (MaxLogSize (core s)) (mchain m2) t es"
    by (rule apply_ok)
  note w = work_chain_route [OF st(1)]
  have f: "ledger (mchain m1) = ledger (work_chain (core s) t)"
    "initialStewards (mchain m1) = initialStewards (work_chain (core s) t)"
    "initialThreshold (mchain m1) = initialThreshold (work_chain (core s) t)"
    using check_signer_frame [of E "enter_branch m t" t "in_clock inp"] st(3) by (simp_all add: w)
  have l2: "ledger (mchain m2) = ledger (work_chain (core s) t)"
    using verify_envelope_frame(1) [of E m1 t] st(4) f(1) by simp
  have i2: "initialStewards (mchain m2) = initialStewards (work_chain (core s) t) \<and>
       initialThreshold (mchain m2) = initialThreshold (work_chain (core s) t)"
    if "stewardsAtLocked E (work_chain (core s) t) (tp_prior_state (Proto t)) \<noteq> []"
    using st(4)
  proof (cases rule: verify_envelope_ok)
    case (genesis stewards thr)
    then show ?thesis using that stewardsAt_ledger [OF f(1,2)] by simp
  qed (use f in simp)
  have p: "has_prior t \<Longrightarrow> prior_of t = currentRoot E (work_chain (core s) t)"
    using st(2) by (auto simp: check_prior_def w split: if_splits)
  show thesis by (rule that [OF l2 st(5) i2 p])
qed

text \<open>Every branch is still there, with its ledger and its transition count.\<close>

definition branches_kept :: "branch_registry \<Rightarrow> branch_registry \<Rightarrow> bool" where
  "branches_kept r r' \<longleftrightarrow>
     (\<forall>i b. branch_get r i = Some b \<longrightarrow>
        (\<exists>b'. branch_get r' i = Some b' \<and> ledger (br_chain b') = ledger (br_chain b) \<and>
              br_transitionCount b' = br_transitionCount b))"

lemma branches_keptI:
  "(\<And>i b. branch_get r i = Some b \<Longrightarrow> branch_get r' i = Some b) \<Longrightarrow> branches_kept r r'"
  by (simp add: branches_kept_def)

lemma branches_kept_trans: "branches_kept r r' \<Longrightarrow> branches_kept r' r'' \<Longrightarrow> branches_kept r r''"
  unfolding branches_kept_def by metis

lemma leave_fail_kept:
  assumes "swaps t" "branch_get (mbranches m) (tp_branch_id (Proto t)) = Some b"
    "ledger (mchain m) = ledger (br_chain b)"
  shows "mchain (leave_branch c t False m) = c \<and>
    branches_kept (mbranches m) (mbranches (leave_branch c t False m))"
  using assms ledgerD [OF assms(3)]
  by (auto simp: leave_branch_def Let_def branches_kept_def ledger_def)

lemma Size_18: "Size = 18"
  by (simp add: Size_def)

text \<open>The equivocation log of a chain, as the check finds it.\<close>

definition equiv_log :: "chain \<Rightarrow> equivocation_log" where
  "equiv_log c = (case equivocation c of None \<Rightarrow> newEquivocationLog | Some e \<Rightarrow> e)"

lemma checkEquivocation_spec:
  "fst (checkEquivocationLocked E m k p h x t) = (fst (equiv_check (equiv_log (mchain m)) k p h x) \<noteq> None) \<and>
   equivocation (mchain (snd (checkEquivocationLocked E m k p h x t))) =
     Some (snd (equiv_check (equiv_log (mchain m)) k p h x))"
  by (auto simp: checkEquivocationLocked_def equiv_log_def Let_def split: prod.splits option.splits)

lemma check_signer_equiv_ok:
  assumes "check_signer E m t clk = (None, m1)" "has_prior t"
    "findSigningSteward E t (stewardsAtLocked E (mchain m) (tp_prior_state (Proto t))) = k" "k \<noteq> zero32"
  shows "fst (equiv_check (equiv_log (mchain m)) k (prior_of t) (tp_hlc (Proto t)) (transitionTxHash E t)) = None"
    "equivocation (mchain m1) =
       Some (snd (equiv_check (equiv_log (mchain m)) k (prior_of t) (tp_hlc (Proto t)) (transitionTxHash E t)))"
proof -
  let ?chk = "\<lambda>m. checkEquivocationLocked E m k (prior_of t) (tp_hlc (Proto t)) (transitionTxHash E t) (Some t)"
  obtain m0 where m0: "mchain m0 = mchain m" "?chk m0 = (False, m1)"
  proof (cases rule: check_signer_cases [of t E m clk])
    case (4 m0 b m2)
    have "mchain m0 = mchain m"
      using check_limiter_frame(1) [of m k clk] 4(3) assms(3) by simp
    moreover have "\<not> b" "m2 = m1" using 4(5) assms(1) by (auto split: if_splits)
    ultimately show thesis using that 4(4) assms(3) by simp
  qed (use assms in auto)
  show "fst (equiv_check (equiv_log (mchain m)) k (prior_of t) (tp_hlc (Proto t)) (transitionTxHash E t)) = None"
    "equivocation (mchain m1) =
       Some (snd (equiv_check (equiv_log (mchain m)) k (prior_of t) (tp_hlc (Proto t)) (transitionTxHash E t)))"
    using checkEquivocation_spec [of E m0 k "prior_of t" "tp_hlc (Proto t)" "transitionTxHash E t" "Some t"]
    by (simp_all add: m0)
qed

lemma equiv_recorded:
  assumes "equiv_ok e" "fst (equiv_check e k p h x) = None"
  shows "map_of (seen (snd (equiv_check e k p h x))) (k, p) = Some \<lparr>seen_HLC = h, seen_TxHash = x\<rparr>"
proof (cases "map_of (seen e) (k, p)")
  case None
  then have "snd (equiv_check e k p h x) = equiv_insert e (k, p) h x" by (simp add: equiv_check_def)
  then show ?thesis using entry_within_new [OF assms(1) None, of h x] by (simp add: entry_within_def)
next
  case (Some v)
  then have "seen_HLC v = h" "seen_TxHash v = x"
    using assms(2) by (auto simp: equiv_check_def split: if_splits)
  then have "v = \<lparr>seen_HLC = h, seen_TxHash = x\<rparr>" by (intro hlc_seen.equality) simp_all
  then show ?thesis using Some by (simp add: equiv_check_def)
qed

lemma work_result:
  assumes "route m t = (None, m')" "swaps t' = swaps t" "tp_branch_id (Proto t') = tp_branch_id (Proto t)"
  shows "work_chain m t = result_chain m t'"
proof (cases "swaps t")
  case True
  then obtain b where "branch_get (mbranches m) (tp_branch_id (Proto t)) = Some b"
    using assms(1) by (auto simp: route_def Let_def swaps_def split: if_splits)
  then show ?thesis using True assms(2,3) by (simp add: work_chain_branch result_chain_def)
qed (simp add: work_chain_genesis result_chain_def assms(2))

text \<open>What a call keeps: every branch but the one it works on, and the genesis chain when it works on a branch.\<close>

lemma Apply_body_branch:
  assumes "registry_ok (mbranches (core s))" "Apply.route (core s) t = (None, m)"
    "apply_body E (enter_branch m t) t inp = (e, m')" "branch_get (mbranches (core s)) j = Some b"
  shows "branch_get (mbranches m') j = Some b"
proof -
  have "registry_ok (mbranches (enter_branch m t))"
    using route_registry_ok [OF assms(1), of t] assms(2) by (simp add: enter_branch_frame)
  moreover have "branch_get (mbranches m) j = Some b"
    using route_branches [OF assms(4), of t] assms(2) by simp
  ultimately show ?thesis
    using body_branches [of "enter_branch m t" j b E t inp] assms(3) by (simp add: enter_branch_frame)
qed

lemma Apply_body_target:
  assumes "registry_ok (mbranches (core s))" "Apply.route (core s) t = (None, m)"
    "apply_body E (enter_branch m t) t inp = (e, m')"
  shows "branch_get (mbranches m') (tp_branch_id (Proto t)) \<noteq> None"
proof -
  have "registry_ok (mbranches (enter_branch m t))"
    using route_registry_ok [OF assms(1), of t] assms(2) by (simp add: enter_branch_frame)
  moreover obtain b where "branch_get (mbranches m) (tp_branch_id (Proto t)) = Some b"
    using route_ok_branch [OF assms(2,1)] by blast
  ultimately show ?thesis
    using body_branches [of "enter_branch m t" "tp_branch_id (Proto t)" b E t inp] assms(3)
    by (simp add: enter_branch_frame)
qed

lemma leave_branch_other:
  "swaps t \<longrightarrow> j \<noteq> tp_branch_id (Proto t) \<Longrightarrow>
   branch_get (mbranches (leave_branch c t ok m)) j = branch_get (mbranches m) j"
  by (auto simp: leave_branch_def Let_def split: option.splits)

lemma leave_branch_genesis:
  "swaps t \<Longrightarrow> branch_get (mbranches m) (tp_branch_id (Proto t)) \<noteq> None \<Longrightarrow> mchain (leave_branch c t ok m) = c"
  by (auto simp: leave_branch_def Let_def)

lemma Apply_keeps_branch:
  assumes "registry_ok (mbranches (core s))" "branch_get (mbranches (core s)) j = Some b"
    "swaps t \<longrightarrow> j \<noteq> tp_branch_id (Proto t)"
  shows "branch_get (mbranches (core (snd (Apply E s t inp)))) j = Some b"
proof (cases rule: apply_cases [of s t E inp])
  case (route e m)
  then show ?thesis using route_branches [OF assms(2), of t] by simp
next
  case (body m e m')
  then show ?thesis
    using Apply_body_branch [OF assms(1) body(1,2) assms(2)] leave_branch_other [OF assms(3)] by simp
next
  case (commit m m' err s2)
  then show ?thesis
    using Apply_body_branch [OF assms(1) commit(1,2) assms(2)] leave_branch_other [OF assms(3)] by simp
qed

lemma Apply_keeps_genesis:
  assumes "registry_ok (mbranches (core s))" "swaps t"
  shows "mchain (core (snd (Apply E s t inp))) = mchain (core s)"
  using route_frame(1) [of "core s" t]
proof (cases rule: apply_cases [of s t E inp])
  case (body m e m')
  then show ?thesis
    using Apply_body_target [OF assms(1) body(1,2)] leave_branch_genesis [OF assms(2)] route_frame(1) [of "core s" t]
    by simp
next
  case (commit m m' err s2)
  then show ?thesis
    using Apply_body_target [OF assms(1) commit(1,2)] leave_branch_genesis [OF assms(2)] route_frame(1) [of "core s" t]
    by simp
qed simp

section \<open>Properties\<close>

text \<open>
  C1: authorisation: every transition that Apply accepts carries, over its own canonical bytes
  and group, valid signatures of at least the threshold of distinct stewards, the threshold not
  being zero. The stewards and the threshold are those of its prior state on its branch, unless
  no steward is known there; then it is a CREATE_GROUP and they are the ones it declares.
\<close>

theorem Apply_authorised:
  assumes "Apply E s t inp = (None, s')"
  shows "\<exists>stewards thr. authorised E t stewards thr \<and>
    (stewards = stewardsAtLocked E (work_chain (core s) t) (tp_prior_state (Proto t)) \<and>
       thr = thresholdAtLocked E (work_chain (core s) t) (tp_prior_state (Proto t)) \<and> stewards \<noteq> [] \<or>
     stewardsAtLocked E (work_chain (core s) t) (tp_prior_state (Proto t)) = [] \<and>
       declares t stewards thr)"
proof (cases rule: apply_cases [of s t E inp])
  case (commit m m' err s2)
  then show ?thesis using body_ok_authorised [OF commit(2)] by (simp add: work_chain_def)
qed (use assms in auto)

theorem Apply_authorised_witness:
  "\<exists>stewards thr. authorised ex_E (ex_tx 0 ADD_MEMBER (Some zero32) (P_AddMember (ex_key 3)) 1 2) stewards thr"
proof -
  have "fst (Apply ex_E (ex_state [1, 2] 1)
      (ex_tx 0 ADD_MEMBER (Some zero32) (P_AddMember (ex_key 3)) 1 2) ex_inp) = None"
    by code_simp
  then obtain s' where "Apply ex_E (ex_state [1, 2] 1)
      (ex_tx 0 ADD_MEMBER (Some zero32) (P_AddMember (ex_key 3)) 1 2) ex_inp = (None, s')"
    by (metis prod.collapse)
  from Apply_authorised [OF this] show ?thesis by blast
qed

text \<open>
  C4: atomicity of rejection: when Apply returns an error other than a failed insert into the
  durable log, the snapshot, the transition log and both histories of the genesis chain and of
  every branch are unchanged, transition counts too, nothing is broadcast and nothing persisted.
\<close>

theorem Apply_failure_atomic:
  assumes "Apply E s t inp = (Some e, s')" "e \<noteq> PersistFailed" "registry_ok (mbranches (core s))"
  shows "ledger (mchain (core s')) = ledger (mchain (core s)) \<and>
    branches_kept (mbranches (core s)) (mbranches (core s')) \<and>
    persister s' = persister s \<and> broadcaster s' = broadcaster s"
proof (cases rule: apply_cases [of s t E inp])
  case (route e' m)
  then have m: "m = snd (Apply.route (core s) t)" by simp
  have "branches_kept (mbranches (core s)) (mbranches m)"
    using route_branches unfolding m by (blast intro: branches_keptI)
  then show ?thesis
    using route(2) assms(1) route_frame(1) [of "core s" t] m by auto
next
  case (body m e' m')
  have ok: "registry_ok (mbranches m)" using route_registry_ok [OF assms(3), of t] body(1) by simp
  have k: "branches_kept (mbranches (core s)) (mbranches m)"
    using route_branches [of "core s" _ _ t] body(1) by (intro branches_keptI) simp
  have mc: "mchain m = mchain (core s)" using route_frame(1) [of "core s" t] body(1) by simp
  have l: "ledger (mchain m') = ledger (mchain (enter_branch m t))"
    by (rule apply_body_fail_frame [OF body(2)])
  have "ledger (mchain (leave_branch (mchain m) t False m')) = ledger (mchain m) \<and>
      branches_kept (mbranches m) (mbranches (leave_branch (mchain m) t False m'))"
  proof (cases "swaps t")
    case True
    obtain b where b: "branch_get (mbranches m) (tp_branch_id (Proto t)) = Some b"
      using route_ok_branch [OF body(1) assms(3)] by blast
    have "mbranches m' = mbranches m"
      using body_mbranches_same [of t E "enter_branch m t" inp] True body(2)
      by (simp add: swaps_def enter_branch_frame)
    then show ?thesis
      using leave_fail_kept [OF True, of m' b "mchain m"] b l True
      by (simp add: enter_branch_def)
  next
    case False
    have "branches_kept (mbranches m) (mbranches m')"
      using body_branches [OF ok, of _ _ E t inp] body(2) False by (intro branches_keptI) simp
    then show ?thesis using False l by simp
  qed
  then show ?thesis
    using body(3) assms(1) mc branches_kept_trans [OF k] by auto
next
  case (commit m m' err s2)
  then have "err = Some e" using assms(1) by simp
  then show ?thesis
    using commit(3) persistLocked_err [of E _ t inp] assms(2) by (metis empty_iff fst_conv insertE option.distinct(1) option.inject)
qed

theorem Apply_failure_atomic_witness:
  "\<exists>s'. Apply ex_E (ex_state [1, 2] 2) (ex_tx 0 ADD_MEMBER (Some zero32) (P_AddMember (ex_key 3)) 1 2) ex_inp
      = (Some (Envelope (SignatureVerification (NeedSignatures 1 2))), s') \<and>
    ledger (mchain (core s')) = ledger (ex_chain [1, 2] 2)"
proof -
  have "fst (Apply ex_E (ex_state [1, 2] 2)
      (ex_tx 0 ADD_MEMBER (Some zero32) (P_AddMember (ex_key 3)) 1 2) ex_inp) =
      Some (Envelope (SignatureVerification (NeedSignatures 1 2)))"
    by code_simp
  then obtain s' where s': "Apply ex_E (ex_state [1, 2] 2)
      (ex_tx 0 ADD_MEMBER (Some zero32) (P_AddMember (ex_key 3)) 1 2) ex_inp =
      (Some (Envelope (SignatureVerification (NeedSignatures 1 2))), s')"
    by (metis prod.collapse)
  from Apply_failure_atomic [OF this] have "ledger (mchain (core s')) = ledger (ex_chain [1, 2] 2)"
    by (simp add: ex_state_def new_machine_def registry_ok_new)
  with s' show ?thesis by blast
qed

text \<open>
  C12: branches are isolated: whatever its outcome, a call that targets one branch leaves the
  genesis chain and every other branch exactly as they were, and a call on the genesis branch
  (branch creation included) leaves every existing branch as it was.
\<close>

theorem Apply_branch_isolation:
  assumes "registry_ok (mbranches (core s))"
    "branch_get (mbranches (core s)) j = Some b" "swaps t \<longrightarrow> j \<noteq> tp_branch_id (Proto t)"
  shows "branch_get (mbranches (core (snd (Apply E s t inp)))) j = Some b \<and>
    (swaps t \<longrightarrow> mchain (core (snd (Apply E s t inp))) = mchain (core s))"
  using Apply_keeps_branch [OF assms] Apply_keeps_genesis [OF assms(1)] by blast

theorem Apply_branch_isolation_witness:
  "branch_get (mbranches (core (snd (Apply ex_E (ex_branched [1, 2] 1)
     (ex_tx 0 ADD_MEMBER None (P_AddMember (ex_key 3)) 1 2) ex_inp)))) 1 = Some (ex_branch [1, 2] 1)"
  by (rule Apply_branch_isolation [THEN conjunct1])
    simp_all

text \<open>
  the effect of acceptance: an accepted transition was built on the current root of its
  branch (or names no prior state); its branch's log is the old one with the transition
  appended, trimmed to the cap from the oldest end; the steward and threshold histories gain
  exactly the entry of the new root, everything recorded for other roots is kept; and the caps
  and the group's identity stay as they were.
\<close>

theorem Apply_success_effect:
  assumes "Apply E s t inp = (None, s')" "registry_ok (mbranches (core s))"
  shows "(has_prior t \<longrightarrow> prior_of t = currentRoot E (work_chain (core s) t)) \<and>
    log (result_chain (core s') t) = trim_log (MaxLogSize (core s)) (log (work_chain (core s) t) @ [t]) \<and>
    (\<forall>r. r = currentRoot E (result_chain (core s') t) \<or>
       (stewardHistory (result_chain (core s') t) r = stewardHistory (work_chain (core s) t) r \<and>
        thresholdHistory (result_chain (core s') t) r = thresholdHistory (work_chain (core s) t) r)) \<and>
    stewardHistory (result_chain (core s') t) (currentRoot E (result_chain (core s') t)) \<noteq> None \<and>
    thresholdHistory (result_chain (core s') t) (currentRoot E (result_chain (core s') t)) \<noteq> None \<and>
    config (core s') = config (core s)"
proof -
  from assms obtain c2 es where c: "ledger c2 = ledger (work_chain (core s) t)"
    "result_chain (core s') t = commit_chain E (MaxLogSize (core s)) c2 t es"
    "has_prior t \<Longrightarrow> prior_of t = currentRoot E (work_chain (core s) t)"
    by (rule apply_ok_chain) (rule that)
  have "config (core s') = config (core s)"
    using assms by (rule apply_ok) (simp add: leave_branch_config, simp add: config_def)
  then show ?thesis
    using c(3) ledgerD [OF c(1)] by (simp add: c(2) commit_stewards commit_thresholds)
qed

theorem Apply_success_effect_witness:
  "\<exists>s'. Apply ex_E (ex_state [1, 2] 1) (ex_tx 0 ADD_MEMBER (Some zero32) (P_AddMember (ex_key 3)) 1 2) ex_inp
      = (None, s') \<and>
    log (mchain (core s')) = [ex_tx 0 ADD_MEMBER (Some zero32) (P_AddMember (ex_key 3)) 1 2]"
proof -
  let ?t = "ex_tx 0 ADD_MEMBER (Some zero32) (P_AddMember (ex_key 3)) 1 2"
  have "fst (Apply ex_E (ex_state [1, 2] 1) ?t ex_inp) = None"
    by code_simp
  then obtain s' where s': "Apply ex_E (ex_state [1, 2] 1) ?t ex_inp = (None, s')"
    by (metis prod.collapse)
  have "log (mchain (core (ex_state [1, 2] 1))) = []" "MaxLogSize (core (ex_state [1, 2] 1)) = 100000"
    by (simp_all add: ex_state_def new_machine_def ex_chain_def new_chain_def)
  then show ?thesis
    using Apply_success_effect [OF s' ex_state_registry] s'
    by (simp add: result_chain_def work_chain_genesis trim_log_def)
qed

end
