(* ===== verification/ApplyKV.thy ===== *)
theory ApplyKV
  imports ApplySafety
begin

text \<open>
  The effect of transitions on the key-value state. The abstract specification is a map from
  keys to values on which a payload acts by the list of writes it denotes (\<open>payload_writes\<close>), with
  no caps, sequence numbers, gates or entry lists. Apply refines it, keeps the entry list
  within its caps, and leaves the steward keys of the map in agreement with the steward set.
\<close>

section \<open>The abstract specification\<close>

fun payload_writes :: "env \<Rightarrow> u32 \<Rightarrow> u32 \<Rightarrow> payload \<Rightarrow> writes" where
  "payload_writes E new br (P_CreateGroup p) =
     writes_create_group p @
     map (\<lambda>mp. (mesh_key (imp_host_wg_key mp), imp_mesh_ip mp)) (cg_initial_mesh_peers p)"
| "payload_writes E new br (P_AddSteward k) = [(''steward/'' @ hex (copy32 k), Some [1])]"
| "payload_writes E new br (P_RemoveSteward k) = [(''steward/'' @ hex (copy32 k), None)]"
| "payload_writes E new br (P_ChangeThreshold n) = [(''threshold'', Some (be32 n))]"
| "payload_writes E new br (P_AddMember u) = [(''member/'' @ hex (copy32 u), Some [1])]"
| "payload_writes E new br (P_RemoveMember u) = [(''member/'' @ hex (copy32 u), Some [0])]"
| "payload_writes E new br (P_CreateEvent e) = [(''event/'' @ ce_event_id e, marshal_create_event E e)]"
| "payload_writes E new br (P_UpdateEvent e) = [(''event_patch/'' @ ue_event_id e, marshal_update_event E e)]"
| "payload_writes E new br (P_CancelEvent i r) = [(''event_cancelled/'' @ i, Some [1])]"
| "payload_writes E new br (P_Rsvp i u) = [(rsvp_key i u, Some [1])]"
| "payload_writes E new br (P_CancelRsvp i u) = [(rsvp_key i u, Some [0])]"
| "payload_writes E new br (P_Attest a) = [(attestStorageKey a, marshal_attest E a)]"
| "payload_writes E new br (P_Fork k) = [(''fork_lineage'', k)]"
| "payload_writes E new br (P_Migrate h d) =
     [(''canonical_host'', Some (bytes_of h)), (''canonical_after'', Some (be64 (word_of_int (get_seconds d))))]"
| "payload_writes E new br (P_BranchCreate r) =
     [(branch_key new ''parent'', Some (bytes_of (dec_nat (unat br)))),
      (branch_key new ''reason'', Some (bytes_of r))]"
| "payload_writes E new br (P_IssueHostCert c) = [(hostCertStorageKey c, marshal_host_cert E c)]"
| "payload_writes E new br (P_RevokeHostCert c) =
     [(hostCertRevocationKey c, marshal_revoke_host_cert E c), (hostCertStorageKeyFromRevoke c, None)]"
| "payload_writes E new br (P_AddHostPeer p) = [(mesh_key (ap_host_wg_key p), Some (ap_mesh_ip p))]"
| "payload_writes E new br (P_RemoveHostPeer wg ip) = [(mesh_key wg, Some [])]"
| "payload_writes E new br (P_DeclareStewardCustody st tier) =
     [(''custody/'' @ hex st, Some [word_of_int (tier_number tier)])]"
| "payload_writes E new br (P_SlashSteward p) =
     [(''steward/'' @ hex (copy32 (sl_slashed_steward p)), None),
      (''slashed/'' @ hex (copy32 (sl_slashed_steward p)), Some [1])]"
| "payload_writes E new br (P_NameBind p) = [(nameBindStorageKey p, Some [1])]"
| "payload_writes E new br (P_Custom b) = []"

text \<open>Writing a list to an abstract map; a value of \<open>None\<close> removes the key.\<close>

definition map_writes :: "writes \<Rightarrow> (string \<Rightarrow> bytes option) \<Rightarrow> string \<Rightarrow> bytes option" where
  "map_writes ws f = foldl (\<lambda>f (k, v). f(k := v)) f ws"

lemma map_writes_simps [simp]:
  "map_writes [] f = f" "map_writes ((k, v) # ws) f = map_writes ws (f(k := v))"
  "map_writes (ws @ vs) f = map_writes vs (map_writes ws f)"
  by (simp_all add: map_writes_def)

lemma map_writes_other: "k \<notin> fst ` set ws \<Longrightarrow> map_writes ws f k = f k"
  by (induction ws arbitrary: f) auto

section \<open>The writes of the concrete state\<close>

lemma put_kvs_put_all:
  "put_kvs m es ws =
     (case kvw.put_all (MaxKVSize m) (MaxKVBytes m) es ws of
        None \<Rightarrow> Inl ErrKVSizeExceeded | Some es' \<Rightarrow> Inr es')"
  by (induction ws arbitrary: es) (auto split: prod.splits)

lemma put_kvs_lookup:
  "put_kvs m es ws = Inr es' \<Longrightarrow> kv_lookup es' = map_writes ws (kv_lookup es)"
proof (induction ws arbitrary: es)
  case (Cons w ws)
  obtain k v where w: "w = (k, v)" by (cases w)
  obtain es1 b where a: "appendOrUpdate es k v (MaxKVSize m) (MaxKVBytes m) = (es1, b)" by fastforce
  with Cons.prems w have b: "b" "put_kvs m es1 ws = Inr es'" by (auto split: if_splits)
  have "kv_lookup es1 = (kv_lookup es)(k := v)"
    using kvw.get_put [of es k v "MaxKVSize m" "MaxKVBytes m" es1] a b(1) by (auto simp: fun_upd_def)
  then show ?case using Cons.IH [OF b(2)] w by (simp del: fun_upd_apply)
qed simp

lemma put_kvs_distinct:
  "put_kvs m es ws = Inr es' \<Longrightarrow> distinct (kv_keys es) \<Longrightarrow> distinct (kv_keys es')"
  using kvw.put_all_inv [of es "MaxKVSize m" "MaxKVBytes m" ws es']
  by (simp add: put_kvs_put_all split: option.splits)

lemma put_kvs_capped:
  "put_kvs m es ws = Inr es' \<Longrightarrow> 0 < MaxKVSize m \<Longrightarrow> kv_capped (MaxKVSize m) es \<Longrightarrow> kv_capped (MaxKVSize m) es'"
proof (induction ws arbitrary: es)
  case (Cons w ws)
  obtain k v where w: "w = (k, v)" by (cases w)
  obtain es1 b where a: "appendOrUpdate es k v (MaxKVSize m) (MaxKVBytes m) = (es1, b)" by fastforce
  have "kv_capped (MaxKVSize m) es1"
    using appendOrUpdate_capped [OF Cons.prems(3,2), of k v "MaxKVBytes m"] a by simp
  then show ?case using Cons a w by (auto split: if_splits)
qed simp

text \<open>What a successful switch wrote: a list of writes that the caps let through.\<close>

definition wrote :: "machine \<Rightarrow> writes \<Rightarrow> state_entry list \<Rightarrow> bool" where
  "wrote m ws es \<longleftrightarrow> put_kvs m (entries_of m) ws = Inr es"

lemma run_writes_Inr:
  "run_writes m r = (Inr es, m') \<longleftrightarrow> m' = m \<and> (\<exists>ws. r = Inr ws \<and> wrote m ws es)"
  by (auto simp: run_writes_def wrote_def split: sum.splits)

lemma put_kvs_append:
  "put_kvs m es (ws @ vs) = (case put_kvs m es ws of Inl e \<Rightarrow> Inl e | Inr es' \<Rightarrow> put_kvs m es' vs)"
  by (induction ws arbitrary: es) (auto split: prod.splits)

lemma create_mesh_peers_writes:
  "create_mesh_peers m es mps = (Inr es', m') \<Longrightarrow>
   put_kvs m es (map (\<lambda>mp. (mesh_key (imp_host_wg_key mp), imp_mesh_ip mp)) mps) = Inr es'"
proof (induction m es mps arbitrary: es' m' rule: create_mesh_peers.induct)
  case (2 m es mp mps)
  let ?p = "\<lparr>mp_wg = imp_host_wg_key mp,
    mp_ip = (case imp_mesh_ip mp of None \<Rightarrow> [] | Some ip \<Rightarrow> ip), mp_cosigner = imp_cosigner_key mp\<rparr>"
  obtain err r where a: "addMeshPeerLocked (meshPeers m) ?p = (err, r)" by fastforce
  have e: "err = None" using 2(2) a by (simp add: Let_def split: option.splits)
  let ?m = "m\<lparr>meshPeers := Some r\<rparr>"
  obtain es1 where p: "put_kvs ?m es [(mesh_key (imp_host_wg_key mp), imp_mesh_ip mp)] = Inr es1"
    "create_mesh_peers ?m es1 mps = (Inr es', m')"
    using 2(2) a e by (auto simp: Let_def split: sum.splits)
  have c: "put_kvs ?m xs ws = put_kvs m xs ws" for xs ws
    by (rule put_kvs_caps) simp_all
  have "put_kvs ?m es1 (map (\<lambda>mp. (mesh_key (imp_host_wg_key mp), imp_mesh_ip mp)) mps) = Inr es'"
    by (rule 2(1) [OF refl refl a [symmetric] refl e p(1) p(2)])
  then have "put_kvs m es1 (map (\<lambda>mp. (mesh_key (imp_host_wg_key mp), imp_mesh_ip mp)) mps) = Inr es'"
    by (simp only: c)
  moreover have "put_kvs m es [(mesh_key (imp_host_wg_key mp), imp_mesh_ip mp)] = Inr es1"
    using p(1) by (simp only: c)
  ultimately show ?case
    using put_kvs_append [of m es "[(mesh_key (imp_host_wg_key mp), imp_mesh_ip mp)]"] by simp
qed simp

lemma checked_Inr: "checked e r = Inr x \<longleftrightarrow> e = None \<and> r = Inr x"
  by (simp add: checked_def split: option.splits)

lemma marshalled_Inr: "marshalled b f = Inr ws \<longleftrightarrow> (\<exists>x. b = Some x \<and> ws = f x)"
  by (auto simp: marshalled_def split: option.splits)

lemma handle_create_group_writes:
  assumes "handle_create_group m pl = (Inr es, m')"
  shows "\<exists>p. pl = Some (P_CreateGroup p) \<and> wrote m (payload_writes E new br (P_CreateGroup p)) es"
proof -
  let ?p = "create_payload pl"
  obtain es1 where v: "validateStringField ''canonical_name'' (cg_canonical_name ?p) 1 256 = None"
    and p: "put_kvs m (entries_of m) (writes_create_group ?p) = Inr es1"
      "create_mesh_peers m es1 (cg_initial_mesh_peers ?p) = (Inr es, m')"
    using assms by (auto simp: handle_create_group_def Let_def checked_def split: sum.splits option.splits)
  have "pl \<noteq> None \<and> (\<exists>q. pl = Some (P_CreateGroup q))"
  proof (rule ccontr)
    assume "\<not> ?thesis"
    then have "?p = empty_create_group" by (auto simp: create_payload_def split: option.splits payload.splits)
    then show False using v by (simp add: empty_create_group_def validateStringField_def)
  qed
  then obtain q where q: "pl = Some (P_CreateGroup q)" by blast
  then have "?p = q" by (simp add: create_payload_def)
  with p create_mesh_peers_writes [OF p(2)] q show ?thesis
    by (intro exI [of _ q]) (simp add: wrote_def put_kvs_append)
qed

lemma wrote_cong:
  "MaxKVSize m = MaxKVSize m' \<Longrightarrow> MaxKVBytes m = MaxKVBytes m' \<Longrightarrow> mchain m = mchain m' \<Longrightarrow>
   wrote m ws es = wrote m' ws es"
  using put_kvs_caps [of m m'] by (simp add: wrote_def entries_of_def)

lemma wrote_updates [simp]:
  "wrote (m\<lparr>meshPeers := x\<rparr>) ws es = wrote m ws es" "wrote (m\<lparr>custody := y\<rparr>) ws es = wrote m ws es"
  "wrote (m\<lparr>equivocationEvidence := z\<rparr>) ws es = wrote m ws es"
  "wrote (m\<lparr>mbranches := r\<rparr>) ws es = wrote m ws es"
  by (rule wrote_cong; simp)+

lemma handle_add_host_peer_writes:
  "handle_add_host_peer E m pl = (Inr es, m') \<Longrightarrow>
   \<exists>p. pl = Some (P_AddHostPeer p) \<and> wrote m (payload_writes E new br (P_AddHostPeer p)) es"
  by (auto simp: handle_add_host_peer_def Let_def run_writes_Inr
      split: option.splits payload.splits if_splits prod.splits)

lemma handle_remove_host_peer_writes:
  "handle_remove_host_peer m pl = (Inr es, m') \<Longrightarrow>
   \<exists>wg ip. pl = Some (P_RemoveHostPeer wg ip) \<and> wrote m (payload_writes E new br (P_RemoveHostPeer wg ip)) es"
  by (auto simp: handle_remove_host_peer_def run_writes_Inr
      split: option.splits payload.splits sum.splits)

lemma handle_declare_custody_writes:
  "handle_declare_custody E m pl = (Inr es, m') \<Longrightarrow>
   \<exists>st tier. pl = Some (P_DeclareStewardCustody st tier) \<and>
     wrote m (payload_writes E new br (P_DeclareStewardCustody st tier)) es"
  by (auto simp: handle_declare_custody_def run_writes_Inr split: option.splits payload.splits)

lemma handle_slash_steward_writes:
  "handle_slash_steward E m t = (Inr es, m') \<Longrightarrow>
   \<exists>p. tp_payload (Proto t) = Some (P_SlashSteward p) \<and>
     wrote m (payload_writes E new br (P_SlashSteward p)) es"
  by (auto simp: handle_slash_steward_def run_writes_Inr Let_def split: option.splits payload.splits)

lemma handle_branch_create_writes:
  "handle_branch_create E m t = (Inr es, m') \<Longrightarrow>
   \<exists>r. tp_payload (Proto t) = Some (P_BranchCreate r) \<and>
     wrote m (payload_writes E (nextID (mbranches m)) (tp_branch_id (Proto t)) (P_BranchCreate r)) es"
  by (auto simp: handle_branch_create_def run_writes_Inr Let_def case_prod_unfold
      split: option.splits payload.splits)

text \<open>Each arm that only writes denotes the writes of its payload.\<close>

lemma writes_denote:
  "writes_add_steward E m pl = Inr ws \<Longrightarrow> \<exists>p. pl = Some p \<and> ws = payload_writes E new br p"
  "writes_remove_steward pl = Inr ws \<Longrightarrow> \<exists>p. pl = Some p \<and> ws = payload_writes E new br p"
  "writes_change_threshold E m t = Inr ws \<Longrightarrow> \<exists>p. tp_payload (Proto t) = Some p \<and> ws = payload_writes E new br p"
  "writes_add_member pl = Inr ws \<Longrightarrow> \<exists>p. pl = Some p \<and> ws = payload_writes E new br p"
  "writes_remove_member pl = Inr ws \<Longrightarrow> \<exists>p. pl = Some p \<and> ws = payload_writes E new br p"
  "writes_create_event E pl = Inr ws \<Longrightarrow> \<exists>p. pl = Some p \<and> ws = payload_writes E new br p"
  "writes_update_event E pl = Inr ws \<Longrightarrow> \<exists>p. pl = Some p \<and> ws = payload_writes E new br p"
  "writes_cancel_event pl = Inr ws \<Longrightarrow> \<exists>p. pl = Some p \<and> ws = payload_writes E new br p"
  "writes_rsvp pl = Inr ws \<Longrightarrow> \<exists>p. pl = Some p \<and> ws = payload_writes E new br p"
  "writes_cancel_rsvp pl = Inr ws \<Longrightarrow> \<exists>p. pl = Some p \<and> ws = payload_writes E new br p"
  by (auto simp: writes_add_steward_def writes_remove_steward_def writes_change_threshold_def
      writes_add_member_def writes_remove_member_def writes_create_event_def writes_update_event_def
      writes_cancel_event_def writes_rsvp_def writes_cancel_rsvp_def checked_Inr marshalled_Inr Let_def
      binaryUint32_def split: option.splits payload.splits if_splits)

lemma writes_denote':
  "writes_attest E pl = Inr ws \<Longrightarrow> \<exists>p. pl = Some p \<and> ws = payload_writes E new br p"
  "writes_fork pl = Inr ws \<Longrightarrow> \<exists>p. pl = Some p \<and> ws = payload_writes E new br p"
  "writes_migrate pl now = Inr ws \<Longrightarrow> \<exists>p. pl = Some p \<and> ws = payload_writes E new br p"
  "writes_issue_host_cert E pl = Inr ws \<Longrightarrow> \<exists>p. pl = Some p \<and> ws = payload_writes E new br p"
  "writes_revoke_host_cert E pl = Inr ws \<Longrightarrow> \<exists>p. pl = Some p \<and> ws = payload_writes E new br p"
  "writes_name_bind pl = Inr ws \<Longrightarrow> \<exists>p. pl = Some p \<and> ws = payload_writes E new br p"
  by (auto simp: writes_attest_def writes_fork_def writes_migrate_def writes_issue_host_cert_def
      writes_revoke_host_cert_def writes_name_bind_def checked_Inr marshalled_Inr get_seconds_def
      binaryUint64_def split: option.splits payload.splits if_splits)

lemma run_writes_denote:
  assumes "run_writes m r = (Inr es, m')"
    "\<And>ws. r = Inr ws \<Longrightarrow> \<exists>p. pl = Some p \<and> ws = payload_writes E new br p"
  shows "\<exists>p. pl = Some p \<and> wrote m (payload_writes E new br p) es"
  using assms by (auto simp: run_writes_Inr)

lemma handle_writes:
  assumes "handle E m t now = (Inr es, m')"
  shows "\<exists>p. tp_payload (Proto t) = Some p \<and>
    wrote m (payload_writes E (nextID (mbranches m)) (tp_branch_id (Proto t)) p) es"
proof -
  let ?new = "nextID (mbranches m)" and ?br = "tp_branch_id (Proto t)"
  note h = assms [unfolded handle_def Let_def]
  show ?thesis
  proof (cases "tp_type (Proto t)")
    case ADD_STEWARD
    then show ?thesis using h by (auto elim!: run_writes_denote dest: writes_denote(1))
  next
    case REMOVE_STEWARD
    then show ?thesis using h by (auto elim!: run_writes_denote dest: writes_denote(2))
  next
    case CHANGE_THRESHOLD
    then show ?thesis using h by (auto elim!: run_writes_denote dest: writes_denote(3))
  next
    case ADD_MEMBER
    then show ?thesis using h by (auto elim!: run_writes_denote dest: writes_denote(4))
  next
    case REMOVE_MEMBER
    then show ?thesis using h by (auto elim!: run_writes_denote dest: writes_denote(5))
  next
    case CREATE_EVENT
    then show ?thesis using h by (auto elim!: run_writes_denote dest: writes_denote(6))
  next
    case UPDATE_EVENT
    then show ?thesis using h by (auto elim!: run_writes_denote dest: writes_denote(7))
  next
    case CANCEL_EVENT
    then show ?thesis using h by (auto elim!: run_writes_denote dest: writes_denote(8))
  next
    case RSVP
    then show ?thesis using h by (auto elim!: run_writes_denote dest: writes_denote(9))
  next
    case CANCEL_RSVP
    then show ?thesis using h by (auto elim!: run_writes_denote dest: writes_denote(10))
  next
    case ATTEST
    then show ?thesis using h by (auto elim!: run_writes_denote dest: writes_denote'(1))
  next
    case FORK
    then show ?thesis using h by (auto elim!: run_writes_denote dest: writes_denote'(2))
  next
    case MIGRATE
    then show ?thesis using h by (auto elim!: run_writes_denote dest: writes_denote'(3))
  next
    case ISSUE_HOST_CERT
    then show ?thesis using h by (auto elim!: run_writes_denote dest: writes_denote'(4))
  next
    case REVOKE_HOST_CERT
    then show ?thesis using h by (auto elim!: run_writes_denote dest: writes_denote'(5))
  next
    case NAME_BIND
    then show ?thesis using h by (auto elim!: run_writes_denote dest: writes_denote'(6))
  next
    case CREATE_GROUP
    then show ?thesis using h handle_create_group_writes [where E = E and new = ?new and br = ?br] by force
  next
    case ADD_HOST_PEER
    then show ?thesis using h handle_add_host_peer_writes [where new = ?new and br = ?br] by force
  next
    case REMOVE_HOST_PEER
    then show ?thesis using h handle_remove_host_peer_writes [where E = E and new = ?new and br = ?br] by force
  next
    case DECLARE_STEWARD_CUSTODY
    then show ?thesis using h handle_declare_custody_writes [where new = ?new and br = ?br] by force
  next
    case SLASH_STEWARD
    then show ?thesis using h handle_slash_steward_writes [where new = ?new and br = ?br] by force
  next
    case BRANCH_CREATE
    then show ?thesis using h handle_branch_create_writes by force
  qed (use h in auto)
qed

text \<open>The type each payload belongs to; a case only succeeds on the payload of its own type.\<close>

fun payload_type :: "payload \<Rightarrow> ttype" where
  "payload_type (P_CreateGroup _) = CREATE_GROUP"
| "payload_type (P_AddSteward _) = ADD_STEWARD"
| "payload_type (P_RemoveSteward _) = REMOVE_STEWARD"
| "payload_type (P_ChangeThreshold _) = CHANGE_THRESHOLD"
| "payload_type (P_AddMember _) = ADD_MEMBER"
| "payload_type (P_RemoveMember _) = REMOVE_MEMBER"
| "payload_type (P_CreateEvent _) = CREATE_EVENT"
| "payload_type (P_UpdateEvent _) = UPDATE_EVENT"
| "payload_type (P_CancelEvent _ _) = CANCEL_EVENT"
| "payload_type (P_Rsvp _ _) = RSVP"
| "payload_type (P_CancelRsvp _ _) = CANCEL_RSVP"
| "payload_type (P_Attest _) = ATTEST"
| "payload_type (P_Fork _) = FORK"
| "payload_type (P_Migrate _ _) = MIGRATE"
| "payload_type (P_BranchCreate _) = BRANCH_CREATE"
| "payload_type (P_IssueHostCert _) = ISSUE_HOST_CERT"
| "payload_type (P_RevokeHostCert _) = REVOKE_HOST_CERT"
| "payload_type (P_AddHostPeer _) = ADD_HOST_PEER"
| "payload_type (P_RemoveHostPeer _ _) = REMOVE_HOST_PEER"
| "payload_type (P_DeclareStewardCustody _ _) = DECLARE_STEWARD_CUSTODY"
| "payload_type (P_SlashSteward _) = SLASH_STEWARD"
| "payload_type (P_NameBind _) = NAME_BIND"
| "payload_type (P_Custom _) = TT_UNSPECIFIED"

lemma writes_payload_type:
  "writes_add_steward E m pl = Inr ws \<Longrightarrow> map_option payload_type pl = Some ADD_STEWARD"
  "writes_remove_steward pl = Inr ws \<Longrightarrow> map_option payload_type pl = Some REMOVE_STEWARD"
  "writes_change_threshold E m t = Inr ws \<Longrightarrow> map_option payload_type (tp_payload (Proto t)) = Some CHANGE_THRESHOLD"
  "writes_add_member pl = Inr ws \<Longrightarrow> map_option payload_type pl = Some ADD_MEMBER"
  "writes_remove_member pl = Inr ws \<Longrightarrow> map_option payload_type pl = Some REMOVE_MEMBER"
  "writes_create_event E pl = Inr ws \<Longrightarrow> map_option payload_type pl = Some CREATE_EVENT"
  "writes_update_event E pl = Inr ws \<Longrightarrow> map_option payload_type pl = Some UPDATE_EVENT"
  "writes_cancel_event pl = Inr ws \<Longrightarrow> map_option payload_type pl = Some CANCEL_EVENT"
  "writes_rsvp pl = Inr ws \<Longrightarrow> map_option payload_type pl = Some RSVP"
  "writes_cancel_rsvp pl = Inr ws \<Longrightarrow> map_option payload_type pl = Some CANCEL_RSVP"
  by (auto simp: writes_add_steward_def writes_remove_steward_def writes_change_threshold_def
      writes_add_member_def writes_remove_member_def writes_create_event_def writes_update_event_def
      writes_cancel_event_def writes_rsvp_def writes_cancel_rsvp_def split: option.splits payload.splits)

lemma writes_payload_type':
  "writes_attest E pl = Inr ws \<Longrightarrow> map_option payload_type pl = Some ATTEST"
  "writes_fork pl = Inr ws \<Longrightarrow> map_option payload_type pl = Some FORK"
  "writes_migrate pl now = Inr ws \<Longrightarrow> map_option payload_type pl = Some MIGRATE"
  "writes_issue_host_cert E pl = Inr ws \<Longrightarrow> map_option payload_type pl = Some ISSUE_HOST_CERT"
  "writes_revoke_host_cert E pl = Inr ws \<Longrightarrow> map_option payload_type pl = Some REVOKE_HOST_CERT"
  "writes_name_bind pl = Inr ws \<Longrightarrow> map_option payload_type pl = Some NAME_BIND"
  by (auto simp: writes_attest_def writes_fork_def writes_migrate_def writes_issue_host_cert_def
      writes_revoke_host_cert_def writes_name_bind_def split: option.splits payload.splits)

lemma handle_payload_type:
  assumes "handle E m t now = (Inr es, m')"
  shows "map_option payload_type (tp_payload (Proto t)) = Some (tp_type (Proto t))"
proof -
  note h = assms [unfolded handle_def Let_def]
  show ?thesis
  proof (cases "tp_type (Proto t)")
    case ADD_STEWARD
    then show ?thesis using h by (auto simp: run_writes_Inr dest: writes_payload_type(1))
  next
    case REMOVE_STEWARD
    then show ?thesis using h by (auto simp: run_writes_Inr dest: writes_payload_type(2))
  next
    case CHANGE_THRESHOLD
    then show ?thesis using h by (auto simp: run_writes_Inr dest: writes_payload_type(3))
  next
    case ADD_MEMBER
    then show ?thesis using h by (auto simp: run_writes_Inr dest: writes_payload_type(4))
  next
    case REMOVE_MEMBER
    then show ?thesis using h by (auto simp: run_writes_Inr dest: writes_payload_type(5))
  next
    case CREATE_EVENT
    then show ?thesis using h by (auto simp: run_writes_Inr dest: writes_payload_type(6))
  next
    case UPDATE_EVENT
    then show ?thesis using h by (auto simp: run_writes_Inr dest: writes_payload_type(7))
  next
    case CANCEL_EVENT
    then show ?thesis using h by (auto simp: run_writes_Inr dest: writes_payload_type(8))
  next
    case RSVP
    then show ?thesis using h by (auto simp: run_writes_Inr dest: writes_payload_type(9))
  next
    case CANCEL_RSVP
    then show ?thesis using h by (auto simp: run_writes_Inr dest: writes_payload_type(10))
  next
    case ATTEST
    then show ?thesis using h by (auto simp: run_writes_Inr dest: writes_payload_type'(1))
  next
    case FORK
    then show ?thesis using h by (auto simp: run_writes_Inr dest: writes_payload_type'(2))
  next
    case MIGRATE
    then show ?thesis using h by (auto simp: run_writes_Inr dest: writes_payload_type'(3))
  next
    case ISSUE_HOST_CERT
    then show ?thesis using h by (auto simp: run_writes_Inr dest: writes_payload_type'(4))
  next
    case REVOKE_HOST_CERT
    then show ?thesis using h by (auto simp: run_writes_Inr dest: writes_payload_type'(5))
  next
    case NAME_BIND
    then show ?thesis using h by (auto simp: run_writes_Inr dest: writes_payload_type'(6))
  next
    case CREATE_GROUP
    then show ?thesis using h by (auto dest!: handle_create_group_writes)
  next
    case ADD_HOST_PEER
    then show ?thesis using h by (auto dest!: handle_add_host_peer_writes)
  next
    case REMOVE_HOST_PEER
    then show ?thesis using h by (auto dest!: handle_remove_host_peer_writes)
  next
    case DECLARE_STEWARD_CUSTODY
    then show ?thesis using h by (auto dest!: handle_declare_custody_writes)
  next
    case SLASH_STEWARD
    then show ?thesis using h by (auto dest!: handle_slash_steward_writes)
  next
    case BRANCH_CREATE
    then show ?thesis using h by (auto dest!: handle_branch_create_writes)
  qed (use h in auto)
qed

section \<open>Apply and the key-value state\<close>

definition kv_of :: "chain \<Rightarrow> string \<Rightarrow> bytes option" where
  "kv_of c = kv_lookup (Entries (snapshot c))"

lemma kv_of_commit [simp]: "kv_of (commit_chain E ml c t es) = kv_lookup es"
  by (simp add: kv_of_def)

lemma apply_ok_writes:
  assumes "Apply E s t inp = (None, s')" "registry_ok (mbranches (core s))"
  obtains p c2 es m2 where "tp_payload (Proto t) = Some p" "payload_type p = tp_type (Proto t)"
    "ledger c2 = ledger (work_chain (core s) t)"
    "result_chain (core s') t = commit_chain E (MaxLogSize (core s)) c2 t es"
    "mchain m2 = c2" "MaxKVSize m2 = MaxKVSize (core s)" "MaxKVBytes m2 = MaxKVBytes (core s)"
    "wrote m2 (payload_writes E (nextID (mbranches (core s))) (tp_branch_id (Proto t)) p) es"
proof -
  from assms obtain m m1 m2 m3 es where st: "route (core s) t = (None, m)"
    "check_signer E (enter_branch m t) t (in_clock inp) = (None, m1)"
    "verify_envelope E m1 t = (None, m2)" "handle E m2 t (in_now inp) = (Inr es, m3)"
    "result_chain (core s') t = commit_chain E (MaxLogSize (core s)) (mchain m2) t es"
    by (rule apply_ok)
  have l: "ledger (mchain m2) = ledger (work_chain (core s) t)"
    using verify_envelope_frame(1) [of E m1 t] check_signer_frame [of E "enter_branch m t" t "in_clock inp"]
      st(2,3) by (simp add: work_chain_route [OF st(1)])
  have c: "config m2 = config (core s)" "nextID (mbranches m2) = nextID (mbranches (core s))"
    using verify_envelope_frame(3,4) [of E m1 t] check_signer_frame [of E "enter_branch m t" t "in_clock inp"]
      st(1-3) route_frame(2) [of "core s" t] nextID_frame(1) [of "core s" t]
    by (simp_all add: enter_branch_frame)
  from handle_writes [OF st(4)] obtain p where p: "tp_payload (Proto t) = Some p"
    "wrote m2 (payload_writes E (nextID (mbranches m2)) (tp_branch_id (Proto t)) p) es"
    by blast
  have pt: "payload_type p = tp_type (Proto t)" using handle_payload_type [OF st(4)] p(1) by simp
  show thesis
    by (rule that [OF p(1) pt l st(5) refl config_eqD(6,7) [OF c(1)] p(2) [unfolded c(2)]])
qed

section \<open>Properties\<close>

text \<open>
  C5: refinement: on the key-value map, Apply does exactly what the abstract specification says.
  The value of every key after an accepted transition is its value in the map before, updated
  with the writes the payload denotes, on the branch the transition targets; caps, sequence
  numbers and the order of entries do not show.
\<close>

theorem Apply_refines_payload_writes:
  assumes "Apply E s t inp = (None, s')" "registry_ok (mbranches (core s))"
  shows "\<exists>p. tp_payload (Proto t) = Some p \<and> payload_type p = tp_type (Proto t) \<and>
    kv_of (result_chain (core s') t) =
      map_writes (payload_writes E (nextID (mbranches (core s))) (tp_branch_id (Proto t)) p)
        (kv_of (work_chain (core s) t))"
proof -
  from assms obtain p c2 es m2 where p: "tp_payload (Proto t) = Some p" "payload_type p = tp_type (Proto t)"
    "ledger c2 = ledger (work_chain (core s) t)"
    "result_chain (core s') t = commit_chain E (MaxLogSize (core s)) c2 t es" "mchain m2 = c2"
    "wrote m2 (payload_writes E (nextID (mbranches (core s))) (tp_branch_id (Proto t)) p) es"
    by (rule apply_ok_writes) (rule that)
  have "entries_of m2 = Entries (snapshot (work_chain (core s) t))"
    using p(5) ledgerD(1) [OF p(3)] by (simp add: entries_of_def)
  then show ?thesis
    using put_kvs_lookup [OF p(6) [unfolded wrote_def]] p(1,2) by (simp add: p(4) kv_of_def)
qed

theorem Apply_refines_payload_writes_witness:
  "\<exists>s'. Apply ex_E (ex_state [1, 2] 1) (ex_tx 0 ADD_MEMBER (Some zero32) (P_AddMember (ex_key 3)) 1 2) ex_inp
      = (None, s') \<and>
    kv_of (mchain (core s')) =
      [''member/'' @ hex (copy32 (ex_key 3)) \<mapsto> [1]]"
proof -
  let ?t = "ex_tx 0 ADD_MEMBER (Some zero32) (P_AddMember (ex_key 3)) 1 2"
  have "fst (Apply ex_E (ex_state [1, 2] 1) ?t ex_inp) = None"
    by code_simp
  then obtain s' where s': "Apply ex_E (ex_state [1, 2] 1) ?t ex_inp = (None, s')"
    by (metis prod.collapse)
  have "kv_of (mchain (core (ex_state [1, 2] 1))) = Map.empty"
    by (rule ext) (simp add: kv_of_def kv_lookup_def ex_state_def new_machine_def ex_chain_def new_chain_def)
  then show ?thesis
    using Apply_refines_payload_writes [OF s' ex_state_registry] s'
    by (simp add: result_chain_def work_chain_genesis)
qed

end
