(* ===== verification/Persistence.thy ===== *)
theory Persistence
  imports ApplySafety
begin

text \<open>
  The durable transition log (internal/group/persistence.go) and the constructor that replays it
  (NewStateWithPersister in group.go). The database is the list of its rows in seq order; whether
  SQLite accepts a statement is an input. The theorems: every accepted transition is one row, in
  order, and replaying the rows rebuilds the state machine, provided no stored deadline of a
  MIGRATE has passed since.
\<close>

section \<open>Opening and loading\<close>

datatype persist_error = OpenFailed | MigrateFailed | QueryFailed | ScanFailed | UnmarshalFailed
  | ReconstructFailed | ReplayFailed nat group_error

definition NewSQLitePersister ::
  "bool \<Rightarrow> bool \<Rightarrow> (bytes \<times> bytes) list \<Rightarrow> group_id \<Rightarrow> persist_error + sqlite_persister" where
  "NewSQLitePersister open_ok migrate_ok rows gid =
     (if \<not> open_ok then Inl OpenFailed
      else if \<not> migrate_ok then Inl MigrateFailed
      else Inr \<lparr>sp_rows = rows, sp_gid = gid\<rparr>)"

fun load_rows :: "env \<Rightarrow> group_id \<Rightarrow> (bytes \<times> bytes) list \<Rightarrow> persist_error + transition list" where
  "load_rows E gid [] = Inr []"
| "load_rows E gid ((canonicalBytes, transitionBytes) # rows) =
     (case unmarshal_transition E transitionBytes of
        None \<Rightarrow> Inl UnmarshalFailed
      | Some pbT \<Rightarrow>
          (case NewTransition E pbT gid of
             None \<Rightarrow> Inl ReconstructFailed
           | Some t \<Rightarrow>
               (case load_rows E gid rows of Inl e \<Rightarrow> Inl e | Inr out \<Rightarrow> Inr (t # out))))"

text \<open>\<open>query_ok\<close> and \<open>rows_ok\<close>: the query runs, and the iteration over the rows ends without an error.\<close>

definition LoadTransitions :: "env \<Rightarrow> sqlite_persister \<Rightarrow> bool \<Rightarrow> bool \<Rightarrow> persist_error + transition list" where
  "LoadTransitions E sp query_ok rows_ok =
     (if \<not> query_ok then Inl QueryFailed
      else (case load_rows E (sp_gid sp) (sp_rows sp) of
              Inl e \<Rightarrow> Inl e
            | Inr out \<Rightarrow> if rows_ok then Inr out else Inl ScanFailed))"

section \<open>Replay\<close>

text \<open>The loop of NewStateWithPersister; each call of Apply reads the clock anew. The index in the
  error is the length of the log at that point.\<close>

fun replay :: "env \<Rightarrow> state \<Rightarrow> (transition \<times> apply_input) list \<Rightarrow> persist_error option \<times> state" where
  "replay E s [] = (None, s)"
| "replay E s ((t, inp) # ts) =
     (case Apply E s t inp of
        (Some e, s') \<Rightarrow> (Some (ReplayFailed (length (log (mchain (core s')))) e), s'\<lparr>replaying := False\<rparr>)
      | (None, s') \<Rightarrow> replay E s' ts)"

definition NewStateWithPersister ::
  "env \<Rightarrow> group_id \<Rightarrow> sqlite_persister option \<Rightarrow> bool \<Rightarrow> bool \<Rightarrow> apply_input list \<Rightarrow> persist_error + state" where
  "NewStateWithPersister E gid p query_ok rows_ok inps =
     (let st = NewState gid
      in case p of
           None \<Rightarrow> Inr st
         | Some sp \<Rightarrow>
             (case LoadTransitions E sp query_ok rows_ok of
                Inl e \<Rightarrow> Inl e
              | Inr transitions \<Rightarrow>
                  (case replay E (st\<lparr>persister := p, replaying := True\<rparr>) (zip transitions inps) of
                     (Some e, _) \<Rightarrow> Inl e
                   | (None, st) \<Rightarrow> Inr (st\<lparr>replaying := False\<rparr>))))"

section \<open>What an accepted call depends on\<close>

text \<open>The payload switch reads the clock only for the deadline of a MIGRATE.\<close>

definition deadline_open :: "transition \<Rightarrow> int \<Rightarrow> bool" where
  "deadline_open t now =
     (case tp_payload (Proto t) of
        Some (P_Migrate h (Some d)) \<Rightarrow> AsTime d \<ge> now
      | _ \<Rightarrow> True)"

lemma handle_now:
  assumes "handle E m t now = (Inr es, m')" "deadline_open t now'"
  shows "handle E m t now' = (Inr es, m')"
proof (cases "tp_type (Proto t) = MIGRATE")
  case True
  then have "writes_migrate (tp_payload (Proto t)) now' = writes_migrate (tp_payload (Proto t)) now"
    using assms
    by (auto simp: handle_def writes_migrate_def run_writes_def deadline_open_def checked_def
        split: option.splits payload.splits sum.splits if_splits)
  then show ?thesis using assms(1) True by (simp add: handle_def)
next
  case False
  then have "handle E m t now' = handle E m t now"
    by (cases "tp_type (Proto t)") (simp_all add: handle_def Let_def)
  then show ?thesis using assms(1) by simp
qed

lemma check_signer_clock:
  "Limiter m = None \<Longrightarrow> check_signer E m t clk' = check_signer E m t clk"
  by (auto simp: check_signer_def check_limiter_def Let_def split: option.splits)

lemma apply_body_input:
  assumes "apply_body E m t inp = (None, m')" "Limiter m = None" "deadline_open t (in_now inp')"
  shows "apply_body E m t inp' = (None, m')"
proof -
  from assms(1) obtain m1 m2 m3 es where st: "check_hlc t = None" "check_prior E m t = None"
    "check_signer E m t (in_clock inp) = (None, m1)" "verify_envelope E m1 t = (None, m2)"
    "handle E m2 t (in_now inp) = (Inr es, m3)"
    "m' = m3\<lparr>mchain := commit_chain E (MaxLogSize m3) (mchain m3) t es\<rparr>"
    by (rule apply_body_ok)
  then show ?thesis
    using check_signer_clock [OF assms(2), of E t "in_clock inp'" "in_clock inp"]
      handle_now [OF st(5) assms(3)] by (simp add: apply_body_def)
qed

lemma route_Limiter: "Limiter (enter_branch (snd (route m t)) t) = Limiter m"
  by (auto simp: route_def enter_branch_def Let_def split: option.splits)

lemma broadcast_parts [simp]:
  "core (broadcastLocked s t r i) = core s" "persister (broadcastLocked s t r i) = persister s"
  "replaying (broadcastLocked s t r i) = replaying s"
  by (simp_all add: broadcastLocked_def split: option.splits)

text \<open>A call accepted by a host without a limiter is accepted during replay on the same state
  machine, with the same result, as long as its deadline is open.\<close>

lemma Apply_replayed:
  assumes "Apply E s t inp = (None, s')" "Limiter (core s) = None" "deadline_open t (in_now inp')"
    "core u = core s" "replaying u"
  shows "\<exists>u'. Apply E u t inp' = (None, u') \<and> core u' = core s' \<and> replaying u' \<and> persister u' = persister u"
proof (cases rule: apply_cases [of s t E inp])
  case (commit m m' err s2)
  have b: "apply_body E (enter_branch m t) t inp' = (None, m')"
    by (rule apply_body_input [OF commit(2) _ assms(3)])
      (use route_Limiter [of "core s" t] commit(1) assms(2) in simp)
  let ?u1 = "broadcastLocked (u\<lparr>core := m'\<rparr>) t (currentRoot E (mchain m'))
               (word_of_nat (length (log (mchain m'))) - 1)"
  have p: "persistLocked E ?u1 t inp' = (None, ?u1)"
    using assms(5) by (simp add: persistLocked_def split: option.splits)
  have "err = None" "core s' = leave_branch (mchain m) t True m'"
    using commit(5) assms(1) by simp_all
  then show ?thesis
    using commit(1) b p assms(4,5) by (simp add: Apply_def Let_def split: prod.splits)
qed (use assms(1) in auto)

section \<open>The rows that a run writes\<close>

definition row_of :: "env \<Rightarrow> transition \<Rightarrow> bytes \<times> bytes" where
  "row_of E t = (canonical t, the (marshal_transition E (Proto t)))"

lemma Apply_persists:
  assumes "Apply E s t inp = (None, s')" "persister s = Some sp" "\<not> replaying s"
  shows "persister s' = Some (sp\<lparr>sp_rows := sp_rows sp @ [row_of E t]\<rparr>) \<and> \<not> replaying s' \<and>
    marshal_transition E (Proto t) \<noteq> None"
proof (cases rule: apply_cases [of s t E inp])
  case (commit m m' err s2)
  have err: "err = None" "persister s' = persister s2" "replaying s' = replaying s2"
    using commit(5) assms(1) by auto
  show ?thesis
    using commit(3) unfolding err(1)
    by (auto simp: persistLocked_def SaveTransition_def row_of_def assms(2,3) err(2,3)
        split: option.splits if_splits prod.splits)
qed (use assms(1) in auto)

lemma Apply_Limiter:
  assumes "Apply E s t inp = (None, s')" "Limiter (core s) = None"
  shows "Limiter (core s') = None"
proof (cases rule: apply_cases [of s t E inp])
  case (commit m m' err s2)
  have m: "Limiter (enter_branch m t) = None"
    using route_Limiter [of "core s" t] commit(1) assms(2) by simp
  have "Limiter m' = None"
  proof -
    from commit(2) obtain m1 m2 m3 es where st:
      "check_signer E (enter_branch m t) t (in_clock inp) = (None, m1)"
      "verify_envelope E m1 t = (None, m2)" "handle E m2 t (in_now inp) = (Inr es, m3)"
      "m' = m3\<lparr>mchain := commit_chain E (MaxLogSize m3) (mchain m3) t es\<rparr>"
      by (rule apply_body_ok)
    have "Limiter m1 = None"
      using st(1) m check_equiv_frame(6)
      by (auto simp: check_signer_def check_limiter_def Let_def split: option.splits if_splits prod.splits bool.splits)
        (metis snd_conv)
    then show ?thesis
      using verify_envelope_frame(5) [of E m1 t] handle_frame(3) [of E m2 t "in_now inp"] st(2-4) by simp
  qed
  then show ?thesis
    using commit(5) assms(1) by (auto simp: leave_branch_def Let_def split: option.splits)
qed (use assms(1) in auto)

text \<open>A run in which every transition is accepted.\<close>

fun accepted_run :: "env \<Rightarrow> state \<Rightarrow> (transition \<times> apply_input) list \<Rightarrow> state option" where
  "accepted_run E s [] = Some s"
| "accepted_run E s ((t, inp) # ts) =
     (case Apply E s t inp of (None, s') \<Rightarrow> accepted_run E s' ts | (Some e, s') \<Rightarrow> None)"

lemma accepted_run_cons:
  "accepted_run E s ((t, inp) # ts) = Some s' \<longleftrightarrow>
     (\<exists>s1. Apply E s t inp = (None, s1) \<and> accepted_run E s1 ts = Some s')"
  by (auto split: prod.splits option.splits)

lemma accepted_run_append:
  "accepted_run E s (xs @ ys) = Option.bind (accepted_run E s xs) (\<lambda>s'. accepted_run E s' ys)"
  by (induction xs arbitrary: s) (auto split: prod.splits option.splits)

lemma accepted_run_persists:
  assumes "accepted_run E s ts = Some s'" "persister s = Some sp" "\<not> replaying s"
  shows "persister s' = Some (sp\<lparr>sp_rows := sp_rows sp @ map (row_of E \<circ> fst) ts\<rparr>) \<and>
    (\<forall>(t, inp) \<in> set ts. marshal_transition E (Proto t) \<noteq> None)"
  using assms
proof (induction ts arbitrary: s sp)
  case (Cons a ts)
  obtain t inp where a: "a = (t, inp)" by fastforce
  from Cons.prems(1) obtain s1 where s1: "Apply E s t inp = (None, s1)" "accepted_run E s1 ts = Some s'"
    unfolding a accepted_run_cons by blast
  note p = Apply_persists [OF s1(1) Cons.prems(2,3)]
  show ?case
    using Cons.IH [OF s1(2) conjunct1 [OF p]] p by (auto simp: a)
qed simp

lemma replay_follows:
  assumes "accepted_run E s ts = Some s'" "Limiter (core s) = None" "core u = core s" "replaying u"
    "list_all2 (\<lambda>(t, i) inp. deadline_open t (in_now inp)) ts inps"
  shows "\<exists>u'. replay E u (zip (map fst ts) inps) = (None, u') \<and> core u' = core s' \<and> replaying u' \<and>
    Limiter (core u') = None"
  using assms
proof (induction ts arbitrary: s u inps)
  case (Cons a ts)
  obtain t i where a: "a = (t, i)" by fastforce
  from Cons.prems(5) obtain inp rest where inps: "inps = inp # rest" "deadline_open t (in_now inp)"
    "list_all2 (\<lambda>(t, i) inp. deadline_open t (in_now inp)) ts rest"
    by (auto simp: a list_all2_Cons1)
  from Cons.prems(1) obtain s1 where s1: "Apply E s t i = (None, s1)" "accepted_run E s1 ts = Some s'"
    unfolding a accepted_run_cons by blast
  from Apply_replayed [OF s1(1) Cons.prems(2) inps(2) Cons.prems(3,4)]
  obtain u1 where u1: "Apply E u t inp = (None, u1)" "core u1 = core s1" "replaying u1" by blast
  show ?case
    using Cons.IH [OF s1(2) Apply_Limiter [OF s1(1) Cons.prems(2)] u1(2,3) inps(3)]
    by (simp add: a inps(1) u1(1))
qed simp

section \<open>Loading back what a run wrote\<close>

definition survives :: "env \<Rightarrow> group_id \<Rightarrow> transition \<Rightarrow> bool" where
  "survives E gid t \<longleftrightarrow> DecodeTransition E (EncodeTransition E t) gid = Some t"

lemma load_rows_run:
  assumes "\<forall>t \<in> set ts. survives E gid t \<and> marshal_transition E (Proto t) \<noteq> None"
  shows "load_rows E gid (map (row_of E) ts) = Inr ts"
  using assms
  by (induction ts)
    (auto simp: survives_def DecodeTransition_def EncodeTransition_def row_of_def split: option.splits)

definition fresh_host :: "group_id \<Rightarrow> state" where
  "fresh_host gid = (NewState gid)\<lparr>persister := Some \<lparr>sp_rows = [], sp_gid = gid\<rparr>\<rparr>"

lemma fresh_host_simps [simp]:
  "Limiter (core (fresh_host gid)) = None" "core (fresh_host gid) = new_machine gid"
  "persister (fresh_host gid) = Some \<lparr>sp_rows = [], sp_gid = gid\<rparr>" "\<not> replaying (fresh_host gid)"
  by (simp_all add: fresh_host_def NewState_def new_machine_def)

lemma run_loads:
  assumes "accepted_run E (fresh_host gid) ts = Some s'" "\<forall>(t, i) \<in> set ts. survives E gid t"
    "persister s' = Some sp"
  shows "LoadTransitions E sp True True = Inr (map fst ts)"
proof -
  note p = accepted_run_persists [OF assms(1) fresh_host_simps(3,4)]
  have "load_rows E gid (map (row_of E) (map fst ts)) = Inr (map fst ts)"
    by (rule load_rows_run) (use p assms(2) in fastforce)
  then show ?thesis using p assms(3) by (simp add: LoadTransitions_def comp_def)
qed

section \<open>Properties\<close>

text \<open>
  C9: the durable log is the history: after a run of accepted transitions on a fresh group the rows
  are exactly its transitions in order, and a restart from these rows yields the very same state
  machine (entries, histories, log, branches, mesh, custody, evidence), whatever the clock says
  by then, as long as no deadline of a stored MIGRATE has passed.
\<close>

theorem replay_rebuilds_state:
  assumes "accepted_run E (fresh_host gid) ts = Some s'" "\<forall>(t, i) \<in> set ts. survives E gid t"
    "list_all2 (\<lambda>(t, i) inp. deadline_open t (in_now inp)) ts inps"
  shows "\<exists>sp u. persister s' = Some sp \<and> sp_rows sp = map (row_of E \<circ> fst) ts \<and>
    NewStateWithPersister E gid (Some sp) True True inps = Inr u \<and> core u = core s'"
proof -
  note p = accepted_run_persists [OF assms(1) fresh_host_simps(3,4)]
  then obtain sp where sp: "persister s' = Some sp" "sp_rows sp = map (row_of E \<circ> fst) ts" by simp
  obtain u where "replay E ((NewState gid)\<lparr>persister := Some sp, replaying := True\<rparr>) (zip (map fst ts) inps)
      = (None, u)" "core u = core s'"
    using replay_follows [OF assms(1) fresh_host_simps(1) _ _ assms(3),
        of "(NewState gid)\<lparr>persister := Some sp, replaying := True\<rparr>"]
    by (auto simp: NewState_def)
  then show ?thesis
    using sp run_loads [OF assms(1,2) sp(1)]
    by (simp add: NewStateWithPersister_def Let_def)
qed

declare accepted_run.simps [simp del]

definition ex_create :: transition where
  "ex_create = (ex_tx 0 CREATE_GROUP None (ex_create_payload [1]) 1 2)\<lparr>canonical := replicate 18 2\<rparr>"

definition ex_wire :: "transition \<Rightarrow> env" where
  "ex_wire t = ex_E\<lparr>unmarshal_transition := (\<lambda>_. Some (Proto t))\<rparr>"

lemma ex_create_accepted:
  "\<exists>s'. accepted_run (ex_wire ex_create) (fresh_host (ex_key 9)) [(ex_create, ex_inp)] = Some s'"
proof -
  have "fst (Apply (ex_wire ex_create) (fresh_host (ex_key 9)) ex_create ex_inp) = None" by code_simp
  then show ?thesis by (metis accepted_run.simps(1) accepted_run_cons prod.collapse)
qed

theorem replay_rebuilds_state_witness:
  "\<exists>s' sp u. accepted_run (ex_wire ex_create) (fresh_host (ex_key 9)) [(ex_create, ex_inp)] = Some s' \<and>
     persister s' = Some sp \<and>
     NewStateWithPersister (ex_wire ex_create) (ex_key 9) (Some sp) True True [ex_inp] = Inr u \<and>
     core u = core s'"
proof -
  obtain s' where s': "accepted_run (ex_wire ex_create) (fresh_host (ex_key 9)) [(ex_create, ex_inp)] = Some s'"
    using ex_create_accepted by blast
  have "survives (ex_wire ex_create) (ex_key 9) ex_create"
    by (simp add: survives_def DecodeTransition_def EncodeTransition_def NewTransition_def ex_wire_def
        ex_create_def ex_tx_def ex_E_def ex_env_def prims.defs)
  moreover have "deadline_open ex_create (in_now ex_inp)"
    by (simp add: deadline_open_def ex_create_def ex_create_payload_def)
  ultimately show ?thesis
    using replay_rebuilds_state [OF s', of "[ex_inp]"] s' by auto
qed

text \<open>Once the deadline has passed, the payload switch rejects the stored MIGRATE.\<close>

lemma handle_deadline_past:
  assumes "handle E m t now = (Inr es, m')" "tp_type (Proto t) = MIGRATE" "\<not> deadline_open t now'"
  shows "handle E m t now' = (Inl (Rule MigrateDeadlinePast), m)"
  using assms
  by (auto simp: handle_def writes_migrate_def run_writes_def deadline_open_def checked_def
      split: option.splits payload.splits sum.splits if_splits)

lemma Apply_deadline_past:
  assumes "Apply E s t inp = (None, s')" "Limiter (core s) = None" "tp_type (Proto t) = MIGRATE"
    "\<not> deadline_open t (in_now inp')" "core u = core s" 
  shows "fst (Apply E u t inp') = Some (Rule MigrateDeadlinePast)"
proof (cases rule: apply_cases [of s t E inp])
  case (commit m m' err s2)
  let ?m = "enter_branch m t"
  have l: "Limiter ?m = None"
    using route_Limiter [of "core s" t] commit(1) assms(2) by simp
  from commit(2) obtain m1 m2 m3 es where st: "check_hlc t = None" "check_prior E ?m t = None"
    "check_signer E ?m t (in_clock inp) = (None, m1)" "verify_envelope E m1 t = (None, m2)"
    "handle E m2 t (in_now inp) = (Inr es, m3)"
    by (rule apply_body_ok)
  have "apply_body E ?m t inp' = (Some (Rule MigrateDeadlinePast), m2)"
    using st check_signer_clock [OF l, of E t "in_clock inp'" "in_clock inp"]
      handle_deadline_past [OF st(5) assms(3,4)] by (simp add: apply_body_def)
  then show ?thesis using commit(1) assms(5) by (simp add: Apply_def)
qed (use assms(1) in auto)

lemma replay_prefix:
  "length inps = length xs \<Longrightarrow>
   replay E u (zip (xs @ ys) (inps @ jnps)) =
     (case replay E u (zip xs inps) of (None, u') \<Rightarrow> replay E u' (zip ys jnps) | (Some e, u') \<Rightarrow> (Some e, u'))"
proof (induction xs arbitrary: u inps)
  case (Cons x xs)
  then show ?case by (cases inps) (auto split: prod.splits option.splits)
qed simp

text \<open>
  a restart fails for good once a stored MIGRATE is overdue: every accepted run that contains a
  MIGRATE is refused by the constructor as soon as the clock has passed its deadline, and the
  whole state with it, although every transition of the log had been accepted.
\<close>

theorem replay_fails_after_deadline:
  assumes "accepted_run E (fresh_host gid) (ts @ (t, i) # rest) = Some s'"
    "\<forall>(t, i) \<in> set (ts @ (t, i) # rest). survives E gid t"
    "list_all2 (\<lambda>(t, i) inp. deadline_open t (in_now inp)) ts inps"
    "tp_type (Proto t) = MIGRATE" "\<not> deadline_open t (in_now j)" "persister s' = Some sp"
  shows "\<exists>n. NewStateWithPersister E gid (Some sp) True True (inps @ j # jnps) =
    Inl (ReplayFailed n (Rule MigrateDeadlinePast))"
proof -
  from assms(1) obtain s1 where s1: "accepted_run E (fresh_host gid) ts = Some s1"
    "accepted_run E s1 ((t, i) # rest) = Some s'"
    by (auto simp: accepted_run_append bind_eq_Some_conv)
  from s1(2) obtain s2 where s2: "Apply E s1 t i = (None, s2)" unfolding accepted_run_cons by blast
  let ?u = "(NewState gid)\<lparr>persister := Some sp, replaying := True\<rparr>"
  obtain u where u: "replay E ?u (zip (map fst ts) inps) = (None, u)" "core u = core s1" "Limiter (core u) = None"
    using replay_follows [OF s1(1) fresh_host_simps(1) _ _ assms(3), of ?u] by (auto simp: NewState_def)
  have "fst (Apply E u t j) = Some (Rule MigrateDeadlinePast)"
    by (rule Apply_deadline_past [OF s2 _ assms(4,5) u(2)]) (use u(2,3) in simp)
  then obtain u' where "Apply E u t j = (Some (Rule MigrateDeadlinePast), u')" by (metis prod.collapse)
  moreover have "length inps = length (map fst ts)" using list_all2_lengthD [OF assms(3)] by simp
  ultimately show ?thesis
    using run_loads [OF assms(1,2,6)] u(1) replay_prefix [of inps "map fst ts" E ?u "t # map fst rest" "j # jnps"]
    by (simp add: NewStateWithPersister_def Let_def)
qed

definition ex_migrate :: transition where
  "ex_migrate = (ex_tx 0 MIGRATE None (P_Migrate ''h'' (Some \<lparr>ts_seconds = 1, ts_nanos = 0\<rparr>)) 1 3)
     \<lparr>canonical := replicate 18 3\<rparr>"

definition ex_wire2 :: env where
  "ex_wire2 = ex_E\<lparr>unmarshal_transition :=
     (\<lambda>b. Some (if b = replicate 18 2 then Proto ex_create else Proto ex_migrate))\<rparr>"

theorem replay_fails_after_deadline_witness:
  "\<exists>s' sp n. accepted_run ex_wire2 (fresh_host (ex_key 9)) [(ex_create, ex_inp), (ex_migrate, ex_inp)] = Some s' \<and>
     persister s' = Some sp \<and>
     NewStateWithPersister ex_wire2 (ex_key 9) (Some sp) True True
       [ex_inp, ex_inp\<lparr>in_now := 2000000000\<rparr>] = Inl (ReplayFailed n (Rule MigrateDeadlinePast))"
proof -
  have "(case Apply ex_wire2 (fresh_host (ex_key 9)) ex_create ex_inp of
        (e, s1) \<Rightarrow> (e, fst (Apply ex_wire2 s1 ex_migrate ex_inp))) = (None, None)"
    by code_simp
  then have "fst (Apply ex_wire2 (fresh_host (ex_key 9)) ex_create ex_inp) = None \<and>
      fst (Apply ex_wire2 (snd (Apply ex_wire2 (fresh_host (ex_key 9)) ex_create ex_inp)) ex_migrate ex_inp) = None"
    by (auto split: prod.splits)
  then obtain s' where s': "accepted_run ex_wire2 (fresh_host (ex_key 9))
      ([(ex_create, ex_inp)] @ (ex_migrate, ex_inp) # []) = Some s'"
    by (metis accepted_run.simps(1) accepted_run_cons append_Cons append_Nil prod.collapse)
  have sv: "survives ex_wire2 (ex_key 9) ex_create" "survives ex_wire2 (ex_key 9) ex_migrate"
    by (simp_all add: survives_def DecodeTransition_def EncodeTransition_def NewTransition_def ex_wire2_def
        ex_create_def ex_migrate_def ex_tx_def ex_E_def ex_env_def prims.defs)
  have dl: "deadline_open ex_create (in_now ex_inp)" "\<not> deadline_open ex_migrate 2000000000"
    by (simp_all add: deadline_open_def ex_create_def ex_create_payload_def ex_migrate_def AsTime_def)
  obtain sp where sp: "persister s' = Some sp"
    using accepted_run_persists [OF s' fresh_host_simps(3,4)] by blast
  have "\<exists>n. NewStateWithPersister ex_wire2 (ex_key 9) (Some sp) True True
      ([ex_inp] @ ex_inp\<lparr>in_now := 2000000000\<rparr> # []) = Inl (ReplayFailed n (Rule MigrateDeadlinePast))"
    by (rule replay_fails_after_deadline [OF s' _ _ _ _ sp])
      (use sv dl in \<open>simp_all add: ex_migrate_def\<close>)
  then show ?thesis using s' sp by auto
qed

end
