(* ===== verification/Reach.thy ===== *)
theory Reach
  imports ApplyKV
begin

text \<open>
  The State as a transition system: its public operations as a step relation, the states a host
  can reach, and the invariant of all of them: every branch keeps its entries within the caps and
  its keys distinct, its log within MaxLogSize and its equivocation log consistent; branch ids are
  never reused and their number is bounded by MaxBranches; subscriber buffers hold at most 64 events.
\<close>

section \<open>Steps\<close>

inductive state_step :: "env \<Rightarrow> state \<Rightarrow> state \<Rightarrow> bool" for E where
  call: "Apply E s t inp = (r, s') \<Longrightarrow> state_step E s s'"
| check: "CheckEquivocation E s k p h x = (r, s') \<Longrightarrow> state_step E s s'"
| store: "state_step E s (s\<lparr>core := StoreEvidence (core s) ev\<rparr>)"
| subscribe: "state_Broadcaster s = (b, s1) \<Longrightarrow>
    state_step E s (s1\<lparr>broadcaster := Some (snd (Subscribe b))\<rparr>)"
| unsubscribe: "state_Broadcaster s = (b, s1) \<Longrightarrow>
    state_step E s (s1\<lparr>broadcaster := Some (Unsubscribe b i)\<rparr>)"

text \<open>A state before its first operation; the host may set positive caps of its own.\<close>

definition fresh :: "state \<Rightarrow> bool" where
  "fresh s \<longleftrightarrow> mchain (core s) = new_chain \<and> mbranches (core s) = newBranchRegistry \<and>
     broadcaster s = None \<and> 0 < MaxKVSize (core s) \<and> 0 < MaxLogSize (core s) \<and>
     0 < MaxBranches (core s) \<and> MaxBranches (core s) < 2 ^ 31"

inductive reachable :: "env \<Rightarrow> state \<Rightarrow> state \<Rightarrow> bool" for E s0 where
  start: "fresh s0 \<Longrightarrow> reachable E s0 s0"
| step: "reachable E s0 s \<Longrightarrow> state_step E s s' \<Longrightarrow> reachable E s0 s'"

section \<open>The invariant\<close>

definition chain_inv :: "int \<Rightarrow> int \<Rightarrow> chain \<Rightarrow> bool" where
  "chain_inv maxKV maxLog c \<longleftrightarrow>
     kv_capped maxKV (Entries (snapshot c)) \<and> int (length (log c)) \<le> maxLog \<and> equiv_ok (equiv_log c)"

definition registry_inv :: "int \<Rightarrow> branch_registry \<Rightarrow> bool" where
  "registry_inv maxB r \<longleftrightarrow> registry_ok r \<and> unat (nextID r) \<le> Suc (length (branches r)) \<and>
     int (unat (nextID r)) \<le> maxB + 1"

definition machine_inv :: "machine \<Rightarrow> bool" where
  "machine_inv m \<longleftrightarrow> 0 < MaxKVSize m \<and> 0 < MaxLogSize m \<and> 0 < MaxBranches m \<and> MaxBranches m < 2 ^ 31 \<and>
     registry_inv (MaxBranches m) (mbranches m) \<and> chain_inv (MaxKVSize m) (MaxLogSize m) (mchain m) \<and>
     (\<forall>i b. branch_get (mbranches m) i = Some b \<longrightarrow> chain_inv (MaxKVSize m) (MaxLogSize m) (br_chain b))"

subsection \<open>Chains\<close>

lemma chain_inv_new: "0 < maxKV \<Longrightarrow> 0 < maxLog \<Longrightarrow> chain_inv maxKV maxLog new_chain"
  by (simp add: chain_inv_def new_chain_def kv_capped_def kv_keys_def equiv_log_def equiv_new_ok)

lemma chain_inv_cong:
  "ledger c = ledger c' \<Longrightarrow> equiv_ok (equiv_log c) \<Longrightarrow> chain_inv k l c' \<Longrightarrow> chain_inv k l c"
  using ledgerD [of c c'] by (simp add: chain_inv_def)

lemma check_signer_equiv_inv:
  assumes "equiv_ok (equiv_log (mchain m))"
  shows "equiv_ok (equiv_log (mchain (snd (check_signer E m t clk))))"
proof (cases rule: check_signer_cases [of t E m clk])
  case (3 e m1)
  then show ?thesis using assms check_limiter_frame(1) [of m _ clk] by (metis snd_conv)
next
  case (4 m1 b m2)
  let ?s = "findSigningSteward E t (stewardsAtLocked E (mchain m) (tp_prior_state (Proto t)))"
  have "mchain m1 = mchain m" using check_limiter_frame(1) [of m ?s clk] 4(3) by simp
  then have "equivocation (mchain m2) =
      Some (snd (equiv_check (equiv_log (mchain m)) ?s (prior_of t) (tp_hlc (Proto t)) (transitionTxHash E t)))"
    using checkEquivocation_spec [of E m1 ?s "prior_of t" "tp_hlc (Proto t)" "transitionTxHash E t" "Some t"]
      4(4) by simp
  then show ?thesis using equiv_check_ok [OF assms] 4(5) by (simp add: equiv_log_def)
qed (use assms in simp_all)

lemma verify_envelope_equiv_inv:
  "equiv_log (mchain (snd (verify_envelope E m t))) = equiv_log (mchain m)"
  by (simp add: equiv_log_def verify_envelope_frame)

lemma trim_log_length: "0 < ml \<Longrightarrow> int (length l) \<le> ml + 1 \<Longrightarrow> int (length (trim_log ml l)) \<le> ml"
  by (simp add: trim_log_def)

lemma body_chain_inv:
  assumes "chain_inv (MaxKVSize m) (MaxLogSize m) (mchain m)" "0 < MaxKVSize m" "0 < MaxLogSize m"
  shows "chain_inv (MaxKVSize m) (MaxLogSize m) (mchain (snd (apply_body E m t inp)))"
proof -
  define m1 where "m1 = snd (check_signer E m t (in_clock inp))"
  define m2 where "m2 = snd (verify_envelope E m1 t)"
  define m3 where "m3 = snd (handle E m2 t (in_now inp))"
  have c1: "chain_inv (MaxKVSize m) (MaxLogSize m) (mchain m1)"
    unfolding m1_def
    by (rule chain_inv_cong [OF _ _ assms(1)])
      (use assms(1) in \<open>simp_all add: check_signer_frame check_signer_equiv_inv chain_inv_def\<close>)
  then have c2: "chain_inv (MaxKVSize m) (MaxLogSize m) (mchain m2)"
    unfolding m2_def
    by (rule chain_inv_cong [rotated 2]) (use c1 in \<open>simp_all add: verify_envelope_frame
      verify_envelope_equiv_inv chain_inv_def\<close>)
  have cfg: "config m2 = config m"
    by (simp add: m2_def m1_def verify_envelope_frame check_signer_frame)
  have m3: "mchain m3 = mchain m2" "config m3 = config m2" by (simp_all add: m3_def handle_frame)
  have "chain_inv (MaxKVSize m) (MaxLogSize m) (commit_chain E (MaxLogSize m3) (mchain m2) t es)"
    if ok: "handle E m2 t (in_now inp) = (Inr es, m3)" for es
  proof -
    obtain p where p: "wrote m2 (payload_writes E (nextID (mbranches m2)) (tp_branch_id (Proto t)) p) es"
      using handle_writes [OF ok] by blast
    have "kv_capped (MaxKVSize m) es"
      using put_kvs_capped [OF p [unfolded wrote_def]] c2 config_eqD(6) [OF cfg] assms(2)
      by (simp add: chain_inv_def entries_of_def)
    then show ?thesis
      using c2 trim_log_length [OF assms(3), of "log (mchain m2) @ [t]"] config_eqD(5) [OF cfg]
        config_eqD(5) [OF m3(2)] by (simp add: chain_inv_def equiv_log_def)
  qed
  then have "chain_inv (MaxKVSize m) (MaxLogSize m)
      (mchain (m3\<lparr>mchain := commit_chain E (MaxLogSize m3) (mchain m3) t es\<rparr>))"
    if "handle E m2 t (in_now inp) = (Inr es, m3)" for es using that m3(1) by simp
  then show ?thesis
    using assms(1) c1 c2 m3(1) unfolding apply_body_def m3_def m2_def m1_def
    by (auto split: option.splits prod.splits sum.splits)
qed

subsection \<open>The registry\<close>

lemma length_update_keys:
  "length (AList.update k v xs) = (if k \<in> fst ` set xs then length xs else Suc (length xs))"
  by (induction xs) auto

lemma branch_get_in: "branch_get r i \<noteq> None \<longleftrightarrow> i \<in> fst ` set (branches r)"
  by (simp add: branch_get_def map_of_eq_None_iff del: not_None_eq)

lemma length_put [simp]:
  "branch_get r i \<noteq> None \<Longrightarrow> length (branches (branch_put r i b)) = length (branches r)"
  by (subst (asm) branch_get_in) (simp add: branch_put_def length_update_keys)

lemma registry_inv_new: "0 \<le> maxB \<Longrightarrow> registry_inv maxB newBranchRegistry"
  by (simp add: registry_inv_def registry_ok_new) (simp add: newBranchRegistry_def)

lemma registry_inv_genesis:
  "registry_inv maxB r \<Longrightarrow> registry_inv maxB (snd (branch_getOrCreate r GenesisBranchID))"
  using registry_ok_genesis [of r]
  by (auto simp: registry_inv_def) (auto simp: branch_getOrCreate_def length_update_keys split: option.splits)

lemma registry_inv_put:
  "registry_inv maxB r \<Longrightarrow> branch_get r i \<noteq> None \<Longrightarrow> br_id b = i \<Longrightarrow> registry_inv maxB (branch_put r i b)"
  by (simp add: registry_inv_def registry_ok_put)

lemma registry_inv_allocate:
  assumes "registry_inv maxB r" "int (length (branches r)) < maxB" "maxB < 2 ^ 31"
  shows "registry_inv maxB (snd (branch_allocate r p reason))"
proof -
  have ok: "registry_ok r" and n: "unat (nextID r) \<le> Suc (length (branches r))"
    using assms(1) by (simp_all add: registry_inv_def)
  have "int (unat (nextID r)) < 2 ^ 31" using n assms(2,3) by linarith
  then have lt: "unat (nextID r) < 2 ^ 31" by (metis of_nat_less_numeral_power_cancel_iff)
  have ne: "nextID r \<noteq> - 1"
  proof
    assume "nextID r = - 1"
    then show False using lt by (simp add: unsigned_minus_1_eq_mask mask_eq_exp_minus_1)
  qed
  have suc: "unat (nextID r + 1) = Suc (unat (nextID r))"
    using lt by (simp add: unat_word_ariths)
  have "nextID r \<notin> fst ` set (branches r)"
    using fresh_nextID [OF ok] branch_get_in by blast
  then have "length (branches (snd (branch_allocate r p reason))) = Suc (length (branches r))"
    by (simp add: branch_allocate_def Let_def length_update_keys)
  moreover have "int (unat (nextID r)) \<le> maxB" using n assms(2) by linarith
  ultimately show ?thesis
    using registry_ok_allocate [OF ok ne] n by (simp add: registry_inv_def suc)
qed

subsection \<open>One call of Apply\<close>

lemma route_inv:
  assumes "machine_inv m"
  shows "machine_inv (snd (route m t))"
proof -
  have "chain_inv (MaxKVSize m) (MaxLogSize m) new_chain"
    using assms chain_inv_new by (simp add: machine_inv_def)
  then show ?thesis
    using assms registry_inv_genesis [of "MaxBranches m" "mbranches m"]
    by (auto simp: route_def Let_def machine_inv_def newBranch_def)
qed

lemma route_room:
  "route m t = (None, m') \<Longrightarrow> tp_type (Proto t) = BRANCH_CREATE \<Longrightarrow> 0 < MaxBranches m \<Longrightarrow>
   int (length (branches (mbranches m'))) < MaxBranches m"
  by (auto simp: route_def Let_def split: if_splits)

lemma enter_inv: "machine_inv m \<Longrightarrow> machine_inv (enter_branch m t)"
  by (auto simp: enter_branch_def machine_inv_def split: option.splits)

lemma machine_inv_cong:
  assumes "config m' = config m" "machine_inv m" "registry_inv (MaxBranches m) (mbranches m')"
    "chain_inv (MaxKVSize m) (MaxLogSize m) (mchain m')"
    "\<And>i b. branch_get (mbranches m') i = Some b \<Longrightarrow> chain_inv (MaxKVSize m) (MaxLogSize m) (br_chain b)"
  shows "machine_inv m'"
  using assms config_eqD [OF assms(1)] by (simp add: machine_inv_def)

lemma body_config: "config (snd (apply_body E m t inp)) = config m"
proof -
  define m1 where "m1 = snd (check_signer E m t (in_clock inp))"
  define m2 where "m2 = snd (verify_envelope E m1 t)"
  define m3 where "m3 = snd (handle E m2 t (in_now inp))"
  have c: "config m1 = config m" "config m2 = config m1" "config m3 = config m2"
    by (simp_all add: m1_def m2_def m3_def check_signer_frame verify_envelope_frame handle_frame)
  have "config (snd (apply_body E m t inp)) \<in> {config m, config m1, config m2, config m3}"
    unfolding apply_body_def m3_def m2_def m1_def
    by (auto simp: config_def split: option.splits prod.splits sum.splits)
  then show ?thesis using c by auto
qed

lemma handle_registry_inv:
  assumes "registry_inv maxB (mbranches m)" "maxB < 2 ^ 31"
    "tp_type (Proto t) = BRANCH_CREATE \<Longrightarrow> int (length (branches (mbranches m))) < maxB"
  shows "registry_inv maxB (mbranches (snd (handle E m t now)))"
  using handle_mbranches_cases [of E m t now]
proof (elim disjE exE conjE)
  fix reason b
  let ?a = "branch_allocate (mbranches m) (tp_branch_id (Proto t)) reason"
  assume h: "tp_type (Proto t) = BRANCH_CREATE"
    "mbranches (snd (handle E m t now)) = branch_put (snd ?a) (nextID (mbranches m)) b"
    "br_id b = nextID (mbranches m)"
  show ?thesis
    unfolding h(2)
    by (rule registry_inv_put [OF registry_inv_allocate [OF assms(1) assms(3) [OF h(1)] assms(2)]])
      (use h(3) in simp_all)
qed (use assms in simp)

lemma handle_chains_inv:
  assumes "\<And>i b. branch_get (mbranches m) i = Some b \<Longrightarrow> chain_inv k l (br_chain b)" "0 < k" "0 < l"
    "branch_get (mbranches (snd (handle E m t now))) i = Some b"
  shows "chain_inv k l (br_chain b)"
  using handle_mbranches_cases [of E m t now]
proof (elim disjE exE conjE)
  fix reason b'
  assume h: "mbranches (snd (handle E m t now)) =
      branch_put (snd (branch_allocate (mbranches m) (tp_branch_id (Proto t)) reason)) (nextID (mbranches m)) b'"
    "br_chain b' = new_chain\<lparr>initialStewards := stewardsAtLocked E (mchain m) (tp_prior_state (Proto t)),
        initialThreshold := thresholdAtLocked E (mchain m) (tp_prior_state (Proto t))\<rparr>"
  have "chain_inv k l (br_chain b')"
    using chain_inv_new [OF assms(2,3)] by (simp add: h(2) chain_inv_def equiv_log_def)
  then show ?thesis
    using assms(1,4) by (auto simp: h(1) split: if_splits)
qed (use assms in simp)

lemma body_inv:
  assumes "machine_inv m"
    "tp_type (Proto t) = BRANCH_CREATE \<Longrightarrow> int (length (branches (mbranches m))) < MaxBranches m"
  shows "machine_inv (snd (apply_body E m t inp))"
proof -
  note d = assms(1) [unfolded machine_inv_def]
  from body_mbranches [of E m t inp]
  have "registry_inv (MaxBranches m) (mbranches (snd (apply_body E m t inp))) \<and>
      (\<forall>i b. branch_get (mbranches (snd (apply_body E m t inp))) i = Some b \<longrightarrow>
         chain_inv (MaxKVSize m) (MaxLogSize m) (br_chain b))"
  proof (elim disjE exE conjE)
    fix m2 assume m2: "mbranches m2 = mbranches m"
      "mbranches (snd (apply_body E m t inp)) = mbranches (snd (handle E m2 t (in_now inp)))"
    have "registry_inv (MaxBranches m) (mbranches (snd (handle E m2 t (in_now inp))))"
      by (rule handle_registry_inv) (use d assms(2) m2 in simp_all)
    moreover have "chain_inv (MaxKVSize m) (MaxLogSize m) (br_chain b)"
      if "branch_get (mbranches (snd (handle E m2 t (in_now inp)))) i = Some b" for i b
      by (rule handle_chains_inv [OF _ _ _ that]) (use d m2 in auto)
    ultimately show ?thesis using m2(2) by simp
  qed (use d in simp)
  moreover have "chain_inv (MaxKVSize m) (MaxLogSize m) (mchain (snd (apply_body E m t inp)))"
    by (rule body_chain_inv) (use d in simp_all)
  ultimately show ?thesis
    by (intro machine_inv_cong [OF body_config assms(1)]) simp_all
qed

lemma leave_inv:
  assumes "machine_inv m" "chain_inv (MaxKVSize m) (MaxLogSize m) saved"
  shows "machine_inv (leave_branch saved t ok m)"
proof (cases "swaps t \<and> branch_get (mbranches m) (tp_branch_id (Proto t)) \<noteq> None")
  case True
  then obtain b where b: "swaps t" "branch_get (mbranches m) (tp_branch_id (Proto t)) = Some b" by blast
  note d = assms(1) [unfolded machine_inv_def]
  have id: "br_id b = tp_branch_id (Proto t)"
    using registry_okD [OF _ b(2)] d by (simp add: registry_inv_def)
  have c: "chain_inv (MaxKVSize m) (MaxLogSize m) (br_chain b)" using d b(2) by blast
  have "equiv_ok (equiv_log (mchain m))" "equiv_ok (equiv_log (br_chain b))"
    using d c by (simp_all add: chain_inv_def)
  then have c': "chain_inv (MaxKVSize m) (MaxLogSize m) ((br_chain b)
      \<lparr>stewardHistory := sh, thresholdHistory := th,
       equivocation := (if equivocation (br_chain b) = None then None else equivocation (mchain m))\<rparr>)" for sh th
    using c by (auto simp: chain_inv_def equiv_log_def equiv_new_ok)
  show ?thesis
    by (rule machine_inv_cong [OF leave_branch_config assms(1)])
      (use b d c' assms(2) id in \<open>auto simp: leave_branch_def Let_def split: if_splits intro!: registry_inv_put\<close>)
qed (use assms in \<open>auto simp: leave_branch_def split: option.splits\<close>)

lemma Apply_inv:
  assumes "machine_inv (core s)"
  shows "machine_inv (core (snd (Apply E s t inp)))"
proof -
  have r: "machine_inv (snd (route (core s) t))" by (rule route_inv [OF assms])
  have b: "machine_inv m'" "chain_inv (MaxKVSize m') (MaxLogSize m') (mchain m)"
    if "route (core s) t = (None, m)" "apply_body E (enter_branch m t) t inp = (e, m')" for m e m'
  proof -
    have m: "machine_inv m" using r that(1) by simp
    have cfg: "config m' = config m" "config m = config (core s)"
      using body_config [of E "enter_branch m t" t inp] that route_frame(2) [of "core s" t]
      by (simp_all add: enter_branch_frame)
    have "tp_type (Proto t) = BRANCH_CREATE \<Longrightarrow> int (length (branches (mbranches m))) < MaxBranches m"
      using route_room [OF that(1)] assms config_eqD(8) [OF cfg(2)] by (simp add: machine_inv_def)
    then show "machine_inv m'"
      using body_inv [OF enter_inv [OF m, of t], of t E inp] that(2) config_eqD(8) [OF enter_branch_frame(2), of m t]
      by (simp add: enter_branch_frame)
    show "chain_inv (MaxKVSize m') (MaxLogSize m') (mchain m)"
      using m config_eqD(5,6) [OF cfg(1)] by (simp add: machine_inv_def)
  qed
  show ?thesis
    by (cases rule: apply_cases [of s t E inp]) (use r b in \<open>auto intro: leave_inv\<close>)
qed

section \<open>Properties\<close>

lemma CheckEquivocation_inv:
  assumes "CheckEquivocation E s k p h x = (r, s')" "machine_inv (core s)"
  shows "machine_inv (core s')"
proof -
  let ?m = "snd (checkEquivocationLocked E (core s) k p h x None)"
  have s': "core s' = ?m"
    using assms(1) by (auto simp: CheckEquivocation_def Let_def split: prod.splits)
  note d = assms(2) [unfolded machine_inv_def]
  have "equiv_ok (equiv_log (mchain ?m))"
    using checkEquivocation_spec [of E "core s" k p h x None] equiv_check_ok d
    by (simp add: equiv_log_def [of "mchain ?m"] chain_inv_def)
  then have "chain_inv (MaxKVSize (core s)) (MaxLogSize (core s)) (mchain ?m)"
    using d by (intro chain_inv_cong [OF check_equiv_frame(1)]) simp_all
  then show ?thesis
    unfolding s' by (intro machine_inv_cong [OF check_equiv_frame(4) assms(2)]) (use d in \<open>simp_all add: check_equiv_frame\<close>)
qed

definition buffers_inv :: "state \<Rightarrow> bool" where
  "buffers_inv s \<longleftrightarrow> (\<forall>b. broadcaster s = Some b \<longrightarrow> broadcaster_ok b)"

lemma set_AList_update: "set (AList.update k v xs) \<subseteq> insert (k, v) (set xs)"
  by (induction xs) auto

lemma broadcaster_ok_Subscribe: "broadcaster_ok b \<Longrightarrow> broadcaster_ok (snd (Subscribe b))"
  using set_AList_update [of "b_nextID b" "[]" "subs b"]
  by (auto simp: broadcaster_ok_def Subscribe_def Let_def chan_ok_def distinct_update)

lemma broadcaster_ok_Unsubscribe: "broadcaster_ok b \<Longrightarrow> broadcaster_ok (Unsubscribe b i)"
  using AList.distinct_delete [of "subs b" i]
  by (auto simp: broadcaster_ok_def Unsubscribe_def AList.delete_eq)

lemma broadcaster_ok_New: "broadcaster_ok NewBroadcaster"
  by (simp add: broadcaster_ok_def NewBroadcaster_def)

lemma state_Broadcaster_inv:
  "state_Broadcaster s = (b, s1) \<Longrightarrow> buffers_inv s \<Longrightarrow> core s1 = core s \<and> broadcaster_ok b"
  by (auto simp: state_Broadcaster_def buffers_inv_def broadcaster_ok_New split: option.splits)

lemma Apply_buffers:
  assumes "buffers_inv s"
  shows "buffers_inv (snd (Apply E s t inp))"
proof (cases rule: apply_cases [of s t E inp])
  case (commit m m' err s2)
  have "buffers_inv (broadcastLocked (s\<lparr>core := m'\<rparr>) t r i)" for r i
    using assms broadcaster_ok_Broadcast by (auto simp: buffers_inv_def broadcastLocked_def split: option.splits)
  moreover have "broadcaster (snd (persistLocked E u t inp)) = broadcaster u" for u
    by (auto simp: persistLocked_def split: option.splits prod.splits)
  ultimately have "buffers_inv s2" using commit(3) by (metis buffers_inv_def snd_conv)
  then show ?thesis using commit(5) by (simp add: buffers_inv_def)
qed (use assms in \<open>simp_all add: buffers_inv_def\<close>)

lemma step_inv:
  assumes "state_step E s s'" "machine_inv (core s)" "buffers_inv s"
  shows "machine_inv (core s') \<and> buffers_inv s'"
  using assms(1)
proof cases
  case (call t inp r)
  then show ?thesis using Apply_inv [OF assms(2), of E t inp] Apply_buffers [OF assms(3), of E t inp] by simp
next
  case (check k p h x r)
  have "broadcaster s' = broadcaster s"
    using check by (auto simp: CheckEquivocation_def Let_def split: prod.splits)
  then show ?thesis using CheckEquivocation_inv [OF check assms(2)] assms(3) by (simp add: buffers_inv_def)
next
  case (store ev)
  then show ?thesis using assms(2,3) by (simp add: buffers_inv_def machine_inv_def StoreEvidence_def)
next
  case (subscribe b s1)
  then show ?thesis
    using state_Broadcaster_inv [OF subscribe(2) assms(3)] assms(2) broadcaster_ok_Subscribe [of b]
    by (simp add: buffers_inv_def)
next
  case (unsubscribe b s1 i)
  then show ?thesis
    using state_Broadcaster_inv [OF unsubscribe(2) assms(3)] assms(2) broadcaster_ok_Unsubscribe [of b i]
    by (simp add: buffers_inv_def)
qed

lemma fresh_inv: "fresh s \<Longrightarrow> machine_inv (core s) \<and> buffers_inv s"
  by (simp add: fresh_def machine_inv_def buffers_inv_def registry_inv_new chain_inv_new branch_get_def)
    (simp add: newBranchRegistry_def)

text \<open>
  C6: every state a host can reach, by any sequence of transitions (accepted or not), equivocation
  checks, evidence deposits and subscriptions, is well formed: on every branch the keys are
  distinct and the entries, the values and the log are within their caps; branches are filed
  under their own ids, at most MaxBranches ids are ever handed out, and no buffer of a subscriber
  holds more than 64 events.
\<close>

theorem reachable_states_ok:
  assumes "reachable E s0 s"
  shows "machine_inv (core s) \<and> buffers_inv s"
  using assms by (induction rule: reachable.induct) (use fresh_inv step_inv in blast)+

theorem reachable_states_ok_witness:
  "machine_inv (core (snd (Apply ex_E (NewState (ex_key 9))
      (ex_tx 0 CREATE_GROUP None (ex_create_payload [1]) 1 2) ex_inp)))"
proof -
  let ?s = "NewState (ex_key 9)" and ?t = "ex_tx 0 CREATE_GROUP None (ex_create_payload [1]) 1 2"
  have "fresh ?s" by (simp add: fresh_def NewState_def new_machine_def)
  moreover have "state_step ex_E ?s (snd (Apply ex_E ?s ?t ex_inp))"
    by (rule state_step.call [OF surjective_pairing])
  ultimately have "reachable ex_E ?s (snd (Apply ex_E ?s ?t ex_inp))"
    by (rule reachable.step [OF reachable.start])
  then show ?thesis by (rule conjunct1 [OF reachable_states_ok])
qed

end
