(* ===== verification/Governance.thy ===== *)
theory Governance
  imports Reach
begin

text \<open>
  The government of a group: the steward set and its commitment in the key-value state. A group
  whose transitions all name their prior state keeps the keys \<open>steward/<hex>\<close> of its state in
  agreement with the steward set of its head, so that two hosts with one root agree on the
  stewards. A transition without a prior state breaks the agreement. Further: what an accepted
  SLASH_STEWARD guarantees, and the quorum every accepted transition needs.
\<close>

section \<open>Which payloads write steward keys\<close>

definition steward_key :: "public_key \<Rightarrow> string" where
  "steward_key k = ''steward/'' @ hex k"

lemma steward_key_inject [simp]: "steward_key a = steward_key b \<longleftrightarrow> a = b"
  by (simp add: steward_key_def)

text \<open>The steward a payload adds or removes.\<close>

fun adds :: "payload \<Rightarrow> public_key option" where
  "adds (P_AddSteward k) = Some (copy32 k)"
| "adds _ = None"

fun drops :: "payload \<Rightarrow> public_key option" where
  "drops (P_RemoveSteward k) = Some (copy32 k)"
| "drops (P_SlashSteward p) = Some (copy32 (sl_slashed_steward p))"
| "drops _ = None"

lemmas key_defs = steward_key_def rsvp_key_def attestStorageKey_def branch_key_def hostCertStorageKey_def
  hostCertRevocationKey_def hostCertStorageKeyFromRevoke_def mesh_key_def nameBindStorageKey_def

lemma steward_writes:
  assumes "payload_type p \<noteq> CREATE_GROUP"
  shows "map_writes (payload_writes E n br p) f (steward_key k) =
    (if adds p = Some k then Some [1] else if drops p = Some k then None else f (steward_key k))"
  using assms by (cases p) (auto simp: key_defs Let_def)

section \<open>Agreement of the steward set with the keys\<close>

definition steward_keys_agree :: "env \<Rightarrow> chain \<Rightarrow> bool" where
  "steward_keys_agree E c \<longleftrightarrow>
     (\<exists>st. stewardHistory c (currentRoot E c) = Some st \<and> (\<forall>k \<in> set st. length k = 32) \<and>
        (\<forall>k. length k = 32 \<longrightarrow> (k \<in> set st \<longleftrightarrow> kv_of c (steward_key k) \<noteq> None)))"

lemma computeCurrentStewards_later:
  assumes "payload_type p = tp_type t" "tp_payload t = Some p" "tp_type t \<noteq> CREATE_GROUP"
  shows "set (computeCurrentStewards E c t) =
    (set (stewardsAtLocked E c (tp_prior_state t)) \<union> set_option (adds p)) - set_option (drops p)"
  using assms by (cases p) (auto simp: computeCurrentStewards_def Let_def split: ttype.splits)

lemma prior_lookup:
  assumes "has_prior t" "prior_of t = currentRoot E c"
  shows "stewardsAtLocked E c' (tp_prior_state (Proto t)) =
    (case stewardHistory c' (currentRoot E c) of Some st \<Rightarrow> st | None \<Rightarrow> [])"
  using assms
  by (auto simp: has_prior_def prior_of_def stewardsAtLocked_def no_hash_def hash_array_def
      split: option.splits)

lemma adds_drops_length:
  "adds p = Some k \<Longrightarrow> length k = 32" "drops p = Some k \<Longrightarrow> length k = 32"
  by (auto elim!: adds.elims drops.elims)

lemma adds_drops_disjoint: "adds p = Some k \<Longrightarrow> drops p = None"
  by (cases p) simp_all

lemma Apply_keeps_agreement:
  assumes "Apply E s t inp = (None, s')" "registry_ok (mbranches (core s))" "has_prior t"
    "tp_type (Proto t) \<noteq> CREATE_GROUP" "steward_keys_agree E (work_chain (core s) t)"
  shows "steward_keys_agree E (result_chain (core s') t)"
proof -
  let ?c = "work_chain (core s) t"
  from assms(1,2) obtain p c2 es m2 where p: "tp_payload (Proto t) = Some p" "payload_type p = tp_type (Proto t)"
    "ledger c2 = ledger ?c" "result_chain (core s') t = commit_chain E (MaxLogSize (core s)) c2 t es"
    "mchain m2 = c2" "wrote m2 (payload_writes E (nextID (mbranches (core s))) (tp_branch_id (Proto t)) p) es"
    by (rule apply_ok_writes) (rule that)
  have pr: "prior_of t = currentRoot E ?c"
    by (rule apply_ok_chain [OF assms(1,2)]) (use assms(3) in simp)
  obtain st where st: "stewardHistory ?c (currentRoot E ?c) = Some st" "\<forall>k \<in> set st. length k = 32"
    "\<And>k. length k = 32 \<Longrightarrow> k \<in> set st \<longleftrightarrow> kv_of ?c (steward_key k) \<noteq> None"
    using assms(5) by (auto simp: steward_keys_agree_def)
  let ?c3 = "c2\<lparr>snapshot := \<lparr>Entries = es\<rparr>\<rparr>"
  let ?new = "computeCurrentStewards E ?c3 (Proto t)"
  have "stewardsAtLocked E ?c3 (tp_prior_state (Proto t)) = st"
    using prior_lookup [OF assms(3) pr, of ?c3] ledgerD(3) [OF p(3)] st(1) by simp
  then have new: "set ?new = (set st \<union> set_option (adds p)) - set_option (drops p)"
    using computeCurrentStewards_later [OF p(2,1) assms(4), of E ?c3] by simp
  have "entries_of m2 = Entries (snapshot ?c)"
    using p(5) ledgerD(1) [OF p(3)] by (simp add: entries_of_def)
  then have kv: "kv_lookup es = map_writes (payload_writes E (nextID (mbranches (core s)))
      (tp_branch_id (Proto t)) p) (kv_of ?c)"
    using put_kvs_lookup [OF p(6) [unfolded wrote_def]] by (simp add: kv_of_def)
  have "k \<in> set ?new \<longleftrightarrow> kv_lookup es (steward_key k) \<noteq> None" if "length k = 32" for k
    using st(3) [OF that] steward_writes [of p E _ _ "kv_of ?c" k] p(2) assms(4) adds_drops_disjoint [of p k]
    by (auto simp: kv new simp del: kv_lookup_None)
  moreover have "\<forall>k \<in> set ?new. length k = 32"
    using st(2) adds_drops_length(1) [of p] by (auto simp: new)
  ultimately show ?thesis
    unfolding steward_keys_agree_def p(4)
    by (simp add: commit_stewards del: kv_lookup_None)
qed

text \<open>The genesis transition establishes the agreement when it declares 32-byte keys.\<close>

definition founding :: "transition \<Rightarrow> bool" where
  "founding t \<longleftrightarrow> tp_type (Proto t) = CREATE_GROUP \<and> \<not> swaps t \<and>
     (\<exists>p. tp_payload (Proto t) = Some (P_CreateGroup p) \<and> (\<forall>k \<in> set (cg_initial_stewards p). length k = 32))"

lemma map_writes_stewards:
  "map_writes (map (\<lambda>k. (''steward/'' @ hex k, Some [1])) ks) f (steward_key k) =
     (if k \<in> set ks then Some [1] else f (steward_key k))"
  by (induction ks arbitrary: f) (auto simp: key_defs)

lemma map_writes_mesh_peers:
  "map_writes (map (\<lambda>mp. (mesh_key (imp_host_wg_key mp), imp_mesh_ip mp)) mps) f (steward_key k) =
     f (steward_key k)"
  by (rule map_writes_other) (auto simp: key_defs)

lemma create_group_lookup:
  "map_writes (payload_writes E n br (P_CreateGroup p)) f (steward_key k) =
     (if k \<in> set (cg_initial_stewards p) then Some [1] else f (steward_key k))"
proof -
  have "map_writes (payload_writes E n br (P_CreateGroup p)) f (steward_key k) =
      (if k \<in> set (cg_initial_stewards p) then Some [1]
       else (f(''name'' \<mapsto> bytes_of (cg_canonical_name p),
               ''display_name'' \<mapsto> bytes_of (cg_display_name p))) (steward_key k))"
    unfolding payload_writes.simps writes_create_group_def map_writes_simps
      map_writes_mesh_peers map_writes_stewards ..
  then show ?thesis by (simp add: steward_key_def)
qed

lemma founding_agrees:
  assumes "Apply E s t inp = (None, s')" "registry_ok (mbranches (core s))" "founding t"
    "stewardsAtLocked E (work_chain (core s) t) (tp_prior_state (Proto t)) = []"
    "\<forall>k. kv_of (work_chain (core s) t) (steward_key k) = None"
  shows "steward_keys_agree E (result_chain (core s') t)"
proof -
  obtain p where p: "tp_type (Proto t) = CREATE_GROUP" "tp_payload (Proto t) = Some (P_CreateGroup p)"
    "\<forall>k \<in> set (cg_initial_stewards p). length k = 32"
    using assms(3) by (auto simp: founding_def)
  from assms(1,2) obtain m m1 m2 m3 es where st: "route (core s) t = (None, m)"
    "check_signer E (enter_branch m t) t (in_clock inp) = (None, m1)"
    "verify_envelope E m1 t = (None, m2)" "handle E m2 t (in_now inp) = (Inr es, m3)"
    "result_chain (core s') t = commit_chain E (MaxLogSize (core s)) (mchain m2) t es"
    by (rule apply_ok)
  note w = work_chain_route [OF st(1)]
  have f: "ledger (mchain m1) = ledger (work_chain (core s) t)"
    "initialStewards (mchain m1) = initialStewards (work_chain (core s) t)"
    using check_signer_frame [of E "enter_branch m t" t "in_clock inp"] st(2) by (simp_all add: w)
  have init: "initialStewards (mchain m2) = cg_initial_stewards p"
    using st(3)
  proof (cases rule: verify_envelope_ok)
    case later
    then show ?thesis using stewardsAt_ledger [OF f] assms(4) by simp
  next
    case (genesis stewards thr)
    then show ?thesis using p by (auto simp: declares_def intro!: map_idI)
  qed
  have l2: "ledger (mchain m2) = ledger (work_chain (core s) t)"
    using verify_envelope_frame(1) [of E m1 t] st(3) f(1) by simp
  from handle_writes [OF st(4)] p(2)
  have "wrote m2 (payload_writes E (nextID (mbranches m2)) (tp_branch_id (Proto t)) (P_CreateGroup p)) es"
    by auto
  then have "kv_lookup es = map_writes (payload_writes E (nextID (mbranches m2)) (tp_branch_id (Proto t))
      (P_CreateGroup p)) (kv_of (work_chain (core s) t))"
    using put_kvs_lookup ledgerD(1) [OF l2] by (simp only: wrote_def entries_of_def kv_of_def)
  then have kv: "kv_lookup es (steward_key k) = (if k \<in> set (cg_initial_stewards p) then Some [1] else None)" for k
    using assms(5) by (simp only: create_group_lookup)
  have "computeCurrentStewards E ((mchain m2)\<lparr>snapshot := \<lparr>Entries = es\<rparr>\<rparr>) (Proto t) = cg_initial_stewards p"
    by (simp add: computeCurrentStewards_def p(1) init Let_def)
  then show ?thesis
    using p(3) kv unfolding steward_keys_agree_def st(5)
    by (auto simp: commit_stewards simp del: kv_lookup_None)
qed

section \<open>Governed groups\<close>

text \<open>
  The life of a group whose genesis branch is governed as the protocol intends: it is founded
  once, and every later transition that is accepted on it names its prior state. Rejected
  transitions and transitions on other branches are arbitrary.
\<close>

inductive governed :: "env \<Rightarrow> state \<Rightarrow> bool" for E where
  found: "fresh s \<Longrightarrow> founding t \<Longrightarrow> Apply E s t inp = (None, s') \<Longrightarrow> governed E s'"
| accept: "governed E s \<Longrightarrow> Apply E s t inp = (None, s') \<Longrightarrow>
    \<not> swaps t \<longrightarrow> has_prior t \<and> tp_type (Proto t) \<noteq> CREATE_GROUP \<Longrightarrow> governed E s'"
| reject: "governed E s \<Longrightarrow> Apply E s t inp = (Some e, s') \<Longrightarrow> e \<noteq> PersistFailed \<Longrightarrow> governed E s'"

lemma machine_inv_registry: "machine_inv m \<Longrightarrow> registry_ok (mbranches m)"
  by (simp add: machine_inv_def registry_inv_def)

text \<open>A call that does not commit to the genesis branch leaves its ledger alone.\<close>

lemma Apply_other_ledger:
  assumes "Apply E s t inp = (r, s')" "registry_ok (mbranches (core s))"
    "swaps t \<or> r \<notin> {None, Some PersistFailed} \<or>
     (\<forall>m. route (core s) t = (None, m) \<longrightarrow> fst (apply_body E (enter_branch m t) t inp) \<noteq> None)"
  shows "ledger (mchain (core s')) = ledger (mchain (core s))"
proof -
  have lv: "mchain (leave_branch (mchain m) t ok m') = mchain (core s)"
    if hyp: "swaps t" "route (core s) t = (None, m)" "apply_body E (enter_branch m t) t inp = (e, m')" for m m' e ok
  proof -
    obtain b where "branch_get (mbranches m) (tp_branch_id (Proto t)) = Some b"
      using route_ok_branch [OF hyp(2) assms(2)] by blast
    then have "branch_get (mbranches m') (tp_branch_id (Proto t)) = Some b"
      using body_branches [of "enter_branch m t" "tp_branch_id (Proto t)" b E t inp]
        route_registry_ok [OF assms(2), of t] hyp(2,3) by (simp add: enter_branch_frame)
    then show ?thesis
      using hyp(1) route_frame(1) [of "core s" t] hyp(2) by (simp add: leave_branch_def Let_def)
  qed
  show ?thesis
  proof (cases rule: apply_cases [of s t E inp])
    case (route e m)
    then show ?thesis using assms(1) route_frame(1) [of "core s" t] by auto
  next
    case (body m e m')
    show ?thesis
    proof (cases "swaps t")
      case True
      then show ?thesis using lv [OF True body(1,2)] body(3) assms(1) by auto
    next
      case False
      then have "s' = s\<lparr>core := m'\<rparr>" "apply_body E m t inp = (Some e, m')"
        using body assms(1) by simp_all
      then show ?thesis
        using apply_body_fail_frame(1) [of E m t inp e m'] route_frame(1) [of "core s" t] body(1) by simp
    qed
  next
    case (commit m m' err s2)
    have "err \<in> {None, Some PersistFailed}" using persistLocked_err commit(3) by (metis fst_conv)
    then have "swaps t" using assms(1,3) commit(1,2,5) by auto
    then show ?thesis using lv [OF _ commit(1,2)] commit(5) assms(1) by auto
  qed
qed

lemma agree_ledger:
  "ledger c = ledger c' \<Longrightarrow> steward_keys_agree E c' \<Longrightarrow> steward_keys_agree E c"
  using ledgerD [of c c'] by (simp add: steward_keys_agree_def kv_of_def currentRoot_def)

lemma governed_agrees:
  assumes "governed E s"
  shows "machine_inv (core s) \<and> steward_keys_agree E (mchain (core s))"
  using assms
proof (induction rule: governed.induct)
  case (found s t inp s')
  note inv = conjunct1 [OF fresh_inv [OF found(1)]]
  have sw: "\<not> swaps t" using found(2) by (simp add: founding_def)
  have c: "work_chain (core s) t = new_chain" using work_chain_genesis [OF sw] found(1) by (simp add: fresh_def)
  have "steward_keys_agree E (result_chain (core s') t)"
    by (rule founding_agrees [OF found(3) machine_inv_registry [OF inv] found(2)])
      (simp_all add: c new_chain_def stewardsAtLocked_def kv_of_def kv_keys_def)
  then show ?case
    using Apply_inv [OF inv, of E t inp] found(3) sw by (simp add: result_chain_def)
next
  case (accept s t inp s')
  note inv = conjunct1 [OF accept.IH]
  have "machine_inv (core s')" using Apply_inv [OF inv, of E t inp] accept(2) by simp
  moreover have "steward_keys_agree E (mchain (core s'))"
  proof (cases "swaps t")
    case True
    then show ?thesis
      using Apply_other_ledger [OF accept(2) machine_inv_registry [OF inv]] agree_ledger accept.IH by blast
  next
    case False
    then show ?thesis
      using Apply_keeps_agreement [OF accept(2) machine_inv_registry [OF inv]] accept(3) accept.IH
      by (simp add: work_chain_genesis result_chain_def)
  qed
  ultimately show ?case ..
next
  case (reject s t inp e s')
  note inv = conjunct1 [OF reject.IH]
  have "ledger (mchain (core s')) = ledger (mchain (core s))"
    by (rule Apply_other_ledger [OF reject(2) machine_inv_registry [OF inv]]) (use reject(3) in simp)
  then show ?case
    using Apply_inv [OF inv, of E t inp] reject(2) agree_ledger reject.IH by auto
qed

section \<open>Properties\<close>

text \<open>
  C10: the root commits to the steward set: two hosts whose group is governed as the protocol intends
  and whose state roots are equal have the same set of stewards, or their states are a
  collision of the hash; however differently the two got there.
\<close>

theorem same_root_same_stewards:
  assumes "governed E s" "governed E u" "state_Root E s = state_Root E u"
    "wf_snapshot (state_Snapshot s)" "wf_snapshot (state_Snapshot u)"
  shows "set (Stewards E s) = set (Stewards E u) \<or>
    (root_preimage (state_Snapshot s) \<noteq> root_preimage (state_Snapshot u) \<and>
     copy32 (sha256 E (root_preimage (state_Snapshot s))) = copy32 (sha256 E (root_preimage (state_Snapshot u))))"
proof (cases "root_preimage (state_Snapshot s) = root_preimage (state_Snapshot u)")
  case False
  then show ?thesis using assms(3) by (simp add: state_Root_def currentRoot_def Root_def state_Snapshot_def)
next
  case True
  then have "sortEntries (Entries (state_Snapshot s)) = sortEntries (Entries (state_Snapshot u))"
    by (rule root_preimage_inject [OF assms(4,5)])
  then have "set (Entries (state_Snapshot s)) = set (Entries (state_Snapshot u))"
    by (metis set_sortEntries)
  then have keys: "kv_of (mchain (core s)) k \<noteq> None \<longleftrightarrow> kv_of (mchain (core u)) k \<noteq> None" for k
    by (simp add: kv_of_def kv_keys_def state_Snapshot_def del: not_None_eq)
  have mem: "k \<in> set (Stewards E v) \<longleftrightarrow> length k = 32 \<and> kv_of (mchain (core v)) (steward_key k) \<noteq> None"
    if v: "governed E v" for v k
  proof -
    obtain st where "stewardHistory (mchain (core v)) (currentRoot E (mchain (core v))) = Some st"
      "\<forall>k \<in> set st. length k = 32"
      "\<forall>k. length k = 32 \<longrightarrow> (k \<in> set st \<longleftrightarrow> kv_of (mchain (core v)) (steward_key k) \<noteq> None)"
      using governed_agrees [OF v] unfolding steward_keys_agree_def by blast
    then show ?thesis by (auto simp: Stewards_def stewardsAtLocked_def no_hash_def simp del: not_None_eq)
  qed
  show ?thesis using mem [OF assms(1)] mem [OF assms(2)] keys by blast
qed

text \<open>Two foundings of one group by different envelopes reach one root.\<close>

definition ex_founding :: "byte \<Rightarrow> transition" where
  "ex_founding b = ex_tx 0 CREATE_GROUP None (ex_create_payload [1]) 1 b"

definition ex_founded :: "byte \<Rightarrow> state" where
  "ex_founded b = snd (Apply ex_E (NewState (ex_key 9)) (ex_founding b) ex_inp)"

lemma ex_founded_governed:
  assumes "fst (Apply ex_E (NewState (ex_key 9)) (ex_founding b) ex_inp) = None"
  shows "governed ex_E (ex_founded b)"
proof (rule governed.found)
  show "fresh (NewState (ex_key 9))" by (simp add: fresh_def NewState_def new_machine_def)
  show "founding (ex_founding b)"
    by (auto simp: founding_def ex_founding_def ex_create_payload_def ex_key_def)
  show "Apply ex_E (NewState (ex_key 9)) (ex_founding b) ex_inp = (None, ex_founded b)"
    using assms by (simp add: ex_founded_def prod_eq_iff)
qed

definition ex_entries :: "state_entry list" where
  "ex_entries =
     [\<lparr>se_key = ''name'', se_value = bytes_of ''g'', se_seq = 1\<rparr>,
      \<lparr>se_key = ''display_name'', se_value = bytes_of ''G'', se_seq = 1\<rparr>,
      \<lparr>se_key = ''steward/'' @ hex (ex_key 1), se_value = [1], se_seq = 1\<rparr>]"

theorem same_root_same_stewards_witness:
  "set (Stewards ex_E (ex_founded 2)) = set (Stewards ex_E (ex_founded 3))"
proof -
  have run: "(case Apply ex_E (NewState (ex_key 9)) (ex_founding 2) ex_inp of (e, s') \<Rightarrow> (e, Entries (state_Snapshot s'))) =
      (None, ex_entries)"
    "(case Apply ex_E (NewState (ex_key 9)) (ex_founding 3) ex_inp of (e, s') \<Rightarrow> (e, Entries (state_Snapshot s'))) =
      (None, ex_entries)"
    by code_simp+
  have ok: "fst (Apply ex_E (NewState (ex_key 9)) (ex_founding 2) ex_inp) = None"
    "fst (Apply ex_E (NewState (ex_key 9)) (ex_founding 3) ex_inp) = None"
    using run by (auto split: prod.splits)
  have "Entries (state_Snapshot (ex_founded 2)) = ex_entries" "Entries (state_Snapshot (ex_founded 3)) = ex_entries"
    using run by (auto simp: ex_founded_def split: prod.splits)
  then have snap: "state_Snapshot (ex_founded 2) = \<lparr>Entries = ex_entries\<rparr>"
    "state_Snapshot (ex_founded 3) = \<lparr>Entries = ex_entries\<rparr>"
    by (simp_all add: state_snapshot.equality)
  have wf: "wf_snapshot (state_Snapshot (ex_founded 2))" "wf_snapshot (state_Snapshot (ex_founded 3))"
    unfolding snap by (simp_all add: wf_snapshot_def wf_entry_def ex_entries_def bytes_of_def ex_key_def)
  have pre: "root_preimage (state_Snapshot (ex_founded 2)) = root_preimage (state_Snapshot (ex_founded 3))"
    unfolding snap ..
  have "state_Root ex_E (ex_founded 2) = state_Root ex_E (ex_founded 3)"
    using pre by (simp add: state_Root_def currentRoot_def Root_def state_Snapshot_def)
  then show ?thesis
    using same_root_same_stewards [OF ex_founded_governed [OF ok(1)] ex_founded_governed [OF ok(2)] _ wf] pre
    by blast
qed

text \<open>
  a transition without a prior state resets the government: when it produces a root without a
  recorded steward set, the stewards of the new head are the initial ones of the branch (plus or
  minus the one the payload names), whoever was added, removed or slashed since, and the
  threshold is the initial one unless the payload changes it.
\<close>

theorem nil_prior_resets_stewards:
  assumes "Apply E s t inp = (None, s')" "registry_ok (mbranches (core s))" "\<not> has_prior t"
    "tp_type (Proto t) \<noteq> CREATE_GROUP" "tp_type (Proto t) \<noteq> CHANGE_THRESHOLD"
    "stewardHistory (work_chain (core s) t) (currentRoot E (result_chain (core s') t)) = None"
  shows "\<exists>p. tp_payload (Proto t) = Some p \<and>
    set (stewardsAtLocked E (result_chain (core s') t) None) =
      (set (initialStewards (work_chain (core s) t)) \<union> set_option (adds p)) - set_option (drops p) \<and>
    thresholdAtLocked E (result_chain (core s') t) None = initialThreshold (work_chain (core s) t)"
proof -
  let ?c = "work_chain (core s) t"
  from assms(1,2) obtain m m1 m2 m3 es where st: "route (core s) t = (None, m)"
    "check_signer E (enter_branch m t) t (in_clock inp) = (None, m1)"
    "verify_envelope E m1 t = (None, m2)" "handle E m2 t (in_now inp) = (Inr es, m3)"
    "result_chain (core s') t = commit_chain E (MaxLogSize (core s)) (mchain m2) t es"
    by (rule apply_ok)
  note w = work_chain_route [OF st(1)]
  have "m2 = m1"
    using st(3) by (cases rule: verify_envelope_ok) (use assms(4) in \<open>simp_all add: declares_def\<close>)
  then have f: "ledger (mchain m2) = ledger ?c" "initialStewards (mchain m2) = initialStewards ?c"
    "initialThreshold (mchain m2) = initialThreshold ?c"
    using check_signer_frame [of E "enter_branch m t" t "in_clock inp"] st(2) by (simp_all add: w)
  obtain p where p: "tp_payload (Proto t) = Some p"
    using handle_writes [OF st(4)] by blast
  have ty: "payload_type p = tp_type (Proto t)" using handle_payload_type [OF st(4)] p by simp
  have nh: "no_hash (tp_prior_state (Proto t))"
    using assms(3) by (auto simp: has_prior_def no_hash_def split: option.splits)
  have none: "stewardHistory (mchain m2) (Root (sha256 E) \<lparr>Entries = es\<rparr>) = None"
    using assms(6) ledgerD(3) [OF f(1)] by (simp add: st(5))
  have "computeCurrentThreshold E (mchain m2) (Proto t) = initialThreshold ?c"
    using assms(5) nh f(3) by (cases "tp_type (Proto t)") (simp_all add: computeCurrentThreshold_def Let_def)
  then show ?thesis
    using p computeCurrentStewards_later [OF ty p assms(4), of E "(mchain m2)\<lparr>snapshot := \<lparr>Entries = es\<rparr>\<rparr>"]
      nh none f(2,3) assms(4,5)
    by (simp add: st(5) commit_stewards commit_thresholds stewardsAtLocked_def thresholdAtLocked_def
        no_hash_def currentRoot_def split: option.splits)
qed

text \<open>A group whose head has lost steward 2; a transition of steward 1 without a prior state brings
  steward 2 back.\<close>

definition ex_removed :: state where
  "ex_removed = (ex_state [1, 2] 1)\<lparr>core := (core (ex_state [1, 2] 1))\<lparr>mchain :=
     (ex_chain [1, 2] 1)\<lparr>stewardHistory := [zero32 \<mapsto> [ex_key 1]]\<rparr>\<rparr>\<rparr>"

theorem nil_prior_resets_stewards_witness:
  "\<exists>s'. Apply ex_E ex_removed (ex_tx 0 ADD_MEMBER None (P_AddMember (ex_key 3)) 1 2) ex_inp = (None, s') \<and>
     ex_key 2 \<notin> set (Stewards ex_E ex_removed) \<and> ex_key 2 \<in> set (Stewards ex_E s')"
proof -
  let ?t = "ex_tx 0 ADD_MEMBER None (P_AddMember (ex_key 3)) 1 2"
  let ?r = "Apply ex_E ex_removed ?t ex_inp"
  have e: "fst ?r = None \<and> stewardHistory (mchain (core ex_removed)) (state_Root ex_E (snd ?r)) = None \<and>
      Stewards ex_E ex_removed = [ex_key 1]"
    by code_simp
  then obtain s' where s': "?r = (None, s')" by (metis prod.collapse)
  have i: "registry_ok (mbranches (core ex_removed))" "initialStewards (mchain (core ex_removed)) = [ex_key 1, ex_key 2]"
    by (simp_all add: ex_removed_def ex_state_def new_machine_def registry_ok_new ex_chain_def)
  have "set (Stewards ex_E s') = {ex_key 1, ex_key 2}"
    using nil_prior_resets_stewards [OF s' i(1)] e s' i(2)
    by (simp add: result_chain_def work_chain_genesis Stewards_def state_Root_def has_prior_def)
  then show ?thesis using s' e by auto
qed

definition ex_slash :: slash_steward where
  "ex_slash = \<lparr>sl_slashed_steward = ex_key 2, sl_prior_state = [], sl_hlc_a = [],
     sl_hlc_b = [], sl_tx_hash_a = [], sl_tx_hash_b = []\<rparr>"

text \<open>
  slashing is done by the others: an accepted SLASH_STEWARD that names its prior state removes a
  current steward, who is not among its signers, on the signatures of at least the threshold of
  the other stewards; afterwards the key is out of the steward set and out of the state.
\<close>

theorem slash_by_others:
  assumes "Apply E s t inp = (None, s')" "registry_ok (mbranches (core s))" "has_prior t"
    "tp_type (Proto t) = SLASH_STEWARD"
  shows "\<exists>p k. tp_payload (Proto t) = Some (P_SlashSteward p) \<and> k = copy32 (sl_slashed_steward p) \<and>
    k \<in> set (stewardsAtLocked E (work_chain (core s) t) None) \<and>
    authorised E t (removeAll k (stewardsAtLocked E (work_chain (core s) t) None))
      (thresholdAtLocked E (work_chain (core s) t) (tp_prior_state (Proto t))) \<and>
    stewardsAtLocked E (result_chain (core s') t) None =
      removeAll k (stewardsAtLocked E (work_chain (core s) t) None) \<and>
    kv_of (result_chain (core s') t) (steward_key k) = None"
proof -
  let ?c = "work_chain (core s) t" and ?pr = "tp_prior_state (Proto t)"
  from assms(1,2) obtain m m1 m2 m3 es where st: "route (core s) t = (None, m)"
    "check_prior E (enter_branch m t) t = None"
    "check_signer E (enter_branch m t) t (in_clock inp) = (None, m1)"
    "verify_envelope E m1 t = (None, m2)" "handle E m2 t (in_now inp) = (Inr es, m3)"
    "result_chain (core s') t = commit_chain E (MaxLogSize (core s)) (mchain m2) t es"
    by (rule apply_ok)
  note w = work_chain_route [OF st(1)]
  have f1: "ledger (mchain m1) = ledger ?c" "initialStewards (mchain m1) = initialStewards ?c"
    "initialThreshold (mchain m1) = initialThreshold ?c"
    using check_signer_frame [of E "enter_branch m t" t "in_clock inp"] st(3) by (simp_all add: w)
  have ver: "m2 = m1 \<and> stewardsAtLocked E ?c ?pr \<noteq> [] \<and>
      authorised E t (stewardsAtLocked E ?c ?pr) (thresholdAtLocked E ?c ?pr)"
    using st(4) by (cases rule: verify_envelope_ok)
      (use assms(4) stewardsAt_ledger [OF f1(1,2)] thresholdAt_ledger [OF f1(1,3)] in \<open>simp_all add: declares_def\<close>)
  have f: "ledger (mchain m2) = ledger ?c" "stewardsAtLocked E (mchain m2) r = stewardsAtLocked E ?c r" for r
    using ver f1(1) stewardsAt_ledger [OF f1(1,2)] by simp_all
  have pr: "prior_of t = currentRoot E ?c"
    using st(2) assms(3) by (auto simp: check_prior_def w split: if_splits)
  have now: "stewardsAtLocked E ?c ?pr = stewardsAtLocked E ?c None"
    using prior_lookup [OF assms(3) pr, of ?c] ver
    by (auto simp: stewardsAtLocked_def [of E ?c None] no_hash_def split: option.splits)
  obtain p where p: "tp_payload (Proto t) = Some (P_SlashSteward p)"
    "verifySlashStewardPayload E m2 p t = None"
    using st(5) assms(4) by (auto simp: handle_def handle_slash_steward_def split: option.splits payload.splits)
  define k where "k = copy32 (sl_slashed_steward p)"
  obtain ms where ms: "tp_steward_signatures (Proto t) = Some ms" "k \<in> set (stewardsAtLocked E ?c ?pr)"
    "\<forall>raw \<in> set (sig_array ms). verifyOne E k raw (tr_groupID t) (canonical t) \<noteq> None"
    using p(2) unfolding slash_gate_None f(2) k_def by blast
  let ?msg = "CanonicalSignBytes E (tr_groupID t) MsgKindTransition (canonical t)"
  have "signers E ?msg (removeAll k l) (sig_array ms) = signers E ?msg l (sig_array ms)" for l
    using ms(3) by (auto simp: signers_def verifyOne_def Verify_def)
  then have auth: "authorised E t (removeAll k (stewardsAtLocked E ?c ?pr)) (thresholdAtLocked E ?c ?pr)"
    using ver ms(1) by (simp add: authorised_def)
  have "stewardsAtLocked E ((mchain m2)\<lparr>snapshot := \<lparr>Entries = es\<rparr>\<rparr>) ?pr = stewardsAtLocked E ?c ?pr"
    using prior_lookup [OF assms(3) pr] ledgerD(3) [OF f(1)] by simp
  then have new: "stewardsAtLocked E (result_chain (core s') t) None = removeAll k (stewardsAtLocked E ?c ?pr)"
    using assms(4) p(1)
    by (simp add: st(6) stewardsAtLocked_def no_hash_def commit_stewards computeCurrentStewards_def k_def
        removeAll_filter_not_eq Let_def) (simp add: eq_commute)
  have "wrote m2 (payload_writes E (nextID (mbranches m2)) (tp_branch_id (Proto t)) (P_SlashSteward p)) es"
    using handle_writes [OF st(5)] p(1) by auto
  then have "kv_lookup es = map_writes (payload_writes E (nextID (mbranches m2)) (tp_branch_id (Proto t))
      (P_SlashSteward p)) (kv_lookup (entries_of m2))"
    unfolding wrote_def by (rule put_kvs_lookup)
  then have "kv_lookup es (steward_key k) = None"
    using steward_writes [of "P_SlashSteward p"] by (simp add: k_def del: payload_writes.simps kv_lookup_None)
  then show ?thesis
    using p(1) ms(2) auth new by (simp add: st(6) k_def now del: kv_lookup_None)
qed

theorem slash_by_others_witness:
  "\<exists>s'. Apply ex_E (ex_state [1, 2] 1) (ex_tx 0 SLASH_STEWARD (Some zero32)
       (P_SlashSteward ex_slash) 1 2) ex_inp = (None, s') \<and> Stewards ex_E s' = [ex_key 1]"
proof -
  let ?t = "ex_tx 0 SLASH_STEWARD (Some zero32) (P_SlashSteward ex_slash) 1 2"
  have e: "fst (Apply ex_E (ex_state [1, 2] 1) ?t ex_inp) = None \<and>
      stewardsAtLocked ex_E (mchain (core (ex_state [1, 2] 1))) None = [ex_key 1, ex_key 2] \<and>
      copy32 (sl_slashed_steward ex_slash) = ex_key 2"
    by code_simp
  then obtain s' where s': "Apply ex_E (ex_state [1, 2] 1) ?t ex_inp = (None, s')" by (metis prod.collapse)
  have "stewardsAtLocked ex_E (mchain (core s')) None = [ex_key 1]"
    using slash_by_others [OF s' ex_state_registry] e
    by (auto simp: result_chain_def work_chain_genesis has_prior_def)
  then show ?thesis using s' by (simp add: Stewards_def)
qed

text \<open>Runs of arbitrary calls, with their results.\<close>

fun apply_all :: "env \<Rightarrow> state \<Rightarrow> (transition \<times> apply_input) list \<Rightarrow> group_error option list \<times> state" where
  "apply_all E s [] = ([], s)"
| "apply_all E s ((t, inp) # ts) =
     (let (e, s) = Apply E s t inp; (es, s) = apply_all E s ts in (e # es, s))"

lemma authorised_quorum:
  assumes "authorised E t st thr"
  shows "unat thr \<le> card (set st)"
proof -
  have "card (signers E msg st sigs) \<le> card (set st)" for msg sigs
    by (rule card_mono) (auto simp: signers_def)
  then show ?thesis using assms unfolding authorised_def by (blast intro: le_trans)
qed

definition deadlocked :: "env \<Rightarrow> state \<Rightarrow> bool" where
  "deadlocked E s \<longleftrightarrow> (\<exists>st thr. stewardHistory (mchain (core s)) (state_Root E s) = Some st \<and> st \<noteq> [] \<and>
     thresholdHistory (mchain (core s)) (state_Root E s) = Some thr \<and> card (set st) < unat thr)"

lemma deadlocked_rejects:
  assumes "deadlocked E s" "machine_inv (core s)" "has_prior t" "\<not> swaps t" "Apply E s t inp = (e, s')"
  shows "e \<noteq> None \<and> deadlocked E s' \<and> machine_inv (core s')"
proof -
  note ok = machine_inv_registry [OF assms(2)]
  obtain st thr where d: "stewardHistory (mchain (core s)) (currentRoot E (mchain (core s))) = Some st" "st \<noteq> []"
    "thresholdHistory (mchain (core s)) (currentRoot E (mchain (core s))) = Some thr" "card (set st) < unat thr"
    using assms(1) by (auto simp: deadlocked_def state_Root_def)
  have "fst (apply_body E (enter_branch m t) t inp) \<noteq> None" if hyp: "route (core s) t = (None, m)" for m
  proof
    assume "fst (apply_body E (enter_branch m t) t inp) = None"
    then obtain m' where b: "apply_body E m t inp = (None, m')" using assms(4) by (metis enter_branch_same prod.collapse)
    have c: "mchain m = mchain (core s)" using route_frame(1) [of "core s" t] hyp by simp
    have pr: "prior_of t = currentRoot E (mchain m)"
      using b assms(3) by (auto simp: apply_body_def check_prior_def split: option.splits if_splits)
    have "stewardsAtLocked E (mchain m) (tp_prior_state (Proto t)) = st"
      using prior_lookup [OF assms(3) pr, of "mchain m"] d(1) by (simp add: c)
    moreover have "thresholdAtLocked E (mchain m) (tp_prior_state (Proto t)) = thr"
      using pr assms(3) d(3)
      by (auto simp: thresholdAtLocked_def has_prior_def prior_of_def no_hash_def hash_array_def c split: option.splits)
    ultimately have "authorised E t st thr"
      using body_ok_authorised [OF b] d(2) by auto
    then show False using authorised_quorum d(2,4) by fastforce
  qed
  note body = this
  have e: "e \<noteq> None"
    by (cases rule: apply_cases [of s t E inp]) (use body assms(5) in \<open>auto dest: body\<close>)
  have "ledger (mchain (core s')) = ledger (mchain (core s))"
    by (rule Apply_other_ledger [OF assms(5) ok]) (use body in blast)
  then have "deadlocked E s'"
    using assms(1) ledgerD [of "mchain (core s')" "mchain (core s)"]
    by (simp add: deadlocked_def state_Root_def currentRoot_def)
  then show ?thesis using e Apply_inv [OF assms(2), of E t inp] assms(5) by simp
qed

text \<open>
  a lost quorum is lost for good: once the recorded threshold of the head exceeds its number of
  distinct stewards, which REMOVE_STEWARD and SLASH_STEWARD do not prevent, no transition on
  the genesis branch that names its prior state is ever accepted again, in any sequence of
  attempts.
\<close>

theorem lost_quorum_is_final:
  assumes "deadlocked E s" "machine_inv (core s)" "\<forall>(t, inp) \<in> set ts. has_prior t \<and> \<not> swaps t"
  shows "None \<notin> set (fst (apply_all E s ts)) \<and> deadlocked E (snd (apply_all E s ts))"
  using assms
proof (induction ts arbitrary: s)
  case (Cons a ts)
  obtain t inp where a: "a = (t, inp)" by fastforce
  obtain e s' where s': "Apply E s t inp = (e, s')" by fastforce
  have "e \<noteq> None \<and> deadlocked E s' \<and> machine_inv (core s')"
    by (rule deadlocked_rejects [OF Cons.prems(1,2) _ _ s']) (use Cons.prems(3) a in auto)
  then show ?case
    using Cons.IH [of s'] Cons.prems(3) by (auto simp: a s' case_prod_unfold Let_def)
qed simp

text \<open>A signature of each of two keys.\<close>

definition ex_both :: "nat \<Rightarrow> nat \<Rightarrow> transition \<Rightarrow> transition" where
  "ex_both i j t = t\<lparr>Proto := (Proto t)\<lparr>tp_steward_signatures :=
     Some \<lparr>ms_signatures = [ex_sig i, ex_sig j], ms_threshold = 2\<rparr>\<rparr>\<rparr>"

lemma ex_state_inv: "machine_inv (core (ex_state ks thr))"
  using registry_inv_new [of 1000]
  by (simp add: machine_inv_def ex_state_def new_machine_def branch_get_def newBranchRegistry_def
      ex_chain_def chain_inv_def new_chain_def kv_capped_def kv_keys_def equiv_log_def equiv_new_ok)

theorem lost_quorum_is_final_witness:
  "fst (apply_all ex_E (snd (Apply ex_E (ex_state [1, 2] 2)
       (ex_both 1 2 (ex_tx 0 REMOVE_STEWARD (Some zero32) (P_RemoveSteward (ex_key 2)) 1 2)) ex_inp))
     [(ex_tx 0 ADD_MEMBER (Some zero32) (P_AddMember (ex_key 3)) 1 3, ex_inp)]) \<noteq> [None]"
proof -
  let ?s = "ex_state [1, 2] 2"
  let ?t = "ex_both 1 2 (ex_tx 0 REMOVE_STEWARD (Some zero32) (P_RemoveSteward (ex_key 2)) 1 2)"
  let ?s1 = "snd (Apply ex_E ?s ?t ex_inp)"
  have "(case Apply ex_E ?s ?t ex_inp of (e, s') \<Rightarrow>
        case state_Root ex_E s' of r \<Rightarrow> (stewardHistory (mchain (core s')) r, thresholdHistory (mchain (core s')) r)) =
      (Some [ex_key 1], Some 2)"
    by code_simp
  then have "stewardHistory (mchain (core ?s1)) (state_Root ex_E ?s1) = Some [ex_key 1] \<and>
      thresholdHistory (mchain (core ?s1)) (state_Root ex_E ?s1) = Some 2"
    by (auto split: prod.splits)
  then have d: "deadlocked ex_E ?s1"
    unfolding deadlocked_def by (intro exI [of _ "[ex_key 1]"] exI [of _ "2 :: u32"]) simp
  have inv: "machine_inv (core ?s1)" by (rule Apply_inv [OF ex_state_inv])
  show ?thesis
    using lost_quorum_is_final [OF d inv,
        of "[(ex_tx 0 ADD_MEMBER (Some zero32) (P_AddMember (ex_key 3)) 1 3, ex_inp)]"]
    by (auto simp: has_prior_def simp del: apply_all.simps)
qed

text \<open>
  a branch is born unprotected: although BRANCH_CREATE hands the parent's two stewards and their
  threshold of two to the branch, a stranger who signs a CREATE_GROUP that names the root of the
  empty branch and declares only themselves becomes its sole steward.
\<close>

theorem fresh_branch_takeover:
  "map_option branch_InitialStewards (state_Branch (ex_branched [1, 2] 2) 1) = Some [ex_key 1, ex_key 2] \<and>
   (case Apply ex_E (ex_branched [1, 2] 2) (ex_tx 1 CREATE_GROUP (Some zero32) (ex_create_payload [7]) 7 2) ex_inp of
      (e, s') \<Rightarrow> (e, map_option (\<lambda>b. stewardsAtLocked ex_E (br_chain b) None) (state_Branch s' 1))) =
     (None, Some [ex_key 7])"
  by code_simp

definition ex_added_root :: hash where
  "ex_added_root = 1 # replicate 7 0 @ [1] @ 1 # replicate 7 0 @ concat (replicate 7 [50, 48]) @ [50]"

text \<open>
  a removal that undoes an addition locks its signer out: the removed key leaves no trace in the
  state, the root returns to an earlier one, and the steward that signed there before is taken
  for an equivocator on its next transition.
\<close>

theorem add_then_remove_locks_out:
  "(let (e1, s1) = Apply ex_E (ex_state [1] 1)
          (ex_tx 0 ADD_STEWARD (Some zero32) (P_AddSteward (ex_key 2)) 1 2) ex_inp;
        (e2, s2) = Apply ex_E s1
          (ex_tx 0 REMOVE_STEWARD (Some ex_added_root) (P_RemoveSteward (ex_key 2)) 1 3) ex_inp;
        (e3, s3) = Apply ex_E s2 (ex_tx 0 ADD_MEMBER (Some zero32) (P_AddMember (ex_key 5)) 1 4) ex_inp
    in (e1, e2, e3)) =
   (None, None, Some (Route (EquivocationDetected (ex_key 1) zero32)))"
  by code_simp

end
