(* ===== verification/EquivocationRules.thy ===== *)
theory EquivocationRules
  imports Governance
begin

text \<open>
  What the equivocation log of a branch achieves over a run of calls of State.Apply (internal/group/state.go and
  equivocation.go): every call makes at most one check against it, so an entry stays in its window until as many
  further calls as the cap of the log have been made, and until then a conflicting transition of the same steward
  on the same prior state is rejected.
\<close>

section \<open>The log across a call\<close>

text \<open>A log after at most one further check.\<close>

definition one_check :: "equivocation_log \<Rightarrow> equivocation_log \<Rightarrow> bool" where
  "one_check e e' \<longleftrightarrow> e' = e \<or> (\<exists>k p h x. e' = snd (equiv_check e k p h x))"

lemma one_check_refl [simp]: "one_check e e"
  by (simp add: one_check_def)

lemma one_check_ok: "one_check e e' \<Longrightarrow> equiv_ok e \<Longrightarrow> equiv_ok e' \<and> maxEntries e' = maxEntries e"
  by (auto simp: one_check_def equiv_check_ok)

lemma one_check_within:
  assumes "one_check e e'" "equiv_ok e" "entry_within j e k v" "0 < maxEntries e \<longrightarrow> int j + 2 \<le> maxEntries e"
  shows "entry_within (Suc j) e' k v"
  using assms(1) entry_within_check [OF assms(2-4)] entry_within_Suc [OF assms(3)] by (auto simp: one_check_def)

lemma check_signer_one_check: "one_check (equiv_log (mchain m)) (equiv_log (mchain (snd (check_signer E m t clk))))"
proof (cases rule: check_signer_cases [of t E m clk])
  case (3 e m1)
  then show ?thesis using check_limiter_frame(1) [of m _ clk] by (metis one_check_refl snd_conv)
next
  case (4 m1 b m2)
  let ?s = "findSigningSteward E t (stewardsAtLocked E (mchain m) (tp_prior_state (Proto t)))"
  have "mchain m1 = mchain m" using check_limiter_frame(1) [of m ?s clk] 4(3) by simp
  then have "equivocation (mchain m2) =
      Some (snd (equiv_check (equiv_log (mchain m)) ?s (prior_of t) (tp_hlc (Proto t)) (transitionTxHash E t)))"
    using checkEquivocation_spec [of E m1 ?s "prior_of t" "tp_hlc (Proto t)" "transitionTxHash E t" "Some t"]
      4(4) by simp
  then have "equiv_log (mchain m2) =
      snd (equiv_check (equiv_log (mchain m)) ?s (prior_of t) (tp_hlc (Proto t)) (transitionTxHash E t))"
    by (simp add: equiv_log_def [of "mchain m2"])
  then show ?thesis using 4(5) by (auto simp: one_check_def)
qed simp_all

lemma body_one_check: "one_check (equiv_log (mchain m)) (equiv_log (mchain (snd (apply_body E m t inp))))"
proof -
  define m1 where "m1 = snd (check_signer E m t (in_clock inp))"
  define m2 where "m2 = snd (verify_envelope E m1 t)"
  define m3 where "m3 = snd (handle E m2 t (in_now inp))"
  have c: "one_check (equiv_log (mchain m)) (equiv_log (mchain m1))" by (simp add: m1_def check_signer_one_check)
  have e: "equiv_log (mchain m2) = equiv_log (mchain m1)" "mchain m3 = mchain m2"
    by (simp_all add: m2_def m3_def verify_envelope_equiv_inv handle_frame)
  have k: "equiv_log (commit_chain E n ch t' es) = equiv_log ch" for n ch t' es by (simp add: equiv_log_def)
  have "equiv_log (mchain (snd (apply_body E m t inp))) \<in> {equiv_log (mchain m), equiv_log (mchain m1)}"
    using e k unfolding apply_body_def m3_def m2_def m1_def
    by (auto split: option.splits prod.splits sum.splits)
  then show ?thesis using c by auto
qed

text \<open>The chain that a transition like \<open>t1\<close> works on, across a call for any transition.\<close>

definition has_chain :: "machine \<Rightarrow> transition \<Rightarrow> bool" where
  "has_chain m t1 \<longleftrightarrow> (swaps t1 \<longrightarrow> branch_get (mbranches m) (tp_branch_id (Proto t1)) \<noteq> None)"

lemma same_chain_step:
  assumes "registry_ok (mbranches (core s))" "has_chain (core s) t1"
    "swaps t = swaps t1" "swaps t1 \<longrightarrow> tp_branch_id (Proto t) = tp_branch_id (Proto t1)"
  shows "has_chain (core (snd (Apply E s t inp))) t1 \<and>
    one_check (equiv_log (result_chain (core s) t1)) (equiv_log (result_chain (core (snd (Apply E s t inp))) t1))"
proof -
  have stage: "has_chain (leave_branch (mchain m) t ok m') t1 \<and>
      one_check (equiv_log (result_chain (core s) t1)) (equiv_log (result_chain (leave_branch (mchain m) t ok m') t1))"
    if h: "route (core s) t = (None, m)" "apply_body E (enter_branch m t) t inp = (e, m')" for m e m' ok
  proof -
    have o: "one_check (equiv_log (mchain (enter_branch m t))) (equiv_log (mchain m'))"
      using body_one_check [of "enter_branch m t" E t inp] h(2) by simp
    show ?thesis
    proof (cases "swaps t1")
      case True
      then obtain b where b: "branch_get (mbranches (core s)) (tp_branch_id (Proto t1)) = Some b"
        using assms(2) by (auto simp: has_chain_def)
      have "branch_get (mbranches m) (tp_branch_id (Proto t1)) = Some b" using route_branches [OF b, of t] h(1) by simp
      then have en: "mchain (enter_branch m t) = br_chain b" using True assms(3,4) by (simp add: enter_branch_def)
      have "branch_get (mbranches m') (tp_branch_id (Proto t1)) = Some b" by (rule Apply_body_branch [OF assms(1) h b])
      then show ?thesis
        using True assms(3,4) o b
        by (auto simp: has_chain_def result_chain_def leave_branch_def en Let_def equiv_log_def split: if_splits)
    next
      case False
      then show ?thesis
        using o assms(3) h(1) route_frame(1) [of "core s" t]
        by (simp add: has_chain_def result_chain_def leave_branch_def enter_branch_def)
    qed
  qed
  show ?thesis
  proof (cases rule: apply_cases [of s t E inp])
    case (route e m)
    then show ?thesis
      using assms(2) route_frame(1) [of "core s" t] route_branches [of "core s" "tp_branch_id (Proto t1)" _ t]
      by (auto simp: has_chain_def result_chain_def)
  qed (use stage in auto)
qed

lemma call_one_check:
  assumes "registry_ok (mbranches (core s))" "has_chain (core s) t1"
  shows "has_chain (core (snd (Apply E s t inp))) t1 \<and>
    one_check (equiv_log (result_chain (core s) t1)) (equiv_log (result_chain (core (snd (Apply E s t inp))) t1))"
proof (cases "swaps t = swaps t1 \<and> (swaps t1 \<longrightarrow> tp_branch_id (Proto t) = tp_branch_id (Proto t1))")
  case True
  then show ?thesis using same_chain_step [OF assms] by blast
next
  case False
  show ?thesis
  proof (cases "swaps t1")
    case True
    then obtain b where b: "branch_get (mbranches (core s)) (tp_branch_id (Proto t1)) = Some b"
      using assms(2) by (auto simp: has_chain_def)
    have "branch_get (mbranches (core (snd (Apply E s t inp)))) (tp_branch_id (Proto t1)) = Some b"
      by (rule Apply_keeps_branch [OF assms(1) b]) (use False True in auto)
    then show ?thesis using b True by (simp add: has_chain_def result_chain_def)
  next
    case n: False
    then have "swaps t" using False by auto
    then show ?thesis using Apply_keeps_genesis [OF assms(1)] n by (simp add: has_chain_def result_chain_def)
  qed
qed

section \<open>The log across a run of calls\<close>

lemma apply_all_Cons: "snd (apply_all E s (a # ts)) = snd (apply_all E (snd (Apply E s (fst a) (snd a))) ts)"
  by (cases a) (simp add: case_prod_unfold Let_def)

lemma machine_registry: "machine_inv m \<Longrightarrow> registry_ok (mbranches m)"
  by (simp add: machine_inv_def registry_inv_def)

lemma result_equiv_ok: "machine_inv m \<Longrightarrow> equiv_ok (equiv_log (result_chain m t))"
  by (auto simp: machine_inv_def chain_inv_def result_chain_def equiv_log_def new_chain_def equiv_new_ok split: option.splits)

lemma run_inv: "machine_inv (core s) \<Longrightarrow> machine_inv (core (snd (apply_all E s ts)))"
  by (induction ts arbitrary: s) (simp_all add: Apply_inv apply_all_Cons del: apply_all.simps(2))

lemma run_within:
  assumes "machine_inv (core s)" "has_chain (core s) t1" "entry_within j (equiv_log (result_chain (core s) t1)) k v"
    "0 < maxEntries (equiv_log (result_chain (core s) t1)) \<longrightarrow>
       int j + int (length ts) + 1 \<le> maxEntries (equiv_log (result_chain (core s) t1))"
  shows "has_chain (core (snd (apply_all E s ts))) t1 \<and>
    entry_within (j + length ts) (equiv_log (result_chain (core (snd (apply_all E s ts))) t1)) k v"
  using assms
proof (induction ts arbitrary: s j)
  case (Cons a ts)
  let ?s = "snd (Apply E s (fst a) (snd a))"
  note step = call_one_check [OF machine_registry [OF Cons.prems(1)] Cons.prems(2), of E "fst a" "snd a"]
  note ok = one_check_ok [OF step [THEN conjunct2] result_equiv_ok [OF Cons.prems(1)]]
  have w: "entry_within (Suc j) (equiv_log (result_chain (core ?s) t1)) k v"
    by (rule one_check_within [OF step [THEN conjunct2] result_equiv_ok [OF Cons.prems(1)] Cons.prems(3)])
      (use Cons.prems(4) in auto)
  show ?case
    using Cons.IH [OF Apply_inv [OF Cons.prems(1)] step [THEN conjunct1] w] Cons.prems(4) ok
    unfolding apply_all_Cons by auto
qed simp

text \<open>What an accepted transition leaves in the log of its branch.\<close>

lemma accepted_recorded:
  assumes "Apply E s t i = (None, s1)" "registry_ok (mbranches (core s))" "equiv_ok (equiv_log (work_chain (core s) t))"
    "has_prior t" "k \<noteq> zero32"
    "findSigningSteward E t (stewardsAtLocked E (work_chain (core s) t) (tp_prior_state (Proto t))) = k"
  shows "equiv_log (result_chain (core s1) t) = snd (equiv_check (equiv_log (work_chain (core s) t)) k (prior_of t)
      (tp_hlc (Proto t)) (transitionTxHash E t))"
    "fst (equiv_check (equiv_log (work_chain (core s) t)) k (prior_of t) (tp_hlc (Proto t)) (transitionTxHash E t)) = None"
    "has_chain (core s1) t"
proof -
  from assms(1,2) obtain m m1 m2 m3 es where st: "route (core s) t = (None, m)"
    "check_signer E (enter_branch m t) t (in_clock i) = (None, m1)"
    "verify_envelope E m1 t = (None, m2)"
    "result_chain (core s1) t = commit_chain E (MaxLogSize (core s)) (mchain m2) t es"
    by (rule apply_ok)
  note w = work_chain_route [OF st(1)]
  let ?q = "equiv_check (equiv_log (work_chain (core s) t)) k (prior_of t) (tp_hlc (Proto t)) (transitionTxHash E t)"
  have q: "fst ?q = None" "equivocation (mchain m1) = Some (snd ?q)"
    using check_signer_equiv_ok [OF st(2) assms(4) assms(6) [unfolded w] assms(5)] by (simp_all add: w)
  show "equiv_log (result_chain (core s1) t) = snd ?q" "fst ?q = None"
    using q verify_envelope_frame(2) [of E m1 t] st(3,4) by (simp_all add: equiv_log_def)
  have "has_chain (core s) t"
    using st(1) by (auto simp: has_chain_def route_def Let_def swaps_def split: if_splits)
  then show "has_chain (core s1) t" using call_one_check [OF assms(2), of t E t i] assms(1) by simp
qed

lemma accepted_agrees:
  assumes "Apply E s t i = (None, s')" "registry_ok (mbranches (core s))" "has_prior t" "k \<noteq> zero32"
    "findSigningSteward E t (stewardsAtLocked E (work_chain (core s) t) (tp_prior_state (Proto t))) = k"
    "map_of (seen (equiv_log (result_chain (core s) t1))) (k, prior_of t) = Some v"
    "swaps t1 = swaps t" "tp_branch_id (Proto t1) = tp_branch_id (Proto t)"
  shows "tp_hlc (Proto t) = seen_HLC v \<and> transitionTxHash E t = seen_TxHash v"
proof -
  from assms(1,2) obtain n n1 where n: "route (core s) t = (None, n)"
    "check_signer E (enter_branch n t) t (in_clock i) = (None, n1)"
    by (rule apply_ok)
  have "fst (equiv_check (equiv_log (work_chain (core s) t)) k (prior_of t) (tp_hlc (Proto t)) (transitionTxHash E t)) = None"
    using check_signer_equiv_ok(1) [OF n(2) assms(3) assms(5) [unfolded work_chain_route [OF n(1)]] assms(4)]
    by (simp add: work_chain_route [OF n(1)])
  then show ?thesis
    using assms(6) work_result [OF n(1) assms(7,8)] by (auto simp: equiv_check_def split: if_splits)
qed

section \<open>Properties\<close>

text \<open>
  C2: no steward has two transitions applied on one prior state within the window of the log. Take a well-formed state in which
  a transition that names a prior state is accepted and attributed to a steward (findSigningSteward), the log of its branch
  holding no entry yet for that steward and prior state. Then, after fewer further calls of Apply than the
  cap of the log (10000), accepted or not and on any branch, another transition (with another HLC or tx hash) for the same
  branch and prior state that is attributed to the same steward is rejected. If the log held an entry already, that one may be
  about to be evicted, and the theorem covers the call right after only; beyond the window the entry is forgotten.
\<close>

theorem equivocation_excluded:
  assumes "machine_inv (core s)" "Apply E s t1 i1 = (None, s1)"
    and same: "has_prior t1" "has_prior t2" "prior_of t2 = prior_of t1" "swaps t2 = swaps t1"
      "tp_branch_id (Proto t2) = tp_branch_id (Proto t1)"
    and signer: "findSigningSteward E t1 (stewardsAtLocked E (work_chain (core s) t1)
        (tp_prior_state (Proto t1))) = k" "k \<noteq> zero32"
      "findSigningSteward E t2 (stewardsAtLocked E (work_chain (core (snd (apply_all E s1 ts))) t2)
        (tp_prior_state (Proto t2))) = k"
    and differ: "tp_hlc (Proto t2) \<noteq> tp_hlc (Proto t1) \<or> transitionTxHash E t2 \<noteq> transitionTxHash E t1"
    and window: "ts = [] \<or> \<not> HasForTest (equiv_log (work_chain (core s) t1)) k (prior_of t1) \<and>
      (0 < maxEntries (equiv_log (work_chain (core s) t1)) \<longrightarrow>
         int (length ts) < maxEntries (equiv_log (work_chain (core s) t1)))"
  shows "fst (Apply E (snd (apply_all E s1 ts)) t2 i2) \<noteq> None"
proof
  let ?e = "equiv_log (work_chain (core s) t1)" and ?e1 = "equiv_log (result_chain (core s1) t1)"
  let ?k = "(k, prior_of t1)" and ?v = "\<lparr>seen_HLC = tp_hlc (Proto t1), seen_TxHash = transitionTxHash E t1\<rparr>"
  note r = machine_registry [OF assms(1)]
  have inv1: "machine_inv (core s1)" using Apply_inv [OF assms(1), of E t1 i1] assms(2) by simp
  have ok: "equiv_ok ?e"
    using enter_inv [OF route_inv [OF assms(1), of t1], of t1] by (simp add: work_chain_def machine_inv_def chain_inv_def)
  note rec = accepted_recorded [OF assms(2) r ok same(1) signer(2,1)]
  have seen: "map_of (seen (equiv_log (result_chain (core (snd (apply_all E s1 ts))) t1))) ?k = Some ?v"
    using window
  proof
    assume "ts = []"
    then show ?thesis using equiv_recorded [OF ok rec(2)] by (simp add: rec(1))
  next
    assume h: "\<not> HasForTest ?e k (prior_of t1) \<and> (0 < maxEntries ?e \<longrightarrow> int (length ts) < maxEntries ?e)"
    then have new: "map_of (seen ?e) ?k = None" by (simp add: HasForTest_def)
    then have "?e1 = equiv_insert ?e ?k (tp_hlc (Proto t1)) (transitionTxHash E t1)" by (simp add: rec(1) equiv_check_def)
    then have "entry_within 0 ?e1 ?k ?v" "maxEntries ?e1 = maxEntries ?e" using entry_within_new [OF ok new] by simp_all
    then show ?thesis using run_within [OF inv1 rec(3), of 0 ?k ?v ts] h by (auto simp: entry_within_def)
  qed
  assume "fst (Apply E (snd (apply_all E s1 ts)) t2 i2) = None"
  then obtain s2 where "Apply E (snd (apply_all E s1 ts)) t2 i2 = (None, s2)" by (metis prod.collapse)
  then have "tp_hlc (Proto t2) = seen_HLC ?v \<and> transitionTxHash E t2 = seen_TxHash ?v"
    by (rule accepted_agrees [OF _ _ same(2) signer(2,3)])
      (use seen same machine_registry run_inv [OF inv1] in \<open>simp_all\<close>)
  then show False using differ by simp
qed

text \<open>Two conflicting transitions of steward 1 on the empty root, with an accepted transition of steward 2 between
  them: neither changes the root, so the last would otherwise pass the prior-state check.\<close>

theorem equivocation_excluded_witness:
  "let s1 = snd (Apply ex_E (ex_state [1, 2] 1) (ex_tx 0 REMOVE_STEWARD (Some zero32) (P_RemoveSteward (ex_key 2)) 1 2) ex_inp)
   in fst (Apply ex_E (snd (apply_all ex_E s1 [(ex_tx 0 REMOVE_STEWARD (Some zero32) (P_RemoveSteward (ex_key 1)) 2 4, ex_inp)]))
     (ex_tx 0 ADD_MEMBER (Some zero32) (P_AddMember (ex_key 3)) 1 3) ex_inp) \<noteq> None"
proof -
  let ?t1 = "ex_tx 0 REMOVE_STEWARD (Some zero32) (P_RemoveSteward (ex_key 2)) 1 2"
  let ?t = "ex_tx 0 REMOVE_STEWARD (Some zero32) (P_RemoveSteward (ex_key 1)) 2 4"
  let ?t2 = "ex_tx 0 ADD_MEMBER (Some zero32) (P_AddMember (ex_key 3)) 1 3"
  let ?s = "ex_state [1, 2] 1"
  let ?s1 = "snd (Apply ex_E ?s ?t1 ex_inp)"
  have r: "fst (Apply ex_E ?s ?t1 ex_inp) = None \<and>
      findSigningSteward ex_E ?t1 (stewardsAtLocked ex_E (mchain (core ?s)) (Some zero32)) = ex_key 1 \<and>
      findSigningSteward ex_E ?t2 (stewardsAtLocked ex_E (mchain (core (snd (apply_all ex_E ?s1 [(?t, ex_inp)])))) (Some zero32)) = ex_key 1"
    by code_simp
  then obtain s1 where s1: "Apply ex_E ?s ?t1 ex_inp = (None, s1)" by (metis prod.collapse)
  have e: "\<not> HasForTest (equiv_log (mchain (core ?s))) (ex_key 1) zero32" "maxEntries (equiv_log (mchain (core ?s))) = 10000"
    by (simp_all add: equiv_log_def ex_state_def new_machine_def ex_chain_def new_chain_def newEquivocationLog_def
        HasForTest_def EquivocationLogMaxEntries_def)
  have "fst (Apply ex_E (snd (apply_all ex_E s1 [(?t, ex_inp)])) ?t2 ex_inp) \<noteq> None"
    by (rule equivocation_excluded [OF ex_state_inv s1, where k = "ex_key 1"])
      (use r s1 e in \<open>simp_all add: work_chain_genesis has_prior_def prior_of_def\<close>)
  then show ?thesis using s1 by (simp add: Let_def)
qed

end
