(* ===== verification/GoStrings.thy ===== *)
theory GoStrings
  imports Prelude
begin

text \<open>
  What the program uses of Go's packages strings and strconv on short texts: trimming, upper case,
  splitting at a character, reading a number. Of the white space and the letters, the ASCII ones.
\<close>

section \<open>Characters\<close>

definition is_space :: "char \<Rightarrow> bool" where
  "is_space c \<longleftrightarrow> (of_char c :: nat) = 32 \<or> (9 \<le> (of_char c :: nat) \<and> (of_char c :: nat) \<le> 13)"

text \<open>The value of a digit up to hexadecimal; 99 for any other character.\<close>

definition digit_value :: "char \<Rightarrow> nat" where
  "digit_value c =
     (let n = of_char c in
      if 48 \<le> n \<and> n \<le> 57 then n - 48
      else if 97 \<le> n \<and> n \<le> 102 then n - 87
      else if 65 \<le> n \<and> n \<le> 70 then n - 55 else 99)"

definition digits_value :: "nat \<Rightarrow> string \<Rightarrow> nat" where
  "digits_value base ds = foldl (\<lambda>n c. n * base + digit_value c) 0 (filter (\<lambda>c. c \<noteq> CHR ''_'') ds)"

definition upper_char :: "char \<Rightarrow> char" where
  "upper_char c = (let n = of_char c :: nat in if 97 \<le> n \<and> n \<le> 122 then char_of (n - 32) else c)"

section \<open>strings\<close>

definition TrimSpace :: "string \<Rightarrow> string" where
  "TrimSpace s = rev (dropWhile is_space (rev (dropWhile is_space s)))"

definition ToUpper :: "string \<Rightarrow> string" where
  "ToUpper s = map upper_char s"

text \<open>The pieces between the separators; at least one.\<close>

fun Split :: "char \<Rightarrow> string \<Rightarrow> string list" where
  "Split c [] = [[]]"
| "Split c (x # xs) =
     (if x = c then [] # Split c xs
      else (case Split c xs of [] \<Rightarrow> [[x]] | y # ys \<Rightarrow> (x # y) # ys))"

text \<open>SplitN with 2: the text before the first separator, and the rest if there is one.\<close>

definition SplitN2 :: "char \<Rightarrow> string \<Rightarrow> string \<times> string option" where
  "SplitN2 c s =
     (takeWhile (\<lambda>x. x \<noteq> c) s, case dropWhile (\<lambda>x. x \<noteq> c) s of [] \<Rightarrow> None | _ # r \<Rightarrow> Some r)"

section \<open>strconv.Atoi\<close>

definition Atoi :: "string \<Rightarrow> int option" where
  "Atoi s =
     (let (neg, ds) = (case s of [] \<Rightarrow> (False, [])
                       | c # r \<Rightarrow> if c = CHR ''-'' then (True, r) else if c = CHR ''+'' then (False, r) else (False, s));
          n = int (foldl (\<lambda>n c. n * 10 + digit_value c) 0 ds);
          v = (if neg then - n else n)
      in if ds = [] \<or> \<not> list_all (\<lambda>c. digit_value c < 10) ds then None
         else if - (2 ^ 63) \<le> v \<and> v < 2 ^ 63 then Some v else None)"

section \<open>Decimal texts\<close>

lemma digit_value_decdigit:
  assumes "d < 10"
  shows "digit_value (decdigit d) = d" "decdigit d \<noteq> CHR ''_''" "\<not> is_space (decdigit d)"
    "decdigit d = CHR ''0'' \<longleftrightarrow> d = 0"
proof -
  have d: "d \<in> set [0..<10]" using assms by auto
  show "digit_value (decdigit d) = d" "decdigit d \<noteq> CHR ''_''" "\<not> is_space (decdigit d)"
    "decdigit d = CHR ''0'' \<longleftrightarrow> d = 0"
    using d unfolding decdigit_def by (simp_all add: upt_rec) (elim disjE; simp add: digit_value_def is_space_def)+
qed

lemma dec_nat_digits: "c \<in> set (dec_nat n) \<Longrightarrow> digit_value c < 10 \<and> c \<noteq> CHR ''_'' \<and> \<not> is_space c"
proof (induction n rule: dec_nat.induct)
  case (1 n)
  then show ?case
    by (subst (asm) (2) dec_nat.simps) (auto simp: digit_value_decdigit split: if_splits)
qed

lemma dec_nat_value: "foldl (\<lambda>n c. n * 10 + digit_value c) 0 (dec_nat n) = n"
proof (induction n rule: dec_nat.induct)
  case (1 n)
  then show ?case by (subst dec_nat.simps) (simp add: digit_value_decdigit)
qed

lemma hd_dec_nat: "n > 0 \<Longrightarrow> hd (dec_nat n) \<noteq> CHR ''0''"
proof (induction n rule: dec_nat.induct)
  case (1 n)
  show ?case
  proof (cases "n < 10")
    case True
    then show ?thesis using 1 by (subst dec_nat.simps) (simp add: digit_value_decdigit)
  next
    case False
    then show ?thesis using 1 by (subst dec_nat.simps) simp
  qed
qed

lemma dec_nat_first: "\<exists>c cs. dec_nat n = c # cs \<and> c \<noteq> CHR ''-'' \<and> c \<noteq> CHR ''+''"
proof -
  obtain c cs where c: "dec_nat n = c # cs" by (cases "dec_nat n") auto
  then have "digit_value c < 10" using dec_nat_digits [of c n] by simp
  then have "c \<noteq> CHR ''-''" "c \<noteq> CHR ''+''" by (auto simp: digit_value_def)
  then show ?thesis using c by blast
qed

lemma Atoi_dec_nat:
  assumes "n < 2 ^ 63"
  shows "Atoi (dec_nat n) = Some (int n)"
proof -
  obtain c cs where c: "dec_nat n = c # cs" "c \<noteq> CHR ''-''" "c \<noteq> CHR ''+''" using dec_nat_first by blast
  have "list_all (\<lambda>c. digit_value c < 10) (dec_nat n)" using dec_nat_digits [of _ n] by (simp add: list_all_iff)
  moreover have "- (2 ^ 63) \<le> int n" "int n < 2 ^ 63" using assms by simp_all
  ultimately show ?thesis using c dec_nat_value [of n] unfolding Atoi_def c(1) by simp
qed

section \<open>Splitting and trimming\<close>

lemma Split_nonempty [simp]: "Split c s \<noteq> []"
  by (induction s) (auto split: list.splits)

lemma Split_none: "c \<notin> set s \<Longrightarrow> Split c s = [s]"
  by (induction s) auto

lemma Split_append: "c \<notin> set a \<Longrightarrow> Split c (a @ c # b) = a # Split c b"
  by (induction a) auto

fun join :: "char \<Rightarrow> string list \<Rightarrow> string" where
  "join c [] = []"
| "join c [x] = x"
| "join c (x # xs) = x @ c # join c xs"

lemma Split_join: "xs \<noteq> [] \<Longrightarrow> \<forall>x \<in> set xs. c \<notin> set x \<Longrightarrow> Split c (join c xs) = xs"
  by (induction c xs rule: join.induct) (simp_all add: Split_none Split_append)

lemma SplitN2_append: "c \<notin> set a \<Longrightarrow> SplitN2 c (a @ c # b) = (a, Some b)"
proof -
  assume "c \<notin> set a"
  then have "\<forall>x \<in> set a. x \<noteq> c" by blast
  then show ?thesis by (simp add: SplitN2_def takeWhile_append dropWhile_append)
qed

lemma TrimSpace_id:
  assumes "s \<noteq> []" "\<not> is_space (hd s)" "\<not> is_space (last s)"
  shows "TrimSpace s = s"
proof -
  have "dropWhile is_space s = s" using assms(1,2) by (cases s) auto
  moreover have "dropWhile is_space (rev s) = rev s" using assms(1,3) by (cases s rule: rev_cases) auto
  ultimately show ?thesis by (simp add: TrimSpace_def)
qed

lemma TrimSpace_no_space: "\<forall>c \<in> set s. \<not> is_space c \<Longrightarrow> TrimSpace s = s"
  by (cases "s = []") (simp add: TrimSpace_def, rule TrimSpace_id, auto)

end
