(* ===== verification/Connect.thy ===== *)
theory Connect
  imports GoStrings
begin

text \<open>
  What the RPC services share: the codes of connect.NewError, and fmt.Sscan of an unsigned number,
  which the event listing uses to read its cursor.
\<close>

section \<open>Codes\<close>

datatype connect_code = InvalidArgument | Unauthenticated | PermissionDenied | NotFound
  | FailedPrecondition | Unimplemented | Internal

section \<open>Widening\<close>

lemma unat_ucast_u32: "unat (ucast (w :: u32) :: u64) = unat w"
proof -
  have "unat w < 2 ^ 32" using unsigned_less [of w] by simp
  then show ?thesis by (simp add: unsigned_ucast_eq take_bit_nat_eq_self)
qed

section \<open>fmt.Sscan into a uint64\<close>

text \<open>
  The verb is 'v': a prefix 0b, 0o, 0x or 0 chooses the digits of the token, underscores are taken
  along, and strconv.ParseUint reads the token with base 0.
\<close>

definition number_char :: "nat \<Rightarrow> char \<Rightarrow> bool" where
  "number_char base c \<longleftrightarrow> digit_value c < base \<or> c = CHR ''_''"

text \<open>The token: its prefix, the base of the digits, and the digits with their underscores.\<close>

definition scan_token :: "string \<Rightarrow> (string \<times> nat \<times> string) option" where
  "scan_token s =
     (case s of
        [] \<Rightarrow> None
      | c # cs \<Rightarrow>
          if c \<noteq> CHR ''0'' then
            (if number_char 10 c then Some ([], 10, takeWhile (number_char 10) s) else None)
          else
            (case cs of
               x # ds \<Rightarrow>
                 if x \<in> {CHR ''b'', CHR ''B''} then Some ([c, x], 2, takeWhile (number_char 2) ds)
                 else if x \<in> {CHR ''o'', CHR ''O''} then Some ([c, x], 8, takeWhile (number_char 8) ds)
                 else if x \<in> {CHR ''x'', CHR ''X''} then Some ([c, x], 16, takeWhile (number_char 16) ds)
                 else Some ([c], 8, takeWhile (number_char 8) cs)
             | [] \<Rightarrow> Some ([c], 8, [])))"

text \<open>underscoreOK: an underscore stands between digits, or between the prefix and a digit.\<close>

fun underscores_ok :: "bool \<Rightarrow> bool \<Rightarrow> string \<Rightarrow> bool" where
  "underscores_ok after_digit after_underscore [] = (\<not> after_underscore)"
| "underscores_ok after_digit after_underscore (c # cs) =
     (if c = CHR ''_'' then after_digit \<and> underscores_ok False True cs else underscores_ok True False cs)"

text \<open>ParseUint: a prefix of a letter without any digit after it, an underscore out of place and a value out
  of range are errors.\<close>

definition Sscan_uint64 :: "string \<Rightarrow> u64 option" where
  "Sscan_uint64 s =
     (case scan_token (dropWhile is_space s) of
        None \<Rightarrow> None
      | Some (prefix, base, ds) \<Rightarrow>
          if length prefix = 2 \<and> ds = [] then None
          else if CHR ''_'' \<in> set ds \<and> \<not> underscores_ok (prefix \<noteq> []) False ds then None
          else if digits_value base ds \<ge> 2 ^ 64 then None
          else Some (word_of_nat (digits_value base ds)))"

text \<open>It reads back what fmt prints in decimal.\<close>

lemma Sscan_dec_nat:
  assumes "n < 2 ^ 64"
  shows "Sscan_uint64 (dec_nat n) = Some (word_of_nat n)"
proof (cases "n = 0")
  case True
  have "dec_nat 0 = ''0''" by (subst dec_nat.simps) (simp add: decdigit_def)
  then show ?thesis using True
    by (simp add: Sscan_uint64_def scan_token_def is_space_def digits_value_def)
next
  case False
  obtain c cs where cs: "dec_nat n = c # cs" by (cases "dec_nat n") auto
  have digits: "\<forall>x \<in> set (c # cs). digit_value x < 10 \<and> x \<noteq> CHR ''_'' \<and> \<not> is_space x"
    using dec_nat_digits [of _ n] by (simp add: cs)
  then have tw: "takeWhile (number_char 10) cs = cs" and flt: "filter (\<lambda>c. c \<noteq> CHR ''_'') (c # cs) = c # cs"
    by (simp_all add: takeWhile_eq_all_conv number_char_def filter_id_conv)
  have "c \<noteq> CHR ''0''" using hd_dec_nat [of n] False by (simp add: cs)
  moreover have "digits_value 10 (c # cs) = n"
    unfolding digits_value_def using dec_nat_value [of n] flt by (simp only: cs)
  moreover have "CHR ''_'' \<notin> set (c # cs)" using digits by auto
  ultimately show ?thesis
    using digits assms by (simp add: tw Sscan_uint64_def cs scan_token_def number_char_def)
qed

end
