(* ===== verification/Host.thy ===== *)
theory Host
  imports Connect Apply
begin

text \<open>
  The host service (internal/host: multigroup.go, service.go): the registry of the groups a host
  serves and the RPCs over their state machines. A Go map is an association list. A request is an
  option, \<open>None\<close> for nil; a message behind a pointer is one too. A handler returns a code with the cause of
  the error, or the response; handlers that write also return the service. The clock and the
  other inputs of Apply are an argument.
\<close>

section \<open>MultiGroup\<close>

record multi_group =
  mg_byKey :: "(group_id \<times> state) list"
  mg_byName :: "(string \<times> group_id) list"

definition state_GroupID :: "state \<Rightarrow> group_id" where
  "state_GroupID s = groupID (core s)"

definition NewMultiGroup :: "string \<Rightarrow> state option list \<Rightarrow> multi_group" where
  "NewMultiGroup name states =
     foldl (\<lambda>mg st. case st of None \<Rightarrow> mg
                    | Some s \<Rightarrow> mg\<lparr>mg_byKey := AList.update (state_GroupID s) s (mg_byKey mg)\<rparr>)
       \<lparr>mg_byKey = [], mg_byName = []\<rparr> states"

definition mg_Get :: "multi_group \<Rightarrow> group_id \<Rightarrow> state option" where
  "mg_Get m gid = map_of (mg_byKey m) gid"

definition mg_All :: "multi_group \<Rightarrow> group_id list" where
  "mg_All m = map fst (mg_byKey m)"

definition mg_Len :: "multi_group \<Rightarrow> nat" where
  "mg_Len m = length (mg_byKey m)"

definition RegisterName :: "multi_group \<Rightarrow> string \<Rightarrow> group_id \<Rightarrow> multi_group" where
  "RegisterName m canonicalName gid = m\<lparr>mg_byName := AList.update canonicalName gid (mg_byName m)\<rparr>"

definition LookupName :: "multi_group \<Rightarrow> string \<Rightarrow> group_id option" where
  "LookupName m canonicalName = map_of (mg_byName m) canonicalName"

definition AllNames :: "multi_group \<Rightarrow> string list" where
  "AllNames m = map fst (mg_byName m)"

section \<open>The service\<close>

record service =
  svc_groups :: multi_group
  svc_name :: string

definition NewService :: "string \<Rightarrow> state option list \<Rightarrow> service" where
  "NewService name states = \<lparr>svc_groups = NewMultiGroup name states, svc_name = name\<rparr>"

definition NewServiceSingle :: "state option \<Rightarrow> string \<Rightarrow> service" where
  "NewServiceSingle state name = NewService name [state]"

datatype host_error =
    NilRequest | NilGroupKey | CanonicalNameUnsupported | MissingIdentifier | GroupNotHosted
  | EventIdEmpty | EventNotFound string | BadCursor
  | TransitionNil | InvalidTransition | ApplyFailed group_error
  | TransitionPayloadEmpty | NotUserAction ttype | InvalidTransitionPayload | TypeMismatch ttype ttype
  | CanonicalNameEmpty | NameNotFound string | SnapshotByRoot | InvalidTransitionA | InvalidTransitionB

type_synonym 'a response = "(connect_code \<times> host_error) + 'a"

definition lookup_group :: "service \<Rightarrow> group_id \<Rightarrow> state response" where
  "lookup_group s gid =
     (case mg_Get (svc_groups s) gid of None \<Rightarrow> Inl (NotFound, GroupNotHosted) | Some st \<Rightarrow> Inr st)"

text \<open>A method on a state that the registry points to changes it in place.\<close>

definition set_state :: "service \<Rightarrow> group_id \<Rightarrow> state \<Rightarrow> service" where
  "set_state s gid st =
     s\<lparr>svc_groups := (svc_groups s)\<lparr>mg_byKey := AList.update gid st (mg_byKey (svc_groups s))\<rparr>\<rparr>"

subsection \<open>Type bridges\<close>

definition bytesToKey :: "bytes \<Rightarrow> public_key" where
  "bytesToKey b = copy32 b"

definition keyToProto :: "public_key \<Rightarrow> bytes" where
  "keyToProto k = k"

definition stewardsToProto :: "steward list \<Rightarrow> bytes list" where
  "stewardsToProto stewards = map keyToProto stewards"

definition stateSnapshotToProto :: "state_snapshot \<Rightarrow> hash \<Rightarrow> pb_state_snapshot" where
  "stateSnapshotToProto snap rt = \<lparr>pbs_root = Some rt,
     pbs_entries = map (\<lambda>e. \<lparr>pbe_key = se_key e, pbe_value = se_value e, pbe_seq = 0\<rparr>) (Entries snap)\<rparr>"

section \<open>Reads\<close>

datatype group_identifier = GroupKey "bytes option" | CanonicalName string | NoIdentifier

record get_group_response =
  gg_Snapshot :: pb_state_snapshot
  gg_Stewards :: "bytes list"
  gg_Threshold :: u32

definition GetGroup :: "env \<Rightarrow> service \<Rightarrow> group_identifier option \<Rightarrow> get_group_response response" where
  "GetGroup E s req =
     (case req of
        None \<Rightarrow> Inl (InvalidArgument, NilRequest)
      | Some (CanonicalName _) \<Rightarrow> Inl (Unimplemented, CanonicalNameUnsupported)
      | Some NoIdentifier \<Rightarrow> Inl (InvalidArgument, MissingIdentifier)
      | Some (GroupKey None) \<Rightarrow> Inl (InvalidArgument, NilGroupKey)
      | Some (GroupKey (Some raw)) \<Rightarrow>
          (case lookup_group s (bytesToKey raw) of
             Inl e \<Rightarrow> Inl e
           | Inr st \<Rightarrow>
               Inr \<lparr>gg_Snapshot = stateSnapshotToProto (state_Snapshot st) (state_Root E st),
                    gg_Stewards = stewardsToProto (Stewards E st), gg_Threshold = Threshold E st\<rparr>))"

text \<open>The state of a request that names its group by key.\<close>

definition hosted :: "service \<Rightarrow> bytes option \<Rightarrow> (group_id \<times> state) response" where
  "hosted s key =
     (case key of
        None \<Rightarrow> Inl (InvalidArgument, NilGroupKey)
      | Some raw \<Rightarrow>
          (case lookup_group s (bytesToKey raw) of Inl e \<Rightarrow> Inl e | Inr st \<Rightarrow> Inr (bytesToKey raw, st)))"

record get_event_request =
  ge_group_key :: "bytes option"
  ge_event_id :: string

record get_event_response =
  ger_Event :: create_event
  ger_Rsvps :: "bytes list"
  ger_Cancelled :: bool

definition created_event :: "transition \<Rightarrow> create_event option" where
  "created_event t =
     (if Type t \<noteq> CREATE_EVENT then None
      else (case tp_payload (Proto t) of Some (P_CreateEvent p) \<Rightarrow> Some p | _ \<Rightarrow> None))"

fun find_event :: "transition list \<Rightarrow> string \<Rightarrow> create_event option" where
  "find_event [] event_id = None"
| "find_event (t # ts) event_id =
     (case created_event t of
        Some p \<Rightarrow> if ce_event_id p = event_id then Some p else find_event ts event_id
      | None \<Rightarrow> find_event ts event_id)"

definition host_GetEvent :: "service \<Rightarrow> get_event_request option \<Rightarrow> get_event_response response" where
  "host_GetEvent s req =
     (case req of
        None \<Rightarrow> Inl (InvalidArgument, NilRequest)
      | Some r \<Rightarrow>
          if ge_group_key r = None then Inl (InvalidArgument, NilGroupKey)
          else if ge_event_id r = '''' then Inl (InvalidArgument, EventIdEmpty)
          else
            (case hosted s (ge_group_key r) of
               Inl e \<Rightarrow> Inl e
             | Inr (_, st) \<Rightarrow>
                 (case find_event (Log st) (ge_event_id r) of
                    Some p \<Rightarrow> Inr \<lparr>ger_Event = p, ger_Rsvps = [], ger_Cancelled = False\<rparr>
                  | None \<Rightarrow> Inl (NotFound, EventNotFound (ge_event_id r)))))"

record list_events_request =
  le_group_key :: "bytes option"
  le_cursor :: string
  le_page_size :: u32

text \<open>The loop down from \<open>endIdx\<close>: the transitions below it, newest first, until the page is full.\<close>

fun collect_events :: "nat \<Rightarrow> transition list \<Rightarrow> create_event list" where
  "collect_events room [] = []"
| "collect_events room (t # ts) =
     (if room = 0 then []
      else (case created_event t of
              Some p \<Rightarrow> p # collect_events (room - 1) ts
            | None \<Rightarrow> collect_events room ts))"

definition ListEvents :: "service \<Rightarrow> list_events_request option \<Rightarrow> (create_event list \<times> string) response" where
  "ListEvents s req =
     (case req of
        None \<Rightarrow> Inl (InvalidArgument, NilRequest)
      | Some r \<Rightarrow>
          (case hosted s (le_group_key r) of
             Inl e \<Rightarrow> Inl e
           | Inr (_, st) \<Rightarrow>
               let pageSize = uint (le_page_size r);
                   pageSize = (if pageSize \<le> 0 \<or> pageSize > 200 then 50 else pageSize)
               in (case (if le_cursor r \<noteq> '''' then Sscan_uint64 (le_cursor r) else Some 0) of
                     None \<Rightarrow> Inl (InvalidArgument, BadCursor)
                   | Some startIdx \<Rightarrow>
                       let log = Log st;
                           endIdx = word_of_nat (length log) :: u64;
                           endIdx = (if le_cursor r \<noteq> ''''
                                     then endIdx - (if startIdx > endIdx then endIdx else startIdx) else endIdx);
                           events = collect_events (nat pageSize) (rev (take (unat endIdx) log));
                           nextCursor = (if (word_of_nat (length log) :: u64) > 0 \<and> int (length events) = pageSize
                                         then dec_nat (length log) else '''')
                       in Inr (events, nextCursor))))"

definition host_ListGroups :: "service \<Rightarrow> (bytes list \<times> string) response" where
  "host_ListGroups s = Inr (map keyToProto (mg_All (svc_groups s)), '''')"

definition ResolveName :: "service \<Rightarrow> string option \<Rightarrow> (bytes \<times> string list) response" where
  "ResolveName s req =
     (case req of
        None \<Rightarrow> Inl (InvalidArgument, CanonicalNameEmpty)
      | Some canonicalName \<Rightarrow>
          if canonicalName = '''' then Inl (InvalidArgument, CanonicalNameEmpty)
          else
            let hosts = (if svc_name s \<noteq> '''' then [svc_name s] else [])
            in (case LookupName (svc_groups s) canonicalName of
                  Some gid \<Rightarrow> Inr (keyToProto gid, hosts)
                | None \<Rightarrow>
                    (case mg_All (svc_groups s) of
                       [] \<Rightarrow> Inl (NotFound, NameNotFound canonicalName)
                     | gid # _ \<Rightarrow> Inr (keyToProto gid, hosts))))"

record get_log_request =
  gl_group_key :: "bytes option"
  gl_since_cursor :: u64
  gl_limit :: u32

record get_log_response =
  glr_Transitions :: "pb_transition list"
  glr_NextCursor :: u64
  glr_Total :: u64

definition GetLog :: "service \<Rightarrow> get_log_request option \<Rightarrow> get_log_response response" where
  "GetLog s req =
     (case req of
        None \<Rightarrow> Inl (InvalidArgument, NilRequest)
      | Some r \<Rightarrow>
          (case hosted s (gl_group_key r) of
             Inl e \<Rightarrow> Inl e
           | Inr (_, st) \<Rightarrow>
               let log = Log st;
                   total = word_of_nat (length log) :: u64;
                   limit = (if gl_limit r = 0 then 100 else gl_limit r);
                   limit = (if limit > 1000 then 1000 else limit);
                   start = (if gl_since_cursor r > total then total else gl_since_cursor r);
                   end = start + ucast limit;
                   end = (if end > total then total else end)
               in Inr \<lparr>glr_Transitions =
                         (if start < end
                          then map (\<lambda>i. Proto (log ! i)) [unat start ..< unat end] else []),
                       glr_NextCursor = (if end < total then end else 0), glr_Total = total\<rparr>))"

record get_snapshot_request =
  gs_group_key :: "bytes option"
  gs_root :: "bytes option"

definition GetSnapshot :: "env \<Rightarrow> service \<Rightarrow> get_snapshot_request option \<Rightarrow> (pb_state_snapshot \<times> u64) response" where
  "GetSnapshot E s req =
     (case req of
        None \<Rightarrow> Inl (InvalidArgument, NilRequest)
      | Some r \<Rightarrow>
          (case hosted s (gs_group_key r) of
             Inl e \<Rightarrow> Inl e
           | Inr (_, st) \<Rightarrow>
               if gs_root r \<noteq> None then Inl (Unimplemented, SnapshotByRoot)
               else Inr (stateSnapshotToProto (state_Snapshot st) (state_Root E st), TransitionCount st)))"

section \<open>Writes\<close>

record submit_transition_request =
  st_group_key :: "bytes option"
  st_transition :: "pb_transition option"

definition SubmitTransition :: "env \<Rightarrow> service \<Rightarrow> submit_transition_request option \<Rightarrow> apply_input
    \<Rightarrow> (pb_state_snapshot \<times> u64) response \<times> service" where
  "SubmitTransition E s req inp =
     (case req of
        None \<Rightarrow> (Inl (InvalidArgument, NilRequest), s)
      | Some r \<Rightarrow>
          (case (st_group_key r, st_transition r) of
             (None, _) \<Rightarrow> (Inl (InvalidArgument, NilGroupKey), s)
           | (Some _, None) \<Rightarrow> (Inl (InvalidArgument, TransitionNil), s)
           | (Some raw, Some p) \<Rightarrow>
               (case hosted s (Some raw) of
                  Inl e \<Rightarrow> (Inl e, s)
                | Inr (gid, st) \<Rightarrow>
                    (case NewTransition E p gid of
                       None \<Rightarrow> (Inl (InvalidArgument, InvalidTransition), s)
                     | Some t \<Rightarrow>
                         let idx = TransitionCount st
                         in (case Apply E st t inp of
                               (Some e, st') \<Rightarrow> (Inl (FailedPrecondition, ApplyFailed e), set_state s gid st')
                             | (None, st') \<Rightarrow>
                                 (Inr (stateSnapshotToProto (state_Snapshot st') (state_Root E st'), idx),
                                  set_state s gid st'))))))"

text \<open>The envelope of the user is only looked at for a log line.\<close>

record submit_user_action_request =
  ua_group_key :: "bytes option"
  ua_type :: ttype
  ua_user_envelope :: "bytes option"
  ua_transition_payload :: bytes

definition stamp_prior :: "env \<Rightarrow> state \<Rightarrow> pb_transition \<Rightarrow> pb_transition" where
  "stamp_prior E st p =
     (if tp_prior_state p = None then p\<lparr>tp_prior_state := Some (state_Root E st)\<rparr> else p)"

definition SubmitUserAction :: "env \<Rightarrow> service \<Rightarrow> submit_user_action_request option \<Rightarrow> apply_input
    \<Rightarrow> pb_state_snapshot response \<times> service" where
  "SubmitUserAction E s req inp =
     (case req of
        None \<Rightarrow> (Inl (InvalidArgument, NilRequest), s)
      | Some r \<Rightarrow>
          if ua_group_key r = None then (Inl (InvalidArgument, NilGroupKey), s)
          else if ua_transition_payload r = [] then (Inl (InvalidArgument, TransitionPayloadEmpty), s)
          else if ua_type r \<notin> {RSVP, CANCEL_RSVP, ATTEST}
          then (Inl (InvalidArgument, NotUserAction (ua_type r)), s)
          else
            (case hosted s (ua_group_key r) of
               Inl e \<Rightarrow> (Inl e, s)
             | Inr (gid, st) \<Rightarrow>
                 (case unmarshal_transition E (ua_transition_payload r) of
                    None \<Rightarrow> (Inl (InvalidArgument, InvalidTransitionPayload), s)
                  | Some p \<Rightarrow>
                      if tp_type p \<noteq> ua_type r
                      then (Inl (InvalidArgument, TypeMismatch (tp_type p) (ua_type r)), s)
                      else
                        (case NewTransition E (stamp_prior E st p) gid of
                           None \<Rightarrow> (Inl (InvalidArgument, InvalidTransition), s)
                         | Some t \<Rightarrow>
                             (case Apply E st t inp of
                                (Some e, st') \<Rightarrow> (Inl (FailedPrecondition, ApplyFailed e), set_state s gid st')
                              | (None, st') \<Rightarrow>
                                  (Inr (stateSnapshotToProto (state_Snapshot st') (state_Root E st')),
                                   set_state s gid st'))))))"

record evidence_envelope =
  ee_group_key :: "bytes option"
  ee_steward_key :: bytes
  ee_prior_state :: bytes
  ee_transition_a :: "pb_transition option"
  ee_transition_b :: "pb_transition option"

text \<open>A transition of the envelope: absent, malformed or made.\<close>

definition evidence_transition :: "env \<Rightarrow> group_id \<Rightarrow> pb_transition option \<Rightarrow> transition option option" where
  "evidence_transition E gid p =
     (case p of None \<Rightarrow> Some None | Some p \<Rightarrow> map_option Some (NewTransition E p gid))"

definition SubmitEvidence :: "env \<Rightarrow> service \<Rightarrow> evidence_envelope option \<Rightarrow> (bool \<times> string) response \<times> service" where
  "SubmitEvidence E s req =
     (case req of
        None \<Rightarrow> (Inl (InvalidArgument, NilRequest), s)
      | Some r \<Rightarrow>
          (case hosted s (ee_group_key r) of
             Inl e \<Rightarrow> (Inl e, s)
           | Inr (gid, st) \<Rightarrow>
               (case evidence_transition E gid (ee_transition_a r) of
                  None \<Rightarrow> (Inl (InvalidArgument, InvalidTransitionA), s)
                | Some transA \<Rightarrow>
                    (case evidence_transition E gid (ee_transition_b r) of
                       None \<Rightarrow> (Inl (InvalidArgument, InvalidTransitionB), s)
                     | Some transB \<Rightarrow>
                         (Inr (True, ''evidence stored''),
                          set_state s gid (st\<lparr>core := StoreEvidence (core st)
                            \<lparr>evd_GroupID = gid, evd_StewardKey = copy32 (ee_steward_key r),
                             evd_PriorState = copy32 (ee_prior_state r),
                             evd_TransitionA = transA, evd_TransitionB = transB\<rparr>\<rparr>))))))"

section \<open>Subscribe\<close>

record subscribe_request =
  sb_group_key :: "bytes option"
  sb_since_index :: u64

record pb_transition_event =
  te_Transition :: pb_transition
  te_NewStateRoot :: hash
  te_TransitionIndex :: u64
  te_GroupKey :: bytes

definition unsubscribe :: "state \<Rightarrow> u64 \<Rightarrow> state" where
  "unsubscribe st ch = st\<lparr>broadcaster := map_option (\<lambda>bc. Unsubscribe bc ch) (broadcaster st)\<rparr>"

text \<open>
  The handler holds no lock of the group between its calls on the State, so it is three parts and the group may
  accept transitions between them. The first ends with the subscription to the group's broadcaster. (The
  broadcaster is created once and has no subscriber before, so \<open>state.Broadcaster()\<close> and
  \<open>bc.Subscribe()\<close> are one step at the time of the second.)
\<close>

definition host_Subscribe :: "service \<Rightarrow> subscribe_request option \<Rightarrow> (group_id \<times> u64) response \<times> service" where
  "host_Subscribe s req =
     (case req of
        None \<Rightarrow> (Inl (InvalidArgument, NilRequest), s)
      | Some r \<Rightarrow>
          (case hosted s (sb_group_key r) of
             Inl e \<Rightarrow> (Inl e, s)
           | Inr (gid, st) \<Rightarrow>
               let (bc, st) = state_Broadcaster st;
                   (ch, bc) = Subscribe bc
               in (Inr (gid, ch), set_state s gid (st\<lparr>broadcaster := Some bc\<rparr>))))"

text \<open>
  The second part: what is replayed, from the log that \<open>state.Log()\<close> returns and the root that the later
  \<open>state.Root()\<close> returns. The index goes through an int: from 2^63 on it is negative and the
  first access to the log panics, here \<open>None\<close>, after which the deferred unsub runs. A stream whose context ends,
  or whose Send fails, stops after a prefix of it.
\<close>

definition replay_event :: "group_id \<Rightarrow> transition list \<Rightarrow> hash \<Rightarrow> nat \<Rightarrow> pb_transition_event" where
  "replay_event gid txs rt i =
     \<lparr>te_Transition = Proto (txs ! i), te_NewStateRoot = rt,
      te_TransitionIndex = word_of_nat i, te_GroupKey = keyToProto gid\<rparr>"

definition replay_stream :: "group_id \<Rightarrow> u64 \<Rightarrow> transition list \<Rightarrow> hash \<Rightarrow> pb_transition_event list option" where
  "replay_stream gid sinceIndex txs rt =
     (if sinceIndex > 0 then
        let i = sint sinceIndex
        in if i < 0 then None else Some (map (replay_event gid txs rt) [nat i ..< length txs])
      else Some [])"

text \<open>The third part: an event received from the channel is sent on.\<close>

definition live_event :: "group_id \<Rightarrow> transition_event \<Rightarrow> pb_transition_event" where
  "live_event gid ev =
     \<lparr>te_Transition = Proto (ev_transition ev), te_NewStateRoot = ev_newRoot ev,
      te_TransitionIndex = ev_index ev, te_GroupKey = keyToProto gid\<rparr>"

end
