(* ===== verification/HostRules.thy ===== *)
theory HostRules
  imports Host Governance
begin

text \<open>
  What the read RPCs of the host service give the clients and peers of a group: the log is served
  completely and in order; but the second page of events is empty, and the entries of a served
  snapshot do not hash to the root beside them.
\<close>

section \<open>Lookups\<close>

lemma hosted_Inr:
  "hosted s key = Inr (gid, st) \<longleftrightarrow>
    (\<exists>raw. key = Some raw \<and> gid = bytesToKey raw \<and> mg_Get (svc_groups s) gid = Some st)"
  by (auto simp: hosted_def lookup_group_def split: option.splits)

lemma Get_set_state [simp]:
  "mg_Get (svc_groups (set_state s gid st)) g = (if g = gid then Some st else mg_Get (svc_groups s) g)"
  by (simp add: mg_Get_def set_state_def update_conv')

lemma set_state_names [simp]:
  "mg_byName (svc_groups (set_state s gid st)) = mg_byName (svc_groups s)" "svc_name (set_state s gid st) = svc_name s"
  by (simp_all add: set_state_def)

section \<open>The log\<close>

text \<open>A client that follows next_cursor, at most \<open>n\<close> times.\<close>

fun follow_log :: "service \<Rightarrow> bytes \<Rightarrow> u32 \<Rightarrow> u64 \<Rightarrow> nat \<Rightarrow> pb_transition list list" where
  "follow_log s key limit cursor 0 = []"
| "follow_log s key limit cursor (Suc n) =
     (case GetLog s (Some \<lparr>gl_group_key = Some key, gl_since_cursor = cursor, gl_limit = limit\<rparr>) of
        Inl e \<Rightarrow> []
      | Inr r \<Rightarrow> glr_Transitions r #
          (if glr_NextCursor r = 0 then [] else follow_log s key limit (glr_NextCursor r) n))"

definition log_limit :: "u32 \<Rightarrow> nat" where
  "log_limit limit = (if limit = 0 then 100 else min (unat limit) 1000)"

lemma log_limit_pos: "0 < log_limit limit" "log_limit limit \<le> 1000"
  by (simp_all add: log_limit_def unat_gt_0)

lemma unat_log_limit:
  "unat (ucast (let l = (if limit = 0 then 100 else limit) in if l > 1000 then 1000 else l :: u32) :: u64) = log_limit limit"
  by (auto simp: log_limit_def Let_def unat_ucast_u32 word_less_nat_alt not_less min_def)

text \<open>One page, in terms of the positions it covers.\<close>

lemma GetLog_page:
  assumes "mg_Get (svc_groups s) (bytesToKey key) = Some st" "length (Log st) < 2 ^ 63"
    "unat cursor \<le> length (Log st)" and m_def: "m = min (unat cursor + log_limit limit) (length (Log st))"
  shows "GetLog s (Some \<lparr>gl_group_key = Some key, gl_since_cursor = cursor, gl_limit = limit\<rparr>) =
    Inr \<lparr>glr_Transitions = map Proto (take (m - unat cursor) (drop (unat cursor) (Log st))),
         glr_NextCursor = (if m < length (Log st) then word_of_nat m else 0),
         glr_Total = word_of_nat (length (Log st))\<rparr>"
proof -
  let ?n = "length (Log st)" and ?total = "word_of_nat (length (Log st)) :: u64"
  have total: "unat ?total = ?n" using assms(2) by (simp add: unat_of_nat)
  define lim :: u64 where "lim = ucast (let l = (if limit = 0 then 100 else limit) in if l > 1000 then 1000 else l :: u32)"
  have lim: "unat lim = log_limit limit" unfolding lim_def by (rule unat_log_limit)
  have sum: "unat (cursor + lim) = unat cursor + log_limit limit"
    using assms(2,3) log_limit_pos(2) [of limit] lim by (subst unat_add_lem [THEN iffD1]) simp_all
  have le: "\<not> cursor > ?total" using assms(3) total by (simp add: word_less_nat_alt)
  have e: "(if cursor + lim > ?total then ?total else cursor + lim) = word_of_nat m"
  proof -
    have "word_of_nat (unat cursor + log_limit limit) = cursor + lim" by (simp flip: sum)
    then show ?thesis using total sum by (auto simp: m_def word_less_nat_alt min_def)
  qed
  have m: "unat (word_of_nat m :: u64) = m" using assms(2) by (simp add: m_def unat_of_nat)
  have trans: "(if cursor < word_of_nat m then map (\<lambda>i. Proto (Log st ! i)) [unat cursor ..< unat (word_of_nat m :: u64)] else []) =
      map Proto (take (m - unat cursor) (drop (unat cursor) (Log st)))"
  proof -
    have "m \<le> length (Log st)" by (simp add: m_def)
    then show ?thesis unfolding word_less_nat_alt m by (intro nth_equalityI) auto
  qed
  have raw: "GetLog s (Some \<lparr>gl_group_key = Some key, gl_since_cursor = cursor, gl_limit = limit\<rparr>) =
    (let end = (if cursor + lim > ?total then ?total else cursor + lim)
     in Inr \<lparr>glr_Transitions =
              (if cursor < end then map (\<lambda>i. Proto (Log st ! i)) [unat cursor ..< unat end] else []),
            glr_NextCursor = (if end < ?total then end else 0), glr_Total = ?total\<rparr>)"
    by (simp only: GetLog_def hosted_def lookup_group_def Let_def lim_def assms(1) le if_False
        option.case sum.case prod.case get_log_request.simps)
  have "((word_of_nat m :: u64) < ?total) = (m < ?n)" by (simp only: word_less_nat_alt m total)
  then show ?thesis unfolding raw Let_def e trans by simp
qed

lemma follow_log_from:
  assumes "mg_Get (svc_groups s) (bytesToKey key) = Some st" "length (Log st) < 2 ^ 63"
    "unat cursor \<le> length (Log st)" "length (Log st) - unat cursor \<le> n"
  shows "concat (follow_log s key limit cursor (Suc n)) = map Proto (drop (unat cursor) (Log st)) \<and>
    (\<forall>p \<in> set (follow_log s key limit cursor (Suc n)). length p \<le> 1000)"
  using assms(3,4)
proof (induction n arbitrary: cursor)
  case 0
  then show ?case using GetLog_page [OF assms(1,2) 0(1) refl, of limit] log_limit_pos [of limit] by simp
next
  case (Suc n)
  let ?m = "min (unat cursor + log_limit limit) (length (Log st))"
  note page = GetLog_page [OF assms(1,2) Suc.prems(1) refl, of limit]
  have short: "?m - unat cursor \<le> 1000" using log_limit_pos [of limit] by linarith
  show ?case
  proof (cases "?m < length (Log st)")
    case False
    then have "?m = length (Log st)" by simp
    then show ?thesis using page short by simp
  next
    case True
    have m: "unat (word_of_nat ?m :: u64) = ?m" using assms(2) by (simp add: unat_of_nat)
    have pos: "0 < ?m" "unat cursor < ?m" using True log_limit_pos(1) [of limit] by simp_all
    then have "(word_of_nat ?m :: u64) \<noteq> 0" using m by (metis less_irrefl unat_0)
    moreover have "concat (follow_log s key limit (word_of_nat ?m) (Suc n)) = map Proto (drop ?m (Log st)) \<and>
        (\<forall>p \<in> set (follow_log s key limit (word_of_nat ?m) (Suc n)). length p \<le> 1000)"
      using Suc.IH [of "word_of_nat ?m"] m Suc.prems(2) pos True by simp
    moreover have "drop (unat cursor) (Log st) =
        take (?m - unat cursor) (drop (unat cursor) (Log st)) @ drop ?m (Log st)"
      using pos(2) by (metis append_take_drop_id drop_drop le_add_diff_inverse2 less_imp_le)
    ultimately show ?thesis using page True short
      by (simp del: follow_log.simps(2) add: follow_log.simps(2) [of s key limit cursor]) (metis map_append)
  qed
qed

section \<open>Snapshots\<close>

lemma served_entries:
  "Entries (SnapshotFromProto (stateSnapshotToProto snap rt)) = map (se_seq_update (\<lambda>_. 0)) (Entries snap)"
  by (simp add: SnapshotFromProto_def stateSnapshotToProto_def)

lemma served_wf: "wf_snapshot snap \<Longrightarrow> wf_snapshot (SnapshotFromProto (stateSnapshotToProto snap rt))"
  by (auto simp: wf_snapshot_def served_entries wf_entry_def list_all_iff)

section \<open>Properties\<close>

text \<open>
  C13: a peer that follows next_cursor from 0 receives the whole log of the group, in order, without gaps
  or repetitions, in pages of at most 1000, whatever page size it asks for, and needs at most
  one call more than there are transitions.
\<close>

theorem GetLog_complete:
  assumes "mg_Get (svc_groups s) (bytesToKey key) = Some st" "length (Log st) < 2 ^ 63"
  shows "concat (follow_log s key limit 0 (Suc (length (Log st)))) = map Proto (Log st) \<and>
    (\<forall>p \<in> set (follow_log s key limit 0 (Suc (length (Log st)))). length p \<le> 1000)"
  using follow_log_from [OF assms, of 0 "length (Log st)" limit] by simp

definition ex_logged :: "transition list \<Rightarrow> state" where
  "ex_logged ts = (NewState (ex_key 9))\<lparr>core := (new_machine (ex_key 9))\<lparr>mchain := new_chain\<lparr>log := ts\<rparr>\<rparr>\<rparr>"

definition ex_service :: "state \<Rightarrow> service" where
  "ex_service st = NewServiceSingle (Some st) ''h''"

lemma ex_logged_simps [simp]:
  "Log (ex_logged ts) = ts" "groupID (core (ex_logged ts)) = ex_key 9"
  by (simp_all add: ex_logged_def Log_def new_machine_def)

lemma ex_service_Get:
  "groupID (core st) = ex_key 9 \<Longrightarrow> mg_Get (svc_groups (ex_service st)) (bytesToKey (ex_key 9)) = Some st"
  by (simp add: ex_service_def NewServiceSingle_def NewService_def NewMultiGroup_def mg_Get_def
      state_GroupID_def bytesToKey_def ex_key_def)

definition ex_event_tx :: "string \<Rightarrow> transition" where
  "ex_event_tx i = ex_tx 0 CREATE_EVENT None (P_CreateEvent \<lparr>ce_event_id = i, ce_title = ''t'',
     ce_starts_at = None, ce_ends_at = None, ce_location = '''', ce_capacity = 0, ce_paid = False,
     ce_metadata = []\<rparr>) 1 2"

theorem GetLog_complete_witness:
  "concat (follow_log (ex_service (ex_logged [ex_event_tx ''a'', ex_event_tx ''b''])) (ex_key 9) 1 0 3) =
     [Proto (ex_event_tx ''a''), Proto (ex_event_tx ''b'')]"
proof -
  let ?st = "ex_logged [ex_event_tx ''a'', ex_event_tx ''b'']"
  have g: "mg_Get (svc_groups (ex_service ?st)) (bytesToKey (ex_key 9)) = Some ?st" by (rule ex_service_Get) simp
  have n: "Suc (length (Log ?st)) = 3" by simp
  show ?thesis using GetLog_complete [OF g, of 1] unfolding n by simp
qed

text \<open>
  the listing of events has one page: a client that passes the cursor it was given gets an empty
  page and no further cursor, whatever older events there are, since the cursor is the length of
  the log and the next page starts that many transitions before the end.
\<close>

theorem ListEvents_second_page_empty:
  assumes "ListEvents s (Some \<lparr>le_group_key = key, le_cursor = '''', le_page_size = n\<rparr>) = Inr (events, cursor)"
    "cursor \<noteq> ''''" "\<forall>gid st. hosted s key = Inr (gid, st) \<longrightarrow> length (Log st) < 2 ^ 63"
  shows "ListEvents s (Some \<lparr>le_group_key = key, le_cursor = cursor, le_page_size = m\<rparr>) = Inr ([], '''')"
proof -
  from assms(1) obtain gid st where h: "hosted s key = Inr (gid, st)"
    by (cases "hosted s key") (auto simp: ListEvents_def)
  have c: "cursor = dec_nat (length (Log st))"
    using assms(1,2) by (auto simp: ListEvents_def h Let_def split: if_splits)
  have n: "length (Log st) < 2 ^ 64" using assms(3) h by auto
  show ?thesis
    using assms(2) Sscan_dec_nat [OF n] by (simp add: ListEvents_def h c Let_def uint_0_iff)
qed

text \<open>Two events, pages of one: the second event is never listed.\<close>

theorem ListEvents_second_page_empty_witness:
  "ListEvents (ex_service (ex_logged [ex_event_tx ''a'', ex_event_tx ''b'']))
     (Some \<lparr>le_group_key = Some (ex_key 9), le_cursor = ''2'', le_page_size = 1\<rparr>) = Inr ([], '''')"
proof -
  let ?s = "ex_service (ex_logged [ex_event_tx ''a'', ex_event_tx ''b''])"
  have h: "hosted ?s (Some (ex_key 9)) = Inr (bytesToKey (ex_key 9), ex_logged [ex_event_tx ''a'', ex_event_tx ''b''])"
    using ex_service_Get by (simp add: hosted_Inr)
  have "dec_nat (Suc (Suc 0)) = ''2''" by (subst dec_nat.simps) (simp add: decdigit_def eval_nat_numeral)
  moreover have "\<exists>p. created_event (ex_event_tx i) = Some p" for i
    by (simp add: created_event_def ex_event_tx_def Type_def ex_tx_def)
  then obtain p where "created_event (ex_event_tx ''b'') = Some p" by blast
  ultimately have "\<exists>e. ListEvents ?s (Some \<lparr>le_group_key = Some (ex_key 9), le_cursor = '''', le_page_size = 1\<rparr>) = Inr ([e], ''2'')"
    by (simp add: ListEvents_def h)
  then obtain e where e: "ListEvents ?s (Some \<lparr>le_group_key = Some (ex_key 9), le_cursor = '''', le_page_size = 1\<rparr>) =
      Inr ([e], ''2'')" ..
  show ?thesis by (rule ListEvents_second_page_empty [OF e]) (simp_all add: h)
qed

text \<open>
  the entries that GetSnapshot serves do not verify against the root it serves with them: they come
  without their sequence numbers, which the root covers. Whatever the hash, as soon as one entry has a
  number other than 0 (every entry has), a client that hashes them finds another root, unless it has
  found a collision.
\<close>

theorem served_snapshot_unverifiable:
  assumes "GetSnapshot E s (Some req) = Inr (p, n)" "hosted s (gs_group_key req) = Inr (gid, st)"
    "wf_snapshot (state_Snapshot st)" "\<exists>e \<in> set (Entries (state_Snapshot st)). se_seq e \<noteq> 0"
  shows "pbs_root p = Some (state_Root E st) \<and>
    (Root (sha256 E) (SnapshotFromProto p) \<noteq> state_Root E st \<or>
     (root_preimage (SnapshotFromProto p) \<noteq> root_preimage (state_Snapshot st) \<and>
      copy32 (sha256 E (root_preimage (SnapshotFromProto p))) = copy32 (sha256 E (root_preimage (state_Snapshot st)))))"
proof -
  let ?snap = "state_Snapshot st"
  have p: "p = stateSnapshotToProto ?snap (state_Root E st)"
    using assms(1) by (auto simp: GetSnapshot_def assms(2) split: if_splits)
  have "root_preimage (SnapshotFromProto p) \<noteq> root_preimage ?snap"
  proof
    assume "root_preimage (SnapshotFromProto p) = root_preimage ?snap"
    then have "sortEntries (Entries (SnapshotFromProto p)) = sortEntries (Entries ?snap)"
      unfolding p by (rule root_preimage_inject [OF served_wf [OF assms(3)] assms(3)])
    then have "set (map (se_seq_update (\<lambda>_. 0)) (Entries ?snap)) = set (Entries ?snap)"
      by (metis p served_entries set_sortEntries)
    then have "\<forall>e \<in> set (Entries ?snap). \<exists>x. e = se_seq_update (\<lambda>_. 0) x" by auto
    then show False using assms(4) by auto
  qed
  then show ?thesis
    by (auto simp: Root_def state_Root_def currentRoot_def state_Snapshot_def p)
      (simp_all add: stateSnapshotToProto_def)
qed

definition ex_valued :: state where
  "ex_valued = (NewState (ex_key 9))\<lparr>core := (new_machine (ex_key 9))
     \<lparr>mchain := new_chain\<lparr>snapshot := \<lparr>Entries = [ex_entry ''a'' 1 1]\<rparr>\<rparr>\<rparr>\<rparr>"

theorem served_snapshot_unverifiable_witness:
  "\<exists>p. GetSnapshot ex_E (ex_service ex_valued) (Some \<lparr>gs_group_key = Some (ex_key 9), gs_root = None\<rparr>) = Inr (p, 0) \<and>
     pbs_root p = Some (state_Root ex_E ex_valued)"
proof -
  have h: "hosted (ex_service ex_valued) (Some (ex_key 9)) = Inr (bytesToKey (ex_key 9), ex_valued)"
    using ex_service_Get [of ex_valued] by (simp add: hosted_Inr ex_valued_def new_machine_def)
  have g: "GetSnapshot ex_E (ex_service ex_valued) (Some \<lparr>gs_group_key = Some (ex_key 9), gs_root = None\<rparr>) =
      Inr (stateSnapshotToProto (state_Snapshot ex_valued) (state_Root ex_E ex_valued), 0)"
    by (simp add: GetSnapshot_def h) (simp add: TransitionCount_def ex_valued_def new_chain_def)
  show ?thesis
    using served_snapshot_unverifiable [OF g] h g
    by (simp add: state_Snapshot_def ex_valued_def wf_snapshot_def wf_entry_def ex_entry_def)
qed

end
