(* ===== verification/HostWrites.thy ===== *)
theory HostWrites
  imports HostRules Persistence
begin

text \<open>
  The write RPCs and the stream of the host service: they reach only the group they name and only
  by steps of its state machine, a submitted transition is where its answer says, a stream
  misses nothing up to the size of its buffer. And what they do not promise: the signature of the
  user of a user action counts for nothing, and evidence from anyone pushes out what was stored.
\<close>

section \<open>What the writes do to a service\<close>

text \<open>A write changes at most the state of one hosted group, and that by steps of the state machine.\<close>

definition writes_one :: "env \<Rightarrow> service \<Rightarrow> service \<Rightarrow> bool" where
  "writes_one E s s' \<longleftrightarrow> s' = s \<or>
     (\<exists>gid st st'. mg_Get (svc_groups s) gid = Some st \<and> (state_step E)\<^sup>*\<^sup>* st st' \<and> s' = set_state s gid st')"

lemma writes_one_step:
  "mg_Get (svc_groups s) gid = Some st \<Longrightarrow> state_step E st st' \<Longrightarrow> writes_one E s (set_state s gid st')"
  unfolding writes_one_def by blast

lemma Apply_step: "Apply E st t inp = (r, st') \<Longrightarrow> state_step E st st'"
  by (rule state_step.call)

lemma SubmitTransition_writes: "writes_one E s (snd (SubmitTransition E s req inp))"
  by (auto simp: SubmitTransition_def hosted_Inr Let_def writes_one_def [of E s s]
      split: option.splits sum.splits prod.splits intro: writes_one_step Apply_step)

lemma SubmitUserAction_writes: "writes_one E s (snd (SubmitUserAction E s req inp))"
  by (auto simp: SubmitUserAction_def hosted_Inr Let_def writes_one_def [of E s s]
      split: option.splits sum.splits prod.splits if_splits intro: writes_one_step Apply_step)

lemma SubmitEvidence_writes: "writes_one E s (snd (SubmitEvidence E s req))"
  by (auto simp: SubmitEvidence_def hosted_Inr writes_one_def [of E s s]
      split: option.splits sum.splits intro: writes_one_step state_step.store)

lemma Subscribe_steps:
  assumes "state_Broadcaster st = (bc, st1)" "Subscribe bc = (ch, bc')"
  shows "state_step E st (st1\<lparr>broadcaster := Some bc'\<rparr>)"
  using state_step.subscribe [OF assms(1), of E] assms(2) by simp

lemma Subscribe_writes: "writes_one E s (snd (host_Subscribe s req))"
proof (cases req)
  case None
  then show ?thesis by (simp add: host_Subscribe_def writes_one_def)
next
  case (Some r)
  show ?thesis
  proof (cases "hosted s (sb_group_key r)")
    case (Inl e)
    then show ?thesis by (simp add: host_Subscribe_def Some writes_one_def)
  next
    case (Inr x)
    obtain gid st where x: "x = (gid, st)" by fastforce
    obtain bc st1 where bc: "state_Broadcaster st = (bc, st1)" by fastforce
    obtain ch bc' where ch: "Subscribe bc = (ch, bc')" by fastforce
    have g: "mg_Get (svc_groups s) gid = Some st" using Inr x by (auto simp: hosted_Inr)
    show ?thesis
      using g Subscribe_steps [OF bc ch, of E] Inr x bc ch
      by (auto simp: host_Subscribe_def Some Let_def writes_one_def)
  qed
qed

text \<open>The operations on a service: the RPCs that write, the registration of a name, and the end of a
  stream.\<close>

inductive service_step :: "env \<Rightarrow> service \<Rightarrow> service \<Rightarrow> bool" for E where
  transition: "SubmitTransition E s req inp = (r, s') \<Longrightarrow> service_step E s s'"
| user_action: "SubmitUserAction E s req inp = (r, s') \<Longrightarrow> service_step E s s'"
| evidence: "SubmitEvidence E s req = (r, s') \<Longrightarrow> service_step E s s'"
| stream: "host_Subscribe s req = (r, s') \<Longrightarrow> service_step E s s'"
| stream_end: "mg_Get (svc_groups s) gid = Some st \<Longrightarrow> service_step E s (set_state s gid (unsubscribe st ch))"
| name: "service_step E s (s\<lparr>svc_groups := RegisterName (svc_groups s) n gid\<rparr>)"

inductive service_run :: "env \<Rightarrow> service \<Rightarrow> service \<Rightarrow> bool" for E s0 where
  start: "service_run E s0 s0"
| step: "service_run E s0 s \<Longrightarrow> service_step E s s' \<Longrightarrow> service_run E s0 s'"

definition hosted_ok :: "group_id \<Rightarrow> state \<Rightarrow> bool" where
  "hosted_ok gid st \<longleftrightarrow> groupID (core st) = gid \<and> machine_inv (core st) \<and> buffers_inv st"

definition service_ok :: "service \<Rightarrow> bool" where
  "service_ok s \<longleftrightarrow> (\<forall>gid st. mg_Get (svc_groups s) gid = Some st \<longrightarrow> hosted_ok gid st)"

lemma Apply_config: "config (core (snd (Apply E s t inp))) = config (core s)"
proof -
  have r: "config (snd (route (core s) t)) = config (core s)" by (rule route_frame(2))
  have b: "config m' = config m" if "apply_body E (enter_branch m t) t inp = (e, m')" for m m' e
    using body_config [of E "enter_branch m t" t inp] that by (simp add: enter_branch_frame)
  show ?thesis
    by (cases rule: apply_cases [of s t E inp]) (use r b in \<open>auto simp: leave_branch_config\<close>)
qed

lemma Apply_groupID: "groupID (core (snd (Apply E s t inp))) = groupID (core s)"
  by (rule config_eqD(1) [OF Apply_config])

lemma state_step_groupID: "state_step E s s' \<Longrightarrow> groupID (core s') = groupID (core s)"
proof (induction rule: state_step.induct)
  case (call s t inp r s')
  then show ?case using Apply_groupID [of E s t inp] by simp
next
  case (check s k p h x r s')
  then have "core s' = snd (checkEquivocationLocked E (core s) k p h x None)"
    by (auto simp: CheckEquivocation_def Let_def split: prod.splits)
  then show ?case using config_eqD(1) [OF check_equiv_frame(4)] by metis
qed (auto simp: StoreEvidence_def state_Broadcaster_def split: option.splits)

lemma steps_hosted_ok: "(state_step E)\<^sup>*\<^sup>* st st' \<Longrightarrow> hosted_ok gid st \<Longrightarrow> hosted_ok gid st'"
  by (induction rule: rtranclp_induct) (auto simp: hosted_ok_def step_inv state_step_groupID dest: step_inv)

lemma writes_one_ok: "writes_one E s s' \<Longrightarrow> service_ok s \<Longrightarrow> service_ok s'"
  unfolding writes_one_def service_ok_def using steps_hosted_ok by (elim disjE exE conjE) (simp, metis Get_set_state option.inject)

lemma unsubscribe_ok: "hosted_ok gid st \<Longrightarrow> hosted_ok gid (unsubscribe st ch)"
  by (auto simp: hosted_ok_def unsubscribe_def buffers_inv_def broadcaster_ok_Unsubscribe split: option.splits)

lemma service_step_ok: "service_step E s s' \<Longrightarrow> service_ok s \<Longrightarrow> service_ok s'"
proof (induction rule: service_step.induct)
  case (transition s req inp r s')
  then show ?case using writes_one_ok [OF SubmitTransition_writes [of E s req inp]] by simp
next
  case (user_action s req inp r s')
  then show ?case using writes_one_ok [OF SubmitUserAction_writes [of E s req inp]] by simp
next
  case (evidence s req r s')
  then show ?case using writes_one_ok [OF SubmitEvidence_writes [of E s req]] by simp
next
  case (stream s req r s')
  then show ?case using writes_one_ok [OF Subscribe_writes [of E s req]] by simp
next
  case (stream_end s gid st ch)
  then show ?case by (simp add: service_ok_def unsubscribe_ok)
next
  case (name s n gid)
  then show ?case by (simp add: service_ok_def RegisterName_def mg_Get_def)
qed

text \<open>A multi-group files every state under its own id; of two states of one group the last is kept.\<close>

lemma NewMultiGroup_get:
  "mg_Get (foldl (\<lambda>mg st. case st of None \<Rightarrow> mg
             | Some s \<Rightarrow> mg\<lparr>mg_byKey := AList.update (state_GroupID s) s (mg_byKey mg)\<rparr>) mg states) gid = Some st \<Longrightarrow>
   mg_Get mg gid = Some st \<or> (Some st \<in> set states \<and> groupID (core st) = gid)"
proof (induction states arbitrary: mg)
  case (Cons a states)
  from Cons.IH [OF Cons.prems [unfolded foldl_Cons]] show ?case
    by (auto simp: mg_Get_def update_conv' state_GroupID_def split: option.splits if_splits)
qed simp

lemma NewService_ok:
  assumes "\<forall>st. Some st \<in> set states \<longrightarrow> fresh st"
  shows "service_ok (NewService name states)"
  using NewMultiGroup_get [of "\<lparr>mg_byKey = [], mg_byName = []\<rparr>" states] assms fresh_inv
  by (fastforce simp: service_ok_def NewService_def NewMultiGroup_def hosted_ok_def mg_Get_def)

section \<open>Accepted transitions\<close>

lemma accepted_authorised:
  assumes "Apply E s t inp = (None, s')" "tp_type (Proto t) \<noteq> CREATE_GROUP"
  shows "authorised E t (stewardsAtLocked E (work_chain (core s) t) (tp_prior_state (Proto t)))
      (thresholdAtLocked E (work_chain (core s) t) (tp_prior_state (Proto t)))"
proof (cases rule: apply_cases [of s t E inp])
  case (commit m m' err s2)
  then show ?thesis
    using body_ok_authorised [OF commit(2)] assms(2) by (auto simp: work_chain_def declares_def)
qed (use assms in auto)

lemma accepted_log:
  assumes "Apply E s t inp = (None, s')" "registry_ok (mbranches (core s))" "\<not> swaps t"
    "int (length (Log s)) < MaxLogSize (core s)"
  shows "Log s' = Log s @ [t]"
proof -
  from assms(1,2) obtain c2 es where "ledger c2 = ledger (work_chain (core s) t)"
    "result_chain (core s') t = commit_chain E (MaxLogSize (core s)) c2 t es"
    by (rule apply_ok_chain) (rule that)
  then show ?thesis
    using assms(3,4) ledgerD(2) [of c2 "mchain (core s)"]
    by (simp add: work_chain_genesis result_chain_def Log_def trim_log_def)
qed

text \<open>The subscribers of a group are told of an accepted transition once.\<close>

lemma accepted_broadcast:
  assumes "Apply E s t inp = (None, s')" "broadcaster s = Some b" "\<not> swaps t"
  shows "broadcaster s' = Some (Broadcast b \<lparr>ev_transition = t, ev_newRoot = state_Root E s',
    ev_index = word_of_nat (length (Log s')) - 1\<rparr>)"
proof (cases rule: apply_cases [of s t E inp])
  case (commit m m' err s2)
  have c: "err = None" "core s' = m'" "broadcaster s' = broadcaster s2"
    using commit(5) assms(1,3) by auto
  have p: "broadcaster (snd (persistLocked E u t inp)) = broadcaster u" for u
    by (auto simp: persistLocked_def split: option.splits prod.splits)
  have "broadcaster s2 = broadcaster (broadcastLocked (s\<lparr>core := m'\<rparr>) t (currentRoot E (mchain m'))
      (word_of_nat (length (log (mchain m'))) - 1))"
    using p commit(3) by (metis snd_conv)
  then show ?thesis using c assms(2) by (simp add: broadcastLocked_def state_Root_def Log_def)
qed (use assms in auto)

section \<open>Streams\<close>

text \<open>The events of a run of accepted transitions, as the broadcaster sends them.\<close>

lemma run_events:
  assumes "accepted_run E s ts = Some s'" "broadcaster s = Some b" "machine_inv (core s)"
    "\<forall>(t, i) \<in> set ts. \<not> swaps t"
    "int (length (Log s) + length ts) \<le> MaxLogSize (core s)"
  shows "\<exists>evs. broadcaster s' = Some (foldl Broadcast b evs) \<and> Log s' = Log s @ map fst ts \<and>
    map ev_transition evs = map fst ts \<and>
    map ev_index evs = map word_of_nat [length (Log s) ..< length (Log s) + length ts]"
  using assms
proof (induction ts arbitrary: s b)
  case (Cons a ts)
  obtain t i where a: "a = (t, i)" by fastforce
  from Cons.prems(1) obtain s1 where s1: "Apply E s t i = (None, s1)" "accepted_run E s1 ts = Some s'"
    unfolding a accepted_run_cons by blast
  let ?ev = "\<lparr>ev_transition = t, ev_newRoot = state_Root E s1, ev_index = word_of_nat (length (Log s1)) - 1\<rparr>"
  have t: "\<not> swaps t" using Cons.prems(4) by (simp add: a)
  have l: "Log s1 = Log s @ [t]"
    by (rule accepted_log [OF s1(1) machine_inv_registry [OF Cons.prems(3)] t]) (use Cons.prems(5) in simp)
  have b: "broadcaster s1 = Some (Broadcast b ?ev)" by (rule accepted_broadcast [OF s1(1) Cons.prems(2) t])
  have r: "machine_inv (core s1)" using Apply_inv [OF Cons.prems(3), of E t i] s1(1) by simp
  have c: "MaxLogSize (core s1) = MaxLogSize (core s)"
    using config_eqD(5) [OF Apply_config [of E s t i]] s1(1) by simp
  obtain evs where evs: "broadcaster s' = Some (foldl Broadcast (Broadcast b ?ev) evs)" "Log s' = Log s1 @ map fst ts"
    "map ev_transition evs = map fst ts"
    "map ev_index evs = map word_of_nat [length (Log s1) ..< length (Log s1) + length ts]"
    using Cons.IH [OF s1(2) b r] Cons.prems(4,5) l c by auto
  show ?case
    by (rule exI [of _ "?ev # evs"]) (use evs in \<open>simp add: a l upt_rec [of "length (Log s)"] Suc_le_eq\<close>)
qed (simp add: accepted_run.simps)

lemma run_log:
  assumes "accepted_run E s ts = Some s'" "machine_inv (core s)" "\<forall>(t, i) \<in> set ts. \<not> swaps t"
    "int (length (Log s) + length ts) \<le> MaxLogSize (core s)"
  shows "Log s' = Log s @ map fst ts \<and> machine_inv (core s') \<and> MaxLogSize (core s') = MaxLogSize (core s)"
  using assms
proof (induction ts arbitrary: s)
  case (Cons a ts)
  obtain t i where a: "a = (t, i)" by fastforce
  from Cons.prems(1) obtain s1 where s1: "Apply E s t i = (None, s1)" "accepted_run E s1 ts = Some s'"
    unfolding a accepted_run_cons by blast
  have "\<not> swaps t" using Cons.prems(3) by (simp add: a)
  then have l: "Log s1 = Log s @ [t]"
    by (rule accepted_log [OF s1(1) machine_inv_registry [OF Cons.prems(2)]]) (use Cons.prems(4) in simp)
  have r: "machine_inv (core s1)" using Apply_inv [OF Cons.prems(2), of E t i] s1(1) by simp
  have c: "MaxLogSize (core s1) = MaxLogSize (core s)"
    using config_eqD(5) [OF Apply_config [of E s t i]] s1(1) by simp
  show ?case using Cons.IH [OF s1(2) r] Cons.prems(3,4) l c by (simp add: a)
qed (simp add: accepted_run.simps)

lemma run_Limiter: "accepted_run E s ts = Some s' \<Longrightarrow> Limiter (core s) = None \<Longrightarrow> Limiter (core s') = None"
proof (induction ts arbitrary: s)
  case (Cons a ts)
  then show ?case by (cases a) (metis Apply_Limiter accepted_run_cons)
qed (simp add: accepted_run.simps)

text \<open>What a new subscriber that does not read yet has in its buffer after some events.\<close>

lemma subscriber_buffer:
  assumes "broadcaster_ok b" "Subscribe b = (ch, b')" "length evs \<le> chan_cap"
  shows "map_of (subs (foldl Broadcast b' evs)) ch = Some evs"
proof -
  have b': "broadcaster_ok b'" using broadcaster_ok_Subscribe [OF assms(1)] assms(2) by simp
  have "map_of (subs b') ch = Some []" using assms(2) by (auto simp: Subscribe_def Let_def update_conv')
  then have "map_of (subs (foldl Broadcast b' evs)) ch = Some (foldl chan_push [] evs)"
    by (rule foldl_broadcast [OF b'])
  moreover have "keep_last chan_cap (foldl chan_push [] evs) = foldl chan_push [] evs"
    using foldl_chan_ok [of "[]" evs] by (simp add: chan_ok_def keep_last_short)
  ultimately show ?thesis
    using chan.items_pushes [of "[]" evs] assms(3) by (auto simp: keep_last_short)
qed

lemma sint_below: "unat (k :: u64) < 2 ^ 63 \<Longrightarrow> sint k = int (unat k)"
proof -
  assume k: "unat k < 2 ^ 63"
  have n: "signed_take_bit 63 (int n) = int n" if "n < 2 ^ 63" for n
    using that by (intro signed_take_bit_int_eq_self) simp_all
  have "uint k = int (unat k)" by simp
  then show "sint k = int (unat k)" using n [OF k] by (simp only: sint_uint) simp
qed

section \<open>Properties\<close>

text \<open>
  C8: the groups of a host do not affect one another and every one of them stays well formed: whatever
  sequence of RPCs a service has served, a group is filed under its own id, its state machine
  satisfies the invariant of the reachable states and so do the buffers of its subscribers; and an
  RPC that writes changes at most one group, by steps of its state machine, and no registered name.
\<close>

theorem hosted_groups_ok:
  assumes "\<forall>st. Some st \<in> set states \<longrightarrow> fresh st" "service_run E (NewService name states) s"
  shows "service_ok s \<and>
    (\<forall>req inp. writes_one E s (snd (SubmitTransition E s req inp))) \<and>
    (\<forall>req inp. writes_one E s (snd (SubmitUserAction E s req inp))) \<and>
    (\<forall>req. writes_one E s (snd (SubmitEvidence E s req))) \<and>
    (\<forall>req. writes_one E s (snd (host_Subscribe s req)))"
proof -
  have "service_ok s"
    using assms(2) by induction (use NewService_ok [OF assms(1)] service_step_ok in blast)+
  then show ?thesis
    by (simp add: SubmitTransition_writes SubmitUserAction_writes SubmitEvidence_writes Subscribe_writes)
qed

theorem hosted_groups_ok_witness:
  "service_ok (snd (SubmitTransition ex_E (NewService ''h'' [Some (NewState (ex_key 9))])
     (Some \<lparr>st_group_key = Some (ex_key 9), st_transition = Some (Proto (ex_event_tx ''a''))\<rparr>) ex_inp))"
proof -
  have f: "\<forall>st. Some st \<in> set [Some (NewState (ex_key 9))] \<longrightarrow> fresh st"
    by (simp add: fresh_def NewState_def new_machine_def)
  show ?thesis
    by (rule conjunct1 [OF hosted_groups_ok [OF f service_run.step [OF service_run.start
              service_step.transition [OF surjective_pairing]]]])
qed

text \<open>
  an accepted SubmitTransition on the genesis chain answers with the position of the transition
  in the log and the root after it, as long as the log is not trimmed; its group's log is the old one
  with the transition appended.
\<close>

theorem SubmitTransition_receipt:
  assumes "SubmitTransition E s (Some \<lparr>st_group_key = Some key, st_transition = Some p\<rparr>) inp = (Inr (snap, idx), s')"
    "mg_Get (svc_groups s) (bytesToKey key) = Some st" "registry_ok (mbranches (core st))"
    "tp_branch_id p = GenesisBranchID \<or> tp_type p = BRANCH_CREATE"
    "int (length (Log st)) < MaxLogSize (core st)" "length (Log st) < 2 ^ 64"
  shows "\<exists>st' t. mg_Get (svc_groups s') (bytesToKey key) = Some st' \<and> NewTransition E p (bytesToKey key) = Some t \<and>
    Log st' = Log st @ [t] \<and> Log st' ! unat idx = t \<and> pbs_root snap = Some (state_Root E st')"
proof -
  have h: "hosted s (Some key) = Inr (bytesToKey key, st)" using assms(2) by (simp add: hosted_Inr)
  from assms(1) obtain t where t: "NewTransition E p (bytesToKey key) = Some t"
    by (cases "NewTransition E p (bytesToKey key)") (simp_all add: SubmitTransition_def h)
  obtain e st' where a: "Apply E st t inp = (e, st')" by fastforce
  from assms(1) have r: "e = None" "idx = TransitionCount st" "s' = set_state s (bytesToKey key) st'"
    "snap = stateSnapshotToProto (state_Snapshot st') (state_Root E st')"
    by (auto simp: SubmitTransition_def h t a Let_def split: option.splits)
  have p: "Proto t = p" using t by (auto simp: NewTransition_def split: option.splits)
  have "Log st' = Log st @ [t]"
    by (rule accepted_log [OF a [unfolded r(1)] assms(3)]) (use assms(4,5) p in \<open>auto simp: swaps_def\<close>)
  moreover have "unat idx = length (Log st)"
    using assms(6) by (simp add: r(2) TransitionCount_def unat_of_nat Log_def)
  ultimately show ?thesis using t r(3,4) by (simp add: stateSnapshotToProto_def)
qed

definition ex_member :: transition where
  "ex_member = ex_tx 0 ADD_MEMBER (Some zero32) (P_AddMember (ex_key 3)) 1 2"

definition ex_member_wire :: transition where
  "ex_member_wire = ex_member\<lparr>canonical := replicate 18 2\<rparr>"

lemma ex_member_wire_made: "NewTransition ex_E (Proto ex_member) (ex_key 9) = Some ex_member_wire"
  by (simp add: NewTransition_def ex_member_wire_def ex_member_def ex_tx_def)

lemma ex_key_id: "bytesToKey (ex_key n) = ex_key n"
  by (simp add: bytesToKey_def ex_key_def)

theorem SubmitTransition_receipt_witness:
  "\<exists>snap s' st'. SubmitTransition ex_E (ex_service (ex_state [1, 2] 1))
     (Some \<lparr>st_group_key = Some (ex_key 9), st_transition = Some (Proto ex_member)\<rparr>) ex_inp = (Inr (snap, 0), s') \<and>
     mg_Get (svc_groups s') (ex_key 9) = Some st' \<and> Log st' = [ex_member_wire]"
proof -
  let ?st = "ex_state [1, 2] 1" and ?s = "ex_service (ex_state [1, 2] 1)"
  have "fst (Apply ex_E ?st ex_member_wire ex_inp) = None"
    by code_simp
  then obtain st' where a: "Apply ex_E ?st ex_member_wire ex_inp = (None, st')" by (metis prod.collapse)
  have g: "mg_Get (svc_groups ?s) (bytesToKey (ex_key 9)) = Some ?st"
    by (rule ex_service_Get) (simp add: ex_state_def new_machine_def)
  then have h: "hosted ?s (Some (ex_key 9)) = Inr (ex_key 9, ?st)" by (simp add: hosted_Inr ex_key_id)
  have l: "Log ?st = []" by (simp add: Log_def ex_state_def new_machine_def ex_chain_def new_chain_def)
  then have c: "TransitionCount ?st = 0" by (simp add: TransitionCount_def Log_def)
  obtain snap s' where r: "SubmitTransition ex_E ?s
     (Some \<lparr>st_group_key = Some (ex_key 9), st_transition = Some (Proto ex_member)\<rparr>) ex_inp = (Inr (snap, 0), s')"
    by (simp del: One_nat_def add: SubmitTransition_def h ex_member_wire_made a c)
  have m: "MaxLogSize (core ?st) = 100000" "tp_branch_id (Proto ex_member) = GenesisBranchID"
    by (simp_all add: ex_state_def new_machine_def ex_member_def GenesisBranchID_def)
  from SubmitTransition_receipt [OF r g] show ?thesis
    using l m r by (auto simp: ex_key_id ex_member_wire_made)
qed

text \<open>
  the user of a user action authorises nothing: the envelope with the user's signature does not
  influence the answer or the state, and an accepted RSVP, CANCEL_RSVP or ATTEST carries the
  signatures of the threshold of stewards of its prior state, like any other transition.
\<close>

theorem SubmitUserAction_needs_stewards:
  assumes "SubmitUserAction E s (Some r) inp = (Inr snap, s')"
  shows "(\<exists>gid st p t. hosted s (ua_group_key r) = Inr (gid, st) \<and>
      unmarshal_transition E (ua_transition_payload r) = Some p \<and>
      NewTransition E (stamp_prior E st p) gid = Some t \<and> tp_type p \<in> {RSVP, CANCEL_RSVP, ATTEST} \<and>
      authorised E t (stewardsAtLocked E (work_chain (core st) t) (tp_prior_state (Proto t)))
        (thresholdAtLocked E (work_chain (core st) t) (tp_prior_state (Proto t)))) \<and>
    (\<forall>envelope. SubmitUserAction E s (Some (r\<lparr>ua_user_envelope := envelope\<rparr>)) inp = (Inr snap, s'))"
proof -
  from assms have q: "ua_type r \<in> {RSVP, CANCEL_RSVP, ATTEST}"
    by (auto simp: SubmitUserAction_def split: if_splits)
  from assms obtain raw where k: "ua_group_key r = Some raw" by (auto simp: SubmitUserAction_def split: if_splits)
  with assms obtain gid st where h: "hosted s (Some raw) = Inr (gid, st)"
    by (auto simp: SubmitUserAction_def split: if_splits sum.splits)
  from assms obtain p where p: "unmarshal_transition E (ua_transition_payload r) = Some p" "tp_type p = ua_type r"
    by (auto simp: SubmitUserAction_def k h split: if_splits option.splits)
  from assms obtain t st' where t: "NewTransition E (stamp_prior E st p) gid = Some t" "Apply E st t inp = (None, st')"
    by (auto simp: SubmitUserAction_def k h p split: if_splits option.splits prod.splits)
  have "Proto t = stamp_prior E st p" using t(1) by (auto simp: NewTransition_def split: option.splits)
  then have "tp_type (Proto t) \<noteq> CREATE_GROUP" using p(2) q by (auto simp: stamp_prior_def)
  from accepted_authorised [OF t(2) this] k h p q t(1) have
    "\<exists>gid st p t. hosted s (ua_group_key r) = Inr (gid, st) \<and>
      unmarshal_transition E (ua_transition_payload r) = Some p \<and>
      NewTransition E (stamp_prior E st p) gid = Some t \<and> tp_type p \<in> {RSVP, CANCEL_RSVP, ATTEST} \<and>
      authorised E t (stewardsAtLocked E (work_chain (core st) t) (tp_prior_state (Proto t)))
        (thresholdAtLocked E (work_chain (core st) t) (tp_prior_state (Proto t)))"
    by metis
  moreover have "SubmitUserAction E s (Some (r\<lparr>ua_user_envelope := envelope\<rparr>)) inp = (Inr snap, s')" for envelope
  proof -
    have "SubmitUserAction E s (Some (r\<lparr>ua_user_envelope := envelope\<rparr>)) inp = SubmitUserAction E s (Some r) inp"
    proof -
      have sel: "ua_type (r\<lparr>ua_user_envelope := envelope\<rparr>) = ua_type r"
        "ua_group_key (r\<lparr>ua_user_envelope := envelope\<rparr>) = ua_group_key r"
        "ua_transition_payload (r\<lparr>ua_user_envelope := envelope\<rparr>) = ua_transition_payload r" by simp_all
      show ?thesis by (simp only: SubmitUserAction_def option.case sel)
    qed
    then show ?thesis using assms by simp
  qed
  ultimately show ?thesis by blast
qed

definition ex_rsvp :: transition where
  "ex_rsvp = ex_tx 0 RSVP (Some zero32) (P_Rsvp ''e'' (ex_key 3)) 1 2"

definition ex_E_rsvp :: env where
  "ex_E_rsvp = ex_E\<lparr>unmarshal_transition := (\<lambda>_. Some (Proto ex_rsvp))\<rparr>"

definition ex_user_request :: submit_user_action_request where
  "ex_user_request = \<lparr>ua_group_key = Some (ex_key 9), ua_type = RSVP, ua_user_envelope = None,
     ua_transition_payload = [1]\<rparr>"

theorem SubmitUserAction_needs_stewards_witness:
  "\<exists>snap s'. SubmitUserAction ex_E_rsvp (ex_service (ex_state [1, 2] 1)) (Some ex_user_request) ex_inp = (Inr snap, s') \<and>
     SubmitUserAction ex_E_rsvp (ex_service (ex_state [1, 2] 1))
       (Some (ex_user_request\<lparr>ua_user_envelope := Some [5]\<rparr>)) ex_inp = (Inr snap, s')"
proof -
  let ?st = "ex_state [1, 2] 1" and ?s = "ex_service (ex_state [1, 2] 1)"
  let ?t = "ex_rsvp\<lparr>canonical := replicate 18 2\<rparr>"
  have "fst (Apply ex_E_rsvp ?st ?t ex_inp) = None" by code_simp
  then obtain st' where a: "Apply ex_E_rsvp ?st ?t ex_inp = (None, st')" by (metis prod.collapse)
  have h: "hosted ?s (Some (ex_key 9)) = Inr (ex_key 9, ?st)"
    using ex_service_Get [of ?st] by (simp add: hosted_Inr ex_key_id ex_state_def new_machine_def)
  have t: "NewTransition ex_E_rsvp (stamp_prior ex_E_rsvp ?st (Proto ex_rsvp)) (ex_key 9) = Some ?t"
    by (simp add: NewTransition_def stamp_prior_def ex_E_rsvp_def ex_rsvp_def ex_tx_def)
  have u: "unmarshal_transition ex_E_rsvp [1] = Some (Proto ex_rsvp)" "tp_type (Proto ex_rsvp) = RSVP"
    by (simp_all add: ex_E_rsvp_def ex_rsvp_def)
  obtain snap s' where r: "SubmitUserAction ex_E_rsvp ?s (Some ex_user_request) ex_inp = (Inr snap, s')"
    by (simp del: One_nat_def add: SubmitUserAction_def ex_user_request_def h u t a)
  then show ?thesis using SubmitUserAction_needs_stewards [OF r] by blast
qed

definition submit_all :: "env \<Rightarrow> service \<Rightarrow> evidence_envelope list \<Rightarrow> service" where
  "submit_all E s reqs = foldl (\<lambda>s r. snd (SubmitEvidence E s (Some r))) s reqs"

text \<open>The record that a well-formed envelope leaves.\<close>

definition evidence_of :: "env \<Rightarrow> group_id \<Rightarrow> evidence_envelope \<Rightarrow> evidence" where
  "evidence_of E gid r = \<lparr>evd_GroupID = gid, evd_StewardKey = copy32 (ee_steward_key r),
     evd_PriorState = copy32 (ee_prior_state r),
     evd_TransitionA = the (evidence_transition E gid (ee_transition_a r)),
     evd_TransitionB = the (evidence_transition E gid (ee_transition_b r))\<rparr>"

lemma SubmitEvidence_stores:
  assumes "mg_Get (svc_groups s) (bytesToKey key) = Some st" "ee_group_key r = Some key"
    "evidence_transition E (bytesToKey key) (ee_transition_a r) \<noteq> None"
    "evidence_transition E (bytesToKey key) (ee_transition_b r) \<noteq> None"
  shows "snd (SubmitEvidence E s (Some r)) = set_state s (bytesToKey key)
    (st\<lparr>core := StoreEvidence (core st) (evidence_of E (bytesToKey key) r)\<rparr>)"
  using assms by (auto simp: SubmitEvidence_def hosted_def lookup_group_def evidence_of_def)

lemma submit_all_stores:
  assumes "mg_Get (svc_groups s) (bytesToKey key) = Some st" "MaxEvidenceEntries (core st) = int (Suc n)"
    "\<forall>r \<in> set reqs. ee_group_key r = Some key \<and> evidence_transition E (bytesToKey key) (ee_transition_a r) \<noteq> None \<and>
       evidence_transition E (bytesToKey key) (ee_transition_b r) \<noteq> None"
  shows "\<exists>st'. mg_Get (svc_groups (submit_all E s reqs)) (bytesToKey key) = Some st' \<and>
    StoredEvidence (core st') =
      foldl (store_evidence (int (Suc n))) (StoredEvidence (core st)) (map (evidence_of E (bytesToKey key)) reqs)"
  using assms
proof (induction reqs arbitrary: s st)
  case (Cons r reqs)
  let ?st = "st\<lparr>core := StoreEvidence (core st) (evidence_of E (bytesToKey key) r)\<rparr>"
  have s: "snd (SubmitEvidence E s (Some r)) = set_state s (bytesToKey key) ?st"
    using Cons.prems by (intro SubmitEvidence_stores) simp_all
  have "MaxEvidenceEntries (core ?st) = int (Suc n)" using Cons.prems(2) by (simp add: StoreEvidence_def)
  moreover have "StoredEvidence (core ?st) =
      store_evidence (int (Suc n)) (StoredEvidence (core st)) (evidence_of E (bytesToKey key) r)"
    by (simp only: StoreEvidence_def StoredEvidence_def Cons.prems(2)) simp
  moreover have "mg_Get (svc_groups (set_state s (bytesToKey key) ?st)) (bytesToKey key) = Some ?st" by simp
  ultimately show ?case using Cons.IH [of "set_state s (bytesToKey key) ?st" ?st] Cons.prems(3)
    by (simp add: submit_all_def s)
qed (simp add: submit_all_def)

text \<open>
  anyone can erase the evidence of a group: SubmitEvidence asks for no signature, and after as many
  accepted calls as the list holds, whatever they contain, nothing of what was stored before is left.
\<close>

theorem evidence_flushed:
  assumes "mg_Get (svc_groups s) (bytesToKey key) = Some st" "0 < MaxEvidenceEntries (core st)"
    "\<forall>r \<in> set reqs. ee_group_key r = Some key \<and> ee_transition_a r = None \<and> ee_transition_b r = None"
    "MaxEvidenceEntries (core st) \<le> int (length reqs)"
  shows "\<exists>st'. mg_Get (svc_groups (submit_all E s reqs)) (bytesToKey key) = Some st' \<and>
    StoredEvidence (core st') =
      keep_last (nat (MaxEvidenceEntries (core st))) (map (evidence_of E (bytesToKey key)) reqs)"
proof -
  obtain n where n: "MaxEvidenceEntries (core st) = int (Suc n)"
    using assms(2) by (metis Suc_pred' int_nat_eq less_imp_le nat_0_iff neq0_conv not_le)
  have "\<forall>r \<in> set reqs. ee_group_key r = Some key \<and> evidence_transition E (bytesToKey key) (ee_transition_a r) \<noteq> None \<and>
       evidence_transition E (bytesToKey key) (ee_transition_b r) \<noteq> None"
    using assms(3) by (simp add: evidence_transition_def)
  from submit_all_stores [OF assms(1) n this] obtain st' where
    st': "mg_Get (svc_groups (submit_all E s reqs)) (bytesToKey key) = Some st'"
      "StoredEvidence (core st') =
        foldl (store_evidence (int (Suc n))) (StoredEvidence (core st)) (map (evidence_of E (bytesToKey key)) reqs)"
    by blast
  have "reqs \<noteq> []" "Suc n \<le> length reqs" using assms(4) n by auto
  then have "StoredEvidence (core st') =
      keep_last (Suc n) (StoredEvidence (core st) @ map (evidence_of E (bytesToKey key)) reqs)"
    using evq.items_pushes [of n "StoredEvidence (core st)" "map (evidence_of E (bytesToKey key)) reqs"] st'(2) by simp
  also have "\<dots> = keep_last (Suc n) (map (evidence_of E (bytesToKey key)) reqs)"
    using \<open>Suc n \<le> length reqs\<close> by (simp add: keep_last_def)
  finally have "StoredEvidence (core st') = keep_last (Suc n) (map (evidence_of E (bytesToKey key)) reqs)" .
  moreover have "nat (MaxEvidenceEntries (core st)) = Suc n" by (simp only: n nat_int)
  ultimately show ?thesis using st'(1) by simp
qed

definition ex_evidence_request :: evidence_envelope where
  "ex_evidence_request = \<lparr>ee_group_key = Some (ex_key 9), ee_steward_key = ex_key 5, ee_prior_state = zero32,
     ee_transition_a = None, ee_transition_b = None\<rparr>"

definition ex_small :: state where
  "ex_small = (ex_state [1, 2] 1)\<lparr>core := (core (ex_state [1, 2] 1))\<lparr>MaxEvidenceEntries := 2,
     equivocationEvidence := [\<lparr>evd_GroupID = ex_key 9, evd_StewardKey = ex_key 1, evd_PriorState = zero32,
       evd_TransitionA = Some ex_member, evd_TransitionB = Some ex_rsvp\<rparr>]\<rparr>\<rparr>"

theorem evidence_flushed_witness:
  "\<exists>st'. mg_Get (svc_groups (submit_all ex_E (ex_service ex_small) [ex_evidence_request, ex_evidence_request]))
       (bytesToKey (ex_key 9)) = Some st' \<and>
     StoredEvidence (core st') = [evidence_of ex_E (ex_key 9) ex_evidence_request, evidence_of ex_E (ex_key 9) ex_evidence_request]"
proof -
  have g: "mg_Get (svc_groups (ex_service ex_small)) (bytesToKey (ex_key 9)) = Some ex_small"
    by (rule ex_service_Get) (simp add: ex_small_def ex_state_def new_machine_def)
  have m: "MaxEvidenceEntries (core ex_small) = 2" by (simp add: ex_small_def)
  show ?thesis
    using evidence_flushed [OF g, of "[ex_evidence_request, ex_evidence_request]" ex_E]
    by (simp add: m ex_evidence_request_def ex_key_id keep_last_def)
qed

lemma replayed:
  assumes "k \<noteq> 0" "unat k < 2 ^ 63"
  shows "\<exists>evs. replay_stream gid k txs rt = Some evs \<and> map te_Transition evs = map Proto (drop (unat k) txs) \<and>
    map te_TransitionIndex evs = map word_of_nat [unat k ..< length txs]"
proof -
  have k: "0 < k" "\<not> sint k < 0" "nat (sint k) = unat k"
    using sint_below [OF assms(2)] assms(1) by (simp_all add: word_gt_0)
  have "map te_Transition (map (replay_event gid txs rt) [unat k ..< length txs]) = map Proto (drop (unat k) txs)"
    by (auto simp: replay_event_def intro: nth_equalityI)
  then show ?thesis using k by (simp add: replay_stream_def replay_event_def comp_def)
qed

lemma subscribe_stream:
  assumes "host_Subscribe s (Some \<lparr>sb_group_key = Some key, sb_since_index = k\<rparr>) = (Inr (gid, ch), s')"
    "mg_Get (svc_groups s) (bytesToKey key) = Some st" "hosted_ok (bytesToKey key) st"
    "mg_Get (svc_groups s') (bytesToKey key) = Some st1"
    "accepted_run E st1 w = Some stL" "accepted_run E stL v = Some st2"
    "\<forall>(t, i) \<in> set (w @ v). \<not> swaps t" "length (w @ v) \<le> chan_cap"
    "int (length (Log st) + length (w @ v)) \<le> MaxLogSize (core st)" "k \<noteq> 0" "unat k < 2 ^ 63"
  shows "core st1 = core st \<and> Log stL = Log st @ map fst w \<and> Log st2 = Log stL @ map fst v \<and>
    (\<exists>evs bc waiting. replay_stream gid k (Log stL) rt = Some evs \<and> broadcaster st2 = Some bc \<and>
      map_of (subs bc) ch = Some waiting \<and>
      map te_Transition evs = map Proto (drop (unat k) (Log stL)) \<and>
      map te_TransitionIndex evs = map word_of_nat [unat k ..< length (Log stL)] \<and>
      map te_Transition (map (live_event gid) waiting) = map Proto (map fst (w @ v)) \<and>
      map te_TransitionIndex (map (live_event gid) waiting) = map word_of_nat [length (Log st) ..< length (Log st2)])"
proof -
  have h: "hosted s (Some key) = Inr (bytesToKey key, st)" using assms(2) by (simp add: hosted_Inr)
  obtain bc0 st0 where b: "state_Broadcaster st = (bc0, st0)" by fastforce
  obtain ch' bc1 where c: "Subscribe bc0 = (ch', bc1)" by fastforce
  let ?st1 = "st0\<lparr>broadcaster := Some bc1\<rparr>"
  from assms(1) have r: "gid = bytesToKey key" "ch = ch'" "s' = set_state s (bytesToKey key) ?st1"
    by (auto simp: host_Subscribe_def h b c Let_def)
  have st1: "st1 = ?st1" using assms(4) r(3) by simp
  have s0: "core st0 = core st" "broadcaster_ok bc0"
    using state_Broadcaster_inv [OF b] assms(3) by (simp_all add: hosted_ok_def)
  then have l: "Log ?st1 = Log st" "core ?st1 = core st" by (simp_all add: Log_def)
  have inv: "machine_inv (core st)" using assms(3) by (simp add: hosted_ok_def)
  have L: "Log stL = Log st @ map fst w"
    using run_events [of E ?st1 w stL bc1] assms(5,7,9) st1 l inv by auto
  have run: "accepted_run E ?st1 (w @ v) = Some st2" using assms(5,6) by (simp add: accepted_run_append st1)
  obtain later where later: "broadcaster st2 = Some (foldl Broadcast bc1 later)" "Log st2 = Log st @ map fst (w @ v)"
    "map ev_transition later = map fst (w @ v)"
    "map ev_index later = map word_of_nat [length (Log st) ..< length (Log st) + length (w @ v)]"
    using run_events [OF run, of bc1] assms(7,9) l inv by auto
  have "length later = length (w @ v)" using later(3) by (metis length_map)
  then have wait: "map_of (subs (foldl Broadcast bc1 later)) ch = Some later"
    using subscriber_buffer [OF s0(2) c] assms(8) r(2) by simp
  have live: "map te_Transition (map (live_event gid) later) = map Proto (map fst (w @ v))"
    "map te_TransitionIndex (map (live_event gid) later) = map word_of_nat [length (Log st) ..< length (Log st2)]"
    unfolding later(3) [symmetric] using later(4) by (simp_all add: live_event_def comp_def later(2))
  show ?thesis
    using st1 l(2) L later(1,2) wait live replayed [OF assms(10,11), of gid "Log stL" rt] by simp
qed

text \<open>A group with one member accepts a second one after the subscription, and a third one after the log was read.\<close>

definition ex_mid :: state where
  "ex_mid = snd (Apply ex_E (ex_state [1, 2] 1) ex_member_wire ex_inp)"

definition ex_second :: transition where
  "ex_second = (ex_tx 0 ADD_MEMBER (Some (state_Root ex_E ex_mid)) (P_AddMember (ex_key 4)) 1 3)\<lparr>canonical := replicate 18 3\<rparr>"

definition ex_listened :: state where
  "ex_listened = ex_mid\<lparr>broadcaster := Some (snd (Subscribe NewBroadcaster))\<rparr>"

definition ex_late :: state where
  "ex_late = snd (Apply ex_E ex_listened ex_second ex_inp)"

definition ex_third :: transition where
  "ex_third = (ex_tx 0 ADD_MEMBER (Some (state_Root ex_E ex_late)) (P_AddMember (ex_key 5)) 1 4)\<lparr>canonical := replicate 18 4\<rparr>"

lemma ex_mid_run: "accepted_run ex_E (ex_state [1, 2] 1) [(ex_member_wire, ex_inp)] = Some ex_mid"
proof -
  have "fst (Apply ex_E (ex_state [1, 2] 1) ex_member_wire ex_inp) = None" by code_simp
  then show ?thesis
    by (cases "Apply ex_E (ex_state [1, 2] 1) ex_member_wire ex_inp") (simp add: ex_mid_def accepted_run.simps)
qed

lemma ex_mid_facts:
  "Log ex_mid = [ex_member_wire]" "machine_inv (core ex_mid)" "groupID (core ex_mid) = ex_key 9"
  "MaxLogSize (core ex_mid) = 100000" "Limiter (core ex_mid) = None" "broadcaster ex_mid = None"
proof -
  have c: "groupID (core ex_mid) = groupID (core (ex_state [1, 2] 1))"
    using config_eqD(1) [OF Apply_config [of ex_E "ex_state [1, 2] 1"]] by (simp add: ex_mid_def)
  have m: "\<forall>(t, i) \<in> set [(ex_member_wire, ex_inp)]. \<not> swaps t"
    by (simp add: ex_member_wire_def ex_member_def swaps_def ex_tx_def GenesisBranchID_def)
  have l: "Log (ex_state [1, 2] 1) = []" "MaxLogSize (core (ex_state [1, 2] 1)) = 100000" "Limiter (core (ex_state [1, 2] 1)) = None"
    by (simp_all add: Log_def ex_state_def new_machine_def ex_chain_def new_chain_def)
  show "Log ex_mid = [ex_member_wire]" "machine_inv (core ex_mid)" "MaxLogSize (core ex_mid) = 100000"
    using run_log [OF ex_mid_run ex_state_inv m] l by simp_all
  show "groupID (core ex_mid) = ex_key 9" using c by (simp add: ex_state_def new_machine_def)
  show "Limiter (core ex_mid) = None" using run_Limiter [OF ex_mid_run] l by simp
  show "broadcaster ex_mid = None" by code_simp
qed

lemma ex_late_run: "accepted_run ex_E ex_listened [(ex_second, ex_inp)] = Some ex_late"
proof -
  have "fst (Apply ex_E ex_listened ex_second ex_inp) = None" by code_simp
  then show ?thesis
    by (cases "Apply ex_E ex_listened ex_second ex_inp") (simp add: ex_late_def accepted_run.simps)
qed

lemma ex_third_run: "\<exists>st2. accepted_run ex_E ex_late [(ex_third, ex_inp)] = Some st2"
proof -
  have "fst (Apply ex_E ex_late ex_third ex_inp) = None" by code_simp
  then show ?thesis by (cases "Apply ex_E ex_late ex_third ex_inp") (simp add: accepted_run.simps)
qed

lemma ex_genesis: "\<not> swaps ex_member_wire" "\<not> swaps ex_second" "\<not> swaps ex_third"
  by (simp_all add: ex_member_wire_def ex_member_def ex_second_def ex_third_def swaps_def ex_tx_def GenesisBranchID_def)

lemma ex_mid_subscribe:
  "host_Subscribe (ex_service ex_mid) (Some \<lparr>sb_group_key = Some (ex_key 9), sb_since_index = k\<rparr>) =
     (Inr (ex_key 9, 0), set_state (ex_service ex_mid) (ex_key 9) ex_listened)"
  "mg_Get (svc_groups (ex_service ex_mid)) (bytesToKey (ex_key 9)) = Some ex_mid"
  "hosted_ok (bytesToKey (ex_key 9)) ex_mid"
  "mg_Get (svc_groups (set_state (ex_service ex_mid) (ex_key 9) ex_listened)) (bytesToKey (ex_key 9)) = Some ex_listened"
proof -
  show g: "mg_Get (svc_groups (ex_service ex_mid)) (bytesToKey (ex_key 9)) = Some ex_mid"
    using ex_service_Get [of ex_mid] ex_mid_facts(3) by (simp add: ex_key_id)
  then have h: "hosted (ex_service ex_mid) (Some (ex_key 9)) = Inr (ex_key 9, ex_mid)" by (simp add: hosted_Inr ex_key_id)
  have b: "state_Broadcaster ex_mid = (NewBroadcaster, ex_mid\<lparr>broadcaster := Some NewBroadcaster\<rparr>)"
    using ex_mid_facts(6) by (simp add: state_Broadcaster_def)
  show "host_Subscribe (ex_service ex_mid) (Some \<lparr>sb_group_key = Some (ex_key 9), sb_since_index = k\<rparr>) =
      (Inr (ex_key 9, 0), set_state (ex_service ex_mid) (ex_key 9) ex_listened)"
    by (simp add: host_Subscribe_def h b) (simp add: Subscribe_def NewBroadcaster_def Let_def ex_listened_def)
  show "hosted_ok (bytesToKey (ex_key 9)) ex_mid"
    using ex_mid_facts by (simp add: hosted_ok_def ex_key_id buffers_inv_def)
qed (simp add: ex_key_id)

text \<open>
  C14: a stream misses nothing while its buffer holds. The group may accept transitions after the handler has
  subscribed and before it reads the log (\<open>w\<close>), and after that (\<open>v\<close>). A client of a well-formed group that
  asks for the positions from \<open>k\<close> on (positive, below 2^63) gets first the log from position \<open>k\<close> on as it was when it was read, and
  then, from its channel, the log from where it ended at the subscription on, with its positions. So if nothing was
  accepted in between, it gets the log from \<open>k\<close> on, each transition once; otherwise the transitions \<open>w\<close> come
  twice. The two runs consist of accepted genesis-branch transitions, at most 64 together, of which the client has
  received none from its channel yet, and the log stays within its cap. (The handler's comment says that the replay begins after
  position \<open>k\<close>; it begins at \<open>k\<close>.)
\<close>

theorem subscribe_gapless:
  assumes "host_Subscribe s (Some \<lparr>sb_group_key = Some key, sb_since_index = k\<rparr>) = (Inr (gid, ch), s')"
    "mg_Get (svc_groups s) (bytesToKey key) = Some st" "hosted_ok (bytesToKey key) st"
    "mg_Get (svc_groups s') (bytesToKey key) = Some st1"
    "accepted_run E st1 w = Some stL" "accepted_run E stL v = Some st2"
    "\<forall>(t, i) \<in> set (w @ v). \<not> swaps t" "length (w @ v) \<le> chan_cap"
    "int (length (Log st) + length (w @ v)) \<le> MaxLogSize (core st)" "k \<noteq> 0" "unat k < 2 ^ 63"
  shows "Log stL = Log st @ map fst w \<and> Log st2 = Log stL @ map fst v \<and>
    (\<exists>evs bc waiting. replay_stream gid k (Log stL) rt = Some evs \<and> broadcaster st2 = Some bc \<and>
      map_of (subs bc) ch = Some waiting \<and>
      map te_Transition (evs @ map (live_event gid) waiting) =
        map Proto (drop (unat k) (Log stL) @ drop (length (Log st)) (Log st2)) \<and>
      map te_TransitionIndex (evs @ map (live_event gid) waiting) =
        map word_of_nat ([unat k ..< length (Log stL)] @ [length (Log st) ..< length (Log st2)]))"
  using subscribe_stream [OF assms, of rt] by auto

text \<open>The second member is accepted before the log is read, and comes twice.\<close>

theorem subscribe_gapless_witness:
  "\<exists>evs st2 bc waiting. replay_stream (ex_key 9) 1 (Log ex_late) zero32 = Some evs \<and>
     accepted_run ex_E ex_late [(ex_third, ex_inp)] = Some st2 \<and> broadcaster st2 = Some bc \<and> map_of (subs bc) 0 = Some waiting \<and>
     map te_Transition (evs @ map (live_event (ex_key 9)) waiting) = map Proto [ex_second, ex_second, ex_third]"
proof -
  obtain st2 where r: "accepted_run ex_E ex_late [(ex_third, ex_inp)] = Some st2" using ex_third_run by blast
  have "\<forall>(t, i) \<in> set ([(ex_second, ex_inp)] @ [(ex_third, ex_inp)]). \<not> swaps t" using ex_genesis by simp
  from subscribe_gapless [OF ex_mid_subscribe ex_late_run r this, where rt = zero32 and k = 1] show ?thesis
    using r ex_mid_facts by (auto simp: chan_cap_def)
qed

end
