(* ===== verification/Federation.thy ===== *)
theory Federation
  imports Host GoStrings
begin

text \<open>
  The federation syncer (internal/federation/syncer.go): the client that mirrors the group of a peer
  host into a local state, by pages of the peer's log (Bootstrap) and by its stream of events
  (Live), and compares the roots (Verify). A peer is a function of the number of the call and the request, so that
  it may answer the same request differently; \<open>None\<close> is an error of the call. The texts of the group's errors
  are here too, since the syncer recognises a duplicate by its text.
\<close>

section \<open>The texts of the errors of Apply\<close>

text \<open>An em dash in UTF-8.\<close>

definition dash :: string where
  "dash = [CHR 0xE2, CHR 0x80, CHR 0x94]"

definition rejected :: "string \<Rightarrow> string" where
  "rejected what = ''group: '' @ what @ '' rejected '' @ dash @ '' ''"

fun type_name :: "ttype \<Rightarrow> string" where
  "type_name TT_UNSPECIFIED = ''UNSPECIFIED''"
| "type_name CREATE_GROUP = ''CREATE_GROUP''"
| "type_name ADD_STEWARD = ''ADD_STEWARD''"
| "type_name REMOVE_STEWARD = ''REMOVE_STEWARD''"
| "type_name CHANGE_THRESHOLD = ''CHANGE_THRESHOLD''"
| "type_name ADD_MEMBER = ''ADD_MEMBER''"
| "type_name REMOVE_MEMBER = ''REMOVE_MEMBER''"
| "type_name CREATE_EVENT = ''CREATE_EVENT''"
| "type_name UPDATE_EVENT = ''UPDATE_EVENT''"
| "type_name CANCEL_EVENT = ''CANCEL_EVENT''"
| "type_name RSVP = ''RSVP''"
| "type_name CANCEL_RSVP = ''CANCEL_RSVP''"
| "type_name ATTEST = ''ATTEST''"
| "type_name FORK = ''FORK''"
| "type_name MIGRATE = ''MIGRATE''"
| "type_name ISSUE_HOST_CERT = ''ISSUE_HOST_CERT''"
| "type_name REVOKE_HOST_CERT = ''REVOKE_HOST_CERT''"
| "type_name ADD_HOST_PEER = ''ADD_HOST_PEER''"
| "type_name REMOVE_HOST_PEER = ''REMOVE_HOST_PEER''"
| "type_name DECLARE_STEWARD_CUSTODY = ''DECLARE_STEWARD_CUSTODY''"
| "type_name SLASH_STEWARD = ''SLASH_STEWARD''"
| "type_name NAME_BIND = ''NAME_BIND''"
| "type_name BRANCH_CREATE = ''BRANCH_CREATE''"
| "type_name (TT_OTHER n) = dec_int n"

text \<open>\<open>detail\<close> is the part of a text that the error does not carry: the figures of the rate limiter, the
  deadline, the message of a library.\<close>

fun route_text :: "string \<Rightarrow> route_error \<Rightarrow> string" where
  "route_text detail (UnknownBranch i) = ''group: transition targets unknown branch '' @ dec_nat (unat i)"
| "route_text detail (MaxBranchesExceeded cap n) = rejected ''BRANCH_CREATE'' @
     ''would exceed MaxBranches='' @ dec_int cap @ '' (current='' @ dec_int n @ '')''"
| "route_text detail (InvalidHLCSize n) = ''group: invalid HLC size '' @ dec_nat n @ '' (want '' @ dec_nat Size @ '')''"
| "route_text detail (PriorStateMismatch have got) =
     ''group: prior_state mismatch (have '' @ hex have @ '', got '' @ hex got @ '')''"
| "route_text detail (RateLimited steward gid) = ''ratelimit: steward '' @ hex steward @ '' exceeded '' @ detail"
| "route_text detail (EquivocationDetected steward prior) = ''group: equivocation detected '' @ dash @ '' steward '' @
     hex (take 8 steward) @ '' signed a conflicting transition at prior_state '' @ hex (take 8 prior)"

fun crypto_text :: "crypto_error \<Rightarrow> string" where
  "crypto_text VerificationFailed = ''crypto: signature verification failed''"
| "crypto_text ThresholdZero = ''crypto: threshold must be > 0''"
| "crypto_text (NeedSignatures n threshold) =
     ''crypto: '' @ dec_nat (unat n) @ '' signatures, need threshold '' @ dec_nat (unat threshold)"
| "crypto_text (NeedDistinct n threshold) =
     ''crypto: only '' @ dec_nat n @ '' distinct valid signatures, need '' @ dec_nat (unat threshold)"
| "crypto_text _ = ''''"

fun envelope_text :: "envelope_error \<Rightarrow> string" where
  "envelope_text FirstNotCreateGroup = ''group: first transition must be CREATE_GROUP''"
| "envelope_text CreateThresholdZero = rejected ''CREATE_GROUP'' @ ''threshold must be > 0''"
| "envelope_text CreateInsufficientSignatures = ''group: CREATE_GROUP has insufficient signatures for declared threshold''"
| "envelope_text (CreateSignatureVerification e) = ''group: CREATE_GROUP signature verification: '' @ crypto_text e"
| "envelope_text NoStewardSignatures = ''group: signature verification: group: transition has no steward signatures''"
| "envelope_text (SignatureVerification e) = ''group: signature verification: '' @ crypto_text e"

fun field_text :: "field_error \<Rightarrow> string" where
  "field_text (FieldTooShort name n lo) = ''group: '' @ name @ '' is too short ('' @ dec_nat n @ '' bytes, min '' @ dec_nat lo @ '')''"
| "field_text (FieldTooLong name n hi) = ''group: '' @ name @ '' is too long ('' @ dec_nat n @ '' bytes, max '' @ dec_nat hi @ '')''"
| "field_text (FieldInvalidUTF8 name) = ''group: '' @ name @ '' contains invalid UTF-8''"

text \<open>groupError.Error: the kind and the message.\<close>

fun mesh_text :: "mesh_error \<Rightarrow> string" where
  "mesh_text ErrDuplicateMeshPeer = ''duplicate_mesh_peer: peer with this wg key already in the mesh''"
| "mesh_text ErrDuplicateMeshIP = ''duplicate_mesh_ip: mesh IP already assigned to another peer''"
| "mesh_text ErrInvalidMeshPeer = ''invalid_mesh_peer: mesh peer must have a 32-byte wg public key''"
| "mesh_text ErrUnknownMeshPeer = ''unknown_mesh_peer: no peer with this wg key in the mesh''"

fun peer_text :: "peer_error \<Rightarrow> string" where
  "peer_text (MeshIPLength n) = rejected ''ADD_HOST_PEER'' @ ''mesh_ip must be 4 or 16 bytes, got '' @ dec_nat n"
| "peer_text CosignerKeySize = rejected ''ADD_HOST_PEER'' @ ''cosigner_peer_key must be 32 bytes''"
| "peer_text (CosignerNotMember key) = rejected ''ADD_HOST_PEER'' @ ''co-signer '' @ hex (take 8 key) @ '' is not a current mesh member''"
| "peer_text CosignatureInvalid = ''group: ADD_HOST_PEER co-signature does not verify''"
| "peer_text (MeshPeersOverCap n cap) = rejected ''ADD_HOST_PEER'' @ ''mesh peer count would grow to '' @ dec_int n @
     '', MaxMeshPeers='' @ dec_int cap"

fun rule_error_text :: "string \<Rightarrow> rule_error \<Rightarrow> string" where
  "rule_error_text detail (AddStewardOverCap n cap) = rejected ''ADD_STEWARD'' @ ''steward set would grow to '' @ dec_nat n @
     '', MaxStewards='' @ dec_int cap"
| "rule_error_text detail ChangeThresholdZero = rejected ''CHANGE_THRESHOLD'' @ ''newThreshold=0 disables authentication''"
| "rule_error_text detail (ChangeThresholdTooHigh n stewards) = rejected ''CHANGE_THRESHOLD'' @ ''newThreshold='' @ dec_nat (unat n) @
     '' exceeds current steward count '' @ dec_nat stewards @ '' (would dead-lock the group)''"
| "rule_error_text detail MigrateNoDeadline = rejected ''MIGRATE'' @ ''deadline is required''"
| "rule_error_text detail MigrateDeadlinePast = rejected ''MIGRATE'' @ ''deadline '' @ detail @ '' is in the past''"
| "rule_error_text detail CustodyTierUnspecified = rejected ''DECLARE_STEWARD_CUSTODY'' @ ''tier is UNSPECIFIED''"
| "rule_error_text detail (CustodyNotSteward key) = rejected ''DECLARE_STEWARD_CUSTODY'' @ hex (take 8 key) @ '' is not a current steward''"
| "rule_error_text detail (SlashNotCurrent key) = rejected ''SLASH_STEWARD'' @ hex (take 8 key) @ '' is not a current steward''"
| "rule_error_text detail SlashNoSignatures = rejected ''SLASH_STEWARD'' @ ''no signatures in envelope''"
| "rule_error_text detail (SlashSelfSigned key) = rejected ''SLASH_STEWARD'' @ ''slashed steward '' @ hex (take 8 key) @ '' signed their own removal''"
| "rule_error_text detail NameBindNoNotAfter = rejected ''NAME_BIND'' @ ''not_after is required''"

fun error_text :: "string \<Rightarrow> group_error \<Rightarrow> string" where
  "error_text detail (Route e) = route_text detail e"
| "error_text detail (Envelope e) = envelope_text e"
| "error_text detail (MissingPayload ty) = ''group: '' @ type_name ty @ '' missing payload''"
| "error_text detail (UnsupportedType ty) = ''group: unsupported transition type '' @
     (case ty of TT_OTHER n \<Rightarrow> dec_int n | _ \<Rightarrow> ''TRANSITION_TYPE_'' @ type_name ty)"
| "error_text detail (Field e) = field_text e"
| "error_text detail ErrKVSizeExceeded = ''kv_size_exceeded: state KV would exceed MaxKVSize''"
| "error_text detail (Mesh e) = mesh_text e"
| "error_text detail (CreateMeshPeers e) = ''group: CREATE_GROUP initial_mesh_peers: '' @ mesh_text e"
| "error_text detail (Peer e) = peer_text e"
| "error_text detail (Rule e) = rule_error_text detail e"
| "error_text detail MarshalFailed = ''group: marshal '' @ detail"
| "error_text detail PersistFailed = ''group: persist transition: '' @ detail"

section \<open>Recognising a duplicate\<close>

definition fold_case :: "char \<Rightarrow> char" where
  "fold_case c = (let n = of_char c :: nat in if 65 \<le> n \<and> n \<le> 90 then char_of (n + 32) else c)"

definition matches_at :: "string \<Rightarrow> string \<Rightarrow> nat \<Rightarrow> bool" where
  "matches_at s sub i = list_all (\<lambda>j. fold_case (s ! (i + j)) = fold_case (sub ! j)) [0 ..< length sub]"

definition containsFold :: "string \<Rightarrow> string \<Rightarrow> bool" where
  "containsFold s sub =
     (if length sub \<le> length s then list_ex (matches_at s sub) [0 ..< length s - length sub + 1] else False)"

definition contains :: "string \<Rightarrow> string \<Rightarrow> bool" where
  "contains s sub \<longleftrightarrow> length s \<ge> length sub \<and> (s = sub \<or> containsFold s sub)"

definition isDuplicateTransition :: "string \<Rightarrow> bool" where
  "isDuplicateTransition msg \<longleftrightarrow>
     contains msg ''prior state mismatch'' \<or> contains msg ''expected prior state'' \<or> contains msg ''duplicate''"

section \<open>Bootstrap\<close>

record syncer =
  sy_state :: state
  sy_gk :: group_id

text \<open>What the calls read from outside: the answers of the peer to GetLog, Subscribe (the events the stream
  delivers and whether it then fails) and GetSnapshot, whether the n-th check finds the context ended, the
  clock and the other inputs of the k-th Apply, and the details of error texts.\<close>

record sync_env =
  peer_GetLog :: "nat \<Rightarrow> get_log_request \<Rightarrow> get_log_response option"
  peer_Subscribe :: "nat \<Rightarrow> subscribe_request \<Rightarrow> (pb_transition option list \<times> bool) option"
  peer_GetSnapshot :: "get_snapshot_request \<Rightarrow> (pb_state_snapshot option \<times> u64) option"
  sync_cancelled :: "nat \<Rightarrow> bool"
  sync_input :: "nat \<Rightarrow> apply_input"
  sync_detail :: "nat \<Rightarrow> string"

definition sync_pageSize :: u32 where "sync_pageSize = 100"

datatype sync_error = SyncCancelled | GetLogError u64 | DecodeError u64 | ApplyError u64 group_error

text \<open>The counters of a run: cursor, applied, and how many calls of Apply were made.\<close>

record progress =
  pg_cursor :: u64
  pg_applied :: u64
  pg_applies :: nat

definition sync_apply :: "env \<Rightarrow> sync_env \<Rightarrow> syncer \<Rightarrow> nat \<Rightarrow> transition \<Rightarrow> group_error option \<times> syncer" where
  "sync_apply E P sy k t = (case Apply E (sy_state sy) t (sync_input P k) of (r, st) \<Rightarrow> (r, sy\<lparr>sy_state := st\<rparr>))"

fun apply_page :: "env \<Rightarrow> sync_env \<Rightarrow> syncer \<Rightarrow> progress \<Rightarrow> pb_transition list
    \<Rightarrow> sync_error option \<times> syncer \<times> progress" where
  "apply_page E P sy g [] = (None, sy, g)"
| "apply_page E P sy g (pbT # ts) =
     (case NewTransition E pbT (sy_gk sy) of
        None \<Rightarrow> (Some (DecodeError (pg_cursor g)), sy, g)
      | Some t \<Rightarrow>
          let k = pg_applies g; g = g\<lparr>pg_applies := k + 1\<rparr>
          in (case sync_apply E P sy k t of
                (Some e, sy) \<Rightarrow>
                  if isDuplicateTransition (error_text (sync_detail P k) e) then apply_page E P sy g ts
                  else (Some (ApplyError (pg_cursor g) e), sy, g)
              | (None, sy) \<Rightarrow>
                  apply_page E P sy (g\<lparr>pg_applied := pg_applied g + 1, pg_cursor := pg_cursor g + 1\<rparr>) ts))"

fun bootstrap_loop :: "nat \<Rightarrow> env \<Rightarrow> sync_env \<Rightarrow> nat \<Rightarrow> syncer \<Rightarrow> progress
    \<Rightarrow> ((u64 \<times> sync_error option) \<times> syncer) option" where
  "bootstrap_loop 0 E P n sy g = None"
| "bootstrap_loop (Suc fuel) E P n sy g =
     (if sync_cancelled P n then Some ((pg_applied g, Some SyncCancelled), sy)
      else
        (case peer_GetLog P n \<lparr>gl_group_key = Some (sy_gk sy), gl_since_cursor = pg_cursor g, gl_limit = sync_pageSize\<rparr> of
           None \<Rightarrow> Some ((pg_applied g, Some (GetLogError (pg_cursor g))), sy)
         | Some resp \<Rightarrow>
             if glr_Transitions resp = [] then Some ((pg_applied g, None), sy)
             else
               (case apply_page E P sy g (glr_Transitions resp) of
                  (Some e, sy, g) \<Rightarrow> Some ((pg_applied g, Some e), sy)
                | (None, sy, g) \<Rightarrow>
                    if glr_NextCursor resp = 0 then Some ((pg_applied g, None), sy)
                    else bootstrap_loop fuel E P (n + 1) sy (g\<lparr>pg_cursor := glr_NextCursor resp\<rparr>))))"

definition Bootstrap :: "nat \<Rightarrow> env \<Rightarrow> sync_env \<Rightarrow> syncer \<Rightarrow> ((u64 \<times> sync_error option) \<times> syncer) option" where
  "Bootstrap fuel E P sy =
     bootstrap_loop fuel E P 0 sy \<lparr>pg_cursor = TransitionCount (sy_state sy), pg_applied = 0, pg_applies = 0\<rparr>"

section \<open>Verify\<close>

datatype verify_error = GetSnapshotError | NilRoot | RootMismatch hash hash u64 u64

definition sync_Verify :: "env \<Rightarrow> sync_env \<Rightarrow> syncer \<Rightarrow> verify_error option" where
  "sync_Verify E P sy =
     (case peer_GetSnapshot P \<lparr>gs_group_key = Some (sy_gk sy), gs_root = None\<rparr> of
        None \<Rightarrow> Some GetSnapshotError
      | Some (snap, idx) \<Rightarrow>
          let peerRoot = Option.bind snap pbs_root;
              localRoot = state_Root E (sy_state sy);
              peerHash = (case peerRoot of None \<Rightarrow> zero32 | Some h \<Rightarrow> copy32 h)
          in if peerRoot = None then Some NilRoot
             else if localRoot \<noteq> peerHash
             then Some (RootMismatch localRoot peerHash (TransitionCount (sy_state sy)) idx)
             else None)"

section \<open>Live\<close>

definition live_request :: "syncer \<Rightarrow> subscribe_request" where
  "live_request sy = \<lparr>sb_group_key = Some (sy_gk sy), sb_since_index = TransitionCount (sy_state sy)\<rparr>"

text \<open>How a stream ends for liveOnce.\<close>

datatype live_end = LiveCancelled | SubscribeError | ReceiveError | CleanEOF

text \<open>The counters of a run: calls of Subscribe, checks of the context, calls of Apply.\<close>

record live_progress =
  lv_streams :: nat
  lv_checks :: nat
  lv_applies :: nat

text \<open>One check of the context.\<close>

definition live_check :: "sync_env \<Rightarrow> live_progress \<Rightarrow> bool \<times> live_progress" where
  "live_check P g = (sync_cancelled P (lv_checks g), g\<lparr>lv_checks := lv_checks g + 1\<rparr>)"

text \<open>What liveOnce does with one event: every error of a transition is skipped.\<close>

fun sync_event :: "env \<Rightarrow> sync_env \<Rightarrow> syncer \<Rightarrow> live_progress \<Rightarrow> pb_transition option \<Rightarrow> syncer \<times> live_progress" where
  "sync_event E P sy g None = (sy, g)"
| "sync_event E P sy g (Some pbT) =
     (case NewTransition E pbT (sy_gk sy) of
        None \<Rightarrow> (sy, g)
      | Some t \<Rightarrow> (snd (sync_apply E P sy (lv_applies g) t), g\<lparr>lv_applies := lv_applies g + 1\<rparr>))"

fun live_loop :: "env \<Rightarrow> sync_env \<Rightarrow> bool \<Rightarrow> syncer \<Rightarrow> live_progress \<Rightarrow> pb_transition option list
    \<Rightarrow> live_end \<times> syncer \<times> live_progress" where
  "live_loop E P failed sy g [] =
     (case live_check P g of
        (True, g) \<Rightarrow> (LiveCancelled, sy, g)
      | (False, g) \<Rightarrow> (if failed then ReceiveError else CleanEOF, sy, g))"
| "live_loop E P failed sy g (ev # evs) =
     (case live_check P g of
        (True, g) \<Rightarrow> (LiveCancelled, sy, g)
      | (False, g) \<Rightarrow> (case sync_event E P sy g ev of (sy, g) \<Rightarrow> live_loop E P failed sy g evs))"

definition liveOnce :: "env \<Rightarrow> sync_env \<Rightarrow> syncer \<Rightarrow> live_progress \<Rightarrow> live_end \<times> syncer \<times> live_progress" where
  "liveOnce E P sy g =
     (let n = lv_streams g; g = g\<lparr>lv_streams := n + 1\<rparr>
      in (case peer_Subscribe P n (live_request sy) of
            None \<Rightarrow> (SubscribeError, sy, g)
          | Some (evs, failed) \<Rightarrow> live_loop E P failed sy g evs))"

text \<open>Live returns only the error of the context, so its value is the syncer it leaves. The second check is the
  select between the delay and the end of the context.\<close>

fun live_run :: "nat \<Rightarrow> env \<Rightarrow> sync_env \<Rightarrow> syncer \<Rightarrow> live_progress \<Rightarrow> (syncer \<times> live_progress) option" where
  "live_run 0 E P sy g = None"
| "live_run (Suc fuel) E P sy g =
     (case live_check P g of
        (True, g) \<Rightarrow> Some (sy, g)
      | (False, g) \<Rightarrow>
          (case liveOnce E P sy g of
             (CleanEOF, sy, g) \<Rightarrow> live_run fuel E P sy g
           | (_, sy, g) \<Rightarrow>
               (case live_check P g of
                  (True, g) \<Rightarrow> Some (sy, g)
                | (False, g) \<Rightarrow>
                    (case live_check P g of
                       (True, g) \<Rightarrow> Some (sy, g)
                     | (False, g) \<Rightarrow> live_run fuel E P sy g))))"

definition Live :: "nat \<Rightarrow> env \<Rightarrow> sync_env \<Rightarrow> syncer \<Rightarrow> syncer option" where
  "Live fuel E P sy = map_option fst (live_run fuel E P sy \<lparr>lv_streams = 0, lv_checks = 0, lv_applies = 0\<rparr>)"

end
