(* ===== verification/FederationRules.thy ===== *)
theory FederationRules
  imports Federation HostWrites
begin

text \<open>
  What the syncer achieves: against an honest peer Bootstrap returns, and the mirror is then the peer's
  state machine; the stream keeps it so; against any peer the mirror only ever takes steps of Apply. And what
  it does not: a transition that was applied before is not recognised as a duplicate.
\<close>

section \<open>Mirrored transitions\<close>

text \<open>An accepted call is accepted by a mirror with the same state machine, with the same result.\<close>

lemma Apply_mirrored:
  assumes "Apply E s t inp = (None, s')" "Limiter (core s) = None" "deadline_open t (in_now inp')"
    "core u = core s" "in_db_ok inp'" "marshal_transition E (Proto t) \<noteq> None"
  shows "\<exists>u'. Apply E u t inp' = (None, u') \<and> core u' = core s'"
proof (cases rule: apply_cases [of s t E inp])
  case (commit m m' err s2)
  have b: "apply_body E (enter_branch m t) t inp' = (None, m')"
    by (rule apply_body_input [OF commit(2) _ assms(3)])
      (use route_Limiter [of "core s" t] commit(1) assms(2) in simp)
  let ?u1 = "broadcastLocked (u\<lparr>core := m'\<rparr>) t (currentRoot E (mchain m'))
               (word_of_nat (length (log (mchain m'))) - 1)"
  have "fst (persistLocked E ?u1 t inp') = None \<and> core (snd (persistLocked E ?u1 t inp')) = m'"
    using assms(5,6) by (auto simp: persistLocked_def SaveTransition_def broadcastLocked_def split: option.splits)
  then obtain u2 where p: "persistLocked E ?u1 t inp' = (None, u2)" "core u2 = m'"
    by (metis prod.collapse)
  have "err = None" "core s' = leave_branch (mchain m) t True m'"
    using commit(5) assms(1) by simp_all
  then show ?thesis
    using commit(1) b p assms(4) by (simp add: Apply_def Let_def split: prod.splits)
qed (use assms(1) in auto)

text \<open>A transition that the wire and the clock of the mirror let through.\<close>

definition mirrorable :: "env \<Rightarrow> sync_env \<Rightarrow> group_id \<Rightarrow> transition \<Rightarrow> bool" where
  "mirrorable E P gid t \<longleftrightarrow> NewTransition E (Proto t) gid = Some t \<and> marshal_transition E (Proto t) \<noteq> None \<and>
     (\<forall>k. deadline_open t (in_now (sync_input P k)))"

lemma apply_page_mirrors:
  assumes "accepted_run E s ts = Some s'" "Limiter (core s) = None" "core (sy_state sy) = core s"
    "\<forall>(t, i) \<in> set ts. mirrorable E P (sy_gk sy) t" "\<forall>k. in_db_ok (sync_input P k)"
  shows "\<exists>sy' g'. apply_page E P sy g (map (Proto \<circ> fst) ts) = (None, sy', g') \<and> core (sy_state sy') = core s' \<and>
    sy_gk sy' = sy_gk sy \<and> pg_applied g' = pg_applied g + word_of_nat (length ts) \<and>
    pg_cursor g' = pg_cursor g + word_of_nat (length ts) \<and> Limiter (core s') = None"
  using assms(1-4)
proof (induction ts arbitrary: s sy g)
  case (Cons a ts)
  obtain t i where a: "a = (t, i)" by fastforce
  from Cons.prems(1) obtain s1 where s1: "Apply E s t i = (None, s1)" "accepted_run E s1 ts = Some s'"
    unfolding a accepted_run_cons by blast
  have m: "NewTransition E (Proto t) (sy_gk sy) = Some t" "marshal_transition E (Proto t) \<noteq> None"
    "deadline_open t (in_now (sync_input P (pg_applies g)))"
    using Cons.prems(4) by (simp_all add: a mirrorable_def)
  obtain u where u: "Apply E (sy_state sy) t (sync_input P (pg_applies g)) = (None, u)" "core u = core s1"
    using Apply_mirrored [OF s1(1) Cons.prems(2) m(3) Cons.prems(3) _ m(2)] assms(5) by blast
  let ?sy = "sy\<lparr>sy_state := u\<rparr>"
  let ?g = "g\<lparr>pg_applies := pg_applies g + 1, pg_applied := pg_applied g + 1, pg_cursor := pg_cursor g + 1\<rparr>"
  have step: "apply_page E P sy g (map (Proto \<circ> fst) (a # ts)) = apply_page E P ?sy ?g (map (Proto \<circ> fst) ts)"
    using m(1) u(1) by (simp add: a sync_apply_def Let_def)
  show ?case
    unfolding step using Cons.IH [OF s1(2) Apply_Limiter [OF s1(1) Cons.prems(2)], of ?sy ?g] Cons.prems(4) u(2)
    by (fastforce simp: a algebra_simps)
qed (simp add: accepted_run.simps)

section \<open>An honest peer\<close>

definition honest :: "env \<Rightarrow> sync_env \<Rightarrow> service \<Rightarrow> bool" where
  "honest E P sv \<longleftrightarrow>
     peer_GetLog P = (\<lambda>n r. case GetLog sv (Some r) of Inl _ \<Rightarrow> None | Inr resp \<Rightarrow> Some resp) \<and>
     peer_GetSnapshot P = (\<lambda>r. case GetSnapshot E sv (Some r) of Inl _ \<Rightarrow> None | Inr (p, n) \<Rightarrow> Some (Some p, n)) \<and>
     (\<forall>n. \<not> sync_cancelled P n) \<and> (\<forall>k. in_db_ok (sync_input P k))"

lemma bootstrap_loop_mirrors:
  assumes "honest E P sv" "mg_Get (svc_groups sv) (bytesToKey (sy_gk sy)) = Some st" "Log st = map fst (ts1 @ ts2)"
    "length (ts1 @ ts2) < 2 ^ 63" "accepted_run E s1 ts2 = Some s2" "Limiter (core s1) = None"
    "core (sy_state sy) = core s1" "pg_cursor g = word_of_nat (length ts1)"
    "\<forall>(t, i) \<in> set ts2. mirrorable E P (sy_gk sy) t" "length ts2 < fuel"
  shows "\<exists>sy'. bootstrap_loop fuel E P n sy g = Some ((pg_applied g + word_of_nat (length ts2), None), sy') \<and>
    core (sy_state sy') = core s2 \<and> sy_gk sy' = sy_gk sy"
  using assms(2-10)
proof (induction fuel arbitrary: n sy g ts1 ts2 s1)
  case (Suc fuel)
  let ?c = "length ts1" and ?n = "length (ts1 @ ts2)"
  let ?m = "min (?c + 100) ?n"
  have c: "unat (pg_cursor g) = ?c" using Suc.prems(3,7) by (simp add: unat_of_nat)
  have lim: "log_limit sync_pageSize = 100" by (simp add: log_limit_def sync_pageSize_def)
  have len: "length (Log st) = ?n" using Suc.prems(2) by simp
  have log: "drop ?c (Log st) = map fst ts2" using Suc.prems(2) by simp
  have get: "peer_GetLog P n \<lparr>gl_group_key = Some (sy_gk sy), gl_since_cursor = pg_cursor g, gl_limit = sync_pageSize\<rparr> =
    Some \<lparr>glr_Transitions = map Proto (take (?m - ?c) (map fst ts2)),
          glr_NextCursor = (if ?m < ?n then word_of_nat ?m else 0), glr_Total = word_of_nat ?n\<rparr>"
    using assms(1) GetLog_page [OF Suc.prems(1), of "pg_cursor g" ?m sync_pageSize] Suc.prems(3) c len log lim
    by (simp add: honest_def)
  show ?case
  proof (cases "ts2 = []")
    case True
    then show ?thesis using Suc.prems assms(1) get by (simp add: honest_def accepted_run.simps)
  next
    case False
    let ?page = "take (?m - ?c) ts2" and ?rest = "drop (?m - ?c) ts2"
    have "accepted_run E s1 (?page @ ?rest) = Some s2" using Suc.prems(4) by simp
    then obtain s' where s': "accepted_run E s1 ?page = Some s'" "accepted_run E s' ?rest = Some s2"
      unfolding accepted_run_append by (auto simp: bind_eq_Some_conv)
    define txs where "txs = map (Proto \<circ> fst) ?page"
    have get': "peer_GetLog P n \<lparr>gl_group_key = Some (sy_gk sy), gl_since_cursor = pg_cursor g, gl_limit = sync_pageSize\<rparr> =
      Some \<lparr>glr_Transitions = txs, glr_NextCursor = (if ?m < ?n then word_of_nat ?m else 0), glr_Total = word_of_nat ?n\<rparr>"
      unfolding get txs_def by (simp add: take_map)
    have "ts2 \<noteq> []" using False .
    then have ne: "txs \<noteq> []" unfolding txs_def by (cases ts2) auto
    have mir: "\<forall>(t, i) \<in> set ?page. mirrorable E P (sy_gk sy) t"
      using Suc.prems(8) by (auto dest: in_set_takeD)
    have db: "\<forall>k. in_db_ok (sync_input P k)" using assms(1) by (simp add: honest_def)
    obtain sy' g' where page: "apply_page E P sy g txs = (None, sy', g')"
      "core (sy_state sy') = core s'" "sy_gk sy' = sy_gk sy" "pg_applied g' = pg_applied g + word_of_nat (length ?page)"
      "Limiter (core s') = None"
      using apply_page_mirrors [OF s'(1) Suc.prems(5,6) mir db, of g] unfolding txs_def by blast
    note step = bootstrap_loop.simps(2) [of fuel E P n sy g]
    show ?thesis
    proof (cases "?m < ?n")
      case False
      then have r: "?rest = []" "length ?page = length ts2" by simp_all
      then have "core s' = core s2" using s'(2) by (simp add: accepted_run.simps)
      then show ?thesis
        using page r False assms(1) ne unfolding step get' by (simp add: honest_def)
    next
      case True
      then have m: "?m = ?c + 100" "length ?page = 100" "length ?rest = length ts2 - 100" by simp_all
      let ?g = "g'\<lparr>pg_cursor := word_of_nat ?m\<rparr>"
      have pos: "(word_of_nat ?m :: u64) \<noteq> 0"
      proof -
        have "unat (word_of_nat ?m :: u64) = ?m" using Suc.prems(3) by (simp add: unat_of_nat)
        then show ?thesis using m(1) by (metis add_is_0 unat_0 zero_neq_numeral)
      qed
      have A: "\<exists>sy''. bootstrap_loop fuel E P (n + 1) sy' ?g =
          Some ((pg_applied ?g + word_of_nat (length ?rest), None), sy'') \<and> core (sy_state sy'') = core s2 \<and> sy_gk sy'' = sy_gk sy'"
      proof (rule Suc.IH [of sy' "ts1 @ ?page" ?rest s'])
        show "mg_Get (svc_groups sv) (bytesToKey (sy_gk sy')) = Some st" using Suc.prems(1) page(3) by simp
        show "Log st = map fst ((ts1 @ ?page) @ ?rest)" using Suc.prems(2) by simp
        show "\<forall>(t, i) \<in> set ?rest. mirrorable E P (sy_gk sy') t"
          using Suc.prems(8) page(3) by (auto dest: in_set_dropD)
      qed (use Suc.prems s' page m True in simp_all)
      have B: "bootstrap_loop (Suc fuel) E P n sy g = bootstrap_loop fuel E P (n + 1) sy' ?g"
        using page(1) True m(1) pos assms(1) ne unfolding step get' by (auto simp: honest_def simp del: of_nat_add)
      have C: "pg_applied ?g + word_of_nat (length ?rest) = pg_applied g + word_of_nat (length ts2)"
        using page(4) True unfolding m(2,3) by (simp add: of_nat_diff)
      show ?thesis using A unfolding B C page(3) .
    qed
  qed
qed simp

section \<open>Properties\<close>

lemma honest_verify:
  assumes "honest E P sv" "mg_Get (svc_groups sv) (bytesToKey (sy_gk sy)) = Some st" "core (sy_state sy) = core st"
  shows "sync_Verify E P sy = None"
proof -
  have h: "hosted sv (Some (sy_gk sy)) = Inr (bytesToKey (sy_gk sy), st)" using assms(2) by (simp add: hosted_Inr)
  have "peer_GetSnapshot P \<lparr>gs_group_key = Some (sy_gk sy), gs_root = None\<rparr> =
      Some (Some (stateSnapshotToProto (state_Snapshot st) (state_Root E st)), TransitionCount st)"
    using assms(1) by (simp add: honest_def GetSnapshot_def h)
  then show ?thesis
    using assms(3) by (simp add: sync_Verify_def stateSnapshotToProto_def state_Root_def currentRoot_def Root_def)
qed

text \<open>
  C3: a mirror that holds a prefix of the log of an honest peer catches up with it: Bootstrap returns after at most
  one call of GetLog more than there are missing transitions (any fuel above their number is enough), applies every
  missing transition and no other, and leaves the mirror with the very state machine of the peer, so Verify accepts it.
  Honest: the peer answers GetLog and GetSnapshot as its unchanging service does, no call fails or is cancelled. The
  peer's history is any run of accepted genesis-branch transitions from an empty log, too short to be trimmed; no rate
  limiter is set; the mirror's database takes every transition, each transition survives the wire, and the mirror's clock
  has passed no deadline of a MIGRATE in it.
\<close>

theorem bootstrap_mirrors:
  assumes "honest E P sv" "mg_Get (svc_groups sv) (bytesToKey (sy_gk sy)) = Some st"
    "accepted_run E st0 ts1 = Some s1" "accepted_run E s1 ts2 = Some st"
    "Log st0 = []" "machine_inv (core st0)" "Limiter (core s1) = None" "\<forall>(t, i) \<in> set (ts1 @ ts2). \<not> swaps t"
    "int (length (ts1 @ ts2)) \<le> MaxLogSize (core st0)" "length (ts1 @ ts2) < 2 ^ 63"
    "core (sy_state sy) = core s1" "\<forall>(t, i) \<in> set ts2. mirrorable E P (sy_gk sy) t" "length ts2 < fuel"
  shows "\<exists>sy'. Bootstrap fuel E P sy = Some ((word_of_nat (length ts2), None), sy') \<and>
    core (sy_state sy') = core st \<and> sync_Verify E P sy' = None"
proof -
  have r: "accepted_run E st0 (ts1 @ ts2) = Some st" using assms(3,4) by (simp add: accepted_run_append)
  have l: "Log st = map fst (ts1 @ ts2)"
    using run_log [OF r assms(6) assms(8)] assms(5,9) by simp
  have "Log s1 = map fst ts1" using run_log [OF assms(3,6)] assms(5,8,9) by simp
  then have c: "TransitionCount (sy_state sy) = word_of_nat (length ts1)"
    using assms(11) by (simp add: TransitionCount_def Log_def)
  obtain sy' where "Bootstrap fuel E P sy = Some ((word_of_nat (length ts2), None), sy')"
    "core (sy_state sy') = core st" "sy_gk sy' = sy_gk sy"
    using bootstrap_loop_mirrors [OF assms(1,2) l assms(10,4,7,11), of "\<lparr>pg_cursor = TransitionCount (sy_state sy),
        pg_applied = 0, pg_applies = 0\<rparr>" fuel 0] assms(12,13) c
    by (auto simp: Bootstrap_def)
  then show ?thesis using honest_verify [OF assms(1), of sy' st] assms(2) by simp
qed

definition ex_peer :: "service \<Rightarrow> sync_env" where
  "ex_peer sv = \<lparr>peer_GetLog = (\<lambda>n r. case GetLog sv (Some r) of Inl _ \<Rightarrow> None | Inr resp \<Rightarrow> Some resp),
     peer_Subscribe = (\<lambda>n r. None),
     peer_GetSnapshot = (\<lambda>r. case GetSnapshot ex_E sv (Some r) of Inl _ \<Rightarrow> None | Inr (p, n) \<Rightarrow> Some (Some p, n)),
     sync_cancelled = (\<lambda>n. False), sync_input = (\<lambda>k. ex_inp), sync_detail = (\<lambda>k. '''')\<rparr>"

theorem bootstrap_mirrors_witness:
  "\<exists>sy'. Bootstrap 2 ex_E (ex_peer (ex_service (snd (Apply ex_E (ex_state [1, 2] 1) ex_member_wire ex_inp))))
      \<lparr>sy_state = ex_state [1, 2] 1, sy_gk = ex_key 9\<rparr> = Some ((1, None), sy') \<and> Log (sy_state sy') = [ex_member_wire]"
proof -
  let ?s = "ex_state [1, 2] 1"
  let ?st = "snd (Apply ex_E ?s ex_member_wire ex_inp)"
  let ?P = "ex_peer (ex_service ?st)" and ?sy = "\<lparr>sy_state = ?s, sy_gk = ex_key 9\<rparr>"
  have "fst (Apply ex_E ?s ex_member_wire ex_inp) = None" by code_simp
  then have a: "accepted_run ex_E ?s [(ex_member_wire, ex_inp)] = Some ?st"
    by (cases "Apply ex_E ?s ex_member_wire ex_inp") (simp add: accepted_run.simps)
  have m: "\<not> swaps ex_member_wire" "machine_inv (core ?s)"
    by (simp_all add: ex_state_inv ex_member_wire_def ex_member_def swaps_def ex_tx_def GenesisBranchID_def)
  have l: "Log ?s = []" "Limiter (core ?s) = None" "MaxLogSize (core ?s) = 100000"
    by (simp_all add: Log_def ex_state_def new_machine_def ex_chain_def new_chain_def)
  have h: "honest ex_E ?P (ex_service ?st)" by (simp add: honest_def ex_peer_def ex_inp_def)
  have "groupID (core ?st) = groupID (core ?s)" using config_eqD(1) [OF Apply_config [of ex_E ?s]] by simp
  then have g: "mg_Get (svc_groups (ex_service ?st)) (bytesToKey (sy_gk ?sy)) = Some ?st"
    using ex_service_Get [of ?st] by (simp add: ex_state_def new_machine_def)
  have "NewTransition ex_E (Proto ex_member_wire) (ex_key 9) = Some ex_member_wire"
    using ex_member_wire_made by (simp add: ex_member_wire_def)
  then have w: "mirrorable ex_E ?P (sy_gk ?sy) ex_member_wire"
    by (simp add: mirrorable_def deadline_open_def ex_member_wire_def ex_member_def ex_tx_def)
  obtain sy' where sy': "Bootstrap 2 ex_E ?P ?sy = Some ((word_of_nat (length [(ex_member_wire, ex_inp)]), None), sy')"
      "core (sy_state sy') = core ?st"
    using bootstrap_mirrors [OF h g _ a l(1) m(2), of "[]" 2] m(1) l w by (auto simp: accepted_run.simps)
  have "Log ?st = [ex_member_wire]" using run_log [OF a m(2)] m(1) l by simp
  then show ?thesis using sy' by (simp add: Log_def)
qed

section \<open>The stream\<close>

lemma live_loop_mirrors:
  assumes "accepted_run E s ts = Some s'" "Limiter (core s) = None" "core (sy_state sy) = core s"
    "\<forall>(t, i) \<in> set ts. mirrorable E P (sy_gk sy) t" "\<forall>k. in_db_ok (sync_input P k)" "\<forall>n. \<not> sync_cancelled P n"
  shows "\<exists>sy' g'. (\<forall>rest. live_loop E P failed sy g (map (Some \<circ> Proto \<circ> fst) ts @ rest) =
      live_loop E P failed sy' g' rest) \<and> core (sy_state sy') = core s' \<and> sy_gk sy' = sy_gk sy"
  using assms(1-4)
proof (induction ts arbitrary: s sy g)
  case Nil
  then show ?case by (auto simp: accepted_run.simps)
next
  case (Cons a ts)
  obtain t i where a: "a = (t, i)" by fastforce
  from Cons.prems(1) obtain s1 where s1: "Apply E s t i = (None, s1)" "accepted_run E s1 ts = Some s'"
    unfolding a accepted_run_cons by blast
  have m: "NewTransition E (Proto t) (sy_gk sy) = Some t" "marshal_transition E (Proto t) \<noteq> None"
    "deadline_open t (in_now (sync_input P (lv_applies g)))"
    using Cons.prems(4) by (simp_all add: a mirrorable_def)
  obtain u where u: "Apply E (sy_state sy) t (sync_input P (lv_applies g)) = (None, u)" "core u = core s1"
    using Apply_mirrored [OF s1(1) Cons.prems(2) m(3) Cons.prems(3) _ m(2)] assms(5) by blast
  let ?sy = "sy\<lparr>sy_state := u\<rparr>"
  let ?g = "g\<lparr>lv_checks := lv_checks g + 1, lv_applies := lv_applies g + 1\<rparr>"
  have step: "live_loop E P failed sy g (map (Some \<circ> Proto \<circ> fst) (a # ts) @ rest) =
      live_loop E P failed ?sy ?g (map (Some \<circ> Proto \<circ> fst) ts @ rest)" for rest
    using m(1) u(1) assms(6) by (simp add: a sync_apply_def live_check_def)
  show ?case
    unfolding step using Cons.IH [OF s1(2) Apply_Limiter [OF s1(1) Cons.prems(2)], of ?sy ?g] Cons.prems(4) u(2)
    by (fastforce simp: a)
qed

text \<open>A transition delivered again is rejected for its prior state, and the mirror stays as it is.\<close>

lemma run_branches:
  assumes "accepted_run E s ts = Some s'" "machine_inv (core s)" "\<forall>(t, i) \<in> set ts. \<not> swaps t"
  shows "(\<forall>j. branch_get (mbranches (core s)) j \<noteq> None \<longrightarrow> branch_get (mbranches (core s')) j \<noteq> None) \<and>
    (\<forall>(t, i) \<in> set ts. branch_get (mbranches (core s')) (tp_branch_id (Proto t)) \<noteq> None)"
  using assms
proof (induction ts arbitrary: s)
  case (Cons a ts)
  obtain t i where a: "a = (t, i)" by fastforce
  from Cons.prems(1) obtain s1 where s1: "Apply E s t i = (None, s1)" "accepted_run E s1 ts = Some s'"
    unfolding a accepted_run_cons by blast
  note ok = machine_inv_registry [OF Cons.prems(2)]
  have t: "\<not> swaps t" using Cons.prems(3) by (simp add: a)
  have "branch_get (mbranches (core s1)) j \<noteq> None" if "branch_get (mbranches (core s)) j \<noteq> None" for j
    using Apply_keeps_branch [OF ok, of j _ t E i] that s1(1) t by auto
  moreover have "branch_get (mbranches (core s1)) (tp_branch_id (Proto t)) \<noteq> None"
  proof (cases rule: apply_cases [of s t E i])
    case (commit m m' err s2)
    then show ?thesis
      using s1(1) Apply_body_target [OF ok commit(1,2)] t by (simp add: leave_branch_def)
  qed (use s1(1) in auto)
  moreover have "machine_inv (core s1)" using Apply_inv [OF Cons.prems(2), of E t i] s1(1) by simp
  ultimately show ?case using Cons.IH [OF s1(2)] Cons.prems(3) by (auto simp: a)
qed (simp add: accepted_run.simps)

lemma Apply_stale:
  assumes "\<not> swaps t" "branch_get (mbranches (core s)) (tp_branch_id (Proto t)) \<noteq> None" "has_prior t"
    "prior_of t \<noteq> state_Root E s"
  shows "\<exists>e. Apply E s t inp = (Some e, s)"
proof -
  obtain b where "branch_get (mbranches (core s)) (tp_branch_id (Proto t)) = Some b" using assms(2) by blast
  then have "snd (Apply.route (core s) t) = core s" by (simp add: route_def Let_def)
  moreover have "\<exists>e. apply_body E (core s) t inp = (Some e, core s)"
    using assms(3,4) by (auto simp: apply_body_def check_prior_def state_Root_def split: option.splits)
  ultimately show ?thesis
    using assms(1)
    by (cases "Apply.route (core s) t") (auto simp: Apply_def enter_branch_def leave_branch_def split: option.splits)
qed

lemma live_loop_stale:
  assumes "\<forall>(t, i) \<in> set ts. \<not> swaps t \<and> branch_get (mbranches (core (sy_state sy))) (tp_branch_id (Proto t)) \<noteq> None \<and>
      has_prior t \<and> prior_of t \<noteq> state_Root E (sy_state sy) \<and> mirrorable E P (sy_gk sy) t"
    "\<forall>n. \<not> sync_cancelled P n"
  shows "\<exists>g'. \<forall>rest. live_loop E P failed sy g (map (Some \<circ> Proto \<circ> fst) ts @ rest) = live_loop E P failed sy g' rest"
  using assms(1)
proof (induction ts arbitrary: g)
  case (Cons a ts)
  obtain t i where a: "a = (t, i)" by fastforce
  have rest: "\<forall>(t, i) \<in> set ts. \<not> swaps t \<and> branch_get (mbranches (core (sy_state sy))) (tp_branch_id (Proto t)) \<noteq> None \<and>
      has_prior t \<and> prior_of t \<noteq> state_Root E (sy_state sy) \<and> mirrorable E P (sy_gk sy) t"
    using Cons.prems by simp
  have t: "NewTransition E (Proto t) (sy_gk sy) = Some t" using Cons.prems by (simp add: a mirrorable_def)
  obtain e where e: "Apply E (sy_state sy) t (sync_input P (lv_applies g)) = (Some e, sy_state sy)"
    using Apply_stale [of t "sy_state sy" E] Cons.prems by (auto simp: a)
  let ?g = "g\<lparr>lv_checks := lv_checks g + 1, lv_applies := lv_applies g + 1\<rparr>"
  have "live_loop E P failed sy g (map (Some \<circ> Proto \<circ> fst) (a # ts) @ rest) =
      live_loop E P failed sy ?g (map (Some \<circ> Proto \<circ> fst) ts @ rest)" for rest
    using t e assms(2) by (simp add: a sync_apply_def live_check_def)
  moreover obtain g' where "\<forall>rest. live_loop E P failed sy ?g (map (Some \<circ> Proto \<circ> fst) ts @ rest) =
      live_loop E P failed sy g' rest"
    using Cons.IH [OF rest, of ?g] by blast
  ultimately show ?case by metis
qed auto

text \<open>
  C11: no transition is lost between catching up and the stream: a mirror that holds a non-empty prefix \<open>ts1\<close> of
  the log, and reads the stream that an honest peer opened for its request, holds the state machine of the peer at
  the end of the stream. The peer's log was \<open>ts1 @ ts2\<close> at the subscription; it accepted \<open>w\<close> before its handler
  read the log for the replay, and \<open>ts3\<close> after that. The transitions \<open>w\<close> come twice, and the mirror rejects them the
  second time because they name a prior state that is no longer its root (the hypothesis on \<open>w\<close>). The runs are of accepted
  genesis-branch transitions from an empty log, too short to be trimmed, at most 64 of them after the subscription; no
  rate limiter is set; the mirror is not cancelled, its database takes every transition, each transition survives the wire,
  and the mirror's clock has passed no deadline of a MIGRATE in them.
\<close>

theorem live_mirrors:
  assumes "accepted_run E st0 ts1 = Some s1" "accepted_run E s1 ts2 = Some st" "Log st0 = []" "ts1 \<noteq> []"
    "core (sy_state sy) = core s1" "Limiter (core s1) = None" "machine_inv (core st0)"
    "host_Subscribe sv (Some (live_request sy)) = (Inr (gid, ch), sv')"
    "mg_Get (svc_groups sv) (bytesToKey (sy_gk sy)) = Some st" "hosted_ok (bytesToKey (sy_gk sy)) st"
    "mg_Get (svc_groups sv') (bytesToKey (sy_gk sy)) = Some st1"
    "accepted_run E st1 w = Some stL" "accepted_run E stL ts3 = Some st2"
    "replay_stream gid (sb_since_index (live_request sy)) (Log stL) rt = Some evs"
    "broadcaster st2 = Some bc" "map_of (subs bc) ch = Some waiting"
    "\<forall>(t, i) \<in> set (ts1 @ ts2 @ w @ ts3). \<not> swaps t" "\<forall>(t, i) \<in> set (ts2 @ w @ ts3). mirrorable E P (sy_gk sy) t"
    "\<forall>(t, i) \<in> set w. has_prior t \<and> prior_of t \<noteq> state_Root E stL"
    "length (w @ ts3) \<le> chan_cap" "int (length (ts1 @ ts2 @ w @ ts3)) \<le> MaxLogSize (core st0)" "length ts1 < 2 ^ 63"
    "peer_Subscribe P (lv_streams g) (live_request sy) =
       Some (map (Some \<circ> te_Transition) (evs @ map (live_event gid) waiting), failed)"
    "\<forall>n. \<not> sync_cancelled P n" "\<forall>k. in_db_ok (sync_input P k)"
  shows "\<exists>sy' g'. liveOnce E P sy g = (if failed then ReceiveError else CleanEOF, sy', g') \<and>
    core (sy_state sy') = core st2"
proof -
  have r: "accepted_run E st0 (ts1 @ ts2) = Some st" using assms(1,2) by (simp add: accepted_run_append)
  have sw: "\<forall>(t, i) \<in> set (ts1 @ ts2). \<not> swaps t" "\<forall>(t, i) \<in> set ts1. \<not> swaps t" "\<forall>(t, i) \<in> set (w @ ts3). \<not> swaps t"
    "\<forall>(t, i) \<in> set w. \<not> swaps t"
    using assms(17) by auto
  have L: "Log st = map fst (ts1 @ ts2)" "machine_inv (core st)" "MaxLogSize (core st) = MaxLogSize (core st0)"
    using run_log [OF r assms(7) sw(1)] assms(3,21) by simp_all
  have L1: "Log s1 = map fst ts1" using run_log [OF assms(1,7) sw(2)] assms(3,21) by simp
  define k :: u64 where "k = word_of_nat (length ts1)"
  have k: "unat k = length ts1" "k \<noteq> 0" "unat k < 2 ^ 63"
    using assms(4,22) by (auto simp: k_def unat_of_nat simp flip: unat_eq_zero)
  have req: "live_request sy = \<lparr>sb_group_key = Some (sy_gk sy), sb_since_index = k\<rparr>"
    using L1 assms(5) by (simp add: live_request_def TransitionCount_def Log_def k_def)
  have fits: "int (length (Log st) + length (w @ ts3)) \<le> MaxLogSize (core st)" using L assms(21) by simp
  have S: "core st1 = core st" "Log stL = Log st @ map fst w"
    "map te_Transition evs = map Proto (drop (unat k) (Log stL))"
    "map te_Transition (map (live_event gid) waiting) = map Proto (map fst (w @ ts3))"
    using subscribe_stream [OF assms(8) [unfolded req] assms(9-13) sw(3) assms(20) fits k(2,3), of rt]
      assms(14-16) by (auto simp: req)
  have "drop (unat k) (Log stL) = map fst (ts2 @ w)" using S(2) L(1) k(1) by simp
  then have "map te_Transition (evs @ map (live_event gid) waiting) = map (Proto \<circ> fst) ((ts2 @ w) @ w @ ts3)"
    using S(3,4) by simp
  then have evs: "map (Some \<circ> te_Transition) (evs @ map (live_event gid) waiting) =
      map (Some \<circ> Proto \<circ> fst) ts2 @ map (Some \<circ> Proto \<circ> fst) w @ map (Some \<circ> Proto \<circ> fst) w @ map (Some \<circ> Proto \<circ> fst) ts3"
    by (metis (no_types, lifting) append.assoc comp_assoc map_append map_map)
  let ?g = "g\<lparr>lv_streams := lv_streams g + 1\<rparr>"
  have mir: "\<forall>(t, i) \<in> set ts2. mirrorable E P (sy_gk sy) t" "\<forall>(t, i) \<in> set w. mirrorable E P (sy_gk sy) t"
    "\<forall>(t, i) \<in> set ts3. mirrorable E P (sy_gk sy) t"
    using assms(18) by auto
  have lim: "Limiter (core st1) = None" using run_Limiter [OF assms(2,6)] S(1) by simp
  obtain sy1 g1 where one: "\<And>rest. live_loop E P failed sy ?g (map (Some \<circ> Proto \<circ> fst) ts2 @ rest) =
      live_loop E P failed sy1 g1 rest" "core (sy_state sy1) = core st" "sy_gk sy1 = sy_gk sy"
    using live_loop_mirrors [OF assms(2,6,5) mir(1) assms(25,24), of failed ?g] by blast
  obtain sy2 g2 where two: "\<And>rest. live_loop E P failed sy1 g1 (map (Some \<circ> Proto \<circ> fst) w @ rest) =
      live_loop E P failed sy2 g2 rest" "core (sy_state sy2) = core stL" "sy_gk sy2 = sy_gk sy"
    using live_loop_mirrors [OF assms(12) lim _ _ assms(25,24), of sy1 failed g1] one(2,3) S(1) mir(2) by metis
  have "machine_inv (core st1)" using L(2) S(1) by simp
  from run_branches [OF assms(12) this sw(4)]
  have "\<forall>(t, i) \<in> set w. \<not> swaps t \<and> branch_get (mbranches (core (sy_state sy2))) (tp_branch_id (Proto t)) \<noteq> None \<and>
      has_prior t \<and> prior_of t \<noteq> state_Root E (sy_state sy2) \<and> mirrorable E P (sy_gk sy2) t"
    using sw(4) assms(19) mir(2) two(2,3) by (auto simp: state_Root_def)
  from live_loop_stale [OF this assms(24), of failed g2] obtain g3 where
    three: "\<And>rest. live_loop E P failed sy2 g2 (map (Some \<circ> Proto \<circ> fst) w @ rest) = live_loop E P failed sy2 g3 rest"
    by blast
  have limL: "Limiter (core stL) = None" using run_Limiter [OF assms(12) lim] .
  obtain sy4 g4 where four: "\<And>rest. live_loop E P failed sy2 g3 (map (Some \<circ> Proto \<circ> fst) ts3 @ rest) =
      live_loop E P failed sy4 g4 rest" "core (sy_state sy4) = core st2"
    using live_loop_mirrors [OF assms(13) limL _ _ assms(25,24), of sy2 failed g3] two(2,3) mir(3) by metis
  have "live_loop E P failed sy ?g (map (Some \<circ> te_Transition) (evs @ map (live_event gid) waiting)) =
      live_loop E P failed sy4 g4 []"
    unfolding evs one(1) two(1) three using four(1) [of "[]"] by simp
  then show ?thesis
    using assms(23,24) four(2) by (simp add: liveOnce_def Let_def live_check_def)
qed

text \<open>The peer accepts a second member before its handler reads the log, and a third one after that.\<close>

theorem live_mirrors_witness:
  "\<exists>sy' g'. liveOnce ex_E ((ex_peer (ex_service ex_mid))\<lparr>peer_Subscribe :=
        (\<lambda>n r. Some (map (Some \<circ> Proto) [ex_second, ex_second, ex_third], False))\<rparr>)
      \<lparr>sy_state = ex_mid, sy_gk = ex_key 9\<rparr> \<lparr>lv_streams = 0, lv_checks = 0, lv_applies = 0\<rparr> = (CleanEOF, sy', g') \<and>
     Log (sy_state sy') = [ex_member_wire, ex_second, ex_third]"
proof -
  let ?P = "(ex_peer (ex_service ex_mid))\<lparr>peer_Subscribe :=
        (\<lambda>n r. Some (map (Some \<circ> Proto) [ex_second, ex_second, ex_third], False))\<rparr>"
  let ?sy = "\<lparr>sy_state = ex_mid, sy_gk = ex_key 9\<rparr>"
  let ?g = "\<lparr>lv_streams = 0, lv_checks = 0, lv_applies = 0\<rparr>"
  let ?w = "[(ex_second, ex_inp)]" and ?v = "[(ex_third, ex_inp)]"
  obtain st2 where r: "accepted_run ex_E ex_late ?v = Some st2" using ex_third_run by blast
  have lr: "live_request ?sy = \<lparr>sb_group_key = Some (ex_key 9), sb_since_index = 1\<rparr>"
    using ex_mid_facts(1) by (simp add: live_request_def TransitionCount_def Log_def)
  have init: "accepted_run ex_E ex_mid [] = Some ex_mid" "Log (ex_state [1, 2] 1) = []" "MaxLogSize (core (ex_state [1, 2] 1)) = 100000"
    "core (sy_state ?sy) = core ex_mid"
    by (simp_all add: accepted_run.simps Log_def ex_state_def new_machine_def ex_chain_def new_chain_def)
  have sub: "host_Subscribe (ex_service ex_mid) (Some (live_request ?sy)) =
      (Inr (ex_key 9, 0), set_state (ex_service ex_mid) (ex_key 9) ex_listened)"
    "mg_Get (svc_groups (ex_service ex_mid)) (bytesToKey (sy_gk ?sy)) = Some ex_mid"
    "hosted_ok (bytesToKey (sy_gk ?sy)) ex_mid"
    "mg_Get (svc_groups (set_state (ex_service ex_mid) (ex_key 9) ex_listened)) (bytesToKey (sy_gk ?sy)) = Some ex_listened"
    using ex_mid_subscribe unfolding lr by simp_all
  have sw: "\<forall>(t, i) \<in> set (?w @ ?v). \<not> swaps t" using ex_genesis by simp
  note S = subscribe_stream [OF ex_mid_subscribe ex_late_run r sw, of 1 zero32]
  obtain evs bc waiting where s: "replay_stream (ex_key 9) 1 (Log ex_late) zero32 = Some evs" "broadcaster st2 = Some bc"
    "map_of (subs bc) 0 = Some waiting" "map te_Transition evs = [Proto ex_second]"
    "map te_Transition (map (live_event (ex_key 9)) waiting) = [Proto ex_second, Proto ex_third]"
    and l: "Log st2 = [ex_member_wire, ex_second, ex_third]"
    using S ex_mid_facts by (auto simp: chan_cap_def)
  have s0: "replay_stream (ex_key 9) (sb_since_index (live_request ?sy)) (Log ex_late) zero32 = Some evs" using s(1) by (simp add: lr)
  have mir: "mirrorable ex_E ?P (ex_key 9) t" if "t = ex_second \<or> t = ex_third" for t
    using that by (auto simp: mirrorable_def deadline_open_def ex_second_def ex_third_def NewTransition_def ex_tx_def)
  have all: "\<forall>(t, i) \<in> set ([(ex_member_wire, ex_inp)] @ [] @ ?w @ ?v). \<not> swaps t"
    "\<forall>(t, i) \<in> set ([] @ ?w @ ?v). mirrorable ex_E ?P (sy_gk ?sy) t"
    using ex_genesis mir by simp_all
  have "has_prior ex_second \<and> prior_of ex_second \<noteq> state_Root ex_E ex_late" by code_simp
  then have w: "\<forall>(t, i) \<in> set ?w. has_prior t \<and> prior_of t \<noteq> state_Root ex_E ex_late" by simp
  have "map te_Transition (evs @ map (live_event (ex_key 9)) waiting) = map Proto [ex_second, ex_second, ex_third]"
    using s(4,5) by simp
  then have peer: "peer_Subscribe ?P (lv_streams ?g) (live_request ?sy) =
      Some (map (Some \<circ> te_Transition) (evs @ map (live_event (ex_key 9)) waiting), False)"
    by (metis (no_types, lifting) list.map_comp sync_env.select_convs(2) sync_env.update_convs(2) sync_env.surjective)
  have env: "\<forall>n. \<not> sync_cancelled ?P n" "\<forall>k. in_db_ok (sync_input ?P k)"
    by (simp_all add: ex_peer_def ex_inp_def)
  obtain sy' g' where m: "liveOnce ex_E ?P ?sy ?g = (if False then ReceiveError else CleanEOF, sy', g')" "core (sy_state sy') = core st2"
    using live_mirrors [OF ex_mid_run init(1,2) _ init(4) ex_mid_facts(5) ex_state_inv sub ex_late_run r s0 s(2,3) all w _ _ _ peer env]
      init(3) by (auto simp: chan_cap_def)
  then show ?thesis using l by (auto simp: Log_def)
qed

end
