(* ===== verification/MirrorRules.thy ===== *)
theory MirrorRules
  imports FederationRules
begin

text \<open>
  The syncer against peers that are not honest, and against its own past: what it recognises as a duplicate,
  what any peer can do to a mirror, and when Live returns.
\<close>

section \<open>Duplicates\<close>

text \<open>No two neighbours are \<open>a\<close> and \<open>b\<close>.\<close>

fun no_pair :: "char \<Rightarrow> char \<Rightarrow> string \<Rightarrow> bool" where
  "no_pair a b [] = True"
| "no_pair a b (x # xs) = (\<not> (x = a \<and> take 1 xs = [b]) \<and> no_pair a b xs)"

lemma no_pair_nth: "no_pair a b s \<Longrightarrow> Suc n < length s \<Longrightarrow> \<not> (s ! n = a \<and> s ! Suc n = b)"
proof (induction s arbitrary: n)
  case (Cons x s)
  then show ?case by (cases n; cases s) auto
qed simp

lemma no_pair_append_fst: "a \<notin> set xs \<Longrightarrow> no_pair a b (xs @ ys) = no_pair a b ys"
  by (induction xs) auto

lemma no_pair_append_snd: "b \<notin> set xs \<Longrightarrow> take 1 ys \<noteq> [b] \<Longrightarrow> no_pair a b (xs @ ys) = no_pair a b ys"
proof (induction xs)
  case (Cons x xs)
  then show ?case by (cases xs) auto
qed simp

lemma no_pair_not_contains:
  assumes "no_pair a b (map fold_case s)" "Suc j < length sub" "fold_case (sub ! j) = a" "fold_case (sub ! Suc j) = b"
  shows "\<not> contains s sub"
proof -
  have no: "\<not> matches_at s sub i" if "i + length sub \<le> length s" for i
  proof
    assume "matches_at s sub i"
    then have "fold_case (s ! (i + k)) = fold_case (sub ! k)" if "k < length sub" for k
      using that by (simp add: matches_at_def list_all_iff)
    from this [of j] this [of "Suc j"] have "fold_case (s ! (i + j)) = a" "fold_case (s ! (i + Suc j)) = b"
      using assms(2-4) by auto
    then show False using no_pair_nth [OF assms(1), of "i + j"] assms(2) that by simp
  qed
  moreover have "s \<noteq> sub"
    using no [of 0] by (auto simp: matches_at_def list_all_iff)
  ultimately show ?thesis by (auto simp: contains_def containsFold_def list_ex_iff)
qed

lemma byte_digits: "unat (x :: byte) div 16 < 16" "unat (x :: byte) mod 16 < 16"
proof -
  have "unat x < 256" using unsigned_less [of x] by simp
  then show "unat x div 16 < 16" by (simp add: less_mult_imp_div_less)
qed simp

lemma fold_hex [simp]: "map fold_case (hex bs) = hex bs"
proof -
  have d: "fold_case (hexdigit n) = hexdigit n" if "n < 16" for n
  proof -
    have "n \<in> set [0 ..< 16]" using that by simp
    then show ?thesis by (simp add: upt_rec) (elim disjE; simp add: hexdigit_def fold_case_def)
  qed
  show ?thesis by (induction bs) (simp_all add: d byte_digits)
qed

lemma hex_digits: "CHR ''r'' \<notin> set (hex bs)" "CHR ''u'' \<notin> set (hex bs)"
proof -
  have d: "hexdigit n \<noteq> CHR ''r'' \<and> hexdigit n \<noteq> CHR ''u''" if "n < 16" for n
  proof -
    have "n \<in> set [0 ..< 16]" using that by simp
    then show ?thesis by (simp add: upt_rec) (elim disjE; simp add: hexdigit_def)
  qed
  show "CHR ''r'' \<notin> set (hex bs)" "CHR ''u'' \<notin> set (hex bs)"
    by (induction bs) (use d byte_digits in \<open>auto dest: sym\<close>)
qed

lemma not_duplicate_text:
  assumes "no_pair (CHR ''r'') (CHR '' '') (map fold_case s)" "no_pair (CHR ''d'') (CHR ''u'') (map fold_case s)"
  shows "\<not> isDuplicateTransition s"
proof -
  have "\<not> contains s ''prior state mismatch''" "\<not> contains s ''expected prior state''"
    by (rule no_pair_not_contains [OF assms(1), of 4]; simp add: fold_case_def)
      (rule no_pair_not_contains [OF assms(1), of 13]; simp add: fold_case_def)
  moreover have "\<not> contains s ''duplicate''"
    by (rule no_pair_not_contains [OF assms(2), of 0]) (simp_all add: fold_case_def)
  ultimately show ?thesis by (simp add: isDuplicateTransition_def)
qed

lemma no_pair_hex: "no_pair (CHR ''r'') b (hex bs)" "no_pair a (CHR ''u'') (hex bs)"
  using no_pair_append_fst [OF hex_digits(1), of b bs "[]"] no_pair_append_snd [OF hex_digits(2), of "[]" a bs] by simp_all

lemmas scan = no_pair_append_fst no_pair_append_snd no_pair_hex hex_digits fold_case_def

lemma mismatch_not_duplicate: "\<not> isDuplicateTransition (error_text d (Route (PriorStateMismatch have got)))"
  by (rule not_duplicate_text) (simp_all add: scan)

lemma equivocation_not_duplicate: "\<not> isDuplicateTransition (error_text d (Route (EquivocationDetected k prior)))"
  by (rule not_duplicate_text) (simp_all add: scan dash_def)

lemma contains_at:
  assumes "matches_at s sub i" "i + length sub \<le> length s"
  shows "contains s sub"
proof -
  have "i \<in> set [0 ..< length s - length sub + 1]" using assms(2) by (simp del: upt_Suc)
  then have "list_ex (matches_at s sub) [0 ..< length s - length sub + 1]" using assms(1) unfolding list_ex_iff by blast
  then show ?thesis using assms(2) by (simp add: contains_def containsFold_def del: upt_Suc)
qed

lemma mesh_duplicate:
  assumes "e = ErrDuplicateMeshPeer \<or> e = ErrDuplicateMeshIP"
  shows "isDuplicateTransition (error_text d (Mesh e))" "isDuplicateTransition (error_text d (CreateMeshPeers e))"
proof -
  have "contains (error_text d (Mesh e)) ''duplicate''"
    by (rule contains_at [of _ _ 0]) (use assms in \<open>auto simp: matches_at_def upt_rec\<close>)
  moreover have "contains (error_text d (CreateMeshPeers e)) ''duplicate''"
    by (rule contains_at [of _ _ 40]) (use assms in \<open>auto simp: matches_at_def upt_rec\<close>)
  ultimately show "isDuplicateTransition (error_text d (Mesh e))" "isDuplicateTransition (error_text d (CreateMeshPeers e))"
    by (simp_all add: isDuplicateTransition_def)
qed


lemma apply_page_error:
  assumes "NewTransition E p (sy_gk sy) = Some t"
    "Apply E (sy_state sy) t (sync_input P (pg_applies g)) = (Some e, s')"
  shows "apply_page E P sy g (p # ts) = (if isDuplicateTransition (error_text (sync_detail P (pg_applies g)) e)
      then apply_page E P (sy\<lparr>sy_state := s'\<rparr>) (g\<lparr>pg_applies := pg_applies g + 1\<rparr>) ts
      else (Some (ApplyError (pg_cursor g) e), sy\<lparr>sy_state := s'\<rparr>, g\<lparr>pg_applies := pg_applies g + 1\<rparr>))"
  using assms by (simp add: sync_apply_def Let_def)

text \<open>
  the syncer does not recognise what was applied before: a transition whose prior state is not the current
  root, or that counts as an equivocation, aborts Bootstrap, because the text of the error says
  prior_state where the syncer looks for prior state. What it does take for a duplicate, and skips
  without an error, is a transition that fails for a duplicate mesh peer or mesh address.
\<close>

theorem duplicate_not_recognised:
  assumes "NewTransition E p (sy_gk sy) = Some t"
    "Apply E (sy_state sy) t (sync_input P (pg_applies g)) = (Some e, s')"
  defines "sy' \<equiv> sy\<lparr>sy_state := s'\<rparr>" and "g' \<equiv> g\<lparr>pg_applies := pg_applies g + 1\<rparr>"
  shows "(e = Route (PriorStateMismatch have got) \<or> e = Route (EquivocationDetected k prior) \<longrightarrow>
      apply_page E P sy g (p # ts) = (Some (ApplyError (pg_cursor g) e), sy', g')) \<and>
    (e \<in> {Mesh ErrDuplicateMeshPeer, Mesh ErrDuplicateMeshIP, CreateMeshPeers ErrDuplicateMeshPeer, CreateMeshPeers ErrDuplicateMeshIP} \<longrightarrow>
      apply_page E P sy g (p # ts) = apply_page E P sy' g' ts)"
proof -
  have step: "apply_page E P sy g (p # ts) = (if isDuplicateTransition (error_text (sync_detail P (pg_applies g)) e)
      then apply_page E P sy' g' ts else (Some (ApplyError (pg_cursor g) e), sy', g'))"
    unfolding sy'_def g'_def by (rule apply_page_error [OF assms(1,2)])
  have "\<not> isDuplicateTransition (error_text d e)"
    if "e = Route (PriorStateMismatch have got) \<or> e = Route (EquivocationDetected k prior)" for d
    using that mismatch_not_duplicate equivocation_not_duplicate by blast
  moreover have "isDuplicateTransition (error_text d e)"
    if "e \<in> {Mesh ErrDuplicateMeshPeer, Mesh ErrDuplicateMeshIP, CreateMeshPeers ErrDuplicateMeshPeer, CreateMeshPeers ErrDuplicateMeshIP}" for d
    using that mesh_duplicate by blast
  ultimately show ?thesis unfolding step by (metis (mono_tags))
qed

theorem duplicate_not_recognised_witness:
  "fst (apply_page ex_E (ex_peer (ex_service ex_mid)) \<lparr>sy_state = ex_mid, sy_gk = ex_key 9\<rparr>
      \<lparr>pg_cursor = 0, pg_applied = 0, pg_applies = 0\<rparr> [Proto ex_member_wire]) \<noteq> None"
proof -
  have "(case fst (Apply ex_E ex_mid ex_member_wire ex_inp) of Some (Route (PriorStateMismatch have got)) \<Rightarrow> True | _ \<Rightarrow> False)"
    by code_simp
  then obtain h h' s' where a: "Apply ex_E ex_mid ex_member_wire ex_inp = (Some (Route (PriorStateMismatch h h')), s')"
    by (cases "Apply ex_E ex_mid ex_member_wire ex_inp") (auto split: option.splits group_error.splits route_error.splits)
  have "NewTransition ex_E (Proto ex_member_wire) (ex_key 9) = Some ex_member_wire"
    using ex_member_wire_made by (simp add: ex_member_wire_def)
  then show ?thesis
    using duplicate_not_recognised [of ex_E "Proto ex_member_wire" "\<lparr>sy_state = ex_mid, sy_gk = ex_key 9\<rparr>" ex_member_wire
        "ex_peer (ex_service ex_mid)" "\<lparr>pg_cursor = 0, pg_applied = 0, pg_applies = 0\<rparr>"] a
    by (simp add: ex_peer_def)
qed

section \<open>Any peer\<close>

inductive mirrored :: "env \<Rightarrow> group_id \<Rightarrow> state \<Rightarrow> state \<Rightarrow> bool" for E gid where
  start: "mirrored E gid s s"
| advance: "mirrored E gid s s1 \<Longrightarrow> NewTransition E p gid = Some t \<Longrightarrow> mirrored E gid s (snd (Apply E s1 t inp))"

definition follows :: "env \<Rightarrow> syncer \<Rightarrow> syncer \<Rightarrow> bool" where
  "follows E sy sy' \<longleftrightarrow> sy_gk sy' = sy_gk sy \<and> mirrored E (sy_gk sy) (sy_state sy) (sy_state sy')"

lemma follows_refl [simp]: "follows E sy sy"
  by (simp add: follows_def mirrored.start)

lemma mirrored_trans: "mirrored E gid s1 s2 \<Longrightarrow> mirrored E gid s s1 \<Longrightarrow> mirrored E gid s s2"
  by (induction rule: mirrored.induct) (auto intro: mirrored.intros)

lemma follows_trans: "follows E sy sy1 \<Longrightarrow> follows E sy1 sy2 \<Longrightarrow> follows E sy sy2"
  by (auto simp: follows_def intro: mirrored_trans)

lemma sync_apply_follows:
  "NewTransition E p (sy_gk sy) = Some t \<Longrightarrow> sync_apply E P sy k t = (r, sy') \<Longrightarrow> follows E sy sy'"
  using mirrored.advance [OF mirrored.start, of E p "sy_gk sy" t "sy_state sy" "sync_input P k"]
  by (auto simp: follows_def sync_apply_def split: prod.splits)

lemma apply_page_follows: "apply_page E P sy g ps = (r, sy', g') \<Longrightarrow> follows E sy sy'"
proof (induction ps arbitrary: sy g)
  case (Cons p ps)
  then show ?case
    by (auto simp: Let_def split: option.splits prod.splits if_splits
        dest: sync_apply_follows intro: follows_trans)
qed simp

lemma bootstrap_loop_follows: "bootstrap_loop fuel E P n sy g = Some (r, sy') \<Longrightarrow> follows E sy sy'"
proof (induction fuel arbitrary: n sy g)
  case (Suc fuel)
  then show ?case
    by (auto split: option.splits prod.splits if_splits dest: apply_page_follows intro: follows_trans)
qed simp

lemma sync_event_follows: "sync_event E P sy g ev = (sy', g') \<Longrightarrow> follows E sy sy'"
  by (cases ev) (auto split: option.splits intro: sync_apply_follows [OF _ surjective_pairing])

lemma live_loop_follows: "live_loop E P failed sy g evs = (r, sy', g') \<Longrightarrow> follows E sy sy'"
proof (induction evs arbitrary: sy g)
  case (Cons ev evs)
  then show ?case
    by (auto split: prod.splits bool.splits dest: sync_event_follows intro: follows_trans)
qed (auto split: prod.splits bool.splits)

lemma liveOnce_follows: "liveOnce E P sy g = (r, sy', g') \<Longrightarrow> follows E sy sy'"
  by (auto simp: liveOnce_def Let_def split: option.splits dest: live_loop_follows)

lemma live_run_follows: "live_run fuel E P sy g = Some (sy', g') \<Longrightarrow> follows E sy sy'"
proof (induction fuel arbitrary: sy g)
  case (Suc fuel)
  then show ?case
    by (auto split: prod.splits bool.splits live_end.splits dest: liveOnce_follows intro: follows_trans)
qed simp

lemma mirrored_inv:
  "mirrored E gid s s' \<Longrightarrow> config (core s') = config (core s) \<and> (machine_inv (core s) \<longrightarrow> machine_inv (core s'))"
proof (induction rule: mirrored.induct)
  case (advance s s1 p t inp)
  then show ?case using Apply_config [of E s1 t inp] Apply_inv [of s1 E t inp] by simp
qed simp

text \<open>
  C29: a mirror trusts no peer with its state: whatever the peer answers, and however its answers change from
  call to call, Bootstrap and Live change the mirror only by calls of Apply, which checks every signature,
  on transitions decoded for the mirrored group; its identity and limits stay, and the invariant of
  the state machine is preserved.
\<close>

theorem mirror_only_applies:
  assumes "Bootstrap fuel E P sy = Some (r, sy') \<or> Live fuel E P sy = Some sy'"
  shows "sy_gk sy' = sy_gk sy \<and> mirrored E (sy_gk sy) (sy_state sy) (sy_state sy') \<and>
    config (core (sy_state sy')) = config (core (sy_state sy)) \<and>
    (machine_inv (core (sy_state sy)) \<longrightarrow> machine_inv (core (sy_state sy')))"
proof -
  from assms have "follows E sy sy'"
  proof
    assume "Live fuel E P sy = Some sy'"
    then obtain g' where "live_run fuel E P sy \<lparr>lv_streams = 0, lv_checks = 0, lv_applies = 0\<rparr> = Some (sy', g')"
      unfolding Live_def map_option_eq_Some by (metis prod.collapse)
    then show ?thesis by (rule live_run_follows)
  qed (unfold Bootstrap_def, rule bootstrap_loop_follows)
  then show ?thesis using mirrored_inv unfolding follows_def by blast
qed

definition ex_stale_peer :: sync_env where
  "ex_stale_peer = (ex_peer (ex_service ex_mid))\<lparr>peer_GetLog :=
     (\<lambda>n r. Some \<lparr>glr_Transitions = [Proto ex_member_wire, Proto ex_second], glr_NextCursor = 0, glr_Total = 7\<rparr>)\<rparr>"

theorem mirror_only_applies_witness:
  "\<exists>r sy'. Bootstrap (Suc 0) ex_E ex_stale_peer \<lparr>sy_state = ex_mid, sy_gk = ex_key 9\<rparr> = Some (r, sy') \<and>
     machine_inv (core (sy_state sy'))"
proof -
  let ?sy = "\<lparr>sy_state = ex_mid, sy_gk = ex_key 9\<rparr>"
  let ?g = "\<lparr>pg_cursor = TransitionCount ex_mid, pg_applied = 0, pg_applies = 0\<rparr>"
  let ?ps = "[Proto ex_member_wire, Proto ex_second]"
  obtain e sy1 g1 where page: "apply_page ex_E ex_stale_peer ?sy ?g ?ps = (e, sy1, g1)" by (metis prod_cases3)
  have peer: "\<not> sync_cancelled ex_stale_peer n"
    "peer_GetLog ex_stale_peer n q = Some \<lparr>glr_Transitions = ?ps, glr_NextCursor = 0, glr_Total = 7\<rparr>" for n q
    by (simp_all add: ex_stale_peer_def ex_peer_def)
  have "Bootstrap (Suc 0) ex_E ex_stale_peer ?sy = Some ((pg_applied g1, e), sy1)"
    by (cases e) (simp_all add: Bootstrap_def peer page del: apply_page.simps)
  then show ?thesis
    using mirror_only_applies [of "Suc 0" ex_E ex_stale_peer ?sy "(pg_applied g1, e)" sy1] ex_mid_facts(2) by auto
qed

section \<open>Live ends with its context\<close>

lemma live_run_step:
  assumes "\<not> sync_cancelled P (lv_checks g)" "liveOnce E P sy (g\<lparr>lv_checks := lv_checks g + 1\<rparr>) = (e, sy1, g1)"
  shows "live_run (Suc fuel) E P sy g =
    (if e = CleanEOF then live_run fuel E P sy1 g1
     else if sync_cancelled P (lv_checks g1) then Some (sy1, g1\<lparr>lv_checks := lv_checks g1 + 1\<rparr>)
     else if sync_cancelled P (lv_checks g1 + 1) then Some (sy1, g1\<lparr>lv_checks := lv_checks g1 + 2\<rparr>)
     else live_run fuel E P sy1 (g1\<lparr>lv_checks := lv_checks g1 + 2\<rparr>))"
  using assms
  by (cases e; cases "sync_cancelled P (lv_checks g1)"; cases "sync_cancelled P (lv_checks g1 + 1)")
    (simp_all add: live_check_def)

lemma sync_event_checks: "lv_checks (snd (sync_event E P sy g ev)) = lv_checks g"
  by (cases ev) (auto split: option.splits)

lemma live_loop_checks: "live_loop E P failed sy g evs = (r, sy', g') \<Longrightarrow> lv_checks g < lv_checks g'"
proof (induction evs arbitrary: sy g)
  case (Cons ev evs)
  show ?case
  proof (cases "sync_cancelled P (lv_checks g)")
    case False
    obtain sy1 g1 where e: "sync_event E P sy (g\<lparr>lv_checks := lv_checks g + 1\<rparr>) ev = (sy1, g1)" by fastforce
    then have "lv_checks g1 = lv_checks g + 1" using sync_event_checks [of E P sy "g\<lparr>lv_checks := lv_checks g + 1\<rparr>" ev] by simp
    moreover have "live_loop E P failed sy1 g1 evs = (r, sy', g')"
      using Cons.prems False e by (simp add: live_check_def)
    ultimately show ?thesis using Cons.IH [of sy1 g1] by simp
  qed (use Cons.prems in \<open>auto simp: live_check_def\<close>)
qed (auto simp: live_check_def split: bool.splits)

lemma liveOnce_checks: "liveOnce E P sy g = (r, sy', g') \<Longrightarrow> lv_checks g \<le> lv_checks g'"
  by (fastforce simp: liveOnce_def Let_def split: option.splits dest: live_loop_checks)

lemma live_run_ends:
  "\<forall>n \<ge> N. sync_cancelled P n \<Longrightarrow> N - lv_checks g < fuel \<Longrightarrow> live_run fuel E P sy g \<noteq> None"
proof (induction fuel arbitrary: sy g)
  case (Suc fuel)
  show ?case
  proof (cases "sync_cancelled P (lv_checks g)")
    case False
    let ?g = "g\<lparr>lv_checks := lv_checks g + 1\<rparr>"
    have lt: "lv_checks g < N" using False Suc.prems(1) by (meson not_le)
    obtain e sy1 g1 where o: "liveOnce E P sy ?g = (e, sy1, g1)" by (metis prod_cases3)
    have c: "lv_checks g + 1 \<le> lv_checks g1" using liveOnce_checks [OF o] by simp
    have ih: "live_run fuel E P sy1 (g1\<lparr>lv_checks := lv_checks g1 + k\<rparr>) \<noteq> None" for k
      by (rule Suc.IH [OF Suc.prems(1)]) (use c lt Suc.prems(2) in simp)
    show ?thesis unfolding live_run_step [OF False o] using ih [of 0] ih [of 2] by simp
  qed (simp add: live_check_def)
qed simp

lemma live_run_cancelled: "live_run fuel E P sy g = Some r \<Longrightarrow> \<exists>n. sync_cancelled P n"
proof (induction fuel arbitrary: sy g)
  case (Suc fuel)
  obtain e sy1 g1 where o: "liveOnce E P sy (g\<lparr>lv_checks := lv_checks g + 1\<rparr>) = (e, sy1, g1)" by (metis prod_cases3)
  show ?case
  proof (rule ccontr)
    assume "\<nexists>n. sync_cancelled P n"
    then have no: "\<not> sync_cancelled P n" for n by blast
    show False
      using Suc.prems Suc.IH no unfolding live_run_step [OF no o] by (simp split: if_splits)
  qed
qed simp

text \<open>
  C40: Live blocks for as long as its context lives and no longer: once every further check finds the context
  ended, it returns within as many rounds as there were checks before, and it never returns before a
  check has found it ended, whatever streams the peer offers.
\<close>

theorem Live_ends_with_context:
  "((\<forall>n \<ge> N. sync_cancelled P n) \<longrightarrow> (\<exists>sy'. Live (Suc N) E P sy = Some sy')) \<and>
   (Live fuel E P sy = Some sy' \<longrightarrow> (\<exists>n. sync_cancelled P n))"
  using live_run_ends [of N P "\<lparr>lv_streams = 0, lv_checks = 0, lv_applies = 0\<rparr>" "Suc N" E sy]
    live_run_cancelled [of fuel E P sy "\<lparr>lv_streams = 0, lv_checks = 0, lv_applies = 0\<rparr>"]
  by (auto simp: Live_def)

theorem Live_ends_with_context_witness:
  "\<exists>sy'. Live (Suc 0) ex_E ((ex_peer (ex_service ex_mid))\<lparr>sync_cancelled := (\<lambda>n. True)\<rparr>) \<lparr>sy_state = ex_mid, sy_gk = ex_key 9\<rparr> = Some sy'"
  using Live_ends_with_context [of 0 "(ex_peer (ex_service ex_mid))\<lparr>sync_cancelled := (\<lambda>n. True)\<rparr>" ex_E
      "\<lparr>sy_state = ex_mid, sy_gk = ex_key 9\<rparr>"] by simp

end
