(* ===== verification/Payment.thy ===== *)
theory Payment
  imports Prelude
begin

text \<open>
  The payment abstraction and the Stripe webhook (internal/payment: provider.go, stripe.go,
  webhook.go). The Stripe SDK (session and refund creation, signature check of an event) is a
  parameter; JSON decoding is one too, with the decoded value as a datatype. The store that the webhook
  updates is the interface WebhookOrderUpdater: a record of operations here, with its contract as
  the locale \<open>order_store\<close>, which the product store satisfies (theory ProductStore).
\<close>

section \<open>Providers\<close>

record checkout_params =
  cp_TicketID :: string
  cp_TicketName :: string
  cp_AmountCents :: u64
  cp_Currency :: string
  cp_Quantity :: u64
  cp_AttendeeEmail :: string
  cp_OrderID :: string
  cp_SuccessURL :: string
  cp_CancelURL :: string

record refund_params =
  rp_StripeSessionID :: string
  rp_AmountCents :: u64
  rp_Reason :: string

text \<open>The interface Provider: a session id and a URL, or the message of an error; an error or nil.\<close>

record provider =
  CreateCheckoutSession :: "checkout_params \<Rightarrow> string + string \<times> string"
  RefundPayment :: "refund_params \<Rightarrow> string option"

definition MockProvider :: provider where
  "MockProvider = \<lparr>
     CreateCheckoutSession = (\<lambda>params. Inr (''mock_sess_'' @ cp_OrderID params,
       ''https://checkout.stripe.com/c/pay/mock_'' @ cp_OrderID params)),
     RefundPayment = (\<lambda>params. None)\<rparr>"

subsection \<open>Stripe\<close>

text \<open>The parameter structs of the SDK, with the fields that are set. An int64 is kept as its word.\<close>

record stripe_line_item =
  li_Currency :: string
  li_UnitAmount :: u64
  li_ProductName :: string
  li_Quantity :: u64

record stripe_session_params =
  ss_Mode :: string
  ss_LineItems :: "stripe_line_item list"
  ss_SuccessURL :: string
  ss_CancelURL :: string
  ss_CustomerEmail :: string
  ss_ClientReferenceID :: string
  ss_Metadata :: "(string \<times> string) list"

record stripe_refund_params =
  sr_PaymentIntent :: string
  sr_Amount :: "u64 option"
  sr_Reason :: "string option"

record stripe_sdk =
  session_New :: "stripe_session_params \<Rightarrow> string + string \<times> string"
  refund_New :: "stripe_refund_params \<Rightarrow> string option"

definition stripe_checkout_params :: "string \<Rightarrow> string \<Rightarrow> checkout_params \<Rightarrow> stripe_session_params" where
  "stripe_checkout_params successURL cancelURL params =
     (let params = params\<lparr>cp_SuccessURL := successURL, cp_CancelURL := cancelURL\<rparr>;
          currency = (if cp_Currency params = '''' then ''usd'' else cp_Currency params)
      in \<lparr>ss_Mode = ''payment'',
          ss_LineItems = [\<lparr>li_Currency = currency, li_UnitAmount = cp_AmountCents params,
                           li_ProductName = cp_TicketName params, li_Quantity = cp_Quantity params\<rparr>],
          ss_SuccessURL = cp_SuccessURL params, ss_CancelURL = cp_CancelURL params,
          ss_CustomerEmail = cp_AttendeeEmail params, ss_ClientReferenceID = cp_OrderID params,
          ss_Metadata = [(''ticket_id'', cp_TicketID params), (''order_id'', cp_OrderID params),
                         (''attendee_email'', cp_AttendeeEmail params)]\<rparr>)"

definition stripe_refund_of :: "refund_params \<Rightarrow> stripe_refund_params" where
  "stripe_refund_of params = \<lparr>sr_PaymentIntent = rp_StripeSessionID params,
     sr_Amount = (if rp_AmountCents params > 0 then Some (rp_AmountCents params) else None),
     sr_Reason = (if rp_Reason params \<noteq> '''' then Some (rp_Reason params) else None)\<rparr>"

definition StripeConnectProvider :: "stripe_sdk \<Rightarrow> string \<Rightarrow> string \<Rightarrow> provider" where
  "StripeConnectProvider sdk successURL cancelURL = \<lparr>
     CreateCheckoutSession = (\<lambda>params.
       (case session_New sdk (stripe_checkout_params successURL cancelURL params) of
          Inl err \<Rightarrow> Inl (''stripe checkout session: '' @ err) | Inr sess \<Rightarrow> Inr sess)),
     RefundPayment = (\<lambda>params.
       map_option (\<lambda>err. ''stripe refund: '' @ err) (refund_New sdk (stripe_refund_of params)))\<rparr>"

text \<open>The constructor panics, here \<open>None\<close>, when STRIPE_SECRET_KEY is not set.\<close>

definition HasStripeKey :: "string \<Rightarrow> bool" where
  "HasStripeKey key \<longleftrightarrow> key \<noteq> ''''"

definition NewStripeConnectProvider :: "string \<Rightarrow> stripe_sdk \<Rightarrow> string \<Rightarrow> string \<Rightarrow> provider option" where
  "NewStripeConnectProvider key sdk successURL cancelURL =
     (if key = '''' then None else Some (StripeConnectProvider sdk successURL cancelURL))"

text \<open>What Stripe charges for a session: the sum of unit amount times quantity.\<close>

definition stripe_total :: "stripe_session_params \<Rightarrow> nat" where
  "stripe_total p = sum_list (map (\<lambda>li. unat (li_UnitAmount li) * unat (li_Quantity li)) (ss_LineItems p))"

section \<open>The webhook\<close>

text \<open>A decoded JSON value; a later duplicate of a key wins.\<close>

datatype json = JNull | JBool bool | JNumber string | JString string | JArray "json list"
  | JObject "(string \<times> json) list"

fun json_field :: "json \<Rightarrow> string \<Rightarrow> json option" where
  "json_field (JObject kvs) k = map_of (rev kvs) k"
| "json_field _ k = None"

definition extractOrderID :: "json option \<Rightarrow> string" where
  "extractOrderID dataObj =
     (case dataObj of
        Some (JObject kvs) \<Rightarrow>
          (case json_field (JObject kvs) ''client_reference_id'' of
             Some (JString (c # cs)) \<Rightarrow> c # cs
           | _ \<Rightarrow>
               (case json_field (JObject kvs) ''metadata'' of
                  Some (JObject meta) \<Rightarrow>
                    (case json_field (JObject meta) ''order_id'' of Some (JString oid) \<Rightarrow> oid | _ \<Rightarrow> [])
                | _ \<Rightarrow> []))
      | _ \<Rightarrow> [])"

text \<open>An event: its type and the raw bytes of its data object, which a body without one leaves nil.\<close>

record stripe_event =
  se_Type :: string
  se_Data :: "bytes option"

text \<open>WebhookOrderUpdater: each operation yields (found, already), or \<open>None\<close> when it panics, and the
  store it leaves.\<close>

record 's order_updater =
  op_Complete :: "'s \<Rightarrow> string \<Rightarrow> (bool \<times> bool) option \<times> 's"
  op_Failed :: "'s \<Rightarrow> string \<Rightarrow> (bool \<times> bool) option \<times> 's"
  op_Disputed :: "'s \<Rightarrow> string \<Rightarrow> (bool \<times> bool) option \<times> 's"
  op_Refund :: "'s \<Rightarrow> string \<Rightarrow> (bool \<times> bool) option \<times> 's"

datatype http_result = Response nat string | Panicked

definition dispatch :: "(bytes \<Rightarrow> json option) \<Rightarrow> ('s \<Rightarrow> string \<Rightarrow> (bool \<times> bool) option \<times> 's) \<Rightarrow> 's
    \<Rightarrow> stripe_event \<Rightarrow> http_result \<times> 's" where
  "dispatch parse fn s event =
     (case se_Data event of
        None \<Rightarrow> (Panicked, s)
      | Some raw \<Rightarrow>
          let orderID = extractOrderID (parse raw)
          in if orderID = '''' then (Response 200 ''{\"status\":\"no_order_id\"}'', s)
             else (case fn s orderID of
                     (None, s') \<Rightarrow> (Panicked, s')
                   | (Some (found, _), s') \<Rightarrow>
                       if \<not> found then (Response 200 ''{\"status\":\"order_not_found\"}'', s')
                       else (Response 200 ''{\"status\":\"processed\"}'', s')))"

definition handleEvent :: "(bytes \<Rightarrow> json option) \<Rightarrow> 's order_updater \<Rightarrow> 's \<Rightarrow> stripe_event \<Rightarrow> http_result \<times> 's" where
  "handleEvent parse upd s event =
     (if se_Type event = ''checkout.session.completed'' then dispatch parse (op_Complete upd) s event
      else if se_Type event = ''checkout.session.expired'' \<or> se_Type event = ''charge.failed''
      then dispatch parse (op_Failed upd) s event
      else if se_Type event = ''charge.dispute.created'' then dispatch parse (op_Disputed upd) s event
      else if se_Type event = ''charge.refunded'' then dispatch parse (op_Refund upd) s event
      else (Response 200 ''{\"status\":\"ignored\"}'', s))"

text \<open>A request: method, body (\<open>None\<close> when reading it fails) and the Stripe-Signature header. The SDK's
  check and the plain decoding are parameters.\<close>

record http_request =
  rq_Method :: string
  rq_Body :: "bytes option"
  rq_Signature :: string

record webhook_lib =
  ConstructEvent :: "bytes \<Rightarrow> string \<Rightarrow> string \<Rightarrow> string + stripe_event"
  unmarshal_event :: "bytes \<Rightarrow> stripe_event option"
  unmarshal_data :: "bytes \<Rightarrow> json option"

definition webhook_secret :: "string \<Rightarrow> string \<Rightarrow> string" where
  "webhook_secret env secret = (if secret = '''' then env else secret)"

definition IsWebhookConfigured :: "string \<Rightarrow> bool" where
  "IsWebhookConfigured env \<longleftrightarrow> env \<noteq> ''''"

definition ServeHTTP :: "webhook_lib \<Rightarrow> 's order_updater \<Rightarrow> string \<Rightarrow> 's \<Rightarrow> http_request \<Rightarrow> http_result \<times> 's" where
  "ServeHTTP L upd secret s r =
     (if rq_Method r \<noteq> ''POST'' then (Response 405 ''method not allowed'', s)
      else (case rq_Body r of
              None \<Rightarrow> (Response 400 ''failed to read body'', s)
            | Some body \<Rightarrow>
                if secret \<noteq> '''' then
                  (case ConstructEvent L body (rq_Signature r) secret of
                     Inl err \<Rightarrow> (Response 400 (''signature verification failed: '' @ err), s)
                   | Inr event \<Rightarrow> handleEvent (unmarshal_data L) upd s event)
                else (case unmarshal_event L body of
                        None \<Rightarrow> (Response 400 ''failed to parse event'', s)
                      | Some event \<Rightarrow> handleEvent (unmarshal_data L) upd s event)))"

section \<open>The contract of the store\<close>

text \<open>
  Whatever an operation did, repeating it at a later time is no change; an order that is not found
  is no change either. Time is the first argument.
\<close>

definition settles :: "('t \<Rightarrow> 's \<Rightarrow> string \<Rightarrow> (bool \<times> bool) option \<times> 's) \<Rightarrow> bool" where
  "settles fn \<longleftrightarrow> (\<forall>t t' s i. snd (fn t' (snd (fn t s i)) i) = snd (fn t s i) \<and>
     ((\<exists>a. fst (fn t s i) = Some (False, a)) \<longrightarrow> snd (fn t s i) = s))"

locale order_store =
  fixes upd :: "'t \<Rightarrow> 's order_updater"
  assumes complete_settles: "settles (\<lambda>t. op_Complete (upd t))"
    and failed_settles: "settles (\<lambda>t. op_Failed (upd t))"
    and disputed_settles: "settles (\<lambda>t. op_Disputed (upd t))"
    and refund_settles: "settles (\<lambda>t. op_Refund (upd t))"
begin

lemma dispatch_repeat:
  assumes "settles fn"
  shows "snd (dispatch parse (fn t') (snd (dispatch parse (fn t) s ev)) ev) = snd (dispatch parse (fn t) s ev)"
  using assms unfolding settles_def
  by (auto simp: dispatch_def Let_def split: option.splits prod.splits if_splits) (metis snd_conv)+

lemma event_repeat:
  "snd (handleEvent parse (upd t') (snd (handleEvent parse (upd t) s ev)) ev) = snd (handleEvent parse (upd t) s ev)"
  using dispatch_repeat [OF complete_settles] dispatch_repeat [OF failed_settles]
    dispatch_repeat [OF disputed_settles] dispatch_repeat [OF refund_settles]
  by (simp add: handleEvent_def)

lemma request_repeat:
  "snd (ServeHTTP L (upd t') secret (snd (ServeHTTP L (upd t) secret s rq)) rq) = snd (ServeHTTP L (upd t) secret s rq)"
  by (auto simp: ServeHTTP_def event_repeat split: option.splits sum.splits)

text \<open>With a secret configured, only a request the SDK authenticates can change the store.\<close>

lemma unsigned_no_change:
  assumes "secret \<noteq> []" "\<And>body. rq_Body rq = Some body \<Longrightarrow> \<exists>e. ConstructEvent L body (rq_Signature rq) secret = Inl e"
  shows "snd (ServeHTTP L (upd t) secret s rq) = s"
  using assms by (auto simp: ServeHTTP_def split: option.splits sum.splits)

end

end
