(* ===== verification/ProductStore.thy ===== *)
theory ProductStore
  imports Payment Transition "HOL-Library.AList"
begin

text \<open>
  The in-memory store of the product layer (internal/product/store.go and webhook_adapter.go):
  groups, events, tickets, orders, RSVPs, members and tokens, and the compound operations that
  check and change under one lock. A Go map is an association list; its order stands for the
  order in which the runtime happens to iterate. Values behind pointers are records that are
  written back. The store meets the webhook's contract: the interpretation \<open>orders\<close>.
\<close>

section \<open>Messages (product/v1/state.proto)\<close>

record money =
  mo_Amount :: u64
  mo_Currency :: string

datatype product_package = PACKAGE_UNSPECIFIED | PACKAGE_FREE_COMMUNITY | PACKAGE_RECURRING_CLUB
  | PACKAGE_TICKETED_WORKSHOP | PACKAGE_CONFERENCE

datatype hosting_mode = HOSTING_MODE_UNSPECIFIED | HOSTING_MODE_SELF_HOST | HOSTING_MODE_PAID_HOST

datatype hosting_tier = HOSTING_TIER_UNSPECIFIED | HOSTING_TIER_FREE | HOSTING_TIER_COMMUNITY
  | HOSTING_TIER_PRO | HOSTING_TIER_STUDIO

datatype event_visibility = VISIBILITY_UNSPECIFIED | VISIBILITY_PUBLIC | VISIBILITY_UNLISTED
  | VISIBILITY_PRIVATE | VISIBILITY_INVITE_ONLY

datatype member_role = ROLE_UNSPECIFIED | ROLE_OWNER | ROLE_ORGANIZER | ROLE_MODERATOR | ROLE_TREASURER
  | ROLE_MEMBER | ROLE_PENDING

datatype ticket_tier = TIER_UNSPECIFIED | TIER_EARLY_BIRD | TIER_REGULAR | TIER_SUPPORTER | TIER_CUSTOM

datatype order_status = ORDER_UNSPECIFIED | ORDER_PENDING | ORDER_COMPLETED | ORDER_REFUNDED
  | ORDER_PARTIALLY_REFUNDED | ORDER_DISPUTED | ORDER_FAILED

datatype rsvp_status = RSVP_UNSPECIFIED | RSVP_GOING | RSVP_WAITLIST | RSVP_MAYBE | RSVP_NOT_GOING

record ticket =
  tk_TicketId :: string
  tk_Name :: string
  tk_TierType :: ticket_tier
  tk_Price :: "money option"
  tk_Capacity :: u64
  tk_Sold :: u64
  tk_SaleStartsAt :: "timestamp option"
  tk_SaleEndsAt :: "timestamp option"

record product_order =
  od_OrderId :: string
  od_TicketId :: string
  od_AttendeeEmail :: string
  od_Status :: order_status
  od_StripeSessionId :: string
  od_AmountPaid :: "money option"
  od_RefundedAmount :: "money option"
  od_CreatedAt :: "timestamp option"
  od_RefundedAt :: "timestamp option"

record recurrence_rule =
  rr_Rrule :: string
  rr_Exceptions :: "string list"
  rr_Timezone :: string

record product_event =
  pe_EventId :: string
  pe_GroupId :: string
  pe_Title :: string
  pe_Description :: string
  pe_StartsAt :: "timestamp option"
  pe_EndsAt :: "timestamp option"
  pe_Location :: string
  pe_VenueId :: string
  pe_Visibility :: event_visibility
  pe_Capacity :: u64
  pe_Package :: product_package
  pe_Paid :: bool
  pe_Slug :: string
  pe_Cancelled :: bool
  pe_Recurrence :: "recurrence_rule option"

record product_group =
  pg_GroupId :: string
  pg_CanonicalName :: string
  pg_DisplayName :: string
  pg_Description :: string
  pg_HostingMode :: hosting_mode
  pg_HostingTier :: hosting_tier
  pg_Package :: product_package
  pg_CustomDomain :: string
  pg_MemberCount :: u64
  pg_CreatedAt :: "timestamp option"

record group_member =
  gm_GroupId :: string
  gm_UserEmail :: string
  gm_Role :: member_role
  gm_JoinedAt :: "timestamp option"

record rsvp =
  rs_EventId :: string
  rs_UserEmail :: string
  rs_Status :: rsvp_status
  rs_CreatedAt :: "timestamp option"
  rs_Attended :: bool

section \<open>The store\<close>

record store =
  st_groups :: "(string \<times> product_group) list"
  st_events :: "(string \<times> product_event) list"
  st_tickets :: "(string \<times> ticket) list"
  st_ticketEvents :: "(string \<times> string) list"
  st_orders :: "(string \<times> product_order) list"
  st_rsvps :: "(string \<times> rsvp) list"
  st_members :: "(string \<times> group_member) list"
  st_tokens :: "(string \<times> string) list"
  st_organizerTokens :: "(string \<times> string) list"

definition NewStore :: store where
  "NewStore = \<lparr>st_groups = [], st_events = [], st_tickets = [], st_ticketEvents = [], st_orders = [],
     st_rsvps = [], st_members = [], st_tokens = [], st_organizerTokens = []\<rparr>"

subsection \<open>Groups and events\<close>

definition PutGroup :: "store \<Rightarrow> product_group \<Rightarrow> store" where
  "PutGroup s g = s\<lparr>st_groups := AList.update (pg_GroupId g) g (st_groups s)\<rparr>"

definition GetGroup :: "store \<Rightarrow> string \<Rightarrow> product_group option" where
  "GetGroup s i = map_of (st_groups s) i"

definition DeleteGroup :: "store \<Rightarrow> string \<Rightarrow> store" where
  "DeleteGroup s i = s\<lparr>st_groups := AList.delete i (st_groups s)\<rparr>"

definition ListGroups :: "store \<Rightarrow> product_group list" where
  "ListGroups s = map snd (st_groups s)"

definition PutEvent :: "store \<Rightarrow> product_event \<Rightarrow> store" where
  "PutEvent s e = s\<lparr>st_events := AList.update (pe_EventId e) e (st_events s)\<rparr>"

definition GetEvent :: "store \<Rightarrow> string \<Rightarrow> product_event option" where
  "GetEvent s i = map_of (st_events s) i"

definition GetEventBySlug :: "store \<Rightarrow> string \<Rightarrow> product_event option" where
  "GetEventBySlug s slug = find (\<lambda>e. pe_Slug e = slug) (map snd (st_events s))"

definition DeleteEvent :: "store \<Rightarrow> string \<Rightarrow> store" where
  "DeleteEvent s i = s\<lparr>st_events := AList.delete i (st_events s)\<rparr>"

definition EventsForGroup :: "store \<Rightarrow> string \<Rightarrow> product_event list" where
  "EventsForGroup s groupID = filter (\<lambda>e. pe_GroupId e = groupID) (map snd (st_events s))"

subsection \<open>Tickets\<close>

definition PutTicket :: "store \<Rightarrow> string \<Rightarrow> ticket \<Rightarrow> store" where
  "PutTicket s eventID t =
     s\<lparr>st_tickets := AList.update (tk_TicketId t) t (st_tickets s),
       st_ticketEvents := AList.update (tk_TicketId t) eventID (st_ticketEvents s)\<rparr>"

definition GetTicket :: "store \<Rightarrow> string \<Rightarrow> ticket option" where
  "GetTicket s i = map_of (st_tickets s) i"

definition GetTicketEvent :: "store \<Rightarrow> string \<Rightarrow> string option" where
  "GetTicketEvent s i = map_of (st_ticketEvents s) i"

definition UpdateTicket :: "store \<Rightarrow> ticket \<Rightarrow> store" where
  "UpdateTicket s t = s\<lparr>st_tickets := AList.update (tk_TicketId t) t (st_tickets s)\<rparr>"

definition TicketsForEvent :: "store \<Rightarrow> string \<Rightarrow> ticket list" where
  "TicketsForEvent s eventID =
     List.map_filter (\<lambda>(tid, eid). if eid = eventID then map_of (st_tickets s) tid else None) (st_ticketEvents s)"

definition DeleteTicket :: "store \<Rightarrow> string \<Rightarrow> store" where
  "DeleteTicket s i =
     s\<lparr>st_tickets := AList.delete i (st_tickets s), st_ticketEvents := AList.delete i (st_ticketEvents s)\<rparr>"

subsection \<open>Orders\<close>

definition PutOrder :: "store \<Rightarrow> product_order \<Rightarrow> store" where
  "PutOrder s od = s\<lparr>st_orders := AList.update (od_OrderId od) od (st_orders s)\<rparr>"

definition GetOrder :: "store \<Rightarrow> string \<Rightarrow> product_order option" where
  "GetOrder s i = map_of (st_orders s) i"

definition UpdateOrder :: "store \<Rightarrow> product_order \<Rightarrow> store" where
  "UpdateOrder s od = s\<lparr>st_orders := AList.update (od_OrderId od) od (st_orders s)\<rparr>"

definition OrdersForEvent :: "store \<Rightarrow> string \<Rightarrow> product_order list" where
  "OrdersForEvent s eventID =
     filter (\<lambda>od. map_of (st_ticketEvents s) (od_TicketId od) = Some eventID) (map snd (st_orders s))"

definition DeleteOrder :: "store \<Rightarrow> string \<Rightarrow> store" where
  "DeleteOrder s i = s\<lparr>st_orders := AList.delete i (st_orders s)\<rparr>"

subsection \<open>RSVPs, members and tokens\<close>

definition rsvpKey :: "string \<Rightarrow> string \<Rightarrow> string" where
  "rsvpKey eventID email = eventID @ '':'' @ email"

definition PutRsvp :: "store \<Rightarrow> rsvp \<Rightarrow> store" where
  "PutRsvp s r = s\<lparr>st_rsvps := AList.update (rsvpKey (rs_EventId r) (rs_UserEmail r)) r (st_rsvps s)\<rparr>"

definition GetRsvp :: "store \<Rightarrow> string \<Rightarrow> string \<Rightarrow> rsvp option" where
  "GetRsvp s eventID email = map_of (st_rsvps s) (rsvpKey eventID email)"

definition UpdateRsvp :: "store \<Rightarrow> rsvp \<Rightarrow> store" where
  "UpdateRsvp s r = s\<lparr>st_rsvps := AList.update (rsvpKey (rs_EventId r) (rs_UserEmail r)) r (st_rsvps s)\<rparr>"

definition RsvpsForEvent :: "store \<Rightarrow> string \<Rightarrow> rsvp list" where
  "RsvpsForEvent s eventID = filter (\<lambda>r. rs_EventId r = eventID) (map snd (st_rsvps s))"

definition RsvpsForEmail :: "store \<Rightarrow> string \<Rightarrow> rsvp list" where
  "RsvpsForEmail s email = filter (\<lambda>r. rs_UserEmail r = email) (map snd (st_rsvps s))"

definition DeleteRsvp :: "store \<Rightarrow> string \<Rightarrow> string \<Rightarrow> store" where
  "DeleteRsvp s eventID email = s\<lparr>st_rsvps := AList.delete (rsvpKey eventID email) (st_rsvps s)\<rparr>"

definition memberKey :: "string \<Rightarrow> string \<Rightarrow> string" where
  "memberKey groupID email = groupID @ '':'' @ email"

definition PutMember :: "store \<Rightarrow> group_member \<Rightarrow> store" where
  "PutMember s m = s\<lparr>st_members := AList.update (memberKey (gm_GroupId m) (gm_UserEmail m)) m (st_members s)\<rparr>"

definition GetMember :: "store \<Rightarrow> string \<Rightarrow> string \<Rightarrow> group_member option" where
  "GetMember s groupID email = map_of (st_members s) (memberKey groupID email)"

definition DeleteMember :: "store \<Rightarrow> string \<Rightarrow> string \<Rightarrow> store" where
  "DeleteMember s groupID email = s\<lparr>st_members := AList.delete (memberKey groupID email) (st_members s)\<rparr>"

definition PutToken :: "store \<Rightarrow> string \<Rightarrow> string \<Rightarrow> store" where
  "PutToken s token email = s\<lparr>st_tokens := AList.update token email (st_tokens s)\<rparr>"

definition GetTokenEmail :: "store \<Rightarrow> string \<Rightarrow> string option" where
  "GetTokenEmail s token = map_of (st_tokens s) token"

definition DeleteToken :: "store \<Rightarrow> string \<Rightarrow> store" where
  "DeleteToken s token = s\<lparr>st_tokens := AList.delete token (st_tokens s)\<rparr>"

definition PutOrganizerToken :: "store \<Rightarrow> string \<Rightarrow> string \<Rightarrow> store" where
  "PutOrganizerToken s token groupID =
     s\<lparr>st_organizerTokens := AList.update token groupID (st_organizerTokens s)\<rparr>"

definition GetOrganizerTokenGroup :: "store \<Rightarrow> string \<Rightarrow> string option" where
  "GetOrganizerTokenGroup s token = map_of (st_organizerTokens s) token"

definition ValidateOrganizerToken :: "store \<Rightarrow> string \<Rightarrow> string \<Rightarrow> bool" where
  "ValidateOrganizerToken s token groupID \<longleftrightarrow> map_of (st_organizerTokens s) token = Some groupID"

section \<open>Compound operations\<close>

text \<open>Writing through the pointer of a stored ticket or order.\<close>

definition set_ticket :: "store \<Rightarrow> string \<Rightarrow> ticket \<Rightarrow> store" where
  "set_ticket s i t = s\<lparr>st_tickets := AList.update i t (st_tickets s)\<rparr>"

definition set_order :: "store \<Rightarrow> string \<Rightarrow> product_order \<Rightarrow> store" where
  "set_order s i od = s\<lparr>st_orders := AList.update i od (st_orders s)\<rparr>"

text \<open>AtomicPurchaseTicket: (order, found, soldOut) and the new store.\<close>

definition AtomicPurchaseTicket :: "store \<Rightarrow> timestamp \<Rightarrow> string \<Rightarrow> string \<Rightarrow> string \<Rightarrow> string \<Rightarrow> u64 \<Rightarrow> u64
    \<Rightarrow> string \<Rightarrow> (product_order option \<times> bool \<times> bool) \<times> store" where
  "AtomicPurchaseTicket s now ticketID attendeeEmail orderID stripeSessionID quantity amount currency =
     (case map_of (st_tickets s) ticketID of
        None \<Rightarrow> ((None, False, False), s)
      | Some ticket \<Rightarrow>
          if tk_Capacity ticket > 0 \<and> tk_Sold ticket + quantity > tk_Capacity ticket
          then ((None, True, True), s)
          else
            let s = set_ticket s ticketID (ticket\<lparr>tk_Sold := tk_Sold ticket + quantity\<rparr>);
                od = \<lparr>od_OrderId = orderID, od_TicketId = ticketID, od_AttendeeEmail = attendeeEmail,
                      od_Status = ORDER_PENDING, od_StripeSessionId = stripeSessionID,
                      od_AmountPaid = Some \<lparr>mo_Amount = amount, mo_Currency = currency\<rparr>,
                      od_RefundedAmount = None, od_CreatedAt = Some now, od_RefundedAt = None\<rparr>
            in ((Some od, True, False), set_order s orderID od))"

text \<open>The decrement of the ticket's counter that refunds and failures share.\<close>

definition release_seat :: "store \<Rightarrow> string \<Rightarrow> store" where
  "release_seat s ticketID =
     (case map_of (st_tickets s) ticketID of
        None \<Rightarrow> s
      | Some ticket \<Rightarrow>
          if tk_Sold ticket > 0 then set_ticket s ticketID (ticket\<lparr>tk_Sold := tk_Sold ticket - 1\<rparr>) else s)"

text \<open>AtomicRefundOrder: (order, found, alreadyRefunded), or \<open>None\<close> when it panics: an order stored without
  an amount paid is a nil dereference, after whatever was written before it.\<close>

definition AtomicRefundOrder :: "store \<Rightarrow> timestamp \<Rightarrow> string \<Rightarrow> u64
    \<Rightarrow> (product_order option \<times> bool \<times> bool) option \<times> store" where
  "AtomicRefundOrder s now orderID amountCents =
     (case map_of (st_orders s) orderID of
        None \<Rightarrow> (Some (None, False, False), s)
      | Some od \<Rightarrow>
          if od_Status od = ORDER_REFUNDED then (Some (Some od, True, True), s)
          else
            (case od_AmountPaid od of
               None \<Rightarrow>
                 (case od_RefundedAmount od of
                    None \<Rightarrow> (None, s)
                  | Some r \<Rightarrow>
                      if amountCents = 0
                      then (None, set_order s orderID (od\<lparr>od_Status := ORDER_REFUNDED, od_RefundedAt := Some now\<rparr>))
                      else (None, set_order s orderID
                              (od\<lparr>od_RefundedAmount := Some (r\<lparr>mo_Amount := mo_Amount r + amountCents\<rparr>)\<rparr>)))
             | Some paid \<Rightarrow>
                 let refunded = (case od_RefundedAmount od of
                                   None \<Rightarrow> \<lparr>mo_Amount = 0, mo_Currency = mo_Currency paid\<rparr> | Some r \<Rightarrow> r)
                 in if amountCents = 0 then
                      let od' = od\<lparr>od_Status := ORDER_REFUNDED, od_RefundedAt := Some now,
                                   od_RefundedAmount := Some (refunded\<lparr>mo_Amount := mo_Amount paid\<rparr>)\<rparr>
                      in (Some (Some od', True, False),
                          release_seat (set_order s orderID od') (od_TicketId od))
                    else
                      let refunded = refunded\<lparr>mo_Amount := mo_Amount refunded + amountCents,
                                              mo_Currency := mo_Currency paid\<rparr>
                      in if mo_Amount refunded \<ge> mo_Amount paid then
                           let od' = od\<lparr>od_Status := ORDER_REFUNDED, od_RefundedAt := Some now,
                                        od_RefundedAmount := Some refunded\<rparr>
                           in (Some (Some od', True, False),
                               release_seat (set_order s orderID od') (od_TicketId od))
                         else
                           let od' = od\<lparr>od_Status := ORDER_PARTIALLY_REFUNDED,
                                        od_RefundedAmount := Some refunded\<rparr>
                           in (Some (Some od', True, False), set_order s orderID od')))"

definition AtomicCompleteOrder :: "store \<Rightarrow> string \<Rightarrow> (product_order option \<times> bool \<times> bool) \<times> store" where
  "AtomicCompleteOrder s orderID =
     (case map_of (st_orders s) orderID of
        None \<Rightarrow> ((None, False, False), s)
      | Some od \<Rightarrow>
          if od_Status od = ORDER_COMPLETED then ((Some od, True, True), s)
          else let od' = od\<lparr>od_Status := ORDER_COMPLETED\<rparr>
               in ((Some od', True, False), set_order s orderID od'))"

definition AtomicMarkOrderFailed :: "store \<Rightarrow> string \<Rightarrow> (product_order option \<times> bool \<times> bool) \<times> store" where
  "AtomicMarkOrderFailed s orderID =
     (case map_of (st_orders s) orderID of
        None \<Rightarrow> ((None, False, False), s)
      | Some od \<Rightarrow>
          if od_Status od \<noteq> ORDER_PENDING then ((Some od, True, True), s)
          else let od' = od\<lparr>od_Status := ORDER_FAILED\<rparr>
               in ((Some od', True, False), release_seat (set_order s orderID od') (od_TicketId od)))"

definition AtomicMarkOrderDisputed :: "store \<Rightarrow> string \<Rightarrow> (product_order option \<times> bool \<times> bool) \<times> store" where
  "AtomicMarkOrderDisputed s orderID =
     (case map_of (st_orders s) orderID of
        None \<Rightarrow> ((None, False, False), s)
      | Some od \<Rightarrow>
          if od_Status od = ORDER_DISPUTED then ((Some od, True, True), s)
          else let od' = od\<lparr>od_Status := ORDER_DISPUTED\<rparr>
               in ((Some od', True, False), set_order s orderID od'))"

section \<open>The webhook adapter\<close>

definition webhookAdapter :: "timestamp \<Rightarrow> store order_updater" where
  "webhookAdapter now = \<lparr>
     op_Complete = (\<lambda>s i. case AtomicCompleteOrder s i of ((_, r), s') \<Rightarrow> (Some r, s')),
     op_Failed = (\<lambda>s i. case AtomicMarkOrderFailed s i of ((_, r), s') \<Rightarrow> (Some r, s')),
     op_Disputed = (\<lambda>s i. case AtomicMarkOrderDisputed s i of ((_, r), s') \<Rightarrow> (Some r, s')),
     op_Refund = (\<lambda>s i. case AtomicRefundOrder s now i 0 of
                             (None, s') \<Rightarrow> (None, s') | (Some (_, r), s') \<Rightarrow> (Some r, s'))\<rparr>"

definition WebhookHandler :: "timestamp \<Rightarrow> webhook_lib \<Rightarrow> string \<Rightarrow> string \<Rightarrow> store \<Rightarrow> http_request \<Rightarrow> http_result \<times> store" where
  "WebhookHandler now L env secret s rq = ServeHTTP L (webhookAdapter now) (webhook_secret env secret) s rq"

section \<open>Lemmas\<close>

lemma map_of_set [simp]:
  "map_of (st_orders (set_order s i od)) j = (if j = i then Some od else map_of (st_orders s) j)"
  "map_of (st_tickets (set_ticket s i t)) j = (if j = i then Some t else map_of (st_tickets s) j)"
  "st_tickets (set_order s i od) = st_tickets s" "st_orders (set_ticket s i t) = st_orders s"
  by (simp_all add: set_order_def set_ticket_def update_conv')

lemma release_orders [simp]: "st_orders (release_seat s i) = st_orders s"
  by (simp add: release_seat_def split: option.splits)

interpretation orders: order_store webhookAdapter
proof
  show "settles (\<lambda>t. op_Complete (webhookAdapter t))"
    by (auto simp: settles_def webhookAdapter_def AtomicCompleteOrder_def Let_def split: option.splits)
  show "settles (\<lambda>t. op_Failed (webhookAdapter t))"
    by (auto simp: settles_def webhookAdapter_def AtomicMarkOrderFailed_def Let_def split: option.splits)
  show "settles (\<lambda>t. op_Disputed (webhookAdapter t))"
    by (auto simp: settles_def webhookAdapter_def AtomicMarkOrderDisputed_def Let_def split: option.splits)
  show "settles (\<lambda>t. op_Refund (webhookAdapter t))"
    by (auto simp: settles_def webhookAdapter_def AtomicRefundOrder_def Let_def split: option.splits)
qed

end
