(* ===== verification/ProductService.thy ===== *)
theory ProductService
  imports ProductStore Connect
begin

text \<open>
  The RPCs of the product layer (internal/product/service.go): public reads, RSVPs under magic-link
  tokens, purchases through a payment provider, and the organizer's operations under organizer
  tokens. A request is the tuple of its fields; the random ids and tokens and the clock are
  arguments; a handler returns a connect error or its response, and the store it leaves. The
  theorems are in ProductPages, Orders and ShopRules.
\<close>

section \<open>Errors and helpers\<close>

type_synonym connect_error = "connect_code \<times> string"

datatype 'a rpc = Err connect_error | Ok 'a | Panic

definition newID :: "bytes \<Rightarrow> string" where
  "newID b = hex (take 8 b)"

definition newToken :: "bytes \<Rightarrow> string" where
  "newToken b = hex (take 16 b)"

definition defaultPageSize :: "u32 \<Rightarrow> u32" where
  "defaultPageSize sz = (if sz = 0 \<or> sz > 100 then 25 else sz)"

definition validateOrganizerTokenForGroup :: "store \<Rightarrow> string \<Rightarrow> string \<Rightarrow> connect_error option" where
  "validateOrganizerTokenForGroup s token groupID =
     (if token = '''' then Some (Unauthenticated, ''organizer_token is required'')
      else if \<not> ValidateOrganizerToken s token groupID
      then Some (PermissionDenied, ''invalid or unauthorized organizer token'')
      else None)"

definition validateOrganizerTokenForEvent :: "store \<Rightarrow> string \<Rightarrow> string \<Rightarrow> connect_error option" where
  "validateOrganizerTokenForEvent s token eventID =
     (if token = '''' then Some (Unauthenticated, ''organizer_token is required'')
      else (case GetEvent s eventID of
              None \<Rightarrow> Some (NotFound, ''event not found'')
            | Some event \<Rightarrow>
                if \<not> ValidateOrganizerToken s token (pe_GroupId event)
                then Some (PermissionDenied, ''invalid or unauthorized organizer token for this event'')
                else None))"

definition validateOrganizerTokenForOrder :: "store \<Rightarrow> string \<Rightarrow> string \<Rightarrow> connect_error option" where
  "validateOrganizerTokenForOrder s token orderID =
     (if token = '''' then Some (Unauthenticated, ''organizer_token is required'')
      else (case GetOrder s orderID of
              None \<Rightarrow> Some (NotFound, ''order not found'')
            | Some od \<Rightarrow>
                (case GetTicketEvent s (od_TicketId od) of
                   None \<Rightarrow> Some (NotFound, ''ticket event not found'')
                 | Some eventID \<Rightarrow> validateOrganizerTokenForEvent s token eventID)))"

section \<open>Public reads\<close>

record public_event_response =
  per_Event :: product_event
  per_Tickets :: "ticket list"
  per_RsvpCount :: u64
  per_Capacity :: u64

text \<open>The counting loop over RSVPs that are going.\<close>

definition count_going :: "rsvp list \<Rightarrow> u64 \<Rightarrow> u64" where
  "count_going rsvps n = foldl (\<lambda>n r. if rs_Status r = RSVP_GOING then n + 1 else n) n rsvps"

definition GetPublicEvent :: "store \<Rightarrow> string \<Rightarrow> string \<Rightarrow> public_event_response rpc" where
  "GetPublicEvent s slug eventId =
     (let found = (\<lambda>e. case e of
                      None \<Rightarrow> Err (NotFound, ''event not found'')
                    | Some event \<Rightarrow>
                        Ok \<lparr>per_Event = event, per_Tickets = TicketsForEvent s (pe_EventId event),
                            per_RsvpCount = count_going (RsvpsForEvent s (pe_EventId event)) 0,
                            per_Capacity = pe_Capacity event\<rparr>)
      in if slug \<noteq> '''' then found (GetEventBySlug s slug)
         else if eventId \<noteq> '''' then found (GetEvent s eventId)
         else Err (InvalidArgument, ''must provide slug or event_id''))"

subsection \<open>Pagination\<close>

text \<open>Go strings compare by bytes. sort.Slice is not stable, which does not show as the keys of a page
  are distinct; an insertion sort stands for it.\<close>

fun str_less :: "string \<Rightarrow> string \<Rightarrow> bool" where
  "str_less a [] = False"
| "str_less [] (y # ys) = True"
| "str_less (x # xs) (y # ys) =
     ((of_char x :: nat) < of_char y \<or> (x = y \<and> str_less xs ys))"

fun insert_by :: "('a \<Rightarrow> string) \<Rightarrow> 'a \<Rightarrow> 'a list \<Rightarrow> 'a list" where
  "insert_by key x [] = [x]"
| "insert_by key x (y # ys) = (if str_less (key y) (key x) then y # insert_by key x ys else x # y # ys)"

definition sort_by :: "('a \<Rightarrow> string) \<Rightarrow> 'a list \<Rightarrow> 'a list" where
  "sort_by key xs = foldr (insert_by key) xs []"

text \<open>The cursor loop: what follows the entry with the cursor's id.\<close>

fun after_cursor :: "('a \<Rightarrow> string) \<Rightarrow> string \<Rightarrow> bool \<Rightarrow> 'a list \<Rightarrow> 'a list" where
  "after_cursor key cursor seen [] = []"
| "after_cursor key cursor seen (e # es) =
     (if seen then [e] else []) @ after_cursor key cursor (seen \<or> key e = cursor) es"

definition page :: "('a \<Rightarrow> string) \<Rightarrow> string \<Rightarrow> u32 \<Rightarrow> 'a list \<Rightarrow> 'a list \<times> string" where
  "page key cursor pageSize es =
     (let es = (if cursor \<noteq> '''' then after_cursor key cursor False es else es)
      in if (word_of_nat (length es) :: u32) > pageSize then
           let es = take (unat pageSize) es
           in (es, if es \<noteq> [] then key (last es) else '''')
         else (es, ''''))"

definition ListUpcomingEvents :: "store \<Rightarrow> string \<Rightarrow> string \<Rightarrow> u32 \<Rightarrow> product_event list \<times> string" where
  "ListUpcomingEvents s groupId cursor page_size =
     (let pageSize = defaultPageSize page_size;
          events = sort_by pe_EventId (EventsForGroup s groupId);
          events = filter (\<lambda>e. \<not> pe_Cancelled e) events
      in page pe_EventId cursor pageSize events)"

definition ListTickets :: "store \<Rightarrow> string \<Rightarrow> ticket list rpc" where
  "ListTickets s eventId =
     (if eventId = '''' then Err (InvalidArgument, ''event_id is required'')
      else Ok (TicketsForEvent s eventId))"

section \<open>Attendee writes\<close>

definition magic_link :: "string \<Rightarrow> string" where
  "magic_link token = ''https://app.federatedmeetup.com/rsvp?token='' @ token"

definition SubmitRsvp :: "store \<Rightarrow> timestamp \<Rightarrow> string \<Rightarrow> string \<Rightarrow> string \<Rightarrow> (rsvp \<times> string) rpc \<times> store" where
  "SubmitRsvp s now token eventId email =
     (if eventId = '''' then (Err (InvalidArgument, ''event_id is required''), s)
      else if email = '''' then (Err (InvalidArgument, ''email is required''), s)
      else if GetEvent s eventId = None then (Err (NotFound, ''event not found''), s)
      else (case GetRsvp s eventId email of
              Some existing \<Rightarrow> (Ok (existing, magic_link token), PutToken s token email)
            | None \<Rightarrow>
                let r = \<lparr>rs_EventId = eventId, rs_UserEmail = email, rs_Status = RSVP_GOING,
                         rs_CreatedAt = Some now, rs_Attended = False\<rparr>
                in (Ok (r, magic_link token), PutToken (PutRsvp s r) token email)))"

text \<open>An RSVP changed through its pointer and written back under its own fields.\<close>

definition put_back :: "store \<Rightarrow> string \<Rightarrow> rsvp \<Rightarrow> store" where
  "put_back s key r = UpdateRsvp (s\<lparr>st_rsvps := AList.update key r (st_rsvps s)\<rparr>) r"

definition CancelRsvp :: "store \<Rightarrow> string \<Rightarrow> string \<Rightarrow> string \<Rightarrow> bool rpc \<times> store" where
  "CancelRsvp s eventId email token =
     (if eventId = '''' \<or> email = '''' \<or> token = ''''
      then (Err (InvalidArgument, ''event_id, email, and token are required''), s)
      else if GetTokenEmail s token \<noteq> Some email then (Err (PermissionDenied, ''invalid token''), s)
      else (case GetRsvp s eventId email of
              None \<Rightarrow> (Err (NotFound, ''rsvp not found''), s)
            | Some r \<Rightarrow> (Ok True, put_back s (rsvpKey eventId email) (r\<lparr>rs_Status := RSVP_NOT_GOING\<rparr>))))"

definition ListMyRsvps :: "store \<Rightarrow> string \<Rightarrow> string \<Rightarrow> rsvp list rpc" where
  "ListMyRsvps s email token =
     (if email = '''' \<or> token = '''' then Err (InvalidArgument, ''email and token are required'')
      else if GetTokenEmail s token \<noteq> Some email then Err (PermissionDenied, ''invalid token'')
      else Ok (RsvpsForEmail s email))"

section \<open>Purchases\<close>

definition purchase_params :: "ticket \<Rightarrow> string \<Rightarrow> string \<Rightarrow> u32 \<Rightarrow> string \<Rightarrow> checkout_params" where
  "purchase_params ticket ticketId attendeeEmail quantity orderID =
     \<lparr>cp_TicketID = ticketId, cp_TicketName = tk_Name ticket,
      cp_AmountCents = (case tk_Price ticket of None \<Rightarrow> 0 | Some p \<Rightarrow> mo_Amount p * ucast quantity),
      cp_Currency = (case tk_Price ticket of
                       None \<Rightarrow> ''USD'' | Some p \<Rightarrow> if mo_Currency p \<noteq> '''' then mo_Currency p else ''USD''),
      cp_Quantity = ucast quantity, cp_AttendeeEmail = attendeeEmail, cp_OrderID = orderID,
      cp_SuccessURL = ''https://app.federatedmeetup.com/checkout/success'',
      cp_CancelURL = ''https://app.federatedmeetup.com/checkout/cancel''\<rparr>"

definition PurchaseTicket :: "provider \<Rightarrow> store \<Rightarrow> timestamp \<Rightarrow> string \<Rightarrow> string \<Rightarrow> string \<Rightarrow> u32
    \<Rightarrow> (string \<times> string) rpc \<times> store" where
  "PurchaseTicket pay s now orderID ticketId attendeeEmail qty =
     (if ticketId = '''' then (Err (InvalidArgument, ''ticket_id is required''), s)
      else if attendeeEmail = '''' then (Err (InvalidArgument, ''attendee_email is required''), s)
      else
        let quantity = (if qty = 0 then 1 else qty)
        in (case GetTicket s ticketId of
              None \<Rightarrow> (Err (NotFound, ''ticket not found''), s)
            | Some ticket \<Rightarrow>
                let params = purchase_params ticket ticketId attendeeEmail quantity orderID
                in (case CreateCheckoutSession pay params of
                      Inl err \<Rightarrow> (Err (Internal, ''failed to create checkout session: '' @ err), s)
                    | Inr (sessionID, checkoutURL) \<Rightarrow>
                        (case AtomicPurchaseTicket s now ticketId attendeeEmail orderID sessionID
                                (ucast quantity) (cp_AmountCents params) (cp_Currency params) of
                           ((od, found, soldOut), s') \<Rightarrow>
                             if \<not> found then (Err (NotFound, ''ticket not found''), s')
                             else if soldOut then (Err (FailedPrecondition, ''ticket is sold out''), s')
                             else (case od of
                                     None \<Rightarrow> (Panic, s')
                                   | Some od \<Rightarrow> (Ok (od_OrderId od, checkoutURL), s'))))))"

section \<open>Organizer operations\<close>

record dashboard =
  db_UpcomingEvents :: "product_event list"
  db_TotalRsvps :: u64
  db_TotalRevenue :: money
  db_PendingActions :: "string list"

definition add_revenue :: "money \<Rightarrow> product_order \<Rightarrow> money" where
  "add_revenue acc od =
     (if od_Status od = ORDER_COMPLETED then
        (case od_AmountPaid od of
           None \<Rightarrow> acc
         | Some p \<Rightarrow> \<lparr>mo_Amount = mo_Amount acc + mo_Amount p,
                     mo_Currency = (if mo_Currency p \<noteq> '''' then mo_Currency p else mo_Currency acc)\<rparr>)
      else acc)"

definition GetOrganizerDashboard :: "store \<Rightarrow> string \<Rightarrow> string \<Rightarrow> dashboard rpc" where
  "GetOrganizerDashboard s groupId token =
     (if groupId = '''' then Err (InvalidArgument, ''group_id is required'')
      else (case validateOrganizerTokenForGroup s token groupId of
              Some e \<Rightarrow> Err e
            | None \<Rightarrow>
                let upcoming = filter (\<lambda>e. \<not> pe_Cancelled e) (EventsForGroup s groupId);
                    totalRsvps = foldl (\<lambda>n e. count_going (RsvpsForEvent s (pe_EventId e)) n) 0 upcoming;
                    revenue = foldl (\<lambda>acc e. foldl add_revenue acc (OrdersForEvent s (pe_EventId e)))
                      \<lparr>mo_Amount = 0, mo_Currency = ''USD''\<rparr> upcoming;
                    pending = concat (map (\<lambda>e. map (\<lambda>od. ''Order '' @ od_OrderId od @
                          '' is pending for event '' @ pe_EventId e)
                        (filter (\<lambda>od. od_Status od = ORDER_PENDING) (OrdersForEvent s (pe_EventId e)))) upcoming)
                in Ok \<lparr>db_UpcomingEvents = upcoming, db_TotalRsvps = totalRsvps,
                       db_TotalRevenue = revenue, db_PendingActions = pending\<rparr>))"

definition ListAttendees :: "store \<Rightarrow> string \<Rightarrow> string \<Rightarrow> rsvp list rpc" where
  "ListAttendees s eventId token =
     (if eventId = '''' then Err (InvalidArgument, ''event_id is required'')
      else (case validateOrganizerTokenForEvent s token eventId of
              Some e \<Rightarrow> Err e
            | None \<Rightarrow> Ok (filter (\<lambda>r. rs_Status r = RSVP_GOING) (RsvpsForEvent s eventId))))"

definition CreateTicket :: "store \<Rightarrow> string \<Rightarrow> string \<Rightarrow> string \<Rightarrow> ticket option \<Rightarrow> string rpc \<times> store" where
  "CreateTicket s ticketID eventId token tk =
     (if eventId = '''' then (Err (InvalidArgument, ''event_id is required''), s)
      else (case validateOrganizerTokenForEvent s token eventId of
              Some e \<Rightarrow> (Err e, s)
            | None \<Rightarrow>
                (case tk of
                   None \<Rightarrow> (Err (InvalidArgument, ''ticket is required''), s)
                 | Some ticket \<Rightarrow>
                     if GetEvent s eventId = None then (Err (NotFound, ''event not found''), s)
                     else (Ok ticketID, PutTicket s eventId (ticket\<lparr>tk_TicketId := ticketID\<rparr>)))))"

definition RefundOrder :: "provider \<Rightarrow> store \<Rightarrow> timestamp \<Rightarrow> string \<Rightarrow> string \<Rightarrow> u64 \<Rightarrow> string
    \<Rightarrow> product_order rpc \<times> store" where
  "RefundOrder pay s now orderId token amount reason =
     (if orderId = '''' then (Err (InvalidArgument, ''order_id is required''), s)
      else (case validateOrganizerTokenForOrder s token orderId of
              Some e \<Rightarrow> (Err e, s)
            | None \<Rightarrow>
                (case GetOrder s orderId of
                   None \<Rightarrow> (Err (NotFound, ''order not found''), s)
                 | Some od \<Rightarrow>
                     (case RefundPayment pay \<lparr>rp_StripeSessionID = od_StripeSessionId od,
                             rp_AmountCents = amount, rp_Reason = reason\<rparr> of
                        Some err \<Rightarrow> (Err (Internal, ''failed to issue refund: '' @ err), s)
                      | None \<Rightarrow>
                          (case AtomicRefundOrder s now orderId amount of
                             (None, s') \<Rightarrow> (Panic, s')
                           | (Some (od, found, already), s') \<Rightarrow>
                               if \<not> found then (Err (NotFound, ''order not found''), s')
                               else if already then (Err (FailedPrecondition, ''order already refunded''), s')
                               else (case od of None \<Rightarrow> (Panic, s') | Some od \<Rightarrow> (Ok od, s')))))))"

definition ListOrders :: "store \<Rightarrow> string \<Rightarrow> string \<Rightarrow> string \<Rightarrow> u32 \<Rightarrow> (product_order list \<times> string) rpc" where
  "ListOrders s eventId token cursor page_size =
     (if eventId = '''' then Err (InvalidArgument, ''event_id is required'')
      else (case validateOrganizerTokenForEvent s token eventId of
              Some e \<Rightarrow> Err e
            | None \<Rightarrow>
                Ok (page od_OrderId cursor (defaultPageSize page_size)
                      (sort_by od_OrderId (OrdersForEvent s eventId)))))"

definition CheckInAttendee :: "store \<Rightarrow> string \<Rightarrow> string \<Rightarrow> string \<Rightarrow> bool rpc \<times> store" where
  "CheckInAttendee s eventId email token =
     (if eventId = '''' \<or> email = ''''
      then (Err (InvalidArgument, ''event_id and attendee_email are required''), s)
      else (case validateOrganizerTokenForEvent s token eventId of
              Some e \<Rightarrow> (Err e, s)
            | None \<Rightarrow>
                (case GetRsvp s eventId email of
                   None \<Rightarrow> (Err (NotFound, ''rsvp not found''), s)
                 | Some r \<Rightarrow> (Ok True, put_back s (rsvpKey eventId email) (r\<lparr>rs_Attended := True\<rparr>)))))"

end
