(* ===== verification/ProductPages.thy ===== *)
theory ProductPages
  imports ProductService
begin

text \<open>
  Pagination of the listing RPCs: following next_cursor from the first page visits every entry
  exactly once, in order, and stops; unless the entry a cursor names has disappeared from the
  listing, which then looks exhausted.
\<close>

section \<open>Sorting by id\<close>

lemma set_insert_by [simp]: "set (insert_by key x ys) = insert x (set ys)"
  by (induction ys) auto

lemma mset_insert_by [simp]: "mset (insert_by key x ys) = add_mset x (mset ys)"
  by (induction ys) auto

lemma mset_sort_by [simp]: "mset (sort_by key xs) = mset xs"
  by (induction xs) (simp_all add: sort_by_def)

lemma set_sort_by [simp]: "set (sort_by key xs) = set xs"
  by (metis mset_sort_by set_mset_mset)

lemma length_sort_by [simp]: "length (sort_by key xs) = length xs"
  by (metis mset_sort_by size_mset)

lemma distinct_sort_by [simp]: "distinct (map key (sort_by key' xs)) \<longleftrightarrow> distinct (map key xs)"
  by (rule mset_eq_imp_distinct_iff) simp

section \<open>Following the cursor\<close>

fun pages :: "('a \<Rightarrow> string) \<Rightarrow> u32 \<Rightarrow> 'a list \<Rightarrow> string \<Rightarrow> nat \<Rightarrow> 'a list list" where
  "pages key ps es cursor 0 = []"
| "pages key ps es cursor (Suc n) =
     (let (p, next_cursor) = page key cursor ps es
      in p # (if next_cursor = '''' then [] else pages key ps es next_cursor n))"

lemma after_cursor_seen [simp]: "after_cursor key c True es = es"
  by (induction es) simp_all

lemma after_cursor_absent: "c \<notin> key ` set es \<Longrightarrow> after_cursor key c False es = []"
  by (induction es) auto

lemma after_cursor_split:
  assumes "c = key x" "c \<notin> key ` set xs"
  shows "after_cursor key c False (xs @ x # ys) = ys"
  using assms by (induction xs) auto

text \<open>The page behind a cursor, or the first one.\<close>

definition rest_of :: "('a \<Rightarrow> string) \<Rightarrow> string \<Rightarrow> 'a list \<Rightarrow> 'a list" where
  "rest_of key cursor es = (if cursor \<noteq> '''' then after_cursor key cursor False es else es)"

lemma page_eq:
  assumes "length es < 2 ^ 32" "length (rest_of key cursor es) \<le> length es"
  shows "page key cursor ps es =
    (let r = rest_of key cursor es in
     if unat ps < length r then (take (unat ps) r, if take (unat ps) r = [] then '''' else key (last (take (unat ps) r)))
     else (r, ''''))"
proof -
  have "(word_of_nat (length (rest_of key cursor es)) :: u32) > ps \<longleftrightarrow> unat ps < length (rest_of key cursor es)"
    using assms by (simp add: word_less_nat_alt unat_of_nat)
  then show ?thesis unfolding page_def rest_of_def [symmetric] Let_def by simp
qed

lemma pages_rest:
  assumes "distinct (map key es)" "[] \<notin> key ` set es" "length es < 2 ^ 32" "0 < ps"
    "es = pre @ rest" "rest_of key cursor es = rest" "length rest \<le> n"
  shows "concat (pages key ps es cursor (Suc n)) = rest \<and>
    (\<forall>p \<in> set (pages key ps es cursor (Suc n)). length p \<le> unat ps)"
  using assms(5-7)
proof (induction n arbitrary: pre rest cursor)
  case 0
  then show ?case using page_eq [of es key cursor ps] assms(3) by (simp add: Let_def)
next
  case (Suc n)
  let ?k = "unat ps"
  have k: "0 < ?k" using assms(4) by (simp add: word_less_nat_alt)
  have pg: "page key cursor ps es =
    (if ?k < length rest then (take ?k rest, if take ?k rest = [] then '''' else key (last (take ?k rest)))
     else (rest, ''''))"
    using page_eq [of es key cursor ps] assms(3) Suc.prems by (simp add: Let_def)
  show ?case
  proof (cases "?k < length rest")
    case False
    then show ?thesis using pg by simp
  next
    case True
    let ?p = "take ?k rest" and ?r = "drop ?k rest"
    obtain q x where q: "?p = q @ [x]"
      using True k by (metis append_butlast_last_id take_eq_Nil neq0_conv list.size(3) not_less_zero)
    then have split: "es = (pre @ q) @ x # ?r" "rest = q @ x # ?r"
      using Suc.prems(1) append_take_drop_id [of ?k rest] by (metis append.assoc append_Cons append_Nil)+
    have notin: "key x \<notin> key ` set (pre @ q)"
      using assms(1) unfolding split(1) by auto
    have ne: "key x \<noteq> []" using assms(2) split(1) by (metis image_eqI in_set_conv_decomp)
    have rest: "rest_of key (key x) es = ?r"
      using after_cursor_split [of "key x" key x "pre @ q" ?r] notin ne
      unfolding rest_of_def by (subst split(1)) simp
    have "es = (pre @ q @ [x]) @ ?r" using split(1) by simp
    then have IH: "concat (pages key ps es (key x) (Suc n)) = ?r \<and>
        (\<forall>p \<in> set (pages key ps es (key x) (Suc n)). length p \<le> ?k)"
      by (rule Suc.IH) (use rest Suc.prems(3) True k in simp_all)
    have "pages key ps es cursor (Suc (Suc n)) = ?p # pages key ps es (key x) (Suc n)"
      using pg True q ne by simp
    then show ?thesis using IH True by simp
  qed
qed

lemma pages_complete:
  assumes "distinct (map key es)" "[] \<notin> key ` set es" "length es < 2 ^ 32" "0 < ps"
  shows "concat (pages key ps es [] (Suc (length es))) = es \<and>
    (\<forall>p \<in> set (pages key ps es [] (Suc (length es))). length p \<le> unat ps)"
  by (rule pages_rest [OF assms, where pre = "[]"]) (simp_all add: rest_of_def)

lemma defaultPageSize_bounds: "0 < defaultPageSize sz \<and> unat (defaultPageSize sz) \<le> 100"
  by (auto simp: defaultPageSize_def word_neq_0_conv not_less word_le_nat_alt)


section \<open>The order of ids\<close>

lemma str_less_linear: "str_less a b \<or> a = b \<or> str_less b a"
proof (induction a b rule: str_less.induct)
  case (1 a)
  then show ?case by (cases a) auto
next
  case (3 x xs y ys)
  have "(of_char x :: nat) = of_char y \<longleftrightarrow> x = y" by simp
  then show ?case using 3 by (auto simp: linorder_neq_iff)
qed simp

lemma str_less_trans: "str_less a b \<Longrightarrow> str_less b c \<Longrightarrow> str_less a c"
proof (induction a b arbitrary: c rule: str_less.induct)
  case (2 y ys)
  then show ?case by (cases c) auto
next
  case (3 x xs y ys)
  then show ?case by (cases c) auto
qed simp

lemma sorted_insert_by:
  assumes "sorted_wrt (\<lambda>a b. str_less (key a) (key b)) ys" "key x \<notin> key ` set ys"
  shows "sorted_wrt (\<lambda>a b. str_less (key a) (key b)) (insert_by key x ys)"
  using assms
proof (induction ys)
  case (Cons y ys)
  then have "\<not> str_less (key y) (key x) \<Longrightarrow> str_less (key x) (key y)"
    using str_less_linear [of "key x" "key y"] by auto
  then show ?case using Cons by (auto intro: str_less_trans)
qed simp

lemma sorted_sort_by:
  "distinct (map key xs) \<Longrightarrow> sorted_wrt (\<lambda>a b. str_less (key a) (key b)) (sort_by key xs)"
proof (induction xs)
  case (Cons x xs)
  have "sort_by key (x # xs) = insert_by key x (sort_by key xs)" by (simp add: sort_by_def)
  then show ?case using Cons sorted_insert_by [of key "sort_by key xs" x] by simp
qed (simp add: sort_by_def)

section \<open>The listing of orders\<close>

text \<open>Orders filed under their own ids, once each, none empty.\<close>

definition orders_filed :: "store \<Rightarrow> bool" where
  "orders_filed s \<longleftrightarrow> distinct (map fst (st_orders s)) \<and>
     (\<forall>(i, od) \<in> set (st_orders s). od_OrderId od = i \<and> i \<noteq> [])"

lemma orders_filed_distinct:
  assumes "orders_filed s"
  shows "distinct (map od_OrderId (OrdersForEvent s ev))" "[] \<notin> od_OrderId ` set (OrdersForEvent s ev)"
    "length (OrdersForEvent s ev) \<le> length (st_orders s)"
proof -
  have "map (od_OrderId \<circ> snd) (st_orders s) = map fst (st_orders s)"
    by (rule map_cong) (use assms in \<open>auto simp: orders_filed_def\<close>)
  then have "distinct (map od_OrderId (map snd (st_orders s)))"
    using assms unfolding orders_filed_def by (simp only: list.map_comp)
  then show "distinct (map od_OrderId (OrdersForEvent s ev))"
    unfolding OrdersForEvent_def by (rule distinct_map_filter)
  show "[] \<notin> od_OrderId ` set (OrdersForEvent s ev)"
    using assms by (auto simp: orders_filed_def OrdersForEvent_def)
  show "length (OrdersForEvent s ev) \<le> length (st_orders s)"
    unfolding OrdersForEvent_def by (metis length_filter_le length_map)
qed

text \<open>A client that follows next_cursor, at most \<open>n\<close> times.\<close>

fun list_orders_all :: "store \<Rightarrow> string \<Rightarrow> string \<Rightarrow> u32 \<Rightarrow> string \<Rightarrow> nat \<Rightarrow> product_order list list" where
  "list_orders_all s ev token ps cursor 0 = []"
| "list_orders_all s ev token ps cursor (Suc n) =
     (case ListOrders s ev token cursor ps of
        Ok (p, next_cursor) \<Rightarrow>
          p # (if next_cursor = '''' then [] else list_orders_all s ev token ps next_cursor n)
      | _ \<Rightarrow> [])"

lemma list_orders_pages:
  assumes "ev \<noteq> []" "validateOrganizerTokenForEvent s token ev = None"
  shows "list_orders_all s ev token ps cursor n =
    pages od_OrderId (defaultPageSize ps) (sort_by od_OrderId (OrdersForEvent s ev)) cursor n"
  using assms by (induction n arbitrary: cursor) (simp_all add: ListOrders_def split: prod.splits)

text \<open>An organizer who follows next_cursor from the first page of ListOrders sees every order of
  the event exactly once, in ascending order of ids, in pages of at most 100, and reaches the end
  after at most one page more than there are orders. (Orders filed under distinct non-empty ids, fewer
  than 2^32 of them, and a token that is valid for the event.)\<close>

theorem ListOrders_complete:
  assumes "orders_filed s" "length (st_orders s) < 2 ^ 32" "ev \<noteq> []"
    "validateOrganizerTokenForEvent s token ev = None"
  shows "let all = list_orders_all s ev token ps [] (Suc (length (OrdersForEvent s ev))) in
    mset (concat all) = mset (OrdersForEvent s ev) \<and>
    sorted_wrt (\<lambda>a b. str_less (od_OrderId a) (od_OrderId b)) (concat all) \<and>
    (\<forall>p \<in> set all. length p \<le> 100)"
proof -
  let ?es = "sort_by od_OrderId (OrdersForEvent s ev)"
  note filed = orders_filed_distinct [OF assms(1), of ev]
  have "concat (pages od_OrderId (defaultPageSize ps) ?es [] (Suc (length ?es))) = ?es \<and>
      (\<forall>p \<in> set (pages od_OrderId (defaultPageSize ps) ?es [] (Suc (length ?es))). length p \<le> unat (defaultPageSize ps))"
    by (rule pages_complete) (use filed assms(2) defaultPageSize_bounds in auto)
  moreover have "list_orders_all s ev token ps [] (Suc (length (OrdersForEvent s ev))) =
      pages od_OrderId (defaultPageSize ps) ?es [] (Suc (length ?es))"
    by (simp only: list_orders_pages [OF assms(3,4)] length_sort_by)
  ultimately show ?thesis
    using sorted_sort_by [OF filed(1)] defaultPageSize_bounds [of ps] le_trans
    unfolding Let_def by (metis mset_sort_by)
qed

definition ex_order :: "string \<Rightarrow> product_order" where
  "ex_order i = \<lparr>od_OrderId = i, od_TicketId = ''t'', od_AttendeeEmail = ''a'', od_Status = ORDER_COMPLETED,
     od_StripeSessionId = ''cs'', od_AmountPaid = Some \<lparr>mo_Amount = 1000, mo_Currency = ''USD''\<rparr>,
     od_RefundedAmount = None, od_CreatedAt = None, od_RefundedAt = None\<rparr>"

definition ex_event :: "string \<Rightarrow> bool \<Rightarrow> product_event" where
  "ex_event i c = \<lparr>pe_EventId = i, pe_GroupId = ''g'', pe_Title = ''Talk'', pe_Description = [],
     pe_StartsAt = None, pe_EndsAt = None, pe_Location = [], pe_VenueId = [],
     pe_Visibility = VISIBILITY_PUBLIC, pe_Capacity = 0, pe_Package = PACKAGE_UNSPECIFIED, pe_Paid = True,
     pe_Slug = i, pe_Cancelled = c, pe_Recurrence = None\<rparr>"

definition ex_ticket :: "u64 \<Rightarrow> ticket" where
  "ex_ticket cap = \<lparr>tk_TicketId = ''t'', tk_Name = ''Seat'', tk_TierType = TIER_REGULAR,
     tk_Price = Some \<lparr>mo_Amount = 1000, mo_Currency = ''USD''\<rparr>, tk_Capacity = cap, tk_Sold = 0,
     tk_SaleStartsAt = None, tk_SaleEndsAt = None\<rparr>"

definition ex_shop :: store where
  "ex_shop = NewStore\<lparr>st_events := [(''e1'', ex_event ''e1'' False), (''e2'', ex_event ''e2'' True),
       (''e3'', ex_event ''e3'' False)],
     st_tickets := [(''t'', ex_ticket 10)],
     st_ticketEvents := [(''t'', ''e1'')],
     st_orders := map (\<lambda>i. (i, ex_order i)) [''o2'', ''o1'', ''o3''],
     st_organizerTokens := [(''tok'', ''g'')]\<rparr>"

lemmas ex_simps = ex_shop_def ex_order_def ex_event_def ex_ticket_def NewStore_def ListOrders_def ListUpcomingEvents_def
  page_def defaultPageSize_def sort_by_def OrdersForEvent_def EventsForGroup_def GetEvent_def
  validateOrganizerTokenForEvent_def ValidateOrganizerToken_def

lemma ListOrders_complete_witness:
  "mset (concat (list_orders_all ex_shop ''e1'' ''tok'' 2 [] (Suc (length (OrdersForEvent ex_shop ''e1''))))) =
     mset (OrdersForEvent ex_shop ''e1'') \<and>
   map (map od_OrderId) (list_orders_all ex_shop ''e1'' ''tok'' 2 [] (Suc (Suc 0))) = [[''o1'', ''o2''], [''o3'']]"
proof
  have "orders_filed ex_shop" "length (st_orders ex_shop) < 2 ^ 32"
    "validateOrganizerTokenForEvent ex_shop ''tok'' ''e1'' = None"
    by (simp_all add: ex_simps orders_filed_def)
  then show "mset (concat (list_orders_all ex_shop ''e1'' ''tok'' 2 [] (Suc (length (OrdersForEvent ex_shop ''e1''))))) =
     mset (OrdersForEvent ex_shop ''e1'')"
    using ListOrders_complete [of ex_shop "''e1''" "''tok''" 2] unfolding Let_def by blast
  show "map (map od_OrderId) (list_orders_all ex_shop ''e1'' ''tok'' 2 [] (Suc (Suc 0))) = [[''o1'', ''o2''], [''o3'']]"
    by (simp add: ex_simps Let_def)
qed

text \<open>A cursor that names a cancelled (or deleted) event ends the listing: ListUpcomingEvents answers
  an empty page with no next cursor, however many events follow, because the cursor is looked up
  among the active events only.\<close>

theorem cancelled_cursor_ends_listing:
  assumes "cursor \<noteq> []" "\<forall>e \<in> set (EventsForGroup s g). pe_EventId e = cursor \<longrightarrow> pe_Cancelled e"
  shows "ListUpcomingEvents s g cursor ps = ([], [])"
proof -
  have "cursor \<notin> pe_EventId ` set (filter (\<lambda>e. \<not> pe_Cancelled e) (sort_by pe_EventId (EventsForGroup s g)))"
    using assms(2) by auto
  then show ?thesis using assms(1)
    by (simp add: ListUpcomingEvents_def page_def after_cursor_absent)
qed

lemma cancelled_cursor_ends_listing_witness:
  "ListUpcomingEvents ex_shop ''g'' ''e2'' 1 = ([], []) \<and>
   map pe_EventId (fst (ListUpcomingEvents ex_shop ''g'' [] 25)) = [''e1'', ''e3'']"
proof
  have "\<forall>e \<in> set (EventsForGroup ex_shop ''g''). pe_EventId e = ''e2'' \<longrightarrow> pe_Cancelled e"
    by (simp add: ex_simps)
  then show "ListUpcomingEvents ex_shop ''g'' ''e2'' 1 = ([], [])"
    by (intro cancelled_cursor_ends_listing) simp_all
  show "map pe_EventId (fst (ListUpcomingEvents ex_shop ''g'' [] 25)) = [''e1'', ''e3'']"
    by (simp add: ex_simps)
qed

end
