(* ===== verification/Orders.thy ===== *)
theory Orders
  imports ProductPages
begin

text \<open>
  The life of an order across the operations that touch it: purchases and refunds by RPC, and the
  webhook's completions, failures, disputes and refunds. The seat counter of a ticket bounds the live
  orders for it as long as no event resurrects an order that has given its seat back; the
  model exhibits what happens when one does.
\<close>

section \<open>Counting entries of a map\<close>

definition count_entries :: "('k \<times> 'v \<Rightarrow> bool) \<Rightarrow> ('k \<times> 'v) list \<Rightarrow> nat" where
  "count_entries P xs = length (filter P xs)"

lemma count_update_some:
  "map_of xs k = Some old \<Longrightarrow>
   count_entries P (AList.update k v xs) + of_bool (P (k, old)) = count_entries P xs + of_bool (P (k, v))"
  by (induction xs) (auto simp: count_entries_def split: if_splits)

lemma count_update_none:
  "map_of xs k = None \<Longrightarrow> count_entries P (AList.update k v xs) = count_entries P xs + of_bool (P (k, v))"
  by (induction xs) (auto simp: count_entries_def split: if_splits)

lemma count_update_le: "count_entries P (AList.update k v xs) \<le> count_entries P xs + of_bool (P (k, v))"
  using count_update_some [of xs k _ P v] count_update_none [of xs k P v] by (cases "map_of xs k") fastforce+

lemma count_pos: "map_of xs k = Some v \<Longrightarrow> P (k, v) \<Longrightarrow> 0 < count_entries P xs"
  by (induction xs) (auto simp: count_entries_def split: if_splits)

section \<open>Live orders and seats\<close>

text \<open>An order is live until it fails or is refunded in full: those two give a seat back.\<close>

definition live :: "product_order \<Rightarrow> bool" where
  "live od \<longleftrightarrow> od_Status od \<noteq> ORDER_FAILED \<and> od_Status od \<noteq> ORDER_REFUNDED"

definition live_orders :: "store \<Rightarrow> string \<Rightarrow> nat" where
  "live_orders s tid = count_entries (\<lambda>(i, od). od_TicketId od = tid \<and> live od) (st_orders s)"

text \<open>The largest capacity for which \<open>Sold + quantity\<close>, with a 32-bit quantity, cannot wrap.\<close>

definition max_capacity :: u64 where
  "max_capacity = 0xFFFFFFFF00000000"

definition ticket_ok :: "nat \<Rightarrow> ticket \<Rightarrow> bool" where
  "ticket_ok n t \<longleftrightarrow> (tk_Capacity t > 0 \<longrightarrow>
     n \<le> unat (tk_Sold t) \<and> tk_Sold t \<le> tk_Capacity t \<and> tk_Capacity t \<le> max_capacity)"

definition seats_ok :: "store \<Rightarrow> bool" where
  "seats_ok s \<longleftrightarrow> (\<forall>tid t. map_of (st_tickets s) tid = Some t \<longrightarrow> ticket_ok (live_orders s tid) t) \<and>
     (\<forall>(i, od) \<in> set (st_orders s). map_of (st_tickets s) (od_TicketId od) \<noteq> None)"

lemma seats_okD: "seats_ok s \<Longrightarrow> map_of (st_tickets s) tid = Some t \<Longrightarrow> ticket_ok (live_orders s tid) t"
  by (simp add: seats_ok_def)

lemma seats_ok_ticket: "seats_ok s \<Longrightarrow> map_of (st_orders s) i = Some od \<Longrightarrow> map_of (st_tickets s) (od_TicketId od) \<noteq> None"
  by (force simp: seats_ok_def dest: map_of_SomeD)

lemma set_update_subset: "set (AList.update k v xs) \<subseteq> insert (k, v) (set xs)"
  by (induction xs) auto

lemma live_orders_set_order:
  assumes "map_of (st_orders s) i = Some od"
  shows "live_orders (set_order s i od') tid + of_bool (od_TicketId od = tid \<and> live od) =
    live_orders s tid + of_bool (od_TicketId od' = tid \<and> live od')"
  using count_update_some [OF assms, of "\<lambda>(i, od). od_TicketId od = tid \<and> live od" od']
  by (simp add: live_orders_def set_order_def)

lemma live_orders_new:
  "live_orders (set_order s i od') tid \<le> live_orders s tid + of_bool (od_TicketId od' = tid \<and> live od')"
  using count_update_le [of "\<lambda>(i, od). od_TicketId od = tid \<and> live od" i od' "st_orders s"]
  by (simp add: live_orders_def set_order_def)

lemma live_orders_cong [simp]:
  "live_orders (set_ticket s i t) tid = live_orders s tid"
  "live_orders (release_seat s i) tid = live_orders s tid"
  by (simp_all add: live_orders_def set_ticket_def release_seat_def split: option.splits)

lemma live_pos: "map_of (st_orders s) i = Some od \<Longrightarrow> live od \<Longrightarrow> 0 < live_orders s (od_TicketId od)"
  unfolding live_orders_def by (rule count_pos) auto

lemma map_of_release_seat:
  "map_of (st_tickets (release_seat s i)) j =
    (if j = i then map_option (\<lambda>t. if tk_Sold t > 0 then t\<lparr>tk_Sold := tk_Sold t - 1\<rparr> else t) (map_of (st_tickets s) i)
     else map_of (st_tickets s) j)"
  by (auto simp: release_seat_def split: option.splits)

lemma unat_dec: "0 < (w :: u64) \<Longrightarrow> unat (w - 1) = unat w - 1"
  by (simp add: unat_minus_one word_gt_0)

text \<open>Changing a live order into a live one of the same ticket, or into a dead one with a seat released,
  keeps the counts.\<close>

lemma seats_ok_relabel:
  assumes "seats_ok s" "map_of (st_orders s) i = Some od" "od_TicketId od' = od_TicketId od"
    "live od' \<Longrightarrow> live od"
  shows "seats_ok (set_order s i od')"
proof -
  have "live_orders (set_order s i od') tid \<le> live_orders s tid" for tid
    using live_orders_set_order [OF assms(2), of od' tid] assms(3,4) by (auto simp: of_bool_def split: if_splits)
  then have "ticket_ok (live_orders (set_order s i od') tid) t" if "map_of (st_tickets s) tid = Some t" for tid t
    using seats_okD [OF assms(1) that] by (auto simp: ticket_ok_def intro: le_trans)
  moreover have "map_of (st_tickets s) (od_TicketId od) \<noteq> None" by (rule seats_ok_ticket [OF assms(1,2)])
  then have "\<forall>(j, od) \<in> set (AList.update i od' (st_orders s)). map_of (st_tickets s) (od_TicketId od) \<noteq> None"
    using assms(1,3) set_update_subset [of i od' "st_orders s"] by (auto simp: seats_ok_def)
  ultimately show ?thesis by (simp add: seats_ok_def) (simp add: set_order_def)
qed

lemma seats_ok_release:
  assumes "seats_ok s" "map_of (st_orders s) i = Some od" "live od" "od_TicketId od' = od_TicketId od" "\<not> live od'"
  shows "seats_ok (release_seat (set_order s i od') (od_TicketId od))"
proof -
  let ?s = "set_order s i od'" and ?tid = "od_TicketId od"
  have ok: "seats_ok ?s" by (rule seats_ok_relabel [OF assms(1,2,4)]) (simp add: assms(5))
  have fewer: "live_orders ?s ?tid + 1 = live_orders s ?tid"
    using live_orders_set_order [OF assms(2), of od' ?tid] assms(3-5) by simp
  have "ticket_ok (live_orders ?s tid) t" if t: "map_of (st_tickets (release_seat ?s ?tid)) tid = Some t" for tid t
  proof (cases "tid = ?tid")
    case False
    then show ?thesis using t seats_okD [OF ok] by (simp add: map_of_release_seat)
  next
    case True
    then obtain t0 where t0: "map_of (st_tickets s) ?tid = Some t0"
      and t': "t = (if tk_Sold t0 > 0 then t0\<lparr>tk_Sold := tk_Sold t0 - 1\<rparr> else t0)"
      using t by (auto simp: map_of_release_seat)
    have "ticket_ok (live_orders s ?tid) t0" by (rule seats_okD [OF assms(1) t0])
    then show ?thesis using True fewer t'
      by (auto simp: ticket_ok_def unat_dec word_gt_0 word_le_nat_alt)
  qed
  moreover have "\<forall>(j, od) \<in> set (st_orders ?s). map_of (st_tickets (release_seat ?s ?tid)) (od_TicketId od) \<noteq> None"
    using ok by (auto simp: seats_ok_def map_of_release_seat)
  ultimately show ?thesis by (simp add: seats_ok_def)
qed


subsection \<open>The operations\<close>

lemma seats_ok_cong:
  "st_tickets s' = st_tickets s \<Longrightarrow> st_orders s' = st_orders s \<Longrightarrow> seats_ok s' \<longleftrightarrow> seats_ok s"
  by (simp add: seats_ok_def live_orders_def)

lemma seats_ok_sell:
  assumes "seats_ok s" "map_of (st_tickets s) tid = Some t" "0 < q" "unat q < 2 ^ 32"
    "tk_Capacity t > 0 \<longrightarrow> tk_Sold t + q \<le> tk_Capacity t" "od_TicketId od = tid"
  shows "seats_ok (set_order (set_ticket s tid (t\<lparr>tk_Sold := tk_Sold t + q\<rparr>)) oid od)" (is "seats_ok ?s")
proof -
  have le: "live_orders ?s tid' \<le> live_orders s tid' + of_bool (tid' = tid)" for tid'
    using live_orders_new [of "set_ticket s tid (t\<lparr>tk_Sold := tk_Sold t + q\<rparr>)" oid od tid'] assms(6)
    by (auto simp: of_bool_def split: if_splits)
  have "ticket_ok (live_orders ?s tid') t'" if t': "map_of (st_tickets ?s) tid' = Some t'" for tid' t'
  proof (cases "tid' = tid")
    case False
    then show ?thesis using t' seats_okD [OF assms(1), of tid' t'] le [of tid']
      by (auto simp: ticket_ok_def intro: le_trans)
  next
    case True
    have eq: "t' = t\<lparr>tk_Sold := tk_Sold t + q\<rparr>" using t' True by simp
    have old: "ticket_ok (live_orders s tid) t" by (rule seats_okD [OF assms(1,2)])
    show ?thesis
    proof (cases "tk_Capacity t > 0")
      case cap: True
      then have "unat (tk_Sold t) + unat q < 2 ^ 64"
        using old assms(4) by (simp add: ticket_ok_def max_capacity_def word_le_nat_alt)
      then have "unat (tk_Sold t + q) = unat (tk_Sold t) + unat q" by (subst unat_add_lem [THEN iffD1]) simp_all
      then show ?thesis using True eq cap old le [of tid] assms(3,5)
        by (simp add: ticket_ok_def word_less_nat_alt)
    qed (simp add: eq ticket_ok_def)
  qed
  moreover have "\<forall>(j, o') \<in> set (st_orders ?s). map_of (st_tickets ?s) (od_TicketId o') \<noteq> None"
    using assms(1,6) set_update_subset [of oid od "st_orders s"]
    by (auto simp: seats_ok_def set_order_def [of _ oid od])
  ultimately show ?thesis by (simp add: seats_ok_def)
qed

lemma seats_ok_purchase:
  assumes "seats_ok s" "0 < q" "unat q < 2 ^ 32"
  shows "seats_ok (snd (AtomicPurchaseTicket s now tid em oid ss q amt cur))"
  using assms by (auto simp: AtomicPurchaseTicket_def Let_def not_less split: option.splits intro!: seats_ok_sell)

lemma seats_ok_failed: "seats_ok s \<Longrightarrow> seats_ok (snd (AtomicMarkOrderFailed s i))"
  by (auto simp: AtomicMarkOrderFailed_def Let_def live_def split: option.splits intro!: seats_ok_release)

lemma seats_ok_complete:
  "seats_ok s \<Longrightarrow> (\<And>od. map_of (st_orders s) i = Some od \<Longrightarrow> live od) \<Longrightarrow> seats_ok (snd (AtomicCompleteOrder s i))"
  by (auto simp: AtomicCompleteOrder_def Let_def split: option.splits intro!: seats_ok_relabel)

lemma seats_ok_disputed:
  "seats_ok s \<Longrightarrow> (\<And>od. map_of (st_orders s) i = Some od \<Longrightarrow> live od) \<Longrightarrow> seats_ok (snd (AtomicMarkOrderDisputed s i))"
  by (auto simp: AtomicMarkOrderDisputed_def Let_def split: option.splits intro!: seats_ok_relabel)

lemma seats_ok_refund:
  assumes "seats_ok s" "\<And>od. map_of (st_orders s) i = Some od \<Longrightarrow> od_Status od \<noteq> ORDER_FAILED"
  shows "seats_ok (snd (AtomicRefundOrder s now i amt))"
  using assms by (auto simp: AtomicRefundOrder_def Let_def live_def split: option.splits
      intro!: seats_ok_release seats_ok_relabel)

text \<open>The requests of the shop. An event is delivered when the handler decodes and accepts it; it
  resurrects an order when it would move a failed or refunded one on.\<close>

definition delivered :: "webhook_lib \<Rightarrow> string \<Rightarrow> http_request \<Rightarrow> stripe_event option" where
  "delivered L secret rq =
     (if rq_Method rq \<noteq> ''POST'' then None
      else (case rq_Body rq of
              None \<Rightarrow> None
            | Some body \<Rightarrow>
                if secret \<noteq> ''''
                then (case ConstructEvent L body (rq_Signature rq) secret of Inl _ \<Rightarrow> None | Inr ev \<Rightarrow> Some ev)
                else unmarshal_event L body))"

lemma ServeHTTP_delivered:
  "snd (ServeHTTP L upd secret s rq) =
    (case delivered L secret rq of None \<Rightarrow> s | Some ev \<Rightarrow> snd (handleEvent (unmarshal_data L) upd s ev))"
  by (simp add: ServeHTTP_def delivered_def split: option.splits sum.splits)

definition event_order :: "webhook_lib \<Rightarrow> store \<Rightarrow> stripe_event \<Rightarrow> product_order option" where
  "event_order L s ev =
     (case se_Data ev of None \<Rightarrow> None
      | Some raw \<Rightarrow> map_of (st_orders s) (extractOrderID (unmarshal_data L raw)))"

definition resurrects :: "webhook_lib \<Rightarrow> string \<Rightarrow> store \<Rightarrow> http_request \<Rightarrow> bool" where
  "resurrects L secret s rq \<longleftrightarrow>
     (case delivered L secret rq of
        None \<Rightarrow> False
      | Some ev \<Rightarrow>
          (case event_order L s ev of
             None \<Rightarrow> False
           | Some od \<Rightarrow>
               se_Type ev \<in> {''checkout.session.completed'', ''charge.dispute.created''} \<and> \<not> live od \<or>
               se_Type ev = ''charge.refunded'' \<and> od_Status od = ORDER_FAILED))"

inductive shop_step :: "provider \<Rightarrow> webhook_lib \<Rightarrow> string \<Rightarrow> string \<Rightarrow> store \<Rightarrow> store \<Rightarrow> bool"
  for pay L env secret where
  purchase: "shop_step pay L env secret s (snd (PurchaseTicket pay s now oid tid email q))"
| refund: "(\<And>od. GetOrder s i = Some od \<Longrightarrow> od_Status od \<noteq> ORDER_FAILED) \<Longrightarrow>
    shop_step pay L env secret s (snd (RefundOrder pay s now i token amount reason))"
| ticket: "GetTicket s tkid = None \<Longrightarrow> ticket_ok 0 t \<Longrightarrow>
    shop_step pay L env secret s (snd (CreateTicket s tkid ev token (Some t)))"
| submit: "shop_step pay L env secret s (snd (SubmitRsvp s now tok ev email))"
| cancel: "shop_step pay L env secret s (snd (CancelRsvp s ev email tok))"
| check_in: "shop_step pay L env secret s (snd (CheckInAttendee s ev email token))"
| webhook: "\<not> resurrects L (webhook_secret env secret) s rq \<Longrightarrow>
    shop_step pay L env secret s (snd (WebhookHandler now L env secret s rq))"

lemma dispatch_store:
  "snd (dispatch parse fn s ev) =
    (case se_Data ev of None \<Rightarrow> s
     | Some raw \<Rightarrow> if extractOrderID (parse raw) = [] then s else snd (fn s (extractOrderID (parse raw))))"
  by (auto simp: dispatch_def Let_def split: option.splits prod.splits)

lemma webhookAdapter_store [simp]:
  "snd (op_Complete (webhookAdapter now) s i) = snd (AtomicCompleteOrder s i)"
  "snd (op_Failed (webhookAdapter now) s i) = snd (AtomicMarkOrderFailed s i)"
  "snd (op_Disputed (webhookAdapter now) s i) = snd (AtomicMarkOrderDisputed s i)"
  "snd (op_Refund (webhookAdapter now) s i) = snd (AtomicRefundOrder s now i 0)"
  by (simp_all add: webhookAdapter_def split: prod.splits option.splits)

lemma seats_ok_webhook:
  assumes "seats_ok s" "\<not> resurrects L (webhook_secret env secret) s rq"
  shows "seats_ok (snd (WebhookHandler now L env secret s rq))"
proof (cases "delivered L (webhook_secret env secret) rq")
  case None
  then show ?thesis using assms(1) by (simp add: WebhookHandler_def ServeHTTP_delivered)
next
  case (Some ev)
  have "seats_ok (snd (handleEvent (unmarshal_data L) (webhookAdapter now) s ev))"
    using assms(1) assms(2) [unfolded resurrects_def Some event_order_def]
    by (auto simp: handleEvent_def dispatch_store live_def split: option.splits
        intro!: seats_ok_complete seats_ok_failed seats_ok_disputed seats_ok_refund)
  then show ?thesis using Some by (simp add: WebhookHandler_def ServeHTTP_delivered)
qed

lemma ucast_quantity: "q \<noteq> 0 \<Longrightarrow> 0 < (ucast (q :: u32) :: u64) \<and> unat (ucast q :: u64) < 2 ^ 32"
  using unsigned_less [of q] by (simp add: word_less_nat_alt unat_ucast_u32 unat_eq_zero flip: neq0_conv)

lemma PurchaseTicket_store:
  "snd (PurchaseTicket pay s now oid tid em qty) =
    (if tid = [] \<or> em = [] then s
     else let q = (if qty = 0 then 1 else qty) in
       case GetTicket s tid of
         None \<Rightarrow> s
       | Some t \<Rightarrow>
           (case CreateCheckoutSession pay (purchase_params t tid em q oid) of
              Inl err \<Rightarrow> s
            | Inr (ss, url) \<Rightarrow> snd (AtomicPurchaseTicket s now tid em oid ss (ucast q)
                (cp_AmountCents (purchase_params t tid em q oid)) (cp_Currency (purchase_params t tid em q oid)))))"
  unfolding PurchaseTicket_def Let_def by (simp split: option.split sum.split prod.split)

lemma seats_ok_PurchaseTicket:
  assumes "seats_ok s"
  shows "seats_ok (snd (PurchaseTicket pay s now oid tid em qty))"
proof -
  define q where "q = (if qty = 0 then 1 else qty)"
  have "q \<noteq> 0" by (simp add: q_def)
  then show ?thesis
    using assms ucast_quantity [of q] unfolding PurchaseTicket_store q_def [symmetric] Let_def
    by (simp split: option.split sum.split prod.split add: seats_ok_purchase)
qed

lemma seats_ok_RefundOrder:
  assumes "seats_ok s" "\<And>od. GetOrder s i = Some od \<Longrightarrow> od_Status od \<noteq> ORDER_FAILED"
  shows "seats_ok (snd (RefundOrder pay s now i token amount reason))"
  using assms(1) seats_ok_refund [OF assms [unfolded GetOrder_def]]
  by (auto simp: RefundOrder_def split: option.splits prod.splits) (metis snd_conv)+

lemma seats_ok_CreateTicket:
  assumes "seats_ok s" "GetTicket s tkid = None" "ticket_ok 0 t"
  shows "seats_ok (snd (CreateTicket s tkid ev token (Some t)))"
proof -
  have "live_orders s tkid = 0"
    using assms(1,2) by (auto simp: seats_ok_def GetTicket_def live_orders_def count_entries_def filter_empty_conv)
  then have "seats_ok (PutTicket s ev (t\<lparr>tk_TicketId := tkid\<rparr>))"
    using assms by (auto simp: seats_ok_def PutTicket_def update_conv' live_orders_def ticket_ok_def)
  then show ?thesis using assms(1) by (auto simp: CreateTicket_def split: option.splits)
qed

lemma seats_ok_step:
  assumes "shop_step pay L env secret s s'" "seats_ok s"
  shows "seats_ok s'"
  using assms
proof (cases rule: shop_step.cases)
  case (submit now tok ev email)
  then show ?thesis using assms(2)
    by (auto simp: SubmitRsvp_def PutToken_def PutRsvp_def Let_def seats_ok_def live_orders_def split: option.splits)
next
  case (cancel ev email tok)
  then show ?thesis using assms(2)
    by (auto simp: CancelRsvp_def put_back_def UpdateRsvp_def seats_ok_def live_orders_def split: option.splits)
next
  case (check_in ev email token)
  then show ?thesis using assms(2)
    by (auto simp: CheckInAttendee_def put_back_def UpdateRsvp_def seats_ok_def live_orders_def split: option.splits)
qed (auto intro: seats_ok_PurchaseTicket seats_ok_RefundOrder seats_ok_CreateTicket seats_ok_webhook)

lemma seats_ok_run:
  assumes "(shop_step pay L env secret)\<^sup>*\<^sup>* s s'" "seats_ok s"
  shows "seats_ok s'"
  using assms by (induction rule: rtranclp_induct) (auto intro: seats_ok_step)

section \<open>Overbooking\<close>

text \<open>
  C15: No overbooking, under the conditions of \<open>shop_step\<close>. After any sequence of purchases, refunds, ticket
  creations, RSVPs, check-ins and webhook requests that meets them, a limited ticket never has more live orders (neither
  failed nor refunded) than its capacity, and its counter stays within the capacity. The conditions: at the
  start every order is for a known ticket, and of every limited ticket the live orders are at most Sold, Sold at most
  Capacity and Capacity at most 2^64 - 2^32 (\<open>seats_ok\<close>); no payment event completes or disputes an order that is failed or refunded, or
  refunds a failed one (\<open>resurrects\<close>; \<open>late_payment_overbooks\<close> shows why); no failed order is
  refunded by RPC; and every ticket created has a fresh id and, if limited, Sold at most Capacity and Capacity at most 2^64 - 2^32 in the request, since
  CreateTicket stores the client's Sold unchecked and the sum in the capacity check must not wrap.
\<close>

theorem no_overbooking:
  assumes "(shop_step pay L env secret)\<^sup>*\<^sup>* s s'" "seats_ok s"
    "GetTicket s' tid = Some t" "tk_Capacity t > 0"
  shows "live_orders s' tid \<le> unat (tk_Sold t) \<and> tk_Sold t \<le> tk_Capacity t \<and>
    live_orders s' tid \<le> unat (tk_Capacity t)"
proof -
  have "ticket_ok (live_orders s' tid) t"
    by (rule seats_okD [OF seats_ok_run [OF assms(1,2)] assms(3) [unfolded GetTicket_def]])
  then show ?thesis using assms(4) by (auto simp: ticket_ok_def word_le_nat_alt intro: le_trans)
qed

definition ex_now :: timestamp where
  "ex_now = \<lparr>ts_seconds = 0, ts_nanos = 0\<rparr>"

definition ex_door :: "u64 \<Rightarrow> store" where
  "ex_door cap = NewStore\<lparr>st_events := [(''e1'', ex_event ''e1'' False)],
     st_tickets := [(''t'', ex_ticket cap)], st_ticketEvents := [(''t'', ''e1'')],
     st_organizerTokens := [(''tok'', ''g'')]\<rparr>"

text \<open>A decoder for tests: the first byte of a body is the type of the event, the second the order.\<close>

definition ex_hook :: webhook_lib where
  "ex_hook = \<lparr>
     ConstructEvent = (\<lambda>body sig secret. if sig \<noteq> secret then Inl ''no match'' else
       Inr \<lparr>se_Type = (if take 1 body = [1] then ''checkout.session.completed''
              else if take 1 body = [2] then ''charge.failed'' else ''charge.refunded''),
            se_Data = Some (drop 1 body)\<rparr>),
     unmarshal_event = (\<lambda>body. None),
     unmarshal_data = (\<lambda>b. Some (JObject [(''client_reference_id'',
       JString (if b = [1] then ''o1'' else ''o2''))]))\<rparr>"

definition ex_request :: "bytes \<Rightarrow> http_request" where
  "ex_request body = \<lparr>rq_Method = ''POST'', rq_Body = Some body, rq_Signature = ''whsec''\<rparr>"

definition ex_buy :: "store \<Rightarrow> string \<Rightarrow> u32 \<Rightarrow> store" where
  "ex_buy s i q = snd (PurchaseTicket MockProvider s ex_now i ''t'' ''ann@x'' q)"

definition ex_event_in :: "store \<Rightarrow> bytes \<Rightarrow> store" where
  "ex_event_in s body = snd (WebhookHandler ex_now ex_hook [] ''whsec'' s (ex_request body))"

lemmas shop_simps = ex_buy_def ex_event_in_def ex_request_def ex_hook_def ex_door_def ex_ticket_def ex_event_def
  NewStore_def PurchaseTicket_def purchase_params_def MockProvider_def AtomicPurchaseTicket_def
  set_ticket_def set_order_def release_seat_def WebhookHandler_def webhook_secret_def ServeHTTP_def
  handleEvent_def dispatch_def webhookAdapter_def AtomicCompleteOrder_def AtomicMarkOrderFailed_def
  AtomicRefundOrder_def extractOrderID_def GetTicket_def GetOrder_def Let_def

lemma no_overbooking_witness:
  "live_orders (ex_event_in (ex_buy (ex_door 1) ''o1'' 1) [1, 1]) ''t'' \<le> 1 \<and>
   map (od_Status \<circ> snd) (st_orders (ex_event_in (ex_buy (ex_door 1) ''o1'' 1) [1, 1])) = [ORDER_COMPLETED]"
proof -
  let ?s1 = "ex_buy (ex_door 1) ''o1'' 1"
  let ?s2 = "ex_event_in ?s1 [1, 1]"
  have ok: "seats_ok (ex_door 1)"
    by (simp add: seats_ok_def ex_door_def ex_ticket_def NewStore_def ticket_ok_def live_orders_def
        count_entries_def max_capacity_def)
  have quiet: "\<not> resurrects ex_hook (webhook_secret [] ''whsec'') ?s1 (ex_request [1, 1])"
    by (simp add: resurrects_def delivered_def event_order_def live_def shop_simps)
  have "shop_step MockProvider ex_hook [] ''whsec'' (ex_door 1) ?s1"
    unfolding ex_buy_def by (rule shop_step.purchase)
  moreover have "shop_step MockProvider ex_hook [] ''whsec'' ?s1 ?s2"
    unfolding ex_event_in_def by (rule shop_step.webhook [OF quiet])
  ultimately have run: "(shop_step MockProvider ex_hook [] ''whsec'')\<^sup>*\<^sup>* (ex_door 1) ?s2" by simp
  have t: "GetTicket ?s2 ''t'' = Some ((ex_ticket 1)\<lparr>tk_Sold := 1\<rparr>)" by (simp add: shop_simps)
  then have "live_orders ?s2 ''t'' \<le> 1"
    using no_overbooking [OF run ok t] by (simp add: ex_ticket_def)
  moreover have "map (od_Status \<circ> snd) (st_orders ?s2) = [ORDER_COMPLETED]" by (simp add: shop_simps)
  ultimately show ?thesis by blast
qed

text \<open>A late payment overbooks. A declined charge fails the order and frees its seat, somebody else
  buys it, and the first customer's retry then completes: AtomicCompleteOrder takes a failed order
  to COMPLETED without taking a seat. The ticket has capacity 1, its counter says 1, and two
  orders are completed.\<close>

theorem late_payment_overbooks:
  "let s = ex_event_in (ex_event_in (ex_buy (ex_event_in (ex_buy (ex_door 1) ''o1'' 1) [2, 1]) ''o2'' 1) [1, 1]) [1, 2]
   in map (\<lambda>(i, od). (i, od_Status od)) (st_orders s) = [(''o1'', ORDER_COMPLETED), (''o2'', ORDER_COMPLETED)] \<and>
      live_orders s ''t'' = 2 \<and> GetTicket s ''t'' = Some ((ex_ticket 1)\<lparr>tk_Sold := 1\<rparr>)"
  by (simp add: shop_simps live_orders_def count_entries_def live_def)

text \<open>Buying several seats and refunding the order in full gives one seat back, not all of them: the
  counter ends at what it was plus the quantity minus one. (A found ticket with room, where the
  sum does not wrap.)\<close>

theorem refund_returns_one_seat:
  assumes "AtomicPurchaseTicket s now tid em oid ss q amt cur = ((Some od, True, False), s1)"
    "AtomicRefundOrder s1 now' oid 0 = (Some (r, True, False), s2)"
    "GetTicket s tid = Some t" "0 < q" "unat (tk_Sold t) + unat q < 2 ^ 64"
  shows "GetTicket s2 tid = Some (t\<lparr>tk_Sold := tk_Sold t + (q - 1)\<rparr>)"
proof -
  have "unat (tk_Sold t + q) = unat (tk_Sold t) + unat q"
    using assms(5) by (subst unat_add_lem [THEN iffD1]) simp_all
  then have "tk_Sold t + q > 0" using assms(4) by (simp add: word_less_nat_alt)
  then show ?thesis using assms(1-3)
    by (auto simp: AtomicPurchaseTicket_def AtomicRefundOrder_def GetTicket_def Let_def map_of_release_seat
        split: if_splits)
qed

lemma refund_returns_one_seat_witness:
  "GetTicket (snd (AtomicRefundOrder (ex_buy (ex_door 10) ''o1'' 3) ex_now ''o1'' 0)) ''t'' =
     Some ((ex_ticket 10)\<lparr>tk_Sold := 2\<rparr>)"
proof -
  let ?p = "AtomicPurchaseTicket (ex_door 10) ex_now ''t'' ''ann@x'' ''o1'' ''mock_sess_o1'' 3 3000 ''USD''"
  have buy: "ex_buy (ex_door 10) ''o1'' 3 = snd ?p" by (simp add: shop_simps)
  obtain od s1 where p: "?p = ((Some od, True, False), s1)" by (simp add: shop_simps)
  then obtain r s2 where r: "AtomicRefundOrder s1 ex_now ''o1'' 0 = (Some (r, True, False), s2)"
    by (auto simp: shop_simps)
  have "GetTicket s2 ''t'' = Some ((ex_ticket 10)\<lparr>tk_Sold := tk_Sold (ex_ticket 10) + (3 - 1)\<rparr>)"
    by (rule refund_returns_one_seat [OF p r]) (simp_all add: shop_simps)
  then show ?thesis using p r by (simp add: buy ex_ticket_def)
qed

end
