(* ===== verification/ShopRules.thy ===== *)
theory ShopRules
  imports Orders
begin

text \<open>
  What the shop promises its parties: webhook requests are idempotent and, with a secret, need
  Stripe's signature; organizers act only on the events of their group; partial refunds add up; the
  amount Stripe collects; and what becomes of a cancelled RSVP.
\<close>

section \<open>The webhook\<close>

text \<open>C21: Stripe delivers an event at least once, so the handler must bear repetition: handling the same
  request again, at a later time, leaves the store as the first handling left it, whatever the
  event, the order's state and the outcome of the first attempt.\<close>

theorem webhook_redelivery:
  "snd (WebhookHandler now' L env secret (snd (WebhookHandler now L env secret s rq)) rq) =
   snd (WebhookHandler now L env secret s rq)"
  unfolding WebhookHandler_def by (rule orders.request_repeat)

text \<open>With a webhook secret, given to the handler or in the environment, a request whose
  signature Stripe's library does not accept changes nothing.\<close>

theorem forged_webhook_ignored:
  assumes "secret \<noteq> [] \<or> env \<noteq> []"
    "\<And>body. rq_Body rq = Some body \<Longrightarrow>
       \<exists>e. ConstructEvent L body (rq_Signature rq) (if secret = [] then env else secret) = Inl e"
  shows "snd (WebhookHandler now L env secret s rq) = s"
  unfolding WebhookHandler_def webhook_secret_def
  by (rule orders.unsigned_no_change) (use assms in \<open>auto split: if_splits\<close>)

lemma forged_webhook_ignored_witness:
  "snd (WebhookHandler ex_now ex_hook ''whsec'' [] (ex_buy (ex_door 1) ''o1'' 1)
     ((ex_request [1, 1])\<lparr>rq_Signature := ''forged''\<rparr>)) = ex_buy (ex_door 1) ''o1'' 1 \<and>
   snd (WebhookHandler ex_now ex_hook ''whsec'' [] (ex_buy (ex_door 1) ''o1'' 1) (ex_request [1, 1])) \<noteq>
     ex_buy (ex_door 1) ''o1'' 1"
proof
  show "snd (WebhookHandler ex_now ex_hook ''whsec'' [] (ex_buy (ex_door 1) ''o1'' 1)
     ((ex_request [1, 1])\<lparr>rq_Signature := ''forged''\<rparr>)) = ex_buy (ex_door 1) ''o1'' 1"
    by (rule forged_webhook_ignored) (simp_all add: ex_hook_def ex_request_def)
qed (simp add: shop_simps)

section \<open>Organizers\<close>

definition organizes :: "store \<Rightarrow> string \<Rightarrow> string \<Rightarrow> bool" where
  "organizes s token eventID \<longleftrightarrow> token \<noteq> [] \<and>
     (\<exists>e. GetEvent s eventID = Some e \<and> GetOrganizerTokenGroup s token = Some (pe_GroupId e))"

lemma validated_organizes: "validateOrganizerTokenForEvent s token ev = None \<longleftrightarrow> organizes s token ev"
  by (simp add: validateOrganizerTokenForEvent_def organizes_def ValidateOrganizerToken_def
      GetOrganizerTokenGroup_def split: option.splits)

lemma validated_order:
  "validateOrganizerTokenForOrder s token i = None \<longleftrightarrow>
   (\<exists>od ev. GetOrder s i = Some od \<and> GetTicketEvent s (od_TicketId od) = Some ev \<and> organizes s token ev)"
  by (auto simp: validateOrganizerTokenForOrder_def validated_organizes organizes_def split: option.splits)

text \<open>C16: Only an organizer of the event changes it: a CreateTicket, CheckInAttendee or RefundOrder that
  changes the store came with a token of the group that owns the event (for a refund: the event of
  the order's ticket), and none of the three ever touches the tokens or the events themselves.\<close>

theorem organizer_writes_authorised:
  "(snd (CreateTicket s tkid ev token tk) \<noteq> s \<longrightarrow> organizes s token ev) \<and>
   (snd (CheckInAttendee s ev email token) \<noteq> s \<longrightarrow> organizes s token ev) \<and>
   (snd (RefundOrder pay s now i token amount reason) \<noteq> s \<longrightarrow>
     (\<exists>od ev. GetOrder s i = Some od \<and> GetTicketEvent s (od_TicketId od) = Some ev \<and> organizes s token ev)) \<and>
   (\<forall>s' \<in> {snd (CreateTicket s tkid ev token tk), snd (CheckInAttendee s ev email token),
            snd (RefundOrder pay s now i token amount reason)}.
      st_organizerTokens s' = st_organizerTokens s \<and> st_tokens s' = st_tokens s \<and> st_events s' = st_events s)"
proof (intro conjI impI ballI)
  show "organizes s token ev" if "snd (CreateTicket s tkid ev token tk) \<noteq> s"
    using that by (simp add: CreateTicket_def flip: validated_organizes split: if_splits option.splits)
  show "organizes s token ev" if "snd (CheckInAttendee s ev email token) \<noteq> s"
    using that by (simp add: CheckInAttendee_def flip: validated_organizes split: if_splits option.splits)
  show "\<exists>od ev. GetOrder s i = Some od \<and> GetTicketEvent s (od_TicketId od) = Some ev \<and> organizes s token ev"
    if "snd (RefundOrder pay s now i token amount reason) \<noteq> s"
    unfolding validated_order [symmetric] using that
    by (simp add: RefundOrder_def split: if_splits option.splits)
  have refund: "st_organizerTokens s' = st_organizerTokens s \<and> st_tokens s' = st_tokens s \<and> st_events s' = st_events s"
    if "AtomicRefundOrder s now i amount = (r, s')" for r s'
    using that by (auto simp: AtomicRefundOrder_def Let_def release_seat_def set_order_def set_ticket_def
        split: option.splits if_splits)
  have rpc: "snd (RefundOrder pay s now i token amount reason) \<in> {s, snd (AtomicRefundOrder s now i amount)}"
    by (simp add: RefundOrder_def split: option.split prod.split)
  fix s' assume "s' \<in> {snd (CreateTicket s tkid ev token tk), snd (CheckInAttendee s ev email token),
            snd (RefundOrder pay s now i token amount reason)}"
  then show "st_organizerTokens s' = st_organizerTokens s" "st_tokens s' = st_tokens s" "st_events s' = st_events s"
    using refund [of _ "snd (AtomicRefundOrder s now i amount)"] rpc
    by (auto simp: CreateTicket_def PutTicket_def CheckInAttendee_def put_back_def UpdateRsvp_def prod_eq_iff
        split: option.splits)
qed

lemma organizer_writes_authorised_witness:
  "snd (CreateTicket (ex_door 1) ''t2'' ''e1'' ''tok'' (Some (ex_ticket 5))) \<noteq> ex_door 1 \<and>
   organizes (ex_door 1) ''tok'' ''e1'' \<and>
   snd (CreateTicket (ex_door 1) ''t2'' ''e1'' ''other'' (Some (ex_ticket 5))) = ex_door 1"
proof -
  have changed: "snd (CreateTicket (ex_door 1) ''t2'' ''e1'' ''tok'' (Some (ex_ticket 5))) \<noteq> ex_door 1"
    by (simp add: shop_simps CreateTicket_def PutTicket_def validateOrganizerTokenForEvent_def GetEvent_def
        ValidateOrganizerToken_def)
  moreover have "\<not> organizes (ex_door 1) ''other'' ''e1''"
    by (simp add: organizes_def GetOrganizerTokenGroup_def GetEvent_def ex_door_def NewStore_def)
  ultimately show ?thesis
    using organizer_writes_authorised [of "ex_door 1" "''t2''" "''e1''" "''tok''" "Some (ex_ticket 5)"]
      organizer_writes_authorised [of "ex_door 1" "''t2''" "''e1''" "''other''" "Some (ex_ticket 5)"] by blast
qed

section \<open>Money\<close>

text \<open>A row of refunds of one order.\<close>

fun refund_all :: "store \<Rightarrow> timestamp \<Rightarrow> string \<Rightarrow> u64 list \<Rightarrow> store" where
  "refund_all s now i [] = s"
| "refund_all s now i (a # as) = refund_all (snd (AtomicRefundOrder s now i a)) now i as"

definition refunded_so_far :: "product_order \<Rightarrow> nat" where
  "refunded_so_far od = (case od_RefundedAmount od of None \<Rightarrow> 0 | Some r \<Rightarrow> unat (mo_Amount r))"

lemma refund_all_refunded:
  assumes "map_of (st_orders s) i = Some od" "od_Status od = ORDER_REFUNDED"
  shows "refund_all s now i as = s"
  using assms by (induction as) (simp_all add: AtomicRefundOrder_def)

lemma partial_refund_step:
  assumes "map_of (st_orders s) i = Some od" "od_AmountPaid od = Some paid" "od_Status od \<noteq> ORDER_REFUNDED"
    "0 < a" "refunded_so_far od + unat a < 2 ^ 64"
  obtains (more) od' where "map_of (st_orders (snd (AtomicRefundOrder s now i a))) i = Some od'"
      "od_AmountPaid od' = Some paid" "od_TicketId od' = od_TicketId od" "od_Status od' = ORDER_PARTIALLY_REFUNDED"
      "refunded_so_far od' = refunded_so_far od + unat a" "refunded_so_far od + unat a < unat (mo_Amount paid)"
      "st_tickets (snd (AtomicRefundOrder s now i a)) = st_tickets s"
  | (all) od' where "map_of (st_orders (snd (AtomicRefundOrder s now i a))) i = Some od'"
      "od_Status od' = ORDER_REFUNDED" "unat (mo_Amount paid) \<le> refunded_so_far od + unat a"
      "st_tickets (snd (AtomicRefundOrder s now i a)) = st_tickets (release_seat s (od_TicketId od))"
proof -
  define r where "r = (case od_RefundedAmount od of None \<Rightarrow> \<lparr>mo_Amount = 0, mo_Currency = mo_Currency paid\<rparr> | Some r \<Rightarrow> r)"
  have r: "unat (mo_Amount r) = refunded_so_far od" by (simp add: refunded_so_far_def r_def split: option.split)
  have sum: "unat (mo_Amount r + a) = refunded_so_far od + unat a"
    using assms(5) r by (subst unat_add_lem [THEN iffD1]) simp_all
  let ?od = "\<lambda>st at. od\<lparr>od_Status := st, od_RefundedAt := at,
      od_RefundedAmount := Some (r\<lparr>mo_Amount := mo_Amount r + a, mo_Currency := mo_Currency paid\<rparr>)\<rparr>"
  have released: "st_tickets (release_seat (set_order s i od') t) = st_tickets (release_seat s t)" for od' t
    by (simp add: release_seat_def set_order_def set_ticket_def split: option.split)
  show thesis
  proof (cases "unat (mo_Amount paid) \<le> refunded_so_far od + unat a")
    case True
    then have "mo_Amount r + a \<ge> mo_Amount paid" by (simp only: word_le_nat_alt sum)
    then have "AtomicRefundOrder s now i a = (Some (Some (?od ORDER_REFUNDED (Some now)), True, False),
        release_seat (set_order s i (?od ORDER_REFUNDED (Some now))) (od_TicketId od))"
      using assms(1-4) by (simp add: AtomicRefundOrder_def Let_def word_gt_0 flip: r_def)
    then show thesis using True released by (intro all [of "?od ORDER_REFUNDED (Some now)"]) simp_all
  next
    case False
    then have "\<not> mo_Amount r + a \<ge> mo_Amount paid" by (simp only: word_le_nat_alt sum not_False_eq_True)
    then have "AtomicRefundOrder s now i a = (Some (Some (?od ORDER_PARTIALLY_REFUNDED (od_RefundedAt od)), True, False),
        set_order s i (?od ORDER_PARTIALLY_REFUNDED (od_RefundedAt od)))"
      using assms(1-4) by (simp add: AtomicRefundOrder_def Let_def word_gt_0 flip: r_def)
    then show thesis using False sum assms(2)
      by (intro more [of "?od ORDER_PARTIALLY_REFUNDED (od_RefundedAt od)"]) (simp_all add: refunded_so_far_def)
  qed
qed

text \<open>Partial refunds add up. Refunding an order in parts that together stay below what was paid leaves
  it partially refunded with exactly their sum recorded and no seat released; as soon as they reach
  it, the order is refunded, its seat is released once, and later refunds change nothing. (An order
  that is not refunded yet, positive parts, sums that fit 64 bits.)\<close>

theorem partial_refunds_accumulate:
  assumes "GetOrder s i = Some od" "od_AmountPaid od = Some paid" "od_Status od \<noteq> ORDER_REFUNDED"
    "\<forall>a \<in> set as. 0 < a" "refunded_so_far od + sum_list (map unat as) < 2 ^ 64" "as \<noteq> []"
  shows "\<exists>od'. GetOrder (refund_all s now i as) i = Some od' \<and>
    (if refunded_so_far od + sum_list (map unat as) < unat (mo_Amount paid)
     then od_Status od' = ORDER_PARTIALLY_REFUNDED \<and>
       refunded_so_far od' = refunded_so_far od + sum_list (map unat as) \<and>
       st_tickets (refund_all s now i as) = st_tickets s
     else od_Status od' = ORDER_REFUNDED \<and>
       st_tickets (refund_all s now i as) = st_tickets (release_seat s (od_TicketId od)))"
  using assms unfolding GetOrder_def
proof (induction as arbitrary: s od)
  case (Cons a as)
  let ?s = "snd (AtomicRefundOrder s now i a)"
  have bound: "refunded_so_far od + unat a < 2 ^ 64" "0 < a" using Cons.prems(4,5) by simp_all
  from Cons.prems(1-3) bound(2,1) show ?case
  proof (cases rule: partial_refund_step [where now = now])
    case (all od')
    then show ?thesis by (simp add: refund_all_refunded)
  next
    case (more od')
    show ?thesis
    proof (cases "as = []")
      case True
      then show ?thesis using more by simp
    next
      case False
      have same: "st_tickets (release_seat ?s t) = st_tickets (release_seat s t)" for t
        using more(7) by (simp add: release_seat_def set_ticket_def split: option.split)
      have sums: "refunded_so_far od' + sum_list (map unat as) = refunded_so_far od + sum_list (map unat (a # as))"
        using more(5) by simp
      have IH: "\<exists>od''. map_of (st_orders (refund_all ?s now i as)) i = Some od'' \<and>
          (if refunded_so_far od' + sum_list (map unat as) < unat (mo_Amount paid)
           then od_Status od'' = ORDER_PARTIALLY_REFUNDED \<and>
             refunded_so_far od'' = refunded_so_far od' + sum_list (map unat as) \<and>
             st_tickets (refund_all ?s now i as) = st_tickets ?s
           else od_Status od'' = ORDER_REFUNDED \<and>
             st_tickets (refund_all ?s now i as) = st_tickets (release_seat ?s (od_TicketId od')))"
        by (rule Cons.IH [OF more(1,2) _ _ _ False]) (use more(4) Cons.prems(4,5) sums in simp_all)
      show ?thesis using IH unfolding sums same more(3,7) by (simp only: refund_all.simps)
    qed
  qed
qed simp

lemma partial_refunds_accumulate_witness:
  "let s = refund_all (ex_buy (ex_door 10) ''o1'' 1) ex_now ''o1'' [300, 700, 50]
   in map (od_Status \<circ> snd) (st_orders s) = [ORDER_REFUNDED] \<and> map (tk_Sold \<circ> snd) (st_tickets s) = [0]"
proof -
  let ?s = "ex_buy (ex_door 10) ''o1'' 1"
  obtain od where od: "GetOrder ?s ''o1'' = Some od" "od_AmountPaid od = Some \<lparr>mo_Amount = 1000, mo_Currency = ''USD''\<rparr>"
      "od_Status od = ORDER_PENDING" "od_RefundedAmount od = None" "od_TicketId od = ''t''"
    by (simp add: shop_simps)
  have "\<exists>od'. GetOrder (refund_all ?s ex_now ''o1'' [300, 700, 50]) ''o1'' = Some od' \<and> od_Status od' = ORDER_REFUNDED \<and>
      st_tickets (refund_all ?s ex_now ''o1'' [300, 700, 50]) = st_tickets (release_seat ?s ''t'')"
    using partial_refunds_accumulate [OF od(1,2), of "[300, 700, 50]" ex_now] od(3-5)
    by (simp add: refunded_so_far_def)
  moreover have "map fst (st_orders (refund_all ?s ex_now ''o1'' [300, 700, 50])) = [''o1'']"
    by (simp add: shop_simps)
  moreover have "map (tk_Sold \<circ> snd) (st_tickets (release_seat ?s ''t'')) = [0]" by (simp add: shop_simps)
  ultimately show ?thesis by (auto simp: GetOrder_def Let_def)
qed

text \<open>What Stripe collects. When a purchase through Stripe succeeds, the stored order carries the session
  Stripe created and records the amount price times quantity (mod 2^64), but the session sells
  the quantity at that amount each: Stripe collects the recorded amount times the quantity once more.\<close>

theorem stripe_collects_quantity_twice:
  assumes "PurchaseTicket (StripeConnectProvider sdk su cu) s now oid tid em qty = (Ok (i, url), s')"
  shows "\<exists>t od paid sid. let q = (if qty = 0 then 1 else qty);
      session = stripe_checkout_params su cu (purchase_params t tid em q oid) in
    GetTicket s tid = Some t \<and> i = oid \<and> GetOrder s' oid = Some od \<and> od_AmountPaid od = Some paid \<and>
    mo_Amount paid = (case tk_Price t of None \<Rightarrow> 0 | Some p \<Rightarrow> mo_Amount p * ucast q) \<and>
    session_New sdk session = Inr (sid, url) \<and> od_StripeSessionId od = sid \<and>
    stripe_total session = unat (mo_Amount paid) * unat q"
proof -
  define q where "q = (if qty = 0 then 1 else qty)"
  define session where "session t = stripe_checkout_params su cu (purchase_params t tid em q oid)" for t
  obtain t sid od where t: "GetTicket s tid = Some t" "session_New sdk (session t) = Inr (sid, url)"
    and p: "AtomicPurchaseTicket s now tid em oid sid (ucast q) (cp_AmountCents (purchase_params t tid em q oid))
        (cp_Currency (purchase_params t tid em q oid)) = ((Some od, True, False), s')" "i = od_OrderId od"
    using assms unfolding PurchaseTicket_def Let_def q_def [symmetric]
    by (auto simp: StripeConnectProvider_def session_def split: if_splits option.splits sum.splits prod.splits)
  then have od: "GetOrder s' oid = Some od" "od_OrderId od = oid" "od_StripeSessionId od = sid"
      "od_AmountPaid od = Some \<lparr>mo_Amount = cp_AmountCents (purchase_params t tid em q oid),
         mo_Currency = cp_Currency (purchase_params t tid em q oid)\<rparr>"
    by (auto simp: AtomicPurchaseTicket_def GetOrder_def Let_def split: option.splits if_splits)
  have "stripe_total (session t) = unat (cp_AmountCents (purchase_params t tid em q oid)) * unat q"
    by (simp add: stripe_total_def session_def stripe_checkout_params_def purchase_params_def unat_ucast_u32)
  moreover have "cp_AmountCents (purchase_params t tid em q oid) =
      (case tk_Price t of None \<Rightarrow> 0 | Some p \<Rightarrow> mo_Amount p * ucast q)"
    by (simp add: purchase_params_def)
  ultimately show ?thesis using t p(2) od unfolding q_def [symmetric] session_def Let_def by fastforce
qed

definition ex_sdk :: stripe_sdk where
  "ex_sdk = \<lparr>session_New = (\<lambda>p. Inr (''cs'', ''url'')), refund_New = (\<lambda>p. None)\<rparr>"

lemma stripe_collects_quantity_twice_witness:
  "(\<exists>s'. PurchaseTicket (StripeConnectProvider ex_sdk [] []) (ex_door 10) ex_now ''o1'' ''t'' ''ann@x'' 3 =
      (Ok (''o1'', ''url''), s') \<and> map (od_AmountPaid \<circ> snd) (st_orders s') = [Some \<lparr>mo_Amount = 3000, mo_Currency = ''USD''\<rparr>]) \<and>
   stripe_total (stripe_checkout_params [] [] (purchase_params (ex_ticket 10) ''t'' ''ann@x'' 3 ''o1'')) = 9000"
proof -
  obtain s' where p: "PurchaseTicket (StripeConnectProvider ex_sdk [] []) (ex_door 10) ex_now ''o1'' ''t'' ''ann@x'' 3 =
      (Ok (''o1'', ''url''), s')"
    and paid: "map (od_AmountPaid \<circ> snd) (st_orders s') = [Some \<lparr>mo_Amount = 3000, mo_Currency = ''USD''\<rparr>]"
    by (simp add: shop_simps StripeConnectProvider_def ex_sdk_def)
  have t: "GetTicket (ex_door 10) ''t'' = Some (ex_ticket 10)" by (simp add: shop_simps)
  have three: "(3 :: u32) \<noteq> 0" by simp
  have "stripe_total (stripe_checkout_params [] [] (purchase_params (ex_ticket 10) ''t'' ''ann@x'' 3 ''o1'')) = 9000"
  proof -
    obtain tk and paid :: money where "GetTicket (ex_door 10) ''t'' = Some tk"
        "mo_Amount paid = (case tk_Price tk of None \<Rightarrow> 0 | Some p \<Rightarrow> mo_Amount p * ucast (3 :: u32))"
        "stripe_total (stripe_checkout_params [] [] (purchase_params tk ''t'' ''ann@x'' 3 ''o1'')) =
           unat (mo_Amount paid) * unat (3 :: u32)"
      using stripe_collects_quantity_twice [OF p] unfolding Let_def if_not_P [OF three] by blast
    then show ?thesis using t by (auto simp: ex_ticket_def)
  qed
  then show ?thesis by (intro conjI exI [of _ s'] p paid)
qed

section \<open>RSVPs\<close>

text \<open>The life of an RSVP. Whoever submits an RSVP for an email is answered a token with which CancelRsvp
  succeeds for that email, also when the RSVP was somebody else's; and cancelling is final: every later
  SubmitRsvp for that event and email answers the cancelled RSVP and leaves it cancelled.\<close>

theorem rsvp_cancel_is_final:
  assumes "SubmitRsvp s now tok ev em = (Ok (r, link), s1)" "tok \<noteq> []"
  shows "\<exists>s2. CancelRsvp s1 ev em tok = (Ok True, s2) \<and>
    (\<forall>now' tok'. \<exists>r' link' s3. SubmitRsvp s2 now' tok' ev em = (Ok (r', link'), s3) \<and>
       rs_Status r' = RSVP_NOT_GOING \<and> GetRsvp s3 ev em = Some r')"
proof -
  have ids: "ev \<noteq> []" "em \<noteq> []" and event: "GetEvent s1 ev \<noteq> None"
    and tok: "GetTokenEmail s1 tok = Some em" and there: "GetRsvp s1 ev em = Some r"
    using assms(1)
    by (auto simp: SubmitRsvp_def PutToken_def PutRsvp_def GetTokenEmail_def GetRsvp_def GetEvent_def Let_def
        update_conv' split: if_splits option.splits)
  let ?r = "r\<lparr>rs_Status := RSVP_NOT_GOING\<rparr>"
  let ?s2 = "put_back s1 (rsvpKey ev em) ?r"
  have "CancelRsvp s1 ev em tok = (Ok True, ?s2)" using ids assms(2) tok there by (simp add: CancelRsvp_def)
  moreover have "GetRsvp ?s2 ev em = Some ?r" "GetEvent ?s2 ev \<noteq> None"
    using event by (simp_all add: put_back_def UpdateRsvp_def GetRsvp_def GetEvent_def update_conv')
  then have "\<exists>link' s3. SubmitRsvp ?s2 now' tok' ev em = (Ok (?r, link'), s3) \<and> GetRsvp s3 ev em = Some ?r" for now' tok'
    using ids by (auto simp: SubmitRsvp_def PutToken_def GetRsvp_def)
  ultimately show ?thesis by (metis rsvp.select_convs(3) rsvp.surjective rsvp.update_convs(3))
qed

lemma rsvp_cancel_is_final_witness:
  "\<exists>s2. CancelRsvp (snd (SubmitRsvp (ex_door 1) ex_now ''k'' ''e1'' ''ann@x'')) ''e1'' ''ann@x'' ''k'' = (Ok True, s2) \<and>
    (\<exists>r link s3. SubmitRsvp s2 ex_now ''k2'' ''e1'' ''ann@x'' = (Ok (r, link), s3) \<and> rs_Status r = RSVP_NOT_GOING)"
proof -
  obtain r link s1 where s1: "SubmitRsvp (ex_door 1) ex_now ''k'' ''e1'' ''ann@x'' = (Ok (r, link), s1)"
    by (simp add: SubmitRsvp_def shop_simps GetEvent_def GetRsvp_def)
  show ?thesis using rsvp_cancel_is_final [OF s1] s1 by fastforce
qed

end
