(* ===== verification/Calendar.thy ===== *)
theory Calendar
  imports Prelude
begin

text \<open>
  The part of Go's package time that the program computes with: instants as nanoseconds since the
  Unix epoch, the civil date and clock of an instant in UTC, time.Date with its
  normalisation of months and days past the end, AddDate, Weekday. The seconds of a Time are a signed 64-bit
  number that counts from year 1; time.Date wraps in it.
\<close>

type_synonym go_time = int

section \<open>Days and years\<close>

definition is_leap :: "int \<Rightarrow> bool" where
  "is_leap y \<longleftrightarrow> y mod 4 = 0 \<and> (y mod 100 \<noteq> 0 \<or> y mod 400 = 0)"

text \<open>Days from 0001-01-01 to the first day of a year.\<close>

definition days_before_year :: "int \<Rightarrow> int" where
  "days_before_year y = 365 * (y - 1) + (y - 1) div 4 - (y - 1) div 100 + (y - 1) div 400"

text \<open>Days of a year before its month \<open>k\<close>, counted from 0.\<close>

definition days_before_month :: "int \<Rightarrow> int \<Rightarrow> int" where
  "days_before_month y k =
     [0, 31, 59, 90, 120, 151, 181, 212, 243, 273, 304, 334, 365] ! nat k + (if k \<ge> 2 \<and> is_leap y then 1 else 0)"

definition days_in_month :: "int \<Rightarrow> int \<Rightarrow> int" where
  "days_in_month y m = days_before_month y m - days_before_month y (m - 1)"

definition epoch_days :: int where
  "epoch_days = 719162"

text \<open>The day, counted from the epoch, of a date whose month and day may lie outside their ranges.\<close>

definition day_number :: "int \<Rightarrow> int \<Rightarrow> int \<Rightarrow> int" where
  "day_number y m d =
     (let y' = y + (m - 1) div 12; k = (m - 1) mod 12
      in days_before_year y' + days_before_month y' k + d - 1 - epoch_days)"

definition year_of :: "int \<Rightarrow> int" where
  "year_of n =
     (let d = n + epoch_days;
          n400 = d div 146097; d = d mod 146097;
          n100 = min 3 (d div 36524); d = d - 36524 * n100;
          n4 = d div 1461; d = d mod 1461;
          n1 = min 3 (d div 365)
      in 400 * n400 + 100 * n100 + 4 * n4 + n1 + 1)"

definition year_day :: "int \<Rightarrow> int" where
  "year_day n = n + epoch_days - days_before_year (year_of n)"

definition month_of :: "int \<Rightarrow> int" where
  "month_of n = int (length (filter (\<lambda>k. days_before_month (year_of n) k \<le> year_day n)
     [0, 1, 2, 3, 4, 5, 6, 7, 8, 9, 10, 11]))"

definition day_of :: "int \<Rightarrow> int" where
  "day_of n = year_day n - days_before_month (year_of n) (month_of n - 1) + 1"

section \<open>Instants\<close>

definition second :: int where "second = 1000000000"

definition day_ns :: int where "day_ns = 86400 * second"

definition day_index :: "go_time \<Rightarrow> int" where "day_index t = t div day_ns"

definition Year :: "go_time \<Rightarrow> int" where "Year t = year_of (day_index t)"
definition Month :: "go_time \<Rightarrow> int" where "Month t = month_of (day_index t)"
definition Day :: "go_time \<Rightarrow> int" where "Day t = day_of (day_index t)"
definition Hour :: "go_time \<Rightarrow> int" where "Hour t = t mod day_ns div (3600 * second)"
definition Minute :: "go_time \<Rightarrow> int" where "Minute t = t mod (3600 * second) div (60 * second)"
definition Second :: "go_time \<Rightarrow> int" where "Second t = t mod (60 * second) div second"
definition Nanosecond :: "go_time \<Rightarrow> int" where "Nanosecond t = t mod second"

text \<open>Sunday is 0.\<close>

definition Weekday :: "go_time \<Rightarrow> int" where "Weekday t = (day_index t + 4) mod 7"

definition year1_seconds :: int where "year1_seconds = 62135596800"

definition wrap_seconds :: "int \<Rightarrow> int" where
  "wrap_seconds s = sint (word_of_int (s + year1_seconds) :: 64 word) - year1_seconds"

definition go_Date :: "int \<Rightarrow> int \<Rightarrow> int \<Rightarrow> int \<Rightarrow> int \<Rightarrow> int \<Rightarrow> int \<Rightarrow> go_time" where
  "go_Date y m d h mi s ns =
     wrap_seconds (day_number y m d * 86400 + h * 3600 + mi * 60 + s + ns div second) * second + ns mod second"

definition AddDate :: "go_time \<Rightarrow> int \<Rightarrow> int \<Rightarrow> int \<Rightarrow> go_time" where
  "AddDate t years months days =
     go_Date (Year t + years) (Month t + months) (Day t + days) (Hour t) (Minute t) (Second t) (Nanosecond t)"

section \<open>Years\<close>

lemma div_pred:
  fixes y n :: int
  assumes "0 < n"
  shows "(y - 1) div n = y div n - (if y mod n = 0 then 1 else 0)"
proof -
  have y: "y = n * (y div n) + y mod n" "0 \<le> y mod n" "y mod n < n" using assms by simp_all
  show ?thesis
  proof (cases "y mod n = 0")
    case True
    then have "y - 1 = n * (y div n - 1) + (n - 1)" using y(1) by (simp add: algebra_simps)
    then show ?thesis using True assms int_div_pos_eq [of "y - 1" n "y div n - 1" "n - 1"] by simp
  next
    case False
    then have "y - 1 = n * (y div n) + (y mod n - 1)" using y(1) by simp
    then show ?thesis using False y int_div_pos_eq [of "y - 1" n "y div n" "y mod n - 1"] by simp
  qed
qed

text \<open>A year minus 1 as full cycles of 400, 100, 4 and 1 years.\<close>

lemma days_before_year_digits:
  assumes "0 \<le> b" "b \<le> 3" "0 \<le> c" "c \<le> 24" "0 \<le> d" "d \<le> 3"
  shows "days_before_year (400 * a + 100 * b + 4 * c + d + 1) = 146097 * a + 36524 * b + 1461 * c + 365 * d"
proof -
  have "(400 * a + 100 * b + 4 * c + d) div 4 = 100 * a + 25 * b + c"
    using assms by (intro int_div_pos_eq [where r = d]) simp_all
  moreover have "(400 * a + 100 * b + 4 * c + d) div 100 = 4 * a + b"
    using assms by (intro int_div_pos_eq [where r = "4 * c + d"]) simp_all
  moreover have "(400 * a + 100 * b + 4 * c + d) div 400 = a"
    using assms by (intro int_div_pos_eq [where r = "100 * b + 4 * c + d"]) simp_all
  ultimately show ?thesis by (simp add: days_before_year_def algebra_simps)
qed

lemma leap_mod: "y mod 400 = 0 \<Longrightarrow> y mod 100 = 0" "y mod 100 = 0 \<Longrightarrow> y mod 4 = 0" for y :: int
  by (auto simp: mod_eq_0_iff_dvd intro: dvd_trans [of 100 400] dvd_trans [of 4 100])

lemma days_before_year_Suc: "days_before_year (y + 1) = days_before_year y + (if is_leap y then 366 else 365)"
  using leap_mod [of y] by (auto simp: days_before_year_def is_leap_def div_pred)

lemma days_before_year_less: "y < z \<Longrightarrow> days_before_year y + 365 \<le> days_before_year z"
proof (induction z rule: int_gr_induct)
  case base
  then show ?case by (simp add: days_before_year_Suc)
next
  case (step z)
  then show ?case by (simp add: days_before_year_Suc)
qed

lemma year_of_bounds: "days_before_year (year_of n) \<le> n + epoch_days \<and> n + epoch_days < days_before_year (year_of n + 1)"
proof -
  define d where "d = n + epoch_days"
  define a where "a = d div 146097"
  define r1 where "r1 = d mod 146097"
  define b where "b = min 3 (r1 div 36524)"
  define r2 where "r2 = r1 - 36524 * b"
  define c where "c = r2 div 1461"
  define r3 where "r3 = r2 mod 1461"
  define e where "e = min 3 (r3 div 365)"
  have y: "year_of n = 400 * a + 100 * b + 4 * c + e + 1"
    by (simp add: year_of_def Let_def d_def a_def r1_def b_def r2_def c_def r3_def e_def)
  have d1: "d = 146097 * a + r1" "0 \<le> r1" "r1 < 146097" by (simp_all add: a_def r1_def)
  have b: "0 \<le> b" "b \<le> 3" "0 \<le> r2" "b < 3 \<Longrightarrow> r2 < 36524" "r2 \<le> 36524"
    using d1(2,3) unfolding b_def r2_def min_def by (auto split: if_splits)
  have r3: "r2 = 1461 * c + r3" "0 \<le> r3" "r3 < 1461" by (simp_all add: c_def r3_def)
  have c: "0 \<le> c" "c \<le> 24"
    using b(3) zdiv_mono1 [OF b(5), of 1461] by (simp_all add: c_def pos_imp_zdiv_nonneg_iff)
  have e: "0 \<le> e" "e \<le> 3" "365 * e \<le> r3" "e < 3 \<Longrightarrow> r3 < 365 * e + 365" "r3 \<le> 365 * e + 365"
    using r3(2,3) unfolding e_def min_def by (auto split: if_splits)
  have f: "days_before_year (year_of n) = 146097 * a + 36524 * b + 1461 * c + 365 * e"
    unfolding y by (rule days_before_year_digits [OF b(1,2) c e(1,2)])
  have "d = 146097 * a + 36524 * b + 1461 * c + r3" using d1(1) r3(1) by (simp add: r2_def)
  moreover have "r3 < 365 * e + 365 \<or> is_leap (year_of n)"
  proof (rule disjCI)
    assume "\<not> is_leap (year_of n)"
    show "r3 < 365 * e + 365"
    proof (rule ccontr)
      assume "\<not> r3 < 365 * e + 365"
      then have "\<not> e < 3" using e(4) by blast
      then have r: "e = 3" "r3 = 1460" using e(2,5) r3(3) \<open>\<not> r3 < 365 * e + 365\<close> by simp_all
      have y4: "year_of n = 400 * a + 100 * b + 4 * (c + 1)" by (simp add: y r)
      have leap: "is_leap (year_of n)" if "c \<le> 23"
      proof -
        have "year_of n mod 4 = 0"
          unfolding y4 by (rule int_mod_pos_eq [where q = "100 * a + 25 * b + c + 1"]) simp_all
        moreover have "year_of n mod 100 = 4 * (c + 1)"
          unfolding y4 using c(1) that by (intro int_mod_pos_eq [where q = "4 * a + b"]) simp_all
        ultimately show ?thesis using c(1) by (simp add: is_leap_def)
      qed
      have "c \<le> 23 \<or> b = 3" using r r3(1) b(2,4) c by (cases "b < 3") auto
      then have "is_leap (year_of n)"
      proof
        assume "c \<le> 23"
        then show ?thesis by (rule leap)
      next
        assume "b = 3"
        show ?thesis
        proof (cases "c \<le> 23")
          case True
          then show ?thesis using leap by blast
        next
          case False
          then have "c = 24" using c(2) by simp
          then have "year_of n = 400 * (a + 1)" using y4 \<open>b = 3\<close> by simp
          then have "year_of n mod 400 = 0" by simp
          then show ?thesis using leap_mod [of "year_of n"] by (simp add: is_leap_def)
        qed
      qed
      then show False using \<open>\<not> is_leap (year_of n)\<close> by simp
    qed
  qed
  ultimately show ?thesis using f e r3 by (auto simp: days_before_year_Suc simp flip: d_def)
qed

lemma year_of_unique:
  assumes "days_before_year y \<le> n + epoch_days" "n + epoch_days < days_before_year (y + 1)"
  shows "year_of n = y"
proof (rule ccontr)
  assume "year_of n \<noteq> y"
  then consider "year_of n + 1 \<le> y" | "y + 1 \<le> year_of n" by linarith
  then have "days_before_year (year_of n + 1) \<le> days_before_year y \<or> days_before_year (y + 1) \<le> days_before_year (year_of n)"
    using days_before_year_less [of "year_of n + 1" y] days_before_year_less [of "y + 1" "year_of n"]
    by cases (auto simp: le_less)
  then show False using year_of_bounds [of n] assms by linarith
qed

section \<open>Months and days\<close>

definition valid_date :: "int \<Rightarrow> int \<Rightarrow> int \<Rightarrow> bool" where
  "valid_date y m d \<longleftrightarrow> 1 \<le> m \<and> m \<le> 12 \<and> 1 \<le> d \<and> d \<le> days_in_month y m"

lemma month_cases:
  assumes "1 \<le> m" "m \<le> (12 :: int)"
  obtains "m = 1" | "m = 2" | "m = 3" | "m = 4" | "m = 5" | "m = 6" | "m = 7" | "m = 8" | "m = 9"
    | "m = 10" | "m = 11" | "m = 12"
proof -
  have "m = 1 \<or> m = 2 \<or> m = 3 \<or> m = 4 \<or> m = 5 \<or> m = 6 \<or> m = 7 \<or> m = 8 \<or> m = 9 \<or> m = 10 \<or>
      m = 11 \<or> m = 12" using assms by presburger
  then show thesis using that by blast
qed

lemma days_before_month_values:
  "days_before_month y 0 = 0" "days_before_month y 1 = 31"
  "days_before_month y 2 = 59 + of_bool (is_leap y)" "days_before_month y 3 = 90 + of_bool (is_leap y)"
  "days_before_month y 4 = 120 + of_bool (is_leap y)" "days_before_month y 5 = 151 + of_bool (is_leap y)"
  "days_before_month y 6 = 181 + of_bool (is_leap y)" "days_before_month y 7 = 212 + of_bool (is_leap y)"
  "days_before_month y 8 = 243 + of_bool (is_leap y)" "days_before_month y 9 = 273 + of_bool (is_leap y)"
  "days_before_month y 10 = 304 + of_bool (is_leap y)" "days_before_month y 11 = 334 + of_bool (is_leap y)"
  "days_before_month y 12 = 365 + of_bool (is_leap y)"
  by (simp_all add: days_before_month_def)

lemma month_of_eq:
  assumes "1 \<le> m" "m \<le> 12" "days_before_month (year_of n) (m - 1) \<le> year_day n"
    "year_day n < days_before_month (year_of n) m"
  shows "month_of n = m"
  using assms(1,2)
  by (cases rule: month_cases) (use assms(3,4) in \<open>cases "is_leap (year_of n)"; simp add: month_of_def days_before_month_values\<close>)+

lemma year_day_range: "0 \<le> year_day n" "year_day n < days_before_month (year_of n) 12"
  using year_of_bounds [of n] by (auto simp: year_day_def days_before_year_Suc days_before_month_values)

lemma month_exists:
  obtains m where "1 \<le> m" "m \<le> 12" "days_before_month (year_of n) (m - 1) \<le> year_day n"
    "year_day n < days_before_month (year_of n) m"
proof -
  let ?P = "\<lambda>m. days_before_month (year_of n) (m - 1) \<le> year_day n \<and> year_day n < days_before_month (year_of n) m"
  have "?P 1 \<or> ?P 2 \<or> ?P 3 \<or> ?P 4 \<or> ?P 5 \<or> ?P 6 \<or> ?P 7 \<or> ?P 8 \<or> ?P 9 \<or> ?P 10 \<or> ?P 11 \<or> ?P 12"
    using year_day_range [of n] by (cases "is_leap (year_of n)") (simp_all add: days_before_month_values, linarith+)
  then show thesis by (elim disjE conjE) (rule that; simp)+
qed

lemma date_valid: "valid_date (year_of n) (month_of n) (day_of n)"
  and day_number_date: "day_number (year_of n) (month_of n) (day_of n) = n"
proof -
  obtain m where m: "1 \<le> m" "m \<le> 12" "days_before_month (year_of n) (m - 1) \<le> year_day n"
    "year_day n < days_before_month (year_of n) m" by (rule month_exists)
  have mo: "month_of n = m" by (rule month_of_eq [OF m])
  show "valid_date (year_of n) (month_of n) (day_of n)"
    using m by (simp add: valid_date_def day_of_def mo days_in_month_def)
  have "(m - 1) div 12 = 0" "(m - 1) mod 12 = m - 1" using m(1,2) by simp_all
  then show "day_number (year_of n) (month_of n) (day_of n) = n"
    by (simp add: day_number_def mo day_of_def year_day_def)
qed

lemma days_before_month_mono:
  assumes "1 \<le> m" "m \<le> 12"
  shows "0 \<le> days_before_month y (m - 1)" "days_before_month y m \<le> 365 + of_bool (is_leap y)"
  using assms by (cases rule: month_cases; simp add: days_before_month_values)+

lemma date_day_number:
  assumes "valid_date y m d"
  shows "year_of (day_number y m d) = y" "month_of (day_number y m d) = m" "day_of (day_number y m d) = d"
proof -
  let ?n = "day_number y m d"
  have v: "1 \<le> m" "m \<le> 12" "1 \<le> d" "d \<le> days_before_month y m - days_before_month y (m - 1)"
    using assms by (simp_all add: valid_date_def days_in_month_def)
  have "(m - 1) div 12 = 0" "(m - 1) mod 12 = m - 1" using v(1,2) by simp_all
  then have n: "?n + epoch_days = days_before_year y + days_before_month y (m - 1) + d - 1"
    by (simp add: day_number_def)
  show y: "year_of ?n = y"
    by (rule year_of_unique) (use n v days_before_month_mono [OF v(1,2), of y] in \<open>auto simp: days_before_year_Suc\<close>)
  have yd: "year_day ?n = days_before_month y (m - 1) + d - 1" using n by (simp add: year_day_def y)
  show mo: "month_of ?n = m" by (rule month_of_eq) (use v yd y in simp_all)
  show "day_of ?n = d" by (simp add: day_of_def y mo yd)
qed

section \<open>Instants\<close>

definition in_range :: "int \<Rightarrow> bool" where
  "in_range s \<longleftrightarrow> - (2 ^ 63) \<le> s + year1_seconds \<and> s + year1_seconds < 2 ^ 63"

lemma wrap_in_range: "in_range s \<Longrightarrow> wrap_seconds s = s"
  unfolding in_range_def wrap_seconds_def sint_sbintrunc' by (subst signed_take_bit_int_eq_self) simp_all

lemma time_parts:
  "t = (day_index t * 86400 + Hour t * 3600 + Minute t * 60 + Second t) * second + Nanosecond t"
proof -
  have d: "3600 * second dvd day_ns" "60 * second dvd 3600 * second" "second dvd 60 * second"
    by (simp_all add: day_ns_def second_def)
  have "t = t div day_ns * day_ns + t mod day_ns" by simp
  moreover have "t mod day_ns = Hour t * (3600 * second) + t mod (3600 * second)"
    using div_mult_mod_eq [of "t mod day_ns" "3600 * second"] mod_mod_cancel [OF d(1), of t] by (simp add: Hour_def)
  moreover have "t mod (3600 * second) = Minute t * (60 * second) + t mod (60 * second)"
    using div_mult_mod_eq [of "t mod (3600 * second)" "60 * second"] mod_mod_cancel [OF d(2), of t] by (simp add: Minute_def)
  moreover have "t mod (60 * second) = Second t * second + Nanosecond t"
    using div_mult_mod_eq [of "t mod (60 * second)" second] mod_mod_cancel [OF d(3), of t]
    by (simp add: Second_def Nanosecond_def)
  ultimately show ?thesis by (simp add: day_index_def day_ns_def algebra_simps)
qed

lemma div_upper:
  fixes t :: int
  assumes "0 < a" "0 < b"
  shows "t mod a div b \<le> (a - 1) div b"
  using assms pos_mod_bound [of a t] by (intro zdiv_mono1) simp_all

lemma clock_range:
  "0 \<le> Hour t" "Hour t \<le> 23" "0 \<le> Minute t" "Minute t \<le> 59" "0 \<le> Second t" "Second t \<le> 59"
  "0 \<le> Nanosecond t" "Nanosecond t < second"
  using div_upper [of 86400000000000 3600000000000 t] div_upper [of 3600000000000 60000000000 t]
    div_upper [of 60000000000 1000000000 t]
  by (simp_all add: Hour_def Minute_def Second_def Nanosecond_def day_ns_def second_def pos_imp_zdiv_nonneg_iff)

text \<open>Adding days only.\<close>

lemma day_number_shift: "day_number y m (d + k) = day_number y m d + k"
  by (simp add: day_number_def Let_def)

lemma AddDate_days:
  assumes "in_range ((t + k * day_ns) div second)"
  shows "AddDate t 0 0 k = t + k * day_ns"
proof -
  let ?s = "day_index t * 86400 + Hour t * 3600 + Minute t * 60 + Second t"
  have ns: "Nanosecond t div second = 0" "Nanosecond t mod second = Nanosecond t" using clock_range [of t] by simp_all
  have t: "t + k * day_ns = (?s + k * 86400) * second + Nanosecond t"
    using time_parts [of t] by (simp add: day_ns_def algebra_simps)
  then have "(t + k * day_ns) div second = ?s + k * 86400" using ns by (simp add: second_def)
  then have w: "wrap_seconds (?s + k * 86400) = ?s + k * 86400" using assms wrap_in_range by simp
  have "day_number (Year t) (Month t) (Day t + k) = day_index t + k"
    by (simp add: day_number_shift Year_def Month_def Day_def day_number_date)
  then show ?thesis
    using w unfolding AddDate_def go_Date_def t by (simp add: ns algebra_simps)
qed

text \<open>The parts of an instant made by time.Date.\<close>

lemma go_Date_parts:
  assumes "valid_date y m d" "0 \<le> h" "h \<le> 23" "0 \<le> mi" "mi \<le> 59" "0 \<le> s" "s \<le> 59" "0 \<le> ns" "ns < second"
    "in_range (day_number y m d * 86400 + h * 3600 + mi * 60 + s)"
  shows "Year (go_Date y m d h mi s ns) = y" "Month (go_Date y m d h mi s ns) = m" "Day (go_Date y m d h mi s ns) = d"
    "day_index (go_Date y m d h mi s ns) = day_number y m d"
proof -
  let ?n = "day_number y m d"
  have "ns div second = 0" "ns mod second = ns" using assms(8,9) by simp_all
  then have "go_Date y m d h mi s ns = ?n * day_ns + ((h * 3600 + mi * 60 + s) * second + ns)"
    using wrap_in_range [OF assms(10)] by (simp add: go_Date_def day_ns_def algebra_simps)
  moreover have "0 \<le> (h * 3600 + mi * 60 + s) * second + ns" "(h * 3600 + mi * 60 + s) * second + ns < day_ns"
    using assms(2-9) by (simp_all add: second_def day_ns_def)
  ultimately show i: "day_index (go_Date y m d h mi s ns) = ?n"
    unfolding day_index_def by (intro int_div_pos_eq) (simp_all add: mult.commute)
  show "Year (go_Date y m d h mi s ns) = y" "Month (go_Date y m d h mi s ns) = m" "Day (go_Date y m d h mi s ns) = d"
    unfolding Year_def Month_def Day_def i using date_day_number [OF assms(1)] by simp_all
qed

lemma go_Date_clock:
  assumes "valid_date y m d" "0 \<le> h" "h \<le> 23" "0 \<le> mi" "mi \<le> 59" "0 \<le> s" "s \<le> 59" "0 \<le> ns" "ns < second"
    "in_range (day_number y m d * 86400 + h * 3600 + mi * 60 + s)"
  shows "Hour (go_Date y m d h mi s ns) = h" "Minute (go_Date y m d h mi s ns) = mi"
    "Second (go_Date y m d h mi s ns) = s" "Nanosecond (go_Date y m d h mi s ns) = ns"
proof -
  let ?t = "go_Date y m d h mi s ns"
  have "ns div second = 0" "ns mod second = ns" using assms(8,9) by simp_all
  then have t: "?t = day_number y m d * 86400000000000 + h * 3600000000000 + mi * 60000000000 + s * 1000000000 + ns"
    using wrap_in_range [OF assms(10)] by (simp add: go_Date_def second_def algebra_simps)
  have ns: "ns < 1000000000" using assms(9) by (simp add: second_def)
  have "?t mod 1000000000 = ns"
    unfolding t using assms(8) ns
    by (intro int_mod_pos_eq [where q = "day_number y m d * 86400 + h * 3600 + mi * 60 + s"]) simp_all
  moreover have m: "?t mod 60000000000 = s * 1000000000 + ns"
    unfolding t using assms(6-8) ns
    by (intro int_mod_pos_eq [where q = "day_number y m d * 1440 + h * 60 + mi"]) simp_all
  moreover have h: "?t mod 3600000000000 = mi * 60000000000 + (s * 1000000000 + ns)"
    unfolding t using assms(4-8) ns
    by (intro int_mod_pos_eq [where q = "day_number y m d * 24 + h"]) simp_all
  moreover have d: "?t mod 86400000000000 = h * 3600000000000 + (mi * 60000000000 + s * 1000000000 + ns)"
    unfolding t using assms(2-8) ns
    by (intro int_mod_pos_eq [where q = "day_number y m d"]) simp_all
  moreover have "(s * 1000000000 + ns) div 1000000000 = s"
    using assms(8) ns by (intro int_div_pos_eq [where r = ns]) simp_all
  moreover have "(mi * 60000000000 + (s * 1000000000 + ns)) div 60000000000 = mi"
    using assms(6-8) ns by (intro int_div_pos_eq [where r = "s * 1000000000 + ns"]) simp_all
  moreover have "(h * 3600000000000 + (mi * 60000000000 + s * 1000000000 + ns)) div 3600000000000 = h"
    using assms(4-8) ns by (intro int_div_pos_eq [where r = "mi * 60000000000 + s * 1000000000 + ns"]) simp_all
  moreover have "day_ns = 86400000000000" "3600 * second = 3600000000000" "60 * second = 60000000000" "second = 1000000000"
    by (simp_all add: day_ns_def second_def)
  ultimately show "Hour ?t = h" "Minute ?t = mi" "Second ?t = s" "Nanosecond ?t = ns"
    by (simp_all only: Hour_def Minute_def Second_def Nanosecond_def)
qed

end
