(* ===== verification/Recurrence.thy ===== *)
theory Recurrence
  imports Calendar GoStrings
begin

text \<open>
  Recurrence rules (internal/product/recurrence.go): the parser of RRULE texts and the expansion of a rule into
  the instants of its occurrences. An instant is the number of nanoseconds since the epoch (theory
  Calendar). The loops of the expansion take fuel and return \<open>None\<close> without it; RecurrenceRules shows how much is
  enough.
\<close>

section \<open>Rules\<close>

record recurrence_pattern =
  rp_Freq :: string
  rp_Count :: int
  rp_Until :: "go_time option"
  rp_ByDay :: "string list"
  rp_Interval :: int

datatype recurrence_error = EmptyRule | UnsupportedFreq string | InvalidCount string | InvalidUntil string
  | InvalidInterval string | FreqRequired

definition dayToWeekday :: "(string \<times> int) list" where
  "dayToWeekday = [(''SU'', 0), (''MO'', 1), (''TU'', 2), (''WE'', 3), (''TH'', 4), (''FR'', 5), (''SA'', 6)]"

definition isValidDayCode :: "string \<Rightarrow> bool" where
  "isValidDayCode d \<longleftrightarrow> map_of dayToWeekday d \<noteq> None"

text \<open>A read of the Go map: 0 for an unknown code.\<close>

definition weekday_of_code :: "string \<Rightarrow> int" where
  "weekday_of_code d = (case map_of dayToWeekday d of Some w \<Rightarrow> w | None \<Rightarrow> 0)"

section \<open>Dates\<close>

text \<open>getnum of package time: two digits, or one if the field is not fixed.\<close>

definition getnum :: "bool \<Rightarrow> string \<Rightarrow> (int \<times> string) option" where
  "getnum fixed s =
     (case s of
        [] \<Rightarrow> None
      | a # r \<Rightarrow>
          if digit_value a \<ge> 10 then None
          else
            (case r of
               b # r' \<Rightarrow>
                 if digit_value b < 10 then Some (int (digit_value a * 10 + digit_value b), r')
                 else if fixed then None else Some (int (digit_value a), r)
             | [] \<Rightarrow> if fixed then None else Some (int (digit_value a), r)))"

definition number_of :: "string \<Rightarrow> int" where
  "number_of ds = int (foldl (\<lambda>n c. n * 10 + digit_value c) 0 ds)"

text \<open>The date fields of the layouts, 20060102, without the check of the day.\<close>

definition parse_date :: "string \<Rightarrow> ((int \<times> int \<times> int) \<times> string) option" where
  "parse_date s =
     (if length s < 4 \<or> \<not> list_all (\<lambda>c. digit_value c < 10) (take 4 s) then None
      else
        (case getnum True (drop 4 s) of
           None \<Rightarrow> None
         | Some (month, s') \<Rightarrow>
             if month \<le> 0 \<or> 12 < month then None
             else map_option (\<lambda>(day, s''). ((number_of (take 4 s), month, day), s'')) (getnum True s')))"

text \<open>A fraction after the seconds is read although the layouts have none.\<close>

definition parse_fraction :: "string \<Rightarrow> int \<times> string" where
  "parse_fraction s =
     (case s of
        p # d # r \<Rightarrow>
          if (p = CHR ''.'' \<or> p = CHR '','') \<and> digit_value d < 10
          then let ds = takeWhile (\<lambda>c. digit_value c < 10) (d # r); used = take 9 ds
               in (number_of used * 10 ^ (9 - length used), drop (length ds) (d # r))
          else (0, s)
      | _ \<Rightarrow> (0, s))"

text \<open>The clock fields, T150405.\<close>

definition parse_clock :: "string \<Rightarrow> ((int \<times> int \<times> int \<times> int) \<times> string) option" where
  "parse_clock s =
     (case s of
        [] \<Rightarrow> None
      | c # s \<Rightarrow>
          if c \<noteq> CHR ''T'' then None
          else
            (case getnum False s of
               None \<Rightarrow> None
             | Some (hour, s) \<Rightarrow>
                 if hour \<ge> 24 then None
                 else
                   (case getnum True s of
                      None \<Rightarrow> None
                    | Some (mi, s) \<Rightarrow>
                        if mi \<ge> 60 then None
                        else
                          (case getnum True s of
                             None \<Rightarrow> None
                           | Some (sec, s) \<Rightarrow>
                               if sec \<ge> 60 then None
                               else let (ns, s) = parse_fraction s in Some ((hour, mi, sec, ns), s)))))"

text \<open>The end of Parse: nothing may follow, and the day must exist in its month.\<close>

definition finish_parse :: "(int \<times> int \<times> int) \<Rightarrow> (int \<times> int \<times> int \<times> int) \<Rightarrow> string \<Rightarrow> go_time option" where
  "finish_parse date clock rest =
     (case (date, clock) of
        ((y, m, d), (h, mi, s, ns)) \<Rightarrow>
          if rest \<noteq> [] \<or> d < 1 \<or> d > days_in_month y m then None else Some (go_Date y m d h mi s ns))"

definition parse_layout_date :: "string \<Rightarrow> go_time option" where
  "parse_layout_date s =
     (case parse_date s of None \<Rightarrow> None | Some (date, rest) \<Rightarrow> finish_parse date (0, 0, 0, 0) rest)"

definition parse_layout_time :: "string \<Rightarrow> string \<Rightarrow> go_time option" where
  "parse_layout_time suffix s =
     (case parse_date s of
        None \<Rightarrow> None
      | Some (date, rest) \<Rightarrow>
          (case parse_clock rest of
             None \<Rightarrow> None
           | Some (clock, rest) \<Rightarrow>
               if take (length suffix) rest \<noteq> suffix then None
               else finish_parse date clock (drop (length suffix) rest)))"

definition parseICSDate :: "string \<Rightarrow> go_time option" where
  "parseICSDate s =
     (let s = TrimSpace s
      in case (if length s = 8 then parse_layout_date s else None) of
           Some t \<Rightarrow> Some t
         | None \<Rightarrow>
             (case parse_layout_time ''Z'' s of
                Some t \<Rightarrow> Some t
              | None \<Rightarrow> parse_layout_time '''' s))"

section \<open>The parser\<close>

definition parse_part :: "recurrence_pattern \<Rightarrow> string \<Rightarrow> recurrence_error + recurrence_pattern" where
  "parse_part p part =
     (case SplitN2 (CHR ''='') part of
        (_, None) \<Rightarrow> Inr p
      | (k, Some v) \<Rightarrow>
          let key = ToUpper (TrimSpace k); val = TrimSpace v
          in if key = ''FREQ'' then
               (let freq = ToUpper val
                in if freq \<in> {''DAILY'', ''WEEKLY'', ''MONTHLY''} then Inr (p\<lparr>rp_Freq := freq\<rparr>)
                   else Inl (UnsupportedFreq val))
             else if key = ''COUNT'' then
               (case Atoi val of
                  Some n \<Rightarrow> if n < 1 then Inl (InvalidCount val) else Inr (p\<lparr>rp_Count := n\<rparr>)
                | None \<Rightarrow> Inl (InvalidCount val))
             else if key = ''UNTIL'' then
               (case parseICSDate val of
                  Some t \<Rightarrow> Inr (p\<lparr>rp_Until := Some t\<rparr>)
                | None \<Rightarrow> Inl (InvalidUntil val))
             else if key = ''BYDAY'' then
               Inr (p\<lparr>rp_ByDay := rp_ByDay p @
                 filter isValidDayCode (map (\<lambda>d. ToUpper (TrimSpace d)) (Split (CHR '','') val))\<rparr>)
             else if key = ''INTERVAL'' then
               (case Atoi val of
                  Some n \<Rightarrow> if n < 1 then Inl (InvalidInterval val) else Inr (p\<lparr>rp_Interval := n\<rparr>)
                | None \<Rightarrow> Inl (InvalidInterval val))
             else Inr p)"

fun parse_parts :: "recurrence_pattern \<Rightarrow> string list \<Rightarrow> recurrence_error + recurrence_pattern" where
  "parse_parts p [] = Inr p"
| "parse_parts p (part # parts) =
     (case parse_part p part of Inl e \<Rightarrow> Inl e | Inr p' \<Rightarrow> parse_parts p' parts)"

definition new_pattern :: recurrence_pattern where
  "new_pattern = \<lparr>rp_Freq = '''', rp_Count = 0, rp_Until = None, rp_ByDay = [], rp_Interval = 1\<rparr>"

definition ParseRRULE :: "string \<Rightarrow> recurrence_error + recurrence_pattern" where
  "ParseRRULE rule =
     (let rule = TrimSpace rule
      in if rule = [] then Inl EmptyRule
         else (case parse_parts new_pattern (Split (CHR '';'') rule) of
                 Inl e \<Rightarrow> Inl e
               | Inr p \<Rightarrow> if rp_Freq p = [] then Inl FreqRequired else Inr p))"

section \<open>The expansion\<close>

definition effective_end :: "recurrence_pattern \<Rightarrow> go_time \<Rightarrow> go_time" where
  "effective_end p until = (case rp_Until p of Some u \<Rightarrow> if u < until then u else until | None \<Rightarrow> until)"

definition maxInstances :: nat where "maxInstances = 1000"

definition addInstance :: "go_time \<Rightarrow> go_time list \<Rightarrow> go_time \<Rightarrow> bool \<times> go_time list" where
  "addInstance end instances t =
     (if length instances \<ge> maxInstances then (False, instances)
      else if t > end then (False, instances)
      else (True, instances @ [t]))"

text \<open>The loop of DAILY, WEEKLY without BYDAY, and MONTHLY: they differ in the step to the next instant.\<close>

fun step_loop :: "nat \<Rightarrow> (go_time \<Rightarrow> go_time) \<Rightarrow> int \<Rightarrow> go_time \<Rightarrow> int \<Rightarrow> go_time \<Rightarrow> go_time list
    \<Rightarrow> go_time list option" where
  "step_loop 0 next limit end i current instances = None"
| "step_loop (Suc fuel) next limit end i current instances =
     (if limit > 0 \<and> i \<ge> limit then Some instances
      else if current > end then Some instances
      else (case addInstance end instances current of
              (False, instances) \<Rightarrow> Some instances
            | (True, instances) \<Rightarrow> step_loop fuel next limit end (i + 1) (next current) instances))"

text \<open>One week of BYDAY: \<open>Inl\<close> for the returns inside the loop over the days.\<close>

fun day_loop :: "int \<Rightarrow> go_time \<Rightarrow> go_time \<Rightarrow> go_time \<Rightarrow> string list \<Rightarrow> int \<Rightarrow> go_time list \<Rightarrow> bool
    \<Rightarrow> go_time list + (int \<times> go_time list \<times> bool)" where
  "day_loop limit start end weekStart [] added instances anyAdded = Inr (added, instances, anyAdded)"
| "day_loop limit start end weekStart (dayCode # days) added instances anyAdded =
     (let dayDate = AddDate weekStart 0 0 (weekday_of_code dayCode)
      in if dayDate < start then day_loop limit start end weekStart days added instances anyAdded
         else if dayDate > end then day_loop limit start end weekStart days added instances anyAdded
         else if limit > 0 \<and> added \<ge> limit then Inl instances
         else let instances = instances @ [dayDate]
              in if length instances \<ge> maxInstances then Inl instances
                 else day_loop limit start end weekStart days (added + 1) instances True)"

fun week_loop :: "nat \<Rightarrow> recurrence_pattern \<Rightarrow> go_time \<Rightarrow> go_time \<Rightarrow> go_time \<Rightarrow> int \<Rightarrow> int \<Rightarrow> go_time list
    \<Rightarrow> go_time list option" where
  "week_loop 0 p start end weekStart weekOffset added instances = None"
| "week_loop (Suc fuel) p start end weekStart weekOffset added instances =
     (case day_loop (rp_Count p) start end weekStart (rp_ByDay p) added instances False of
        Inl instances \<Rightarrow> Some instances
      | Inr (added, instances, anyAdded) \<Rightarrow>
          let weekStart' = AddDate weekStart 0 0 (7 * rp_Interval p)
          in if \<not> anyAdded \<and> weekOffset > 0 \<and> weekStart' > end then Some instances
             else if weekStart' > end \<and> (rp_Count p = 0 \<or> added \<ge> rp_Count p) then Some instances
             else if weekOffset + 1 > 500 then Some instances
             else week_loop fuel p start end weekStart' (weekOffset + 1) added instances)"

definition first_week :: "go_time \<Rightarrow> go_time" where
  "first_week start =
     (let weekStart = AddDate start 0 0 (- Weekday start)
      in go_Date (Year weekStart) (Month weekStart) (Day weekStart) (Hour start) (Minute start) (Second start) 0)"

definition lastDayOfMonth :: "int \<Rightarrow> int \<Rightarrow> int" where
  "lastDayOfMonth year month = Day (go_Date year (month + 1) 0 0 0 0 0)"

text \<open>The inner loop that carries months into years.\<close>

function carry_months :: "int \<Rightarrow> int \<Rightarrow> int \<times> int" where
  "carry_months year month = (if month > 12 then carry_months (year + 1) (month - 12) else (year, month))"
  by pat_completeness auto
termination by (relation "measure (\<lambda>(year, month). nat month)") auto

declare carry_months.simps [simp del]

definition next_month :: "int \<Rightarrow> int \<Rightarrow> go_time \<Rightarrow> go_time" where
  "next_month targetDay interval current =
     (let (year, month) = carry_months (Year current) (sint (word_of_int (Month current + interval) :: 64 word));
          lastDay = lastDayOfMonth year month;
          day = (if targetDay > lastDay then lastDay else targetDay)
      in go_Date year month day (Hour current) (Minute current) (Second current) 0)"

definition ExpandInstances :: "nat \<Rightarrow> recurrence_pattern \<Rightarrow> go_time \<Rightarrow> go_time \<Rightarrow> go_time list option" where
  "ExpandInstances fuel p start until =
     (let end = effective_end p until
      in if rp_Freq p = ''DAILY'' then
           step_loop fuel (\<lambda>t. AddDate t 0 0 (rp_Interval p)) (rp_Count p) end 0 start []
         else if rp_Freq p = ''WEEKLY'' then
           (if rp_ByDay p \<noteq> [] then week_loop fuel p start end (first_week start) 0 0 []
            else step_loop fuel (\<lambda>t. AddDate t 0 0 (7 * rp_Interval p)) (rp_Count p) end 0 start [])
         else if rp_Freq p = ''MONTHLY'' then
           step_loop fuel (next_month (Day start) (rp_Interval p)) (rp_Count p) end 0 start []
         else Some [])"

end
