(* ===== verification/RecurrenceRules.thy ===== *)
theory RecurrenceRules
  imports Recurrence
begin

text \<open>
  What ParseRRULE and ExpandInstances promise: a parsed rule is well formed and every well-formed rule has a
  text; the expansion of any rule ends after at most 1001 rounds with at most 1000 instants inside
  the requested window; the instants of a DAILY, WEEKLY and MONTHLY rule are the expected ones; with BYDAY they
  fall on the listed days, so that the start need not be one of them.
\<close>

section \<open>The common loop\<close>

definition most_instances :: "int \<Rightarrow> nat" where
  "most_instances limit = (if limit > 0 then min (nat limit) maxInstances else maxInstances)"

lemma step_loop_eq:
  assumes "length instances = n" "n \<le> most_instances limit" "most_instances limit - n < fuel"
  shows "step_loop fuel next limit end (int n) current instances =
    Some (instances @ takeWhile (\<lambda>t. t \<le> end) (map (\<lambda>k. (next ^^ k) current) [0 ..< most_instances limit - n]))"
  using assms
proof (induction fuel arbitrary: n current instances)
  case (Suc fuel)
  let ?N = "most_instances limit"
  have N: "limit > 0 \<Longrightarrow> int ?N \<le> limit" "?N \<le> maxInstances"
    "n = ?N \<Longrightarrow> (limit > 0 \<and> int n \<ge> limit) \<or> n \<ge> maxInstances"
    by (auto simp: most_instances_def min_def)
  show ?case
  proof (cases "n = ?N \<or> current > end")
    case True
    then show ?thesis
      using N Suc.prems by (cases "n = ?N") (auto simp: addInstance_def upt_rec)
  next
    case False
    then have n: "n < ?N" "n < maxInstances" "\<not> (limit > 0 \<and> int n \<ge> limit)" using Suc.prems(2) N by auto
    have "[0 ..< ?N - n] = 0 # map Suc [0 ..< ?N - Suc n]"
      using n(1) by (simp add: upt_conv_Cons map_Suc_upt Suc_diff_Suc)
    moreover have "step_loop fuel next limit end (int n + 1) (next current) (instances @ [current]) =
        Some ((instances @ [current]) @ takeWhile (\<lambda>t. t \<le> end) (map (\<lambda>k. (next ^^ k) (next current)) [0 ..< ?N - Suc n]))"
      using Suc.IH [of "instances @ [current]" "Suc n" "next current"] Suc.prems n by (simp add: add.commute)
    ultimately show ?thesis
      using n False Suc.prems(1) by (simp add: addInstance_def comp_def funpow_swap1)
  qed
qed simp

lemma step_loop_start:
  "1001 \<le> fuel \<Longrightarrow> step_loop fuel next limit end 0 start [] =
     Some (takeWhile (\<lambda>t. t \<le> end) (map (\<lambda>k. (next ^^ k) start) [0 ..< most_instances limit]))"
  using step_loop_eq [of "[]" 0 limit fuel "next" "end" start]
  by (simp add: most_instances_def maxInstances_def min_def split: if_splits)

section \<open>The loop over the weeks\<close>

definition window :: "int \<Rightarrow> go_time \<Rightarrow> go_time list \<Rightarrow> bool" where
  "window limit end l \<longleftrightarrow> length l \<le> maxInstances \<and> (limit > 0 \<longrightarrow> int (length l) \<le> limit) \<and> (\<forall>t \<in> set l. t \<le> end)"

lemma window_takeWhile: "window limit end (takeWhile (\<lambda>t. t \<le> end) (map f [0 ..< most_instances limit]))"
proof -
  let ?l = "takeWhile (\<lambda>t. t \<le> end) (map f [0 ..< most_instances limit])"
  have "length ?l \<le> most_instances limit" using length_takeWhile_le [of _ "map f [0 ..< most_instances limit]"] by simp
  then show ?thesis by (auto simp: window_def most_instances_def dest: set_takeWhileD split: if_splits)
qed

lemma window_Nil: "window limit end []"
  by (simp add: window_def)

lemma day_loop_window:
  assumes "window limit end instances" "length instances < maxInstances" "added = int (length instances)"
  shows "case day_loop limit start end weekStart days added instances a of
      Inl l \<Rightarrow> window limit end l
    | Inr (n, l, _) \<Rightarrow> window limit end l \<and> length l < maxInstances \<and> n = int (length l)"
  using assms
proof (induction limit start "end" weekStart days added instances a rule: day_loop.induct)
  case (2 limit start e weekStart dayCode days added instances a)
  let ?d = "AddDate weekStart 0 0 (weekday_of_code dayCode)"
  have w: "window limit e (instances @ [?d])" if "\<not> ?d > e" "\<not> (limit > 0 \<and> added \<ge> limit)"
    using that 2(4-6) by (auto simp: window_def)
  show ?case
    using 2(1) [OF refl _ 2(4-6)] 2(2) [OF refl _ _ 2(4-6)] 2(3) [OF refl _ _ _ refl _ w] 2(4-6) w
    by (auto simp: Let_def)
qed simp

lemma week_loop_window:
  assumes "window (rp_Count p) end instances" "length instances < maxInstances" "added = int (length instances)"
    "501 \<le> weekOffset + int fuel" "0 < fuel"
  shows "\<exists>l. week_loop fuel p start end weekStart weekOffset added instances = Some l \<and> window (rp_Count p) end l"
  using assms
proof (induction fuel arbitrary: weekStart weekOffset added instances)
  case (Suc fuel)
  note d = day_loop_window [OF Suc.prems(1-3), of start weekStart "rp_ByDay p" False]
  show ?case
  proof (cases "day_loop (rp_Count p) start end weekStart (rp_ByDay p) added instances False")
    case (Inl l)
    then show ?thesis using d by simp
  next
    case (Inr x)
    obtain n l a where x: "x = (n, l, a)" by (cases x)
    have l: "window (rp_Count p) end l" "length l < maxInstances" "n = int (length l)" using d Inr x by simp_all
    show ?thesis
    proof (cases "weekOffset + 1 > 500")
      case True
      then show ?thesis using Inr x l by (simp add: Let_def)
    next
      case False
      then have "\<exists>l'. week_loop fuel p start end (AddDate weekStart 0 0 (7 * rp_Interval p)) (weekOffset + 1) n l = Some l' \<and>
          window (rp_Count p) end l'"
        by (intro Suc.IH [OF l]) (use Suc.prems(4) in auto)
      then show ?thesis using Inr x l by (auto simp: Let_def)
    qed
  qed
qed simp

section \<open>Days\<close>

definition sane :: "recurrence_pattern \<Rightarrow> go_time \<Rightarrow> bool" where
  "sane p start \<longleftrightarrow> 1 \<le> Year start \<and> Year start \<le> 1000000 \<and> 1 \<le> rp_Interval p \<and> rp_Interval p \<le> 1000000"

lemma in_range_bound: "- (10 ^ 17) \<le> s \<Longrightarrow> s \<le> 10 ^ 17 \<Longrightarrow> in_range s"
  by (simp add: in_range_def year1_seconds_def)

lemma days_before_year_bounds:
  assumes "1 \<le> y"
  shows "0 \<le> days_before_year y" "days_before_year y \<le> 366 * y"
proof -
  have "(y - 1) div 100 \<le> (y - 1) div 4" using assms by (intro zdiv_mono2) simp_all
  moreover have "0 \<le> (y - 1) div 400" "0 \<le> (y - 1) div 100" using assms by simp_all
  moreover have "(y - 1) div 400 \<le> (y - 1) div 100" using assms by (intro zdiv_mono2) simp_all
  moreover have "(y - 1) div 4 \<le> (y - 1) div 1" using assms by (intro zdiv_mono2) simp_all
  ultimately show "0 \<le> days_before_year y" "days_before_year y \<le> 366 * y"
    using assms by (simp_all add: days_before_year_def)
qed

lemma day_index_bounds:
  assumes "1 \<le> Year t"
  shows "- epoch_days \<le> day_index t" "day_index t \<le> 366 * (Year t + 1)"
  using year_of_bounds [of "day_index t"] days_before_year_bounds [of "Year t"] days_before_year_bounds [of "Year t + 1"] assms
  by (simp_all add: Year_def epoch_days_def)

text \<open>No date within reach of a sane rule wraps.\<close>

lemma sane_in_range:
  assumes "sane p start" "\<bar>k\<bar> \<le> 10 ^ 10"
  shows "in_range ((start + k * day_ns) div second)"
proof -
  have d: "- 719162 \<le> day_index start" "day_index start \<le> 366 * 1000001"
    using day_index_bounds [of start] assms(1) by (simp_all add: sane_def epoch_days_def)
  have c: "0 \<le> Hour start * 3600 + Minute start * 60 + Second start"
    "Hour start * 3600 + Minute start * 60 + Second start \<le> 90000"
    using clock_range [of start] by linarith+
  have "start + k * day_ns =
      ((day_index start + k) * 86400 + Hour start * 3600 + Minute start * 60 + Second start) * second + Nanosecond start"
    using time_parts [of start] by (simp add: day_ns_def algebra_simps)
  then have "(start + k * day_ns) div second =
      (day_index start + k) * 86400 + (Hour start * 3600 + Minute start * 60 + Second start)"
    using clock_range [of start] by (intro int_div_pos_eq) simp_all
  then show ?thesis using d c assms(2) by (intro in_range_bound) simp_all
qed

lemma AddDate_iterate:
  assumes "sane p start" "1 \<le> j" "j \<le> 7 * rp_Interval p" "k \<le> 1000"
  shows "((\<lambda>t. AddDate t 0 0 j) ^^ k) start = start + int k * j * day_ns"
  using assms(4)
proof (induction k)
  case (Suc k)
  have "\<bar>int (Suc k) * j\<bar> \<le> 1000 * (7 * 1000000)"
  proof -
    have "int (Suc k) * j \<le> 1000 * (7 * 1000000)"
      using assms Suc.prems by (intro mult_mono) (simp_all add: sane_def)
    then show ?thesis using assms(2) by simp
  qed
  then have "in_range ((start + int (Suc k) * j * day_ns) div second)"
    by (intro sane_in_range [OF assms(1)]) simp_all
  then have "in_range ((start + int k * j * day_ns + j * day_ns) div second)" by (simp add: algebra_simps)
  then show ?case using Suc by (simp add: AddDate_days algebra_simps)
qed simp

section \<open>Months\<close>

lemma carry_months_eq: "1 \<le> m \<Longrightarrow> carry_months y m = (y + (m - 1) div 12, (m - 1) mod 12 + 1)"
proof (induction y m rule: carry_months.induct)
  case (1 y m)
  show ?case
  proof (cases "m > 12")
    case True
    have m: "m - 12 - 1 = (m - 1) + (- 1) * 12" by simp
    have "(m - 12 - 1) div 12 = (m - 1) div 12 - 1" "(m - 12 - 1) mod 12 = (m - 1) mod 12"
      unfolding m by (simp_all only: div_mult_self1 mod_mult_self1)
    moreover have "carry_months (y + 1) (m - 12) = (y + 1 + (m - 12 - 1) div 12, (m - 12 - 1) mod 12 + 1)"
      using 1(1) [OF True] True by simp
    ultimately show ?thesis using True by (subst carry_months.simps) (simp only: if_True, simp)
  next
    case False
    then show ?thesis using 1(2) by (subst carry_months.simps) simp
  qed
qed

lemma day_number_last:
  assumes "1 \<le> m" "m \<le> 12"
  shows "day_number y (m + 1) 0 = day_number y m (days_in_month y m)"
proof (cases "m = 12")
  case True
  then show ?thesis
    by (simp add: day_number_def days_in_month_def days_before_year_Suc days_before_month_values)
next
  case False
  then have "m div 12 = 0" "m mod 12 = m" "(m - 1) div 12 = 0" "(m - 1) mod 12 = m - 1" using assms by simp_all
  then show ?thesis by (simp add: day_number_def days_in_month_def)
qed

lemma days_in_month_range:
  assumes "1 \<le> m" "m \<le> 12"
  shows "28 \<le> days_in_month y m" "days_in_month y m \<le> 31"
  using assms by (cases rule: month_cases; simp add: days_in_month_def days_before_month_values)+

lemma date_in_range:
  assumes "1 \<le> y" "y \<le> 10 ^ 9" "valid_date y m d" "0 \<le> s" "s < 86400"
  shows "in_range (day_number y m d * 86400 + s)"
proof -
  have n: "- 719162 \<le> day_number y m d" "day_number y m d \<le> 366 * (y + 1)"
    using year_of_bounds [of "day_number y m d"] date_day_number(1) [OF assms(3)]
      days_before_year_bounds [of y] days_before_year_bounds [of "y + 1"] assms(1) by (simp_all add: epoch_days_def)
  show ?thesis using n assms(2,4,5) by (intro in_range_bound) simp_all
qed

lemma lastDayOfMonth_eq:
  assumes "1 \<le> y" "y \<le> 10 ^ 9" "1 \<le> m" "m \<le> 12"
  shows "lastDayOfMonth y m = days_in_month y m"
proof -
  have v: "valid_date y m (days_in_month y m)" using assms(3,4) days_in_month_range [OF assms(3,4), of y]
    by (simp add: valid_date_def)
  have "go_Date y (m + 1) 0 0 0 0 0 = go_Date y m (days_in_month y m) 0 0 0 0"
    by (simp add: go_Date_def day_number_last [OF assms(3,4)])
  then show ?thesis
    unfolding lastDayOfMonth_def using go_Date_parts(3) [OF v, of 0 0 0 0] date_in_range [OF assms(1,2) v, of 0]
    by (simp add: second_def)
qed

text \<open>Months counted from year 0.\<close>

definition month_index :: "go_time \<Rightarrow> int" where
  "month_index t = Year t * 12 + (Month t - 1)"

lemma month_range: "1 \<le> Month t" "Month t \<le> 12" "1 \<le> Day t" "Day t \<le> days_in_month (Year t) (Month t)"
  using date_valid [of "day_index t"] by (simp_all add: valid_date_def Month_def Day_def Year_def)

lemma month_index_unique:
  assumes "month_index t = y * 12 + (m - 1)" "1 \<le> m" "m \<le> 12"
  shows "Year t = y" "Month t = m"
proof -
  have e: "Year t * 12 + (Month t - 1) = y * 12 + (m - 1)" using assms(1) by (simp add: month_index_def)
  then show "Year t = y" using month_range(1,2) [of t] assms(2,3) by linarith
  then show "Month t = m" using e by simp
qed

lemma next_month_parts:
  assumes "1 \<le> Year t" "Year t \<le> 10 ^ 8" "1 \<le> j" "j \<le> 1000000" "1 \<le> target" "target \<le> 31"
  shows "month_index (next_month target j t) = month_index t + j"
    "Day (next_month target j t) = min target (days_in_month (Year (next_month target j t)) (Month (next_month target j t)))"
    "Hour (next_month target j t) = Hour t \<and> Minute (next_month target j t) = Minute t \<and> Second (next_month target j t) = Second t"
    "Year t \<le> Year (next_month target j t)"
proof -
  let ?m = "Month t + j"
  have m: "1 \<le> ?m" "?m < 2 ^ 63" "- (2 ^ 63) \<le> ?m" using month_range [of t] assms(3,4) by simp_all
  have w: "sint (word_of_int ?m :: 64 word) = ?m"
    unfolding sint_sbintrunc' using m by (subst signed_take_bit_int_eq_self) simp_all
  define y where "y = Year t + (?m - 1) div 12"
  define mo where "mo = (?m - 1) mod 12 + 1"
  have mo: "1 \<le> mo" "mo \<le> 12" using pos_mod_bound [of 12 "?m - 1"] by (simp_all add: mo_def)
  have "(?m - 1) div 12 \<le> (12 + 1000000) div 12" using month_range [of t] assms(4) by (intro zdiv_mono1) simp_all
  moreover have "0 \<le> (?m - 1) div 12" using m(1) by (simp add: pos_imp_zdiv_nonneg_iff)
  ultimately have y: "1 \<le> y" "y \<le> 10 ^ 9" "Year t \<le> y" using assms(1,2) by (simp_all add: y_def)
  have last: "lastDayOfMonth y mo = days_in_month y mo" by (rule lastDayOfMonth_eq [OF y(1,2) mo])
  let ?d = "min target (days_in_month y mo)"
  have v: "valid_date y mo ?d"
    using mo days_in_month_range [OF mo, of y] assms(5,6) by (auto simp: valid_date_def)
  have n: "next_month target j t = go_Date y mo ?d (Hour t) (Minute t) (Second t) 0"
    unfolding next_month_def w carry_months_eq [OF m(1)] y_def [symmetric] mo_def [symmetric] Let_def prod.case last
    by (simp add: min_def)
  have s: "0 \<le> Hour t * 3600 + Minute t * 60 + Second t" "Hour t * 3600 + Minute t * 60 + Second t < 86400"
    using clock_range [of t] by linarith+
  note parts = go_Date_parts [OF v clock_range(1-6) [of t], of 0]
  have r: "in_range (day_number y mo ?d * 86400 + Hour t * 3600 + Minute t * 60 + Second t)"
    using date_in_range [OF y(1,2) v s] by (simp add: algebra_simps)
  have p: "Year (next_month target j t) = y" "Month (next_month target j t) = mo" "Day (next_month target j t) = ?d"
    unfolding n using parts r by (simp_all add: second_def)
  have "(?m - 1) div 12 * 12 + (?m - 1) mod 12 = ?m - 1" by simp
  then show "month_index (next_month target j t) = month_index t + j"
    by (simp add: month_index_def p y_def mo_def algebra_simps)
  show "Day (next_month target j t) = min target (days_in_month (Year (next_month target j t)) (Month (next_month target j t)))"
    by (simp add: p)
  show "Year t \<le> Year (next_month target j t)" using y p by simp
  show "Hour (next_month target j t) = Hour t \<and> Minute (next_month target j t) = Minute t \<and> Second (next_month target j t) = Second t"
    unfolding n using go_Date_clock [OF v clock_range(1-6) [of t], of 0] r by (simp add: second_def)
qed

lemma next_month_iterate:
  assumes "sane p start" "k \<le> 1000"
  shows "month_index ((next_month (Day start) (rp_Interval p) ^^ k) start) = month_index start + int k * rp_Interval p"
    "k > 0 \<longrightarrow> Day ((next_month (Day start) (rp_Interval p) ^^ k) start) =
       min (Day start) (days_in_month (Year ((next_month (Day start) (rp_Interval p) ^^ k) start))
         (Month ((next_month (Day start) (rp_Interval p) ^^ k) start)))"
    "Hour ((next_month (Day start) (rp_Interval p) ^^ k) start) = Hour start \<and>
     Minute ((next_month (Day start) (rp_Interval p) ^^ k) start) = Minute start \<and>
     Second ((next_month (Day start) (rp_Interval p) ^^ k) start) = Second start"
    "1 \<le> Year ((next_month (Day start) (rp_Interval p) ^^ k) start)"
  using assms(2)
proof (induction k)
  case 0
  {
    case 1 show ?case by simp
  next
    case 2 show ?case by simp
  next
    case 3 show ?case by simp
  next
    case 4 show ?case using assms(1) by (simp add: sane_def)
  }
next
  case (Suc k)
  let ?t = "(next_month (Day start) (rp_Interval p) ^^ k) start"
  have k: "k \<le> 1000" if "Suc k \<le> 1000" using that by simp
  have s: "1 \<le> rp_Interval p" "rp_Interval p \<le> 1000000" "1 \<le> Year start" "Year start \<le> 1000000"
    using assms(1) by (simp_all add: sane_def)
  have d: "1 \<le> Day start" "Day start \<le> 31"
    using month_range [of start] days_in_month_range(2) [of "Month start" "Year start"] by linarith+
  have y: "Year ?t \<le> 10 ^ 8" if "Suc k \<le> 1000"
  proof -
    have "int k * rp_Interval p \<le> 1000 * 1000000" using s that by (intro mult_mono) simp_all
    then have "month_index ?t \<le> month_index start + 1000 * 1000000" using Suc(1) [OF k [OF that]] by simp
    then show ?thesis using month_range [of ?t] month_range [of start] s(4) by (simp add: month_index_def)
  qed
  note n = next_month_parts [of ?t "rp_Interval p" "Day start", OF Suc(4) [OF k] y s(1,2) d]
  {
    case 1 then show ?case using n(1) Suc(1) [OF k] by (simp add: algebra_simps)
  next
    case 2 then show ?case using n(2) by simp
  next
    case 3 then show ?case using n(3) Suc(3) [OF k] by simp
  next
    case 4 then show ?case using n(4) Suc(4) [OF k] by simp
  }
qed

section \<open>Weeks\<close>

lemma first_week_parts:
  assumes "sane p start"
  shows "first_week start = start - Weekday start * day_ns - Nanosecond start"
proof -
  let ?ws = "start + - Weekday start * day_ns"
  have w: "0 \<le> Weekday start" "Weekday start \<le> 6" using pos_mod_bound [of 7 "day_index start + 4"] by (simp_all add: Weekday_def)
  have a: "AddDate start 0 0 (- Weekday start) = ?ws"
    by (rule AddDate_days, rule sane_in_range [OF assms]) (use w in simp)
  have r: "in_range (?ws div second)" by (rule sane_in_range [OF assms]) (use w in simp)
  have i: "day_index ?ws = day_index start - Weekday start"
    unfolding day_index_def by (simp add: day_ns_def second_def)
  let ?s = "Hour start * 3600 + Minute start * 60 + Second start"
  have e: "?ws = (day_index ?ws * 86400 + ?s) * second + Nanosecond start"
    using time_parts [of start] unfolding i by (simp add: day_ns_def algebra_simps)
  then have "?ws = second * (day_index ?ws * 86400 + ?s) + Nanosecond start" by (metis mult.commute)
  then have "?ws div second = day_index ?ws * 86400 + ?s"
    by (rule int_div_pos_eq) (simp_all add: clock_range)
  then have v: "wrap_seconds (day_index ?ws * 86400 + ?s) = day_index ?ws * 86400 + ?s" using r wrap_in_range by simp
  have "first_week start = wrap_seconds (day_index ?ws * 86400 + ?s) * second"
    unfolding first_week_def a Let_def go_Date_def
    by (simp add: Year_def Month_def Day_def day_number_date algebra_simps)
  then show ?thesis using e v by simp
qed

text \<open>A day of week \<open>k\<close> of a rule, as the loops reach it.\<close>

lemma week_day:
  assumes "sane p start" "0 \<le> n" "n \<le> 4 * 10 ^ 9" "0 \<le> w" "w \<le> 7 * rp_Interval p + 6"
  shows "AddDate (first_week start + n * day_ns) 0 0 w = first_week start + (n + w) * day_ns"
proof -
  let ?k = "n + w - Weekday start"
  have w: "0 \<le> Weekday start" "Weekday start \<le> 6" using pos_mod_bound [of 7 "day_index start + 4"] by (simp_all add: Weekday_def)
  have "(start + ?k * day_ns) mod second = Nanosecond start"
    by (simp add: Nanosecond_def day_ns_def mod_add_right_eq [symmetric] mult.assoc [symmetric])
  moreover have "first_week start + n * day_ns + w * day_ns = start + ?k * day_ns - Nanosecond start"
    by (simp add: first_week_parts [OF assms(1)] algebra_simps)
  ultimately have d: "(first_week start + n * day_ns + w * day_ns) div second = (start + ?k * day_ns) div second"
    by (metis minus_mod_eq_mult_div nonzero_mult_div_cancel_left second_def zero_neq_numeral)
  have "in_range ((start + ?k * day_ns) div second)"
    by (rule sane_in_range [OF assms(1)]) (use assms w in \<open>auto simp: sane_def\<close>)
  then show ?thesis using AddDate_days [of "first_week start + n * day_ns" w] d by (simp add: algebra_simps)
qed

text \<open>The instants of a rule with BYDAY.\<close>

definition listed :: "recurrence_pattern \<Rightarrow> go_time \<Rightarrow> go_time \<Rightarrow> bool" where
  "listed p start t \<longleftrightarrow> start \<le> t \<and> (\<exists>n. \<exists>d \<in> set (rp_ByDay p).
     t = first_week start + (7 * n + weekday_of_code d) * day_ns)"

lemma weekday_of_code_range: "0 \<le> weekday_of_code d" "weekday_of_code d \<le> 6"
  by (auto simp: weekday_of_code_def dayToWeekday_def split: option.splits if_splits)

lemma day_loop_listed:
  assumes "sane p start" "0 \<le> n" "7 * n \<le> 4 * 10 ^ 9" "set days \<subseteq> set (rp_ByDay p)" "\<forall>t \<in> set instances. listed p start t"
    "weekStart = first_week start + (7 * n) * day_ns"
  shows "case day_loop limit start end weekStart days added instances a of
      Inl l \<Rightarrow> \<forall>t \<in> set l. listed p start t
    | Inr (_, l, _) \<Rightarrow> \<forall>t \<in> set l. listed p start t"
  using assms(4,5)
proof (induction days arbitrary: added instances a)
  case (Cons dayCode days)
  let ?d = "AddDate weekStart 0 0 (weekday_of_code dayCode)"
  have d: "?d = first_week start + (7 * n + weekday_of_code dayCode) * day_ns"
    unfolding assms(6)
    by (rule week_day [OF assms(1)]) (use assms(1-3) weekday_of_code_range [of dayCode] in \<open>auto simp: sane_def\<close>)
  then have "listed p start ?d" if "\<not> ?d < start" using that Cons.prems(1) by (auto simp: listed_def)
  then have "\<forall>t \<in> set (instances @ [?d]). listed p start t" if "\<not> ?d < start" using that Cons.prems(2) by simp
  moreover have "set days \<subseteq> set (rp_ByDay p)" using Cons.prems(1) by simp
  ultimately show ?case using Cons.IH Cons.prems(2) by (simp add: Let_def)
qed simp

lemma week_loop_listed:
  assumes "sane p start" "0 \<le> n" "n \<le> 500" "\<forall>t \<in> set instances. listed p start t"
    "week_loop fuel p start end (first_week start + (7 * (n * rp_Interval p)) * day_ns) n added instances = Some l"
  shows "\<forall>t \<in> set l. listed p start t"
  using assms(2-5)
proof (induction fuel arbitrary: n added instances)
  case (Suc fuel)
  let ?n = "n * rp_Interval p"
  have i: "1 \<le> rp_Interval p" "rp_Interval p \<le> 1000000" using assms(1) by (simp_all add: sane_def)
  have n: "0 \<le> ?n" "7 * ?n \<le> 4 * 10 ^ 9"
  proof -
    show "0 \<le> ?n" using Suc.prems(1) i by simp
    have "?n \<le> 500 * 1000000" using Suc.prems(1,2) i by (intro mult_mono) simp_all
    then show "7 * ?n \<le> 4 * 10 ^ 9" by simp
  qed
  note d = day_loop_listed [OF assms(1) n(1) n(2) order_refl Suc.prems(3) refl, of "rp_Count p" "end" added False]
  have w: "AddDate (first_week start + 7 * ?n * day_ns) 0 0 (7 * rp_Interval p) =
      first_week start + (7 * ((n + 1) * rp_Interval p)) * day_ns"
    using week_day [OF assms(1), of "7 * ?n" "7 * rp_Interval p"] n i by (simp add: algebra_simps)
  show ?case
  proof (cases "day_loop (rp_Count p) start end (first_week start + 7 * ?n * day_ns) (rp_ByDay p) added instances False")
    case (Inl l')
    then show ?thesis using d Suc.prems(4) by simp
  next
    case (Inr x)
    obtain m l' a where x: "x = (m, l', a)" by (cases x)
    have l: "\<forall>t \<in> set l'. listed p start t" using d Inr x by simp
    have "\<forall>t \<in> set l. listed p start t"
      if "week_loop fuel p start end (first_week start + (7 * ((n + 1) * rp_Interval p)) * day_ns) (n + 1) m l' = Some l" "n + 1 \<le> 500"
      using Suc.IH [OF _ that(2) l that(1)] Suc.prems(1) by simp
    then show ?thesis using Suc.prems(4) l by (auto simp: Inr x w Let_def split: if_splits)
  qed
qed simp

lemma listed_day:
  assumes "sane p start" "listed p start t"
  shows "\<exists>d \<in> set (rp_ByDay p). Weekday t = weekday_of_code d" "Nanosecond t = 0" "start \<le> t"
proof -
  obtain n d where nd: "d \<in> set (rp_ByDay p)" "t = first_week start + (7 * n + weekday_of_code d) * day_ns"
    using assms(2) by (auto simp: listed_def)
  let ?k = "7 * n + weekday_of_code d - Weekday start"
  have t: "t = (start - Nanosecond start) + ?k * day_ns"
    unfolding nd(2) first_week_parts [OF assms(1)] by (simp add: algebra_simps)
  have "(start - Nanosecond start) mod second = 0" by (simp add: Nanosecond_def)
  then show "Nanosecond t = 0" unfolding t Nanosecond_def
    by (simp add: day_ns_def mod_add_right_eq [symmetric] mult.assoc [symmetric])
  have "day_index (start - Nanosecond start) = day_index start"
  proof -
    have "start - Nanosecond start = day_ns * day_index start + (Hour start * 3600 + Minute start * 60 + Second start) * second"
      using time_parts [of start] by (simp add: day_ns_def algebra_simps)
    moreover have "(Hour start * 3600 + Minute start * 60 + Second start) * second < day_ns"
      using clock_range [of start] by (simp add: day_ns_def second_def)
    ultimately show ?thesis
      unfolding day_index_def [of "start - Nanosecond start"] using clock_range [of start]
      by (intro int_div_pos_eq) (simp_all add: second_def)
  qed
  then have "day_index t = day_index start + ?k"
    unfolding t day_index_def by (simp add: day_ns_def second_def)
  then have "day_index t + 4 = day_index start + 4 - Weekday start + weekday_of_code d + 7 * n" by simp
  then have "Weekday t = (day_index start + 4 - Weekday start + weekday_of_code d + 7 * n) mod 7"
    by (simp only: Weekday_def [of t])
  also have "\<dots> = weekday_of_code d"
  proof -
    have "day_index start + 4 - Weekday start = 7 * ((day_index start + 4) div 7)"
      by (simp add: Weekday_def minus_mod_eq_mult_div)
    then show ?thesis using weekday_of_code_range [of d]
      by (intro int_mod_pos_eq [where q = "(day_index start + 4) div 7 + n"]) simp_all
  qed
  finally show "\<exists>d \<in> set (rp_ByDay p). Weekday t = weekday_of_code d" using nd(1) by blast
  show "start \<le> t" using assms(2) by (simp add: listed_def)
qed

section \<open>The parser\<close>

definition pattern_ok :: "recurrence_pattern \<Rightarrow> bool" where
  "pattern_ok p \<longleftrightarrow> rp_Freq p \<in> {'''', ''DAILY'', ''WEEKLY'', ''MONTHLY''} \<and> 0 \<le> rp_Count p \<and> rp_Count p < 2 ^ 63 \<and>
     1 \<le> rp_Interval p \<and> rp_Interval p < 2 ^ 63 \<and> list_all isValidDayCode (rp_ByDay p)"

lemma Atoi_range: "Atoi s = Some n \<Longrightarrow> - (2 ^ 63) \<le> n \<and> n < 2 ^ 63"
  by (auto simp: Atoi_def Let_def split: prod.splits if_splits)

text \<open>What one part can change.\<close>

lemma parse_part_shape:
  assumes "parse_part p part = Inr p'"
  obtains "p' = p" | f where "f \<in> {''DAILY'', ''WEEKLY'', ''MONTHLY''}" "p' = p\<lparr>rp_Freq := f\<rparr>"
    | n where "1 \<le> n" "n < 2 ^ 63" "p' = p\<lparr>rp_Count := n\<rparr>" | t where "p' = p\<lparr>rp_Until := Some t\<rparr>"
    | ds where "list_all isValidDayCode ds" "p' = p\<lparr>rp_ByDay := rp_ByDay p @ ds\<rparr>"
    | n where "1 \<le> n" "n < 2 ^ 63" "p' = p\<lparr>rp_Interval := n\<rparr>"
proof -
  obtain k v where kv: "SplitN2 (CHR ''='') part = (k, v)" by fastforce
  show thesis
  proof (cases v)
    case None
    then show thesis using assms that(1) by (simp add: parse_part_def kv)
  next
    case (Some w)
    define key where "key = ToUpper (TrimSpace k)"
    define val where "val = TrimSpace w"
    note d = assms [unfolded parse_part_def kv Some Let_def prod.case option.case, folded key_def val_def]
    consider "key = ''FREQ''" | "key = ''COUNT''" | "key = ''UNTIL''" | "key = ''BYDAY''" | "key = ''INTERVAL''"
      | "key \<notin> {''FREQ'', ''COUNT'', ''UNTIL'', ''BYDAY'', ''INTERVAL''}" by blast
    then show thesis
    proof cases
      case 1
      then show thesis using d that(2) by (simp split: if_splits)
    next
      case 2
      then obtain n where "Atoi val = Some n" "1 \<le> n" "p' = p\<lparr>rp_Count := n\<rparr>"
        using d by (simp split: option.splits if_splits)
      then show thesis using that(3) Atoi_range by blast
    next
      case 3
      then obtain t where "p' = p\<lparr>rp_Until := Some t\<rparr>" using d by (auto split: option.splits)
      then show thesis by (rule that(4))
    next
      case 4
      then have "p' = p\<lparr>rp_ByDay := rp_ByDay p @ filter isValidDayCode (map (\<lambda>d. ToUpper (TrimSpace d)) (Split (CHR '','') val))\<rparr>"
        using d by simp
      then show thesis by (intro that(5)) (simp_all add: list_all_iff)
    next
      case 5
      then obtain n where "Atoi val = Some n" "1 \<le> n" "p' = p\<lparr>rp_Interval := n\<rparr>"
        using d by (simp split: option.splits if_splits)
      then show thesis using that(6) Atoi_range by blast
    next
      case 6
      then show thesis using d that(1) by simp
    qed
  qed
qed

lemma parse_part_ok: "parse_part p part = Inr p' \<Longrightarrow> pattern_ok p \<Longrightarrow> pattern_ok p'"
  by (erule parse_part_shape) (auto simp: pattern_ok_def)

lemma parse_parts_ok: "parse_parts p parts = Inr p' \<Longrightarrow> pattern_ok p \<Longrightarrow> pattern_ok p'"
  by (induction p parts rule: parse_parts.induct) (auto split: sum.splits dest: parse_part_ok)

lemma parse_parts_append:
  "parse_parts p (xs @ ys) = (case parse_parts p xs of Inl e \<Rightarrow> Inl e | Inr q \<Rightarrow> parse_parts q ys)"
  by (induction p xs rule: parse_parts.induct) (simp_all split: sum.splits)

text \<open>
  What a text says of a key: the values of its parts with this key, in order. The last one counts, except
  that the days of all BYDAY parts are collected, and without one the field keeps its default.
\<close>

definition part_value :: "string \<Rightarrow> string \<Rightarrow> string option" where
  "part_value key part =
     (case SplitN2 (CHR ''='') part of
        (_, None) \<Rightarrow> None
      | (k, Some v) \<Rightarrow> if ToUpper (TrimSpace k) = key then Some (TrimSpace v) else None)"

definition part_values :: "string \<Rightarrow> string list \<Rightarrow> string list" where
  "part_values key parts = List.map_filter (part_value key) parts"

definition days_of :: "string \<Rightarrow> string list" where
  "days_of v = filter isValidDayCode (map (\<lambda>d. ToUpper (TrimSpace d)) (Split (CHR '','') v))"

definition last_read :: "string \<Rightarrow> string list \<Rightarrow> 'a \<Rightarrow> (string \<Rightarrow> 'a \<Rightarrow> bool) \<Rightarrow> 'a \<Rightarrow> bool" where
  "last_read key parts dflt reads x \<longleftrightarrow>
     (if part_values key parts = [] then x = dflt else reads (last (part_values key parts)) x)"

definition says :: "string list \<Rightarrow> recurrence_pattern \<Rightarrow> bool" where
  "says parts p \<longleftrightarrow>
     last_read ''FREQ'' parts '''' (\<lambda>v f. f = ToUpper v \<and> f \<in> {''DAILY'', ''WEEKLY'', ''MONTHLY''}) (rp_Freq p) \<and>
     last_read ''COUNT'' parts 0 (\<lambda>v n. Atoi v = Some n \<and> 1 \<le> n) (rp_Count p) \<and>
     last_read ''INTERVAL'' parts 1 (\<lambda>v n. Atoi v = Some n \<and> 1 \<le> n) (rp_Interval p) \<and>
     last_read ''UNTIL'' parts None (\<lambda>v t. t = parseICSDate v \<and> t \<noteq> None) (rp_Until p) \<and>
     rp_ByDay p = concat (map days_of (part_values ''BYDAY'' parts))"

lemma part_values_snoc:
  "part_values key (parts @ [x]) = part_values key parts @ (case part_value key x of None \<Rightarrow> [] | Some v \<Rightarrow> [v])"
  by (simp add: part_values_def map_filter_def split: option.split)

lemma last_read_snoc:
  "last_read key (parts @ [x]) d reads y \<longleftrightarrow>
    (case part_value key x of None \<Rightarrow> last_read key parts d reads y | Some v \<Rightarrow> reads v y)"
  by (simp add: last_read_def part_values_snoc split: option.split)

lemma parse_part_says:
  assumes "parse_part p x = Inr p'" "says parts p"
  shows "says (parts @ [x]) p'"
proof -
  obtain k v where kv: "SplitN2 (CHR ''='') x = (k, v)" by fastforce
  show ?thesis
  proof (cases v)
    case None
    then show ?thesis
      using assms by (simp add: parse_part_def kv says_def last_read_snoc part_values_snoc part_value_def)
  next
    case (Some w)
    define key where "key = ToUpper (TrimSpace k)"
    define val where "val = TrimSpace w"
    have pv: "part_value c x = (if key = c then Some val else None)" for c
      by (simp add: part_value_def kv Some key_def val_def)
    note d = assms(1) [unfolded parse_part_def kv Some Let_def prod.case option.case, folded key_def val_def]
    note s = assms(2) [unfolded says_def]
    consider "key = ''FREQ''" | "key = ''COUNT''" | "key = ''UNTIL''" | "key = ''BYDAY''" | "key = ''INTERVAL''"
      | "key \<notin> {''FREQ'', ''COUNT'', ''UNTIL'', ''BYDAY'', ''INTERVAL''}" by blast
    then show ?thesis
      by cases (use d s in \<open>auto simp: says_def last_read_snoc part_values_snoc pv days_of_def split: option.splits if_splits\<close>)
  qed
qed

lemma parse_parts_says: "parse_parts new_pattern parts = Inr p \<Longrightarrow> says parts p"
proof (induction parts arbitrary: p rule: rev_induct)
  case Nil
  then show ?case by (auto simp: says_def last_read_def part_values_def map_filter_def new_pattern_def)
next
  case (snoc x xs)
  then obtain q where "parse_parts new_pattern xs = Inr q" "parse_part q x = Inr p"
    by (auto simp: parse_parts_append split: sum.splits)
  then show ?case using parse_part_says snoc.IH by blast
qed

text \<open>The text of a rule.\<close>

definition rule_text :: "recurrence_pattern \<Rightarrow> string" where
  "rule_text p = join (CHR '';'')
     ([''FREQ='' @ rp_Freq p, ''INTERVAL='' @ dec_nat (nat (rp_Interval p))] @
      (if rp_Count p > 0 then [''COUNT='' @ dec_nat (nat (rp_Count p))] else []) @
      (if rp_ByDay p \<noteq> [] then [''BYDAY='' @ join (CHR '','') (rp_ByDay p)] else []))"

lemma dec_nat_plain:
  "\<forall>c \<in> set (dec_nat n). \<not> is_space c" "CHR '';'' \<notin> set (dec_nat n)" "TrimSpace (dec_nat n) = dec_nat n"
proof -
  show s: "\<forall>c \<in> set (dec_nat n). \<not> is_space c" using dec_nat_digits by blast
  show "CHR '';'' \<notin> set (dec_nat n)" using dec_nat_digits [of "CHR '';''" n] by (auto simp: digit_value_def)
  show "TrimSpace (dec_nat n) = dec_nat n" by (rule TrimSpace_no_space [OF s])
qed

lemma day_code_cases: "isValidDayCode d \<Longrightarrow> d \<in> {''SU'', ''MO'', ''TU'', ''WE'', ''TH'', ''FR'', ''SA''}"
  by (auto simp: isValidDayCode_def dayToWeekday_def split: if_splits)

lemma day_code_plain:
  assumes "isValidDayCode d"
  shows "ToUpper (TrimSpace d) = d" "CHR '','' \<notin> set d" "CHR '';'' \<notin> set d" "\<forall>c \<in> set d. \<not> is_space c" "d \<noteq> []"
  using day_code_cases [OF assms]
  by (auto simp: ToUpper_def upper_char_def TrimSpace_def is_space_def)

lemma join_chars: "set (join c xs) \<subseteq> insert c (\<Union>x \<in> set xs. set x)"
  by (induction c xs rule: join.induct) auto

lemma join_no_space: "\<not> is_space c \<Longrightarrow> \<forall>x \<in> set xs. \<forall>c \<in> set x. \<not> is_space c \<Longrightarrow> \<forall>c \<in> set (join c xs). \<not> is_space c"
  using join_chars [of c xs] by blast

lemma parse_part_keys:
  "SplitN2 (CHR ''='') (''FREQ='' @ v) = (''FREQ'', Some v)" "SplitN2 (CHR ''='') (''INTERVAL='' @ v) = (''INTERVAL'', Some v)"
  "SplitN2 (CHR ''='') (''COUNT='' @ v) = (''COUNT'', Some v)" "SplitN2 (CHR ''='') (''BYDAY='' @ v) = (''BYDAY'', Some v)"
  by (simp_all add: SplitN2_def)

lemma keys_plain:
  "ToUpper (TrimSpace ''FREQ'') = ''FREQ''" "ToUpper (TrimSpace ''INTERVAL'') = ''INTERVAL''"
  "ToUpper (TrimSpace ''COUNT'') = ''COUNT''" "ToUpper (TrimSpace ''BYDAY'') = ''BYDAY''"
  by (simp_all add: ToUpper_def upper_char_def TrimSpace_def is_space_def)

lemma freq_plain:
  "f \<in> {''DAILY'', ''WEEKLY'', ''MONTHLY''} \<Longrightarrow> ToUpper (TrimSpace f) = f \<and> CHR '';'' \<notin> set f \<and> (\<forall>c \<in> set f. \<not> is_space c)"
  by (auto simp: ToUpper_def upper_char_def TrimSpace_def is_space_def)

lemma parse_number_part:
  assumes "1 \<le> n" "n < 2 ^ 63"
  shows "parse_part p (''INTERVAL='' @ dec_nat (nat n)) = Inr (p\<lparr>rp_Interval := n\<rparr>)"
    "parse_part p (''COUNT='' @ dec_nat (nat n)) = Inr (p\<lparr>rp_Count := n\<rparr>)"
proof -
  have "Atoi (dec_nat (nat n)) = Some n" using Atoi_dec_nat [of "nat n"] assms by simp
  then show "parse_part p (''INTERVAL='' @ dec_nat (nat n)) = Inr (p\<lparr>rp_Interval := n\<rparr>)"
    "parse_part p (''COUNT='' @ dec_nat (nat n)) = Inr (p\<lparr>rp_Count := n\<rparr>)"
    unfolding parse_part_def parse_part_keys using assms by (simp_all add: keys_plain dec_nat_plain)
qed

lemma parse_byday_part:
  assumes "list_all isValidDayCode ds" "ds \<noteq> []"
  shows "parse_part p (''BYDAY='' @ join (CHR '','') ds) = Inr (p\<lparr>rp_ByDay := rp_ByDay p @ ds\<rparr>)"
proof -
  have d: "\<forall>d \<in> set ds. isValidDayCode d" using assms(1) by (simp add: list_all_iff)
  have "\<forall>c \<in> set (join (CHR '','') ds). \<not> is_space c"
    using join_chars [of "CHR '',''" ds] day_code_plain(4) d by (fastforce simp: is_space_def)
  then have t: "TrimSpace (join (CHR '','') ds) = join (CHR '','') ds" by (rule TrimSpace_no_space)
  have "Split (CHR '','') (join (CHR '','') ds) = ds"
    using d day_code_plain(2) assms(2) by (intro Split_join) auto
  moreover have "map (\<lambda>d. ToUpper (TrimSpace d)) ds = ds" using d day_code_plain(1) by (simp add: map_idI)
  ultimately show ?thesis
    unfolding parse_part_def parse_part_keys using t d by (simp add: keys_plain)
qed

lemma ExpandInstances_bounded:
  assumes "1001 \<le> fuel"
  shows "\<exists>l. ExpandInstances fuel p start until = Some l \<and> length l \<le> 1000 \<and>
    (0 < rp_Count p \<longrightarrow> int (length l) \<le> rp_Count p) \<and> (\<forall>t \<in> set l. t \<le> effective_end p until)"
proof -
  have w: "\<exists>l. week_loop fuel p start (effective_end p until) (first_week start) 0 0 [] = Some l \<and>
      window (rp_Count p) (effective_end p until) l"
    by (rule week_loop_window) (use assms in \<open>simp_all add: window_def maxInstances_def\<close>)
  have "\<exists>l. ExpandInstances fuel p start until = Some l \<and> window (rp_Count p) (effective_end p until) l"
    using w by (auto simp: ExpandInstances_def Let_def step_loop_start [OF assms] window_takeWhile window_Nil)
  then show ?thesis by (simp add: window_def maxInstances_def)
qed

section \<open>Properties\<close>

text \<open>
  C22: the expansion of a rule always ends: for any rule, whether it came from the parser or not, any start and
  any window, the loop over days, weeks or months and the one over the weeks of BYDAY are left after at most 1001
  rounds, which the fuel counts; there are at most 1000 instants and at most COUNT of them, and none lies after the requested
  end or UNTIL. The bound is not on the time of a round: the loop that carries months into years inside a MONTHLY
  round (\<open>carry_months\<close>, total but not counted) takes one turn for every twelve months of INTERVAL.
\<close>

theorem ExpandInstances_terminates:
  assumes "1001 \<le> fuel"
  shows "\<exists>l. ExpandInstances fuel p start until = Some l \<and> length l \<le> 1000 \<and>
    (0 < rp_Count p \<longrightarrow> int (length l) \<le> rp_Count p) \<and> (\<forall>t \<in> set l. t \<le> effective_end p until)"
  by (rule ExpandInstances_bounded [OF assms])

definition ex_weekly :: recurrence_pattern where
  "ex_weekly = \<lparr>rp_Freq = ''WEEKLY'', rp_Count = 3, rp_Until = None, rp_ByDay = [''WE'', ''MO''], rp_Interval = 1\<rparr>"

theorem ExpandInstances_terminates_witness:
  "\<exists>l. ExpandInstances 1001 ex_weekly 0 (10 ^ 15) = Some l \<and> length l \<le> 3"
  using ExpandInstances_terminates [of 1001 ex_weekly 0 "10 ^ 15"] by (auto simp: ex_weekly_def)

text \<open>
  C38: a DAILY rule, and a WEEKLY rule without BYDAY, yield the start and then every INTERVAL days or weeks the
  same time of day, as many as COUNT (or 1000), up to the end of the window. The interval and the start are
  those of a sane rule: years 1 to a million.
\<close>

theorem daily_weekly_instances:
  assumes "sane p start" "1001 \<le> fuel"
    "rp_Freq p = ''DAILY'' \<and> step = rp_Interval p \<or> rp_Freq p = ''WEEKLY'' \<and> rp_ByDay p = [] \<and> step = 7 * rp_Interval p"
  shows "ExpandInstances fuel p start until =
    Some (takeWhile (\<lambda>t. t \<le> effective_end p until)
      (map (\<lambda>k. start + int k * step * day_ns) [0 ..< most_instances (rp_Count p)]))"
proof -
  have "1 \<le> step" "step \<le> 7 * rp_Interval p" using assms(1,3) by (auto simp: sane_def)
  then have m: "map (\<lambda>k. ((\<lambda>t. AddDate t 0 0 step) ^^ k) start) [0 ..< most_instances (rp_Count p)] =
      map (\<lambda>k. start + int k * step * day_ns) [0 ..< most_instances (rp_Count p)]"
    by (intro map_cong refl AddDate_iterate [OF assms(1)]) (simp_all add: most_instances_def maxInstances_def split: if_splits)
  have "ExpandInstances fuel p start until =
      step_loop fuel (\<lambda>t. AddDate t 0 0 step) (rp_Count p) (effective_end p until) 0 start []"
    using assms(3) by (auto simp: ExpandInstances_def)
  then show ?thesis unfolding step_loop_start [OF assms(2)] m .
qed

lemma epoch_year: "Year 0 = 1970"
  by (simp add: Year_def year_of_def day_index_def epoch_days_def Let_def)

theorem daily_weekly_instances_witness:
  "ExpandInstances 1001 (new_pattern\<lparr>rp_Freq := ''DAILY'', rp_Count := 2\<rparr>) 0 (10 ^ 15) = Some [0, day_ns]"
  using daily_weekly_instances [of "new_pattern\<lparr>rp_Freq := ''DAILY'', rp_Count := 2\<rparr>" 0 1001 1 "10 ^ 15"]
  by (simp add: sane_def new_pattern_def epoch_year most_instances_def maxInstances_def numeral_2_eq_2
      effective_end_def day_ns_def second_def)

text \<open>
  a MONTHLY rule yields the start and then, every INTERVAL months, the same day of the month and time of day;
  where the month is too short, its last day. The day is that of the start again in the next long month.
\<close>

theorem monthly_instances:
  assumes "sane p start" "1001 \<le> fuel" "rp_Freq p = ''MONTHLY''"
  shows "\<exists>l. ExpandInstances fuel p start until = Some l \<and>
    (\<forall>k < length l. month_index (l ! k) = month_index start + int k * rp_Interval p \<and>
       Day (l ! k) = min (Day start) (days_in_month (Year (l ! k)) (Month (l ! k))) \<and>
       Hour (l ! k) = Hour start \<and> Minute (l ! k) = Minute start \<and> Second (l ! k) = Second start)"
proof -
  let ?f = "next_month (Day start) (rp_Interval p)"
  let ?l = "takeWhile (\<lambda>t. t \<le> effective_end p until) (map (\<lambda>k. (?f ^^ k) start) [0 ..< most_instances (rp_Count p)])"
  have e: "ExpandInstances fuel p start until = Some ?l"
    using assms(3) by (simp add: ExpandInstances_def step_loop_start [OF assms(2)])
  have k: "k \<le> 1000" "?l ! k = (?f ^^ k) start" if "k < length ?l" for k
  proof -
    have "k < most_instances (rp_Count p)"
      using that length_takeWhile_le [of "\<lambda>t. t \<le> effective_end p until" "map (\<lambda>k. (?f ^^ k) start) [0 ..< most_instances (rp_Count p)]"]
      by simp
    then show "k \<le> 1000" "?l ! k = (?f ^^ k) start"
      using takeWhile_nth [OF that] by (simp_all add: most_instances_def maxInstances_def split: if_splits)
  qed
  have "Day ((?f ^^ k) start) = min (Day start) (days_in_month (Year ((?f ^^ k) start)) (Month ((?f ^^ k) start)))"
    if "k \<le> 1000" for k
    using next_month_iterate(2) [OF assms(1) that] month_range [of start] by (cases "k = 0") simp_all
  then have "\<forall>k < length ?l. month_index (?l ! k) = month_index start + int k * rp_Interval p \<and>
      Day (?l ! k) = min (Day start) (days_in_month (Year (?l ! k)) (Month (?l ! k))) \<and>
      Hour (?l ! k) = Hour start \<and> Minute (?l ! k) = Minute start \<and> Second (?l ! k) = Second start"
    using k next_month_iterate(1,3) [OF assms(1)] by metis
  then show ?thesis using e by blast
qed

theorem monthly_instances_witness:
  "\<exists>l. ExpandInstances 1001 (new_pattern\<lparr>rp_Freq := ''MONTHLY''\<rparr>) 0 (10 ^ 16) = Some l \<and>
     (\<forall>k < length l. month_index (l ! k) = month_index 0 + int k)"
  using monthly_instances [of "new_pattern\<lparr>rp_Freq := ''MONTHLY''\<rparr>" 0 1001 "10 ^ 16"]
  by (auto simp: sane_def new_pattern_def epoch_year)

text \<open>
  with BYDAY every instant falls on a listed day, not before the start, at the start's time of day in whole
  seconds. So the start itself is not an instant when its weekday is not listed, nor when it has a fraction of
  a second.
\<close>

theorem byday_instances:
  assumes "sane p start" "1001 \<le> fuel" "rp_Freq p = ''WEEKLY''" "rp_ByDay p \<noteq> []"
  shows "\<exists>l. ExpandInstances fuel p start until = Some l \<and>
    (\<forall>t \<in> set l. Weekday t \<in> weekday_of_code ` set (rp_ByDay p) \<and> Nanosecond t = 0 \<and> start \<le> t) \<and>
    (Weekday start \<notin> weekday_of_code ` set (rp_ByDay p) \<or> Nanosecond start \<noteq> 0 \<longrightarrow> start \<notin> set l)"
proof -
  obtain l where l: "week_loop fuel p start (effective_end p until) (first_week start) 0 0 [] = Some l"
    using week_loop_window [of p "effective_end p until" "[]" 0 0 fuel start "first_week start"] assms(2)
    by (auto simp: window_def maxInstances_def)
  then have "\<forall>t \<in> set l. listed p start t"
    using week_loop_listed [OF assms(1), of 0 "[]" fuel "effective_end p until" 0 l] by simp
  then have "\<forall>t \<in> set l. Weekday t \<in> weekday_of_code ` set (rp_ByDay p) \<and> Nanosecond t = 0 \<and> start \<le> t"
    using listed_day [OF assms(1)] by blast
  moreover have "ExpandInstances fuel p start until = Some l" using l assms(3,4) by (simp add: ExpandInstances_def)
  ultimately show ?thesis by blast
qed

text \<open>The epoch is a Thursday.\<close>

theorem byday_instances_witness:
  "\<exists>l. ExpandInstances 1001 ex_weekly 0 (10 ^ 15) = Some l \<and> 0 \<notin> set l"
  using byday_instances [of ex_weekly 0 1001 "10 ^ 15"]
  by (simp add: sane_def ex_weekly_def epoch_year) (auto simp: Weekday_def day_index_def weekday_of_code_def dayToWeekday_def)

text \<open>
  C39: what the parser accepts is what the text says, and is well formed, whatever the text: the frequency is that of the last
  FREQ part, in upper case, and one of the three; COUNT and INTERVAL are the numbers in the last parts for them and positive, or 0
  (unlimited) and 1 if there is none, and they fit an int; UNTIL is the date of the last such part or absent; and BYDAY holds the
  valid day codes of all BYDAY parts, in order.
\<close>

theorem ParseRRULE_ok:
  assumes "ParseRRULE rule = Inr p"
  shows "says (Split (CHR '';'') (TrimSpace rule)) p \<and> pattern_ok p \<and> rp_Freq p \<in> {''DAILY'', ''WEEKLY'', ''MONTHLY''}"
proof -
  have "pattern_ok new_pattern" by (simp add: pattern_ok_def new_pattern_def)
  moreover have parts: "parse_parts new_pattern (Split (CHR '';'') (TrimSpace rule)) = Inr p" "rp_Freq p \<noteq> []"
    using assms by (auto simp: ParseRRULE_def Let_def split: if_splits sum.splits)
  ultimately have "pattern_ok p" using parse_parts_ok by blast
  then show ?thesis using parse_parts_says [OF parts(1)] parts(2) by (auto simp: pattern_ok_def)
qed

theorem ParseRRULE_ok_witness:
  "says [''count=9'', '' Freq = daily'', ''COUNT=3''] (new_pattern\<lparr>rp_Freq := ''DAILY'', rp_Count := 3\<rparr>)"
proof -
  have r: "ParseRRULE ''count=9; Freq = daily;COUNT=3'' = Inr (new_pattern\<lparr>rp_Freq := ''DAILY'', rp_Count := 3\<rparr>)"
    "Split (CHR '';'') (TrimSpace ''count=9; Freq = daily;COUNT=3'') = [''count=9'', '' Freq = daily'', ''COUNT=3'']"
    by code_simp+
  show ?thesis using conjunct1 [OF ParseRRULE_ok [OF r(1)]] unfolding r(2) .
qed

text \<open>
  every well-formed rule without UNTIL has a text that the parser reads back as that rule.
\<close>

theorem ParseRRULE_roundtrip:
  assumes "pattern_ok p" "rp_Freq p \<noteq> ''''" "rp_Until p = None"
  shows "ParseRRULE (rule_text p) = Inr p"
proof -
  have f: "rp_Freq p \<in> {''DAILY'', ''WEEKLY'', ''MONTHLY''}" using assms(1,2) by (auto simp: pattern_ok_def)
  let ?parts = "[''FREQ='' @ rp_Freq p, ''INTERVAL='' @ dec_nat (nat (rp_Interval p))] @
      (if rp_Count p > 0 then [''COUNT='' @ dec_nat (nat (rp_Count p))] else []) @
      (if rp_ByDay p \<noteq> [] then [''BYDAY='' @ join (CHR '','') (rp_ByDay p)] else [])"
  have d: "\<forall>d \<in> set (rp_ByDay p). isValidDayCode d" using assms(1) by (simp add: pattern_ok_def list_all_iff)
  have days: "CHR '';'' \<notin> set (join (CHR '','') (rp_ByDay p))" "\<forall>c \<in> set (join (CHR '','') (rp_ByDay p)). \<not> is_space c"
    using join_chars [of "CHR '',''" "rp_ByDay p"] day_code_plain(3,4) d by (fastforce simp: is_space_def)+
  have plain: "\<forall>x \<in> set ?parts. CHR '';'' \<notin> set x \<and> (\<forall>c \<in> set x. \<not> is_space c)"
    using freq_plain [OF f] dec_nat_plain days by (auto simp: is_space_def)
  then have "\<forall>c \<in> set (join (CHR '';'') ?parts). \<not> is_space c"
    by (intro join_no_space) (simp add: is_space_def, blast)
  then have t: "TrimSpace (rule_text p) = rule_text p" unfolding rule_text_def by (rule TrimSpace_no_space)
  have s: "Split (CHR '';'') (rule_text p) = ?parts"
    unfolding rule_text_def by (rule Split_join) (use plain in auto)
  have n: "rule_text p \<noteq> []" by (auto simp: rule_text_def)
  have freq: "parse_part q (''FREQ='' @ rp_Freq p) = Inr (q\<lparr>rp_Freq := rp_Freq p\<rparr>)" for q
    unfolding parse_part_def parse_part_keys using freq_plain [OF f] f TrimSpace_no_space [of "rp_Freq p"]
    by (simp add: keys_plain Let_def)
  have i: "1 \<le> rp_Interval p" "rp_Interval p < 2 ^ 63" "0 \<le> rp_Count p" "rp_Count p < 2 ^ 63"
    using assms(1) by (simp_all add: pattern_ok_def)
  have "parse_parts new_pattern ?parts = Inr p"
  proof -
    have c: "parse_part q (''COUNT='' @ dec_nat (nat (rp_Count p))) = Inr (q\<lparr>rp_Count := rp_Count p\<rparr>)" if "rp_Count p > 0" for q
      by (rule parse_number_part(2)) (use that i in auto)
    have b: "parse_part q (''BYDAY='' @ join (CHR '','') (rp_ByDay p)) = Inr (q\<lparr>rp_ByDay := rp_ByDay q @ rp_ByDay p\<rparr>)"
      if "rp_ByDay p \<noteq> []" for q
      by (rule parse_byday_part) (use that d in \<open>auto simp: list_all_iff\<close>)
    let ?q = "\<lambda>n ds. \<lparr>rp_Freq = rp_Freq p, rp_Count = n, rp_Until = None, rp_ByDay = ds, rp_Interval = rp_Interval p\<rparr>"
    have 1: "parse_parts new_pattern [''FREQ='' @ rp_Freq p, ''INTERVAL='' @ dec_nat (nat (rp_Interval p))] = Inr (?q 0 [])"
      by (simp only: parse_parts.simps freq parse_number_part(1) [OF i(1,2)] sum.case) (simp add: new_pattern_def)
    have 2: "parse_parts (?q 0 []) (if rp_Count p > 0 then [''COUNT='' @ dec_nat (nat (rp_Count p))] else []) = Inr (?q (rp_Count p) [])"
    proof (cases "rp_Count p > 0")
      case True
      then show ?thesis by (simp only: if_True parse_parts.simps c [OF True] sum.case) simp
    next
      case False
      then have "rp_Count p = 0" using i(3) by simp
      then show ?thesis by simp
    qed
    have 3: "parse_parts (?q (rp_Count p) []) (if rp_ByDay p \<noteq> [] then [''BYDAY='' @ join (CHR '','') (rp_ByDay p)] else []) =
        Inr (?q (rp_Count p) (rp_ByDay p))"
    proof (cases "rp_ByDay p = []")
      case True
      then show ?thesis by simp
    next
      case False
      then show ?thesis by (simp only: if_True not_False_eq_True parse_parts.simps b [OF False] sum.case) simp
    qed
    show ?thesis using assms(3) by (simp only: parse_parts_append 1 2 3 sum.case) simp
  qed
  then show ?thesis using t s n assms(2) by (simp add: ParseRRULE_def)
qed

theorem ParseRRULE_roundtrip_witness:
  "ParseRRULE (rule_text ex_weekly) = Inr ex_weekly"
  by (rule ParseRRULE_roundtrip)
    (simp_all add: ex_weekly_def pattern_ok_def isValidDayCode_def dayToWeekday_def)

end
