(* ===== verification/WebText.thy ===== *)
theory WebText
  imports RecurrenceRules "HOL-Library.Signed_Division"
begin

text \<open>
  The text functions of the web frontend, src/internal/web/: the canonical name of a group, the escapes
  of the CSV, XML and iCalendar outputs (handlers.go), the recurrence rule built from the form of a new
  event, the constant-time comparison and the path filter (middleware.go), the field check of server.go. Go's
  package strings on bytes: white space and letters are the ASCII ones. First the functions, then reference
  readers of the three output formats, then what the escapes guarantee against them.
\<close>

section \<open>Package strings\<close>

definition lower_char :: "char \<Rightarrow> char" where
  "lower_char c = (let n = of_char c :: nat in if 65 \<le> n \<and> n \<le> 90 then char_of (n + 32) else c)"

definition ToLower :: "string \<Rightarrow> string" where
  "ToLower s = map lower_char s"

text \<open>ReplaceAll for a text that is not empty: the first argument counts the characters of a match still to be skipped.\<close>

fun replace_from :: "nat \<Rightarrow> string \<Rightarrow> string \<Rightarrow> string \<Rightarrow> string" where
  "replace_from k old new [] = []"
| "replace_from (Suc k) old new (c # s) = replace_from k old new s"
| "replace_from 0 old new (c # s) =
     (if take (length old) (c # s) = old then new @ replace_from (length old - 1) old new s
      else c # replace_from 0 old new s)"

definition ReplaceAll :: "string \<Rightarrow> string \<Rightarrow> string \<Rightarrow> string" where
  "ReplaceAll s old new = replace_from 0 old new s"

definition ContainsAny :: "string \<Rightarrow> string \<Rightarrow> bool" where
  "ContainsAny s chars \<longleftrightarrow> list_ex (\<lambda>c. c \<in> set chars) s"

text \<open>Trim for a cutset of one character.\<close>

definition TrimChar :: "char \<Rightarrow> string \<Rightarrow> string" where
  "TrimChar c s = rev (dropWhile (\<lambda>x. x = c) (rev (dropWhile (\<lambda>x. x = c) s)))"

section \<open>middleware.go and server.go\<close>

text \<open>The loop of subtleEqual: the accumulated byte is the bitwise OR of the differences.\<close>

fun xor_all :: "byte \<Rightarrow> string \<Rightarrow> string \<Rightarrow> byte" where
  "xor_all acc (a # as) (b # bs) = xor_all (or acc (xor (of_char a) (of_char b))) as bs"
| "xor_all acc _ _ = acc"

definition subtleEqual :: "string \<Rightarrow> string \<Rightarrow> bool" where
  "subtleEqual a b \<longleftrightarrow> (if length a \<noteq> length b then False else xor_all 0 a b = 0)"

definition sanitizePath :: "string \<Rightarrow> string" where
  "sanitizePath s = ReplaceAll (ReplaceAll (TrimSpace s) ''..'' '''') ''//'' ''/''"

datatype length_error = TooShort string nat nat | TooLong string nat nat

definition validateString :: "string \<Rightarrow> string \<Rightarrow> nat \<Rightarrow> nat \<Rightarrow> length_error option" where
  "validateString name value minLen maxLen =
     (let n = length value
      in if n < minLen then Some (TooShort name n minLen)
         else if n > maxLen then Some (TooLong name n maxLen)
         else None)"

definition pad_zero :: "nat \<Rightarrow> nat \<Rightarrow> string" where
  "pad_zero w n = replicate (w - length (dec_nat n)) CHR ''0'' @ dec_nat n"

definition formatCents :: "u64 \<Rightarrow> string" where
  "formatCents cents = CHR ''$'' # dec_nat (unat (cents div 100)) @ CHR ''.'' # pad_zero 2 (unat (cents mod 100))"

text \<open>The products are of ints of 64 bits: they wrap.\<close>

definition percentInt :: "64 word \<Rightarrow> 64 word \<Rightarrow> int" where
  "percentInt n d =
     (if sint d \<le> 0 then 0
      else let pct = sint (n * 100) sdiv sint d in if pct > 100 then 100 else pct)"

section \<open>The canonical name of a group\<close>

definition alnum :: "char \<Rightarrow> bool" where
  "alnum c \<longleftrightarrow> (let n = of_char c :: nat in (97 \<le> n \<and> n \<le> 122) \<or> (48 \<le> n \<and> n \<le> 57))"

text \<open>The loop over the characters, with prevHyphen.\<close>

fun hyphenate :: "bool \<Rightarrow> string \<Rightarrow> string" where
  "hyphenate prevHyphen [] = []"
| "hyphenate prevHyphen (c # s) =
     (if alnum c then c # hyphenate False s
      else if \<not> prevHyphen then CHR ''-'' # hyphenate True s
      else hyphenate prevHyphen s)"

definition canonicalizeName :: "string \<Rightarrow> string" where
  "canonicalizeName name =
     (let result = TrimChar (CHR ''-'') (hyphenate False (ToLower (TrimSpace name)))
      in if result = '''' then ''group'' else result)"

section \<open>Escapes\<close>

definition xmlEscape :: "string \<Rightarrow> string" where
  "xmlEscape s =
     ReplaceAll (ReplaceAll (ReplaceAll (ReplaceAll (ReplaceAll s ''&'' ''&amp;'') ''<'' ''&lt;'') ''>'' ''&gt;'')
       [CHR 0x22] ''&quot;'') [CHR 0x27] ''&apos;''"

definition icsEscape :: "string \<Rightarrow> string" where
  "icsEscape s =
     ReplaceAll (ReplaceAll (ReplaceAll (ReplaceAll s [CHR 0x5C] [CHR 0x5C, CHR 0x5C]) '';'' [CHR 0x5C, CHR '';''])
       '','' [CHR 0x5C, CHR '','']) [CHR 10] [CHR 0x5C, CHR ''n'']"

definition csvEscape :: "string \<Rightarrow> string" where
  "csvEscape s =
     (if ContainsAny s [CHR '','', CHR 0x22, CHR 10, CHR 13]
      then [CHR 0x22] @ ReplaceAll s [CHR 0x22] [CHR 0x22, CHR 0x22] @ [CHR 0x22] else s)"

section \<open>The recurrence rule of a new event\<close>

text \<open>
  The number strconv.Atoi returns beside its error, which buildRRULE ignores: 0 for a text that is not a number, the
  end of the range for a number outside it, even if the text goes on with other characters.
\<close>

fun ParseUint_value :: "nat \<Rightarrow> string \<Rightarrow> nat" where
  "ParseUint_value n [] = n"
| "ParseUint_value n (c # s) =
     (if digit_value c \<ge> 10 then 0
      else if n * 10 + digit_value c \<ge> 2 ^ 64 then 2 ^ 64 - 1
      else ParseUint_value (n * 10 + digit_value c) s)"

definition Atoi_value :: "string \<Rightarrow> int" where
  "Atoi_value s =
     (let (neg, ds) = (case s of [] \<Rightarrow> (False, [])
                       | c # r \<Rightarrow> if c = CHR ''-'' then (True, r) else if c = CHR ''+'' then (False, r) else (False, s));
          n = int (ParseUint_value 0 ds)
      in if ds = [] then 0 else if neg then - min n (2 ^ 63) else min n (2 ^ 63 - 1))"

text \<open>The layout 2006-01-02.\<close>

definition parse_dashed_date :: "string \<Rightarrow> ((int \<times> int \<times> int) \<times> string) option" where
  "parse_dashed_date s =
     (if length s < 4 \<or> \<not> list_all (\<lambda>c. digit_value c < 10) (take 4 s) then None
      else
        (case drop 4 s of
           [] \<Rightarrow> None
         | c # s1 \<Rightarrow>
             if c \<noteq> CHR ''-'' then None
             else
               (case getnum True s1 of
                  None \<Rightarrow> None
                | Some (month, s2) \<Rightarrow>
                    if month \<le> 0 \<or> 12 < month then None
                    else
                      (case s2 of
                         [] \<Rightarrow> None
                       | c # s3 \<Rightarrow>
                           if c \<noteq> CHR ''-'' then None
                           else map_option (\<lambda>(day, s4). ((number_of (take 4 s), month, day), s4)) (getnum True s3)))))"

definition parse_form_date :: "string \<Rightarrow> go_time option" where
  "parse_form_date s =
     (case parse_dashed_date s of None \<Rightarrow> None | Some (date, rest) \<Rightarrow> finish_parse date (0, 0, 0, 0) rest)"

text \<open>The layout 2006-01-02T15:04; the hour may have one digit.\<close>

definition parse_form_time :: "string \<Rightarrow> go_time option" where
  "parse_form_time s =
     (case parse_dashed_date s of
        None \<Rightarrow> None
      | Some (date, s1) \<Rightarrow>
          (case s1 of
             [] \<Rightarrow> None
           | c # s2 \<Rightarrow>
               if c \<noteq> CHR ''T'' then None
               else
                 (case getnum False s2 of
                    None \<Rightarrow> None
                  | Some (hour, s3) \<Rightarrow>
                      if hour \<ge> 24 then None
                      else
                        (case s3 of
                           [] \<Rightarrow> None
                         | c # s4 \<Rightarrow>
                             if c \<noteq> CHR '':'' then None
                             else
                               (case getnum True s4 of
                                  None \<Rightarrow> None
                                | Some (mi, s5) \<Rightarrow>
                                    if mi \<ge> 60 then None else finish_parse date (hour, mi, 0, 0) s5)))))"

text \<open>The year of Format: four digits at least, a sign before a negative one.\<close>

definition format_year :: "int \<Rightarrow> string" where
  "format_year y = (if y < 0 then CHR ''-'' # pad_zero 4 (nat (- y)) else pad_zero 4 (nat y))"

text \<open>Format with the layouts 20060102 and 20060102T150405Z.\<close>

definition format_date :: "go_time \<Rightarrow> string" where
  "format_date t = format_year (Year t) @ pad_zero 2 (nat (Month t)) @ pad_zero 2 (nat (Day t))"

definition format_stamp :: "go_time \<Rightarrow> string" where
  "format_stamp t = format_date t @ CHR ''T'' #
     (pad_zero 2 (nat (Hour t)) @ pad_zero 2 (nat (Minute t)) @ pad_zero 2 (nat (Second t))) @ ''Z''"

definition weekdayToDayCode :: "int \<Rightarrow> string" where
  "weekdayToDayCode wd =
     (if wd = 0 then ''SU'' else if wd = 1 then ''MO'' else if wd = 2 then ''TU'' else if wd = 3 then ''WE''
      else if wd = 4 then ''TH'' else if wd = 5 then ''FR'' else if wd = 6 then ''SA'' else '''')"

definition buildRRULE :: "string \<Rightarrow> go_time \<Rightarrow> string \<Rightarrow> string \<Rightarrow> string" where
  "buildRRULE recurrenceType startsAt countStr endDate =
     (let kind = ToLower recurrenceType;
          freq = (if kind = ''daily'' then ''DAILY'' else if kind = ''weekly'' then ''WEEKLY''
                  else if kind = ''monthly'' then ''MONTHLY'' else '''');
          byDay = (if kind = ''weekly'' then weekdayToDayCode (Weekday startsAt) else '''');
          count = (if countStr \<noteq> '''' then Atoi_value countStr else 0)
      in if freq = '''' then ''''
         else join (CHR '';'')
           ([''FREQ='' @ freq] @
            (if byDay \<noteq> '''' then [''BYDAY='' @ byDay] else []) @
            (if count > 0 then [''COUNT='' @ dec_nat (nat count)]
             else if endDate \<noteq> '''' then
               (case parse_form_date endDate of Some t \<Rightarrow> [''UNTIL='' @ format_date t] | None \<Rightarrow> [])
             else [])))"

section \<open>Reference readers\<close>

text \<open>
  XML: the five predefined entities; the first argument skips the rest of a reference that was read. A text without
  a markup character and with these references only is character data that an XML reader decodes this way.
\<close>

definition xml_entities :: "(string \<times> char) list" where
  "xml_entities = [(''&amp;'', CHR ''&''), (''&lt;'', CHR ''<''), (''&gt;'', CHR ''>''), (''&quot;'', CHR 0x22),
     (''&apos;'', CHR 0x27)]"

fun xml_decode :: "nat \<Rightarrow> string \<Rightarrow> string" where
  "xml_decode k [] = []"
| "xml_decode (Suc k) (c # s) = xml_decode k s"
| "xml_decode 0 (c # s) =
     (case find (\<lambda>(e, _). take (length e) (c # s) = e) xml_entities of
        Some (e, d) \<Rightarrow> d # xml_decode (length e - 1) s
      | None \<Rightarrow> c # xml_decode 0 s)"

text \<open>iCalendar: RFC 5545, section 3.3.11; a backslash escapes the next character, n and N are a line break.\<close>

fun ics_decode :: "string \<Rightarrow> string" where
  "ics_decode [] = []"
| "ics_decode [c] = [c]"
| "ics_decode (c # d # s) =
     (if c = CHR 0x5C then (if d = CHR ''n'' \<or> d = CHR ''N'' then CHR 10 else d) # ics_decode s
      else c # ics_decode (d # s))"

text \<open>
  CSV: RFC 4180 with line feeds. The state is whether the field is quoted; the result is the fields of the first
  record, the field under way first, and the records after it.
\<close>

datatype csv_state = FieldStart | Plain | Quoted | QuoteSeen

fun csv_read :: "csv_state \<Rightarrow> string \<Rightarrow> string \<times> string list \<times> string list list" where
  "csv_read st [] = ([], [], [])"
| "csv_read st (c # s) =
     (if st = Quoted then
        (if c = CHR 0x22 then csv_read QuoteSeen s
         else let (f, fs, rs) = csv_read Quoted s in (c # f, fs, rs))
      else if c = CHR 0x22 \<and> st = FieldStart then csv_read Quoted s
      else if c = CHR 0x22 \<and> st = QuoteSeen then let (f, fs, rs) = csv_read Quoted s in (c # f, fs, rs)
      else if c = CHR '','' then let (f, fs, rs) = csv_read FieldStart s in ([], f # fs, rs)
      else if c = CHR 10 then let (f, fs, rs) = csv_read FieldStart s in ([], [], (f # fs) # rs)
      else let (f, fs, rs) = csv_read Plain s in (c # f, fs, rs))"

definition csv_records :: "string \<Rightarrow> string list list" where
  "csv_records s = (case csv_read FieldStart s of (f, fs, rs) \<Rightarrow> butlast ((f # fs) # rs))"

section \<open>ReplaceAll\<close>

lemma ReplaceAll_char: "ReplaceAll s [a] new = concat (map (\<lambda>c. if c = a then new else [c]) s)"
proof -
  have "replace_from 0 [a] new s = concat (map (\<lambda>c. if c = a then new else [c]) s)"
    by (induction s) auto
  then show ?thesis by (simp add: ReplaceAll_def)
qed

lemma concat_map_twice: "concat (map f (concat (map g s))) = concat (map (\<lambda>c. concat (map f (g c))) s)"
  by (induction s) auto

lemma subtleEqual_iff: "subtleEqual a b \<longleftrightarrow> a = b"
proof -
  have or0: "or (x :: byte) y = 0 \<longleftrightarrow> x = 0 \<and> y = 0" for x y by (rule or_eq_0_iff)
  have xor0: "xor (of_char c :: byte) (of_char d) = 0 \<longleftrightarrow> c = d" for c d :: char
  proof -
    have "xor (x :: byte) y = 0 \<longleftrightarrow> x = y" for x y by (metis xor_self_eq xor.right_neutral xor.assoc)
    moreover have "(of_char c :: byte) = of_char d \<longleftrightarrow> c = d"
      using bytes_of_inject [of "[c]" "[d]"] by (simp add: bytes_of_def del: bytes_of_inject)
    ultimately show ?thesis by simp
  qed
  have "length a = length b \<Longrightarrow> xor_all acc a b = 0 \<longleftrightarrow> acc = 0 \<and> a = b" for acc
    by (induction acc a b rule: xor_all.induct) (auto simp: or0 xor0)
  then show ?thesis by (auto simp: subtleEqual_def)
qed

section \<open>The escapes\<close>

definition xml_char :: "char \<Rightarrow> string" where
  "xml_char c =
     (if c = CHR ''&'' then ''&amp;'' else if c = CHR ''<'' then ''&lt;'' else if c = CHR ''>'' then ''&gt;''
      else if c = CHR 0x22 then ''&quot;'' else if c = CHR 0x27 then ''&apos;'' else [c])"

lemma xmlEscape_chars: "xmlEscape s = concat (map xml_char s)"
  unfolding xmlEscape_def ReplaceAll_char concat_map_twice
  by (intro arg_cong [where f = concat] map_cong refl) (simp add: xml_char_def)

definition ics_char :: "char \<Rightarrow> string" where
  "ics_char c =
     (if c = CHR 0x5C then [CHR 0x5C, CHR 0x5C] else if c = CHR '';'' then [CHR 0x5C, CHR '';'']
      else if c = CHR '','' then [CHR 0x5C, CHR '',''] else if c = CHR 10 then [CHR 0x5C, CHR ''n''] else [c])"

lemma icsEscape_chars: "icsEscape s = concat (map ics_char s)"
  unfolding icsEscape_def ReplaceAll_char concat_map_twice
  by (intro arg_cong [where f = concat] map_cong refl) (simp add: ics_char_def)

lemma xml_decode_char: "xml_decode 0 (xml_char c @ s) = c # xml_decode 0 s"
proof -
  consider "c = CHR ''&''" | "c = CHR ''<''" | "c = CHR ''>''" | "c = CHR 0x22" | "c = CHR 0x27"
    | "c \<noteq> CHR ''&''" "c \<noteq> CHR ''<''" "c \<noteq> CHR ''>''" "c \<noteq> CHR 0x22" "c \<noteq> CHR 0x27" by blast
  then show ?thesis by cases (simp_all add: xml_char_def xml_entities_def numeral_eq_Suc)
qed

lemma xml_decode_escape: "xml_decode 0 (xmlEscape s @ t) = s @ xml_decode 0 t"
  unfolding xmlEscape_chars by (induction s) (simp_all add: xml_decode_char)

lemma xmlEscape_plain: "c \<in> {CHR ''<'', CHR ''>'', CHR 0x22, CHR 0x27} \<Longrightarrow> c \<notin> set (xmlEscape s)"
  unfolding xmlEscape_chars by (auto simp: xml_char_def split: if_splits)

lemma ics_decode_char: "ics_decode (ics_char c @ s) = c # ics_decode s"
  by (cases s) (simp_all add: ics_char_def)

lemma ics_decode_escape: "ics_decode (icsEscape s) = s"
proof -
  have "ics_decode (concat (map ics_char s) @ t) = s @ ics_decode t" for t
    by (induction s) (simp_all add: ics_decode_char)
  from this [of "[]"] show ?thesis by (simp add: icsEscape_chars)
qed

lemma icsEscape_line: "CHR 10 \<notin> set (icsEscape s)" "CHR 13 \<in> set (icsEscape s) \<longleftrightarrow> CHR 13 \<in> set s"
  unfolding icsEscape_chars by (auto simp: ics_char_def split: if_splits)

section \<open>CSV\<close>

lemma csv_quoted:
  "csv_read Quoted (ReplaceAll s [CHR 0x22] [CHR 0x22, CHR 0x22] @ CHR 0x22 # t) =
     (let (f, fs, rs) = csv_read QuoteSeen t in (s @ f, fs, rs))"
  unfolding ReplaceAll_char by (induction s) (auto simp: Let_def split: prod.splits)

lemma csv_plain:
  "\<not> ContainsAny s [CHR '','', CHR 0x22, CHR 10, CHR 13] \<Longrightarrow> st = Plain \<or> st = FieldStart \<Longrightarrow> hd t = CHR '','' \<or> hd t = CHR 10 \<Longrightarrow>
   t \<noteq> [] \<Longrightarrow> csv_read st (s @ t) = (let (f, fs, rs) = csv_read FieldStart t in (s @ f, fs, rs))"
  by (induction s arbitrary: st) (cases t; auto simp: ContainsAny_def Let_def split: prod.splits)+

lemma csv_separator:
  "c = CHR '','' \<or> c = CHR 10 \<Longrightarrow> csv_read QuoteSeen (c # t) = csv_read FieldStart (c # t)"
  by auto

lemma csv_field:
  assumes "c = CHR '','' \<or> c = CHR 10"
  shows "csv_read FieldStart (csvEscape s @ c # t) = (let (f, fs, rs) = csv_read FieldStart (c # t) in (s @ f, fs, rs))"
proof (cases "ContainsAny s [CHR '','', CHR 0x22, CHR 10, CHR 13]")
  case True
  then show ?thesis
    using csv_quoted [of s "c # t"] csv_separator [OF assms] by (simp add: csvEscape_def)
next
  case False
  then show ?thesis
    using csv_plain [OF False, of FieldStart "c # t"] assms by (simp add: csvEscape_def)
qed

lemma csv_comma:
  "csv_read FieldStart (csvEscape s @ CHR '','' # t) = (let (f, fs, rs) = csv_read FieldStart t in (s, f # fs, rs))"
  by (subst csv_field) (auto simp: Let_def split: prod.splits)

lemma csv_newline:
  "csv_read FieldStart (csvEscape s @ CHR 10 # t) = (let (f, fs, rs) = csv_read FieldStart t in (s, [], (f # fs) # rs))"
  by (subst csv_field) (auto simp: Let_def split: prod.splits)

section \<open>Canonical names\<close>

text \<open>What a canonical name looks like: lower-case letters and digits, with single hyphens between them.\<close>

definition slug :: "string \<Rightarrow> bool" where
  "slug s \<longleftrightarrow> s \<noteq> [] \<and> hd s \<noteq> CHR ''-'' \<and> last s \<noteq> CHR ''-'' \<and> (\<forall>c \<in> set s. alnum c \<or> c = CHR ''-'') \<and>
     successively (\<lambda>a b. \<not> (a = CHR ''-'' \<and> b = CHR ''-'')) s"

abbreviation single_hyphens :: "string \<Rightarrow> bool" where
  "single_hyphens \<equiv> successively (\<lambda>a b. \<not> (a = CHR ''-'' \<and> b = CHR ''-''))"

lemma alnum_hyphen: "\<not> alnum CHR ''-''"
  by (simp add: alnum_def)

lemma hyphenate_chars: "c \<in> set (hyphenate p s) \<Longrightarrow> alnum c \<or> c = CHR ''-''"
  by (induction p s rule: hyphenate.induct) (auto split: if_splits)

lemma hyphenate_single: "single_hyphens (if p then CHR ''-'' # hyphenate p s else hyphenate p s)"
proof (induction p s rule: hyphenate.induct)
  case (2 p c s)
  then show ?case using alnum_hyphen by (cases p) (auto simp: successively_Cons split: if_splits)
qed simp

lemma hyphenate_id:
  "\<forall>c \<in> set s. alnum c \<or> c = CHR ''-'' \<Longrightarrow> single_hyphens (if p then CHR ''-'' # s else s) \<Longrightarrow> hyphenate p s = s"
proof (induction p s rule: hyphenate.induct)
  case (2 p c s)
  then show ?case using alnum_hyphen by (cases p) (auto simp: successively_Cons)
qed simp

lemma TrimChar_slug:
  assumes "\<forall>c \<in> set s. alnum c \<or> c = CHR ''-''" "single_hyphens s" "TrimChar (CHR ''-'') s \<noteq> []"
  shows "slug (TrimChar (CHR ''-'') s)"
proof -
  let ?h = "\<lambda>x. x = CHR ''-''"
  define d where "d = dropWhile ?h s"
  have t: "TrimChar (CHR ''-'') s = rev (dropWhile ?h (rev d))" by (simp add: TrimChar_def d_def)
  have s: "s = takeWhile ?h s @ d" by (simp add: d_def)
  have d: "d = TrimChar (CHR ''-'') s @ rev (takeWhile ?h (rev d))"
    unfolding t by (metis rev_append rev_rev_ident takeWhile_dropWhile_id)
  have "d \<noteq> []" using assms(3) t by auto
  have "hd (TrimChar (CHR ''-'') s) = hd d" using d assms(3) by (metis hd_append2)
  also have "\<dots> \<noteq> CHR ''-''" using \<open>d \<noteq> []\<close> hd_dropWhile [of ?h s] by (simp add: d_def)
  finally have "hd (TrimChar (CHR ''-'') s) \<noteq> CHR ''-''" .
  moreover have "last (TrimChar (CHR ''-'') s) \<noteq> CHR ''-''"
    using assms(3) hd_dropWhile [of ?h "rev d"] by (simp add: t last_rev)
  moreover have "single_hyphens d" using assms(2) s by (metis successively_append_iff)
  then have "single_hyphens (TrimChar (CHR ''-'') s)" using d by (metis successively_append_iff)
  moreover have "set (TrimChar (CHR ''-'') s) \<subseteq> set s" using s d by (metis Un_upper1 Un_upper2 order_trans set_append)
  ultimately show ?thesis using assms(1,3) by (auto simp: slug_def)
qed

lemma slug_plain:
  assumes "slug s"
  shows "TrimSpace s = s" "ToLower s = s" "hyphenate False s = s" "TrimChar (CHR ''-'') s = s"
proof -
  have c: "\<forall>c \<in> set s. alnum c \<or> c = CHR ''-''" and n: "s \<noteq> []" "hd s \<noteq> CHR ''-''" "last s \<noteq> CHR ''-''"
    using assms by (simp_all add: slug_def)
  show "TrimSpace s = s" by (rule TrimSpace_no_space) (use c in \<open>auto simp: is_space_def alnum_def Let_def\<close>)
  have "lower_char c = c" if "alnum c \<or> c = CHR ''-''" for c using that by (auto simp: lower_char_def alnum_def Let_def)
  then show "ToLower s = s" using c by (simp add: ToLower_def map_idI)
  show "hyphenate False s = s" by (rule hyphenate_id) (use assms in \<open>simp_all add: slug_def\<close>)
  have "dropWhile (\<lambda>x. x = CHR ''-'') s = s" using n(1,2) by (cases s) auto
  moreover have "dropWhile (\<lambda>x. x = CHR ''-'') (rev s) = rev s" using n(1,3) by (cases s rule: rev_cases) auto
  ultimately show "TrimChar (CHR ''-'') s = s" by (simp add: TrimChar_def)
qed

lemma slug_group: "slug ''group''"
  by (simp add: slug_def alnum_def)

lemma canonical_slug: "slug (canonicalizeName name)"
  using TrimChar_slug [of "hyphenate False (ToLower (TrimSpace name))"] hyphenate_chars
    hyphenate_single [of False "ToLower (TrimSpace name)"] slug_group
  by (auto simp: canonicalizeName_def Let_def)

lemma canonical_of_slug: "slug s \<Longrightarrow> canonicalizeName s = s"
  using slug_plain [of s] by (auto simp: canonicalizeName_def slug_def)

section \<open>The built rule\<close>

fun fixed_digits :: "nat \<Rightarrow> nat \<Rightarrow> string" where
  "fixed_digits 0 n = []"
| "fixed_digits (Suc w) n = fixed_digits w (n div 10) @ [decdigit (n mod 10)]"

lemma fixed_digits_0: "fixed_digits w 0 = replicate w CHR ''0''"
  by (induction w) (simp_all add: decdigit_def replicate_append_same)

lemma pad_zero_fixed: "0 < w \<Longrightarrow> n < 10 ^ w \<Longrightarrow> pad_zero w n = fixed_digits w n"
proof (induction w arbitrary: n)
  case (Suc w)
  show ?case
  proof (cases "n < 10")
    case True
    then show ?thesis
      by (simp add: pad_zero_def dec_nat.simps [of n] fixed_digits_0)
  next
    case False
    then have "0 < w" using Suc.prems by (cases w) simp_all
    moreover have "n div 10 < 10 ^ w" using Suc.prems by (simp add: less_mult_imp_div_less mult.commute)
    ultimately have "pad_zero w (n div 10) = fixed_digits w (n div 10)" by (rule Suc.IH)
    then show ?thesis
      using False by (simp add: pad_zero_def dec_nat.simps [of n])
  qed
qed simp

lemma fixed_digits_values:
  "fixed_digits 2 n = [decdigit (n div 10 mod 10), decdigit (n mod 10)]"
  "fixed_digits 4 n = [decdigit (n div 1000 mod 10), decdigit (n div 100 mod 10), decdigit (n div 10 mod 10), decdigit (n mod 10)]"
proof -
  have "(2 :: nat) = Suc (Suc 0)" "(4 :: nat) = Suc (Suc (Suc (Suc 0)))" by simp_all
  then show "fixed_digits 2 n = [decdigit (n div 10 mod 10), decdigit (n mod 10)]"
    "fixed_digits 4 n = [decdigit (n div 1000 mod 10), decdigit (n div 100 mod 10), decdigit (n div 10 mod 10), decdigit (n mod 10)]"
    by (simp_all only: fixed_digits.simps append.simps div_mult2_eq [symmetric]) simp_all
qed

lemma digits_2: "n < 100 \<Longrightarrow> pad_zero 2 n = [decdigit (n div 10), decdigit (n mod 10)]"
  by (simp add: pad_zero_fixed fixed_digits_values)

lemma digits_4:
  "n < 10000 \<Longrightarrow> pad_zero 4 n = [decdigit (n div 1000), decdigit (n div 100 mod 10), decdigit (n div 10 mod 10), decdigit (n mod 10)]"
  by (simp add: pad_zero_fixed fixed_digits_values)

text \<open>A date of the form, printed for UNTIL, is read back as the same instant.\<close>

lemma getnum_range: "getnum fixed s = Some (n, r) \<Longrightarrow> 0 \<le> n \<and> n \<le> 99"
  by (auto simp: getnum_def split: list.splits if_splits)

lemma number_of_bound: "list_all (\<lambda>c. digit_value c < 10) ds \<Longrightarrow> 0 \<le> number_of ds \<and> number_of ds < 10 ^ length ds"
proof (induction ds rule: rev_induct)
  case (snoc c ds)
  have n: "number_of (ds @ [c]) = number_of ds * 10 + int (digit_value c)" by (simp add: number_of_def)
  from snoc have "int (digit_value c) \<le> 9" "0 \<le> number_of ds" "number_of ds < 10 ^ length ds" by simp_all
  then show ?case unfolding n by simp
qed (simp add: number_of_def)

lemma parse_dashed_date_range:
  assumes "parse_dashed_date s = Some ((y, m, d), r)"
  shows "0 \<le> y" "y \<le> 9999" "1 \<le> m" "m \<le> 12"
proof -
  have "list_all (\<lambda>c. digit_value c < 10) (take 4 s)" "length (take 4 s) = 4" "y = number_of (take 4 s)"
    "1 \<le> m" "m \<le> 12"
    using assms by (auto simp: parse_dashed_date_def split: if_splits list.splits option.splits prod.splits)
  then show "0 \<le> y" "y \<le> 9999" "1 \<le> m" "m \<le> 12" using number_of_bound [of "take 4 s"] by auto
qed

lemma date_in_range_0:
  assumes "0 \<le> y" "y \<le> 9999" "valid_date y m d" "0 \<le> s" "s < 86400"
  shows "in_range (day_number y m d * 86400 + s)"
proof -
  have "days_before_year 0 \<le> days_before_year y" "days_before_year (y + 1) < days_before_year 10001"
    using days_before_year_less [of 0 y] days_before_year_less [of "y + 1" 10001] assms(1,2) by fastforce+
  then have "days_before_year 0 \<le> day_number y m d + epoch_days" "day_number y m d + epoch_days < days_before_year 10001"
    using year_of_bounds [of "day_number y m d"] date_day_number(1) [OF assms(3)] by simp_all
  then have "- (10 ^ 9) \<le> day_number y m d" "day_number y m d \<le> 10 ^ 9"
    by (simp_all add: days_before_year_def epoch_days_def)
  then show ?thesis using assms(2,4,5) by (intro in_range_bound) simp_all
qed

lemma parse_form_date_shape:
  assumes "parse_form_date s = Some t"
  obtains y m d where "t = go_Date y m d 0 0 0 0" "0 \<le> y" "y \<le> 9999" "valid_date y m d"
proof -
  obtain y m d r where p: "parse_dashed_date s = Some ((y, m, d), r)" and f: "finish_parse (y, m, d) (0, 0, 0, 0) r = Some t"
    using assms by (auto simp: parse_form_date_def split: option.splits prod.splits)
  then show thesis
    using parse_dashed_date_range [OF p] by (intro that [of y m d]) (auto simp: finish_parse_def valid_date_def split: if_splits)
qed

lemma getnum_digits: "a < 10 \<Longrightarrow> b < 10 \<Longrightarrow> getnum f (decdigit a # decdigit b # s) = Some (int (a * 10 + b), s)"
  by (simp add: getnum_def digit_value_decdigit)

lemma getnum_pad: "n < 100 \<Longrightarrow> getnum f (pad_zero 2 n @ s) = Some (int n, s)"
  by (simp add: digits_2 getnum_digits)

lemma year_digits:
  assumes "n < 10000"
  shows "length (pad_zero 4 n) = 4" "list_all (\<lambda>c. digit_value c < 10) (pad_zero 4 n)" "number_of (pad_zero 4 n) = int n"
proof -
  have "n div 1000 < 10" using assms by simp
  then show "length (pad_zero 4 n) = 4" "list_all (\<lambda>c. digit_value c < 10) (pad_zero 4 n)"
    using assms by (simp_all add: digits_4 digit_value_decdigit)
  have d: "n div 1000 = n div 10 div 10 div 10" "n div 100 = n div 10 div 10" by (simp_all add: div_mult2_eq [symmetric])
  have "((n div 1000 * 10 + n div 100 mod 10) * 10 + n div 10 mod 10) * 10 + n mod 10 = n"
    by (simp only: d div_mult_mod_eq)
  moreover have "number_of (pad_zero 4 n) =
      int (((n div 1000 * 10 + n div 100 mod 10) * 10 + n div 10 mod 10) * 10 + n mod 10)"
    using \<open>n div 1000 < 10\<close> by (simp only: digits_4 [OF assms] number_of_def foldl.simps digit_value_decdigit(1)) simp
  ultimately show "number_of (pad_zero 4 n) = int n" by simp
qed

lemma format_date_parses:
  assumes "t = go_Date y m d 0 0 0 0" "0 \<le> y" "y \<le> 9999" "valid_date y m d"
  shows "parse_layout_date (format_date t) = Some t" "length (format_date t) = 8"
    "\<forall>c \<in> set (format_date t). digit_value c < 10"
proof -
  have r: "in_range (day_number y m d * 86400 + 0 * 3600 + 0 * 60 + 0)" using date_in_range_0 [OF assms(2-4), of 0] by simp
  have v: "1 \<le> m" "m \<le> 12" "1 \<le> d" "d \<le> days_in_month y m" using assms(4) by (simp_all add: valid_date_def)
  have d31: "d \<le> 31" using days_in_month_range(2) [OF v(1,2), of y] v(4) by simp
  have f: "format_date t = pad_zero 4 (nat y) @ pad_zero 2 (nat m) @ pad_zero 2 (nat d)"
    using go_Date_parts [OF assms(4) _ _ _ _ _ _ _ _ r] assms(2) by (simp add: format_date_def format_year_def assms(1) second_def)
  have y: "nat y < 10000" "nat m < 100" "nat d < 100" using assms(2,3) v d31 by simp_all
  note yd = year_digits [OF y(1)]
  show "length (format_date t) = 8" using yd(1) y by (simp add: f digits_2)
  show "\<forall>c \<in> set (format_date t). digit_value c < 10"
    using yd(2) y by (auto simp: f digits_2 digit_value_decdigit list_all_iff)
  have "parse_date (format_date t) = Some ((y, m, d), [])"
    using yd v assms(2) getnum_pad [OF y(2)] getnum_pad [OF y(3), of True "[]"] by (simp add: parse_date_def f)
  then show "parse_layout_date (format_date t) = Some t"
    using v by (simp add: parse_layout_date_def finish_parse_def assms(1))
qed

lemma parse_until_part:
  assumes "parse_form_date e = Some t"
  shows "parse_part q (''UNTIL='' @ format_date t) = Inr (q\<lparr>rp_Until := Some t\<rparr>)"
    "CHR '';'' \<notin> set (format_date t)" "\<forall>c \<in> set (format_date t). \<not> is_space c"
proof -
  obtain y m d where p: "t = go_Date y m d 0 0 0 0" "0 \<le> y" "y \<le> 9999" "valid_date y m d"
    using parse_form_date_shape [OF assms] by blast
  note f = format_date_parses [OF p]
  have "digit_value c < 10 \<Longrightarrow> c \<noteq> CHR '';'' \<and> \<not> is_space c" for c
    by (auto simp: digit_value_def is_space_def Let_def split: if_splits)
  then show c: "CHR '';'' \<notin> set (format_date t)" "\<forall>c \<in> set (format_date t). \<not> is_space c" using f(3) by blast+
  have k: "SplitN2 (CHR ''='') (''UNTIL='' @ v) = (''UNTIL'', Some v)" "ToUpper (TrimSpace ''UNTIL'') = ''UNTIL''" for v
    by (simp_all add: SplitN2_def ToUpper_def upper_char_def TrimSpace_def is_space_def)
  have "parseICSDate (format_date t) = Some t"
    using f(1,2) by (simp add: parseICSDate_def TrimSpace_no_space [OF c(2)] Let_def)
  then show "parse_part q (''UNTIL='' @ format_date t) = Inr (q\<lparr>rp_Until := Some t\<rparr>)"
    unfolding parse_part_def k using TrimSpace_no_space [OF c(2)] by (simp add: k Let_def)
qed

lemma ParseRRULE_parts:
  assumes "parts \<noteq> []" "hd parts \<noteq> ''''" "\<forall>x \<in> set parts. CHR '';'' \<notin> set x \<and> (\<forall>c \<in> set x. \<not> is_space c)"
    "parse_parts new_pattern parts = Inr p" "rp_Freq p \<noteq> ''''"
  shows "ParseRRULE (join (CHR '';'') parts) = Inr p"
proof -
  have "\<forall>c \<in> set (join (CHR '';'') parts). \<not> is_space c" by (rule join_no_space) (use assms(3) in \<open>auto simp: is_space_def\<close>)
  then have "TrimSpace (join (CHR '';'') parts) = join (CHR '';'') parts" by (rule TrimSpace_no_space)
  moreover have "Split (CHR '';'') (join (CHR '';'') parts) = parts" by (rule Split_join) (use assms(1,3) in auto)
  moreover have "join (CHR '';'') parts \<noteq> []" using assms(1,2) by (cases parts rule: remdups_adj.cases) auto
  ultimately show ?thesis using assms(4,5) by (simp add: ParseRRULE_def Let_def)
qed

lemma Atoi_value_range: "- (2 ^ 63) \<le> Atoi_value s \<and> Atoi_value s < 2 ^ 63"
  by (auto simp: Atoi_value_def Let_def split: prod.splits)

lemma weekday_code: "0 \<le> wd \<Longrightarrow> wd \<le> 6 \<Longrightarrow> isValidDayCode (weekdayToDayCode wd) \<and> weekday_of_code (weekdayToDayCode wd) = wd \<and> weekdayToDayCode wd \<noteq> ''''"
  by (auto simp: weekdayToDayCode_def isValidDayCode_def weekday_of_code_def dayToWeekday_def)

lemma Weekday_range: "0 \<le> Weekday t" "Weekday t \<le> 6"
  using pos_mod_bound [of 7 "day_index t + 4"] by (simp_all add: Weekday_def)

text \<open>The pattern that the form asks for.\<close>

definition form_count :: "string \<Rightarrow> int" where
  "form_count countStr = (if countStr \<noteq> '''' then max 0 (Atoi_value countStr) else 0)"

definition form_pattern :: "string \<Rightarrow> go_time \<Rightarrow> string \<Rightarrow> string \<Rightarrow> recurrence_pattern" where
  "form_pattern kind startsAt countStr endDate =
     \<lparr>rp_Freq = ToUpper (ToLower kind), rp_Count = form_count countStr,
      rp_Until = (if form_count countStr > 0 \<or> endDate = '''' then None else parse_form_date endDate),
      rp_ByDay = (if ToLower kind = ''weekly'' then [weekdayToDayCode (Weekday startsAt)] else []),
      rp_Interval = 1\<rparr>"

lemma parse_freq_part:
  assumes "f \<in> {''DAILY'', ''WEEKLY'', ''MONTHLY''}"
  shows "parse_part q (''FREQ='' @ f) = Inr (q\<lparr>rp_Freq := f\<rparr>)"
  unfolding parse_part_def parse_part_keys using freq_plain [OF assms] assms TrimSpace_no_space [of f]
  by (simp add: keys_plain Let_def)

lemma freq_upper: "ToUpper ''daily'' = ''DAILY''" "ToUpper ''weekly'' = ''WEEKLY''" "ToUpper ''monthly'' = ''MONTHLY''"
  by code_simp+

lemma built_pattern:
  assumes "ToLower kind \<in> {''daily'', ''weekly'', ''monthly''}"
  shows "ParseRRULE (buildRRULE kind st c e) = Inr (form_pattern kind st c e)"
proof -
  let ?f = "ToUpper (ToLower kind)"
  let ?count = "if c \<noteq> '''' then Atoi_value c else 0"
  define byday where "byday = (if ToLower kind = ''weekly'' then [weekdayToDayCode (Weekday st)] else [])"
  define lim where "lim = (if ?count > 0 then [''COUNT='' @ dec_nat (nat ?count)]
    else if e \<noteq> '''' then (case parse_form_date e of Some t \<Rightarrow> [''UNTIL='' @ format_date t] | None \<Rightarrow> []) else [])"
  have f: "?f \<in> {''DAILY'', ''WEEKLY'', ''MONTHLY''}" using assms by (auto simp: freq_upper)
  note w = weekday_code [OF Weekday_range [of st]]
  have b: "buildRRULE kind st c e = join (CHR '';'') ([''FREQ='' @ ?f] @ map ((@) ''BYDAY='') byday @ lim)"
    using assms w by (auto simp: buildRRULE_def byday_def lim_def freq_upper Let_def)
  have day: "parse_parts q (map ((@) ''BYDAY='') byday) = Inr (q\<lparr>rp_ByDay := rp_ByDay q @ byday\<rparr>)" for q
    using w parse_byday_part [of "[weekdayToDayCode (Weekday st)]" q] by (simp add: byday_def)
  have cnt: "form_count c = max 0 ?count" by (simp add: form_count_def)
  have lim: "parse_parts q lim = Inr (q\<lparr>rp_Count := form_count c,
      rp_Until := (if form_count c > 0 \<or> e = '''' then None else parse_form_date e)\<rparr>)"
    if q: "rp_Count q = 0" "rp_Until q = None" for q
  proof (cases "?count > 0")
    case True
    then have "1 \<le> ?count" "?count < 2 ^ 63" using Atoi_value_range [of c] by auto
    then show ?thesis using True q cnt parse_number_part(2) [of ?count q] by (cases q) (simp add: lim_def)
  next
    case False
    then show ?thesis using q cnt parse_until_part(1) [of e _ q] by (cases q) (auto simp: lim_def split: option.splits)
  qed
  let ?plain = "\<lambda>x. CHR '';'' \<notin> set x \<and> (\<forall>c \<in> set x. \<not> is_space c)"
  have ap: "?plain (x @ y) \<longleftrightarrow> ?plain x \<and> ?plain y" for x y by auto
  have keys: "?plain ''FREQ=''" "?plain ''BYDAY=''" "?plain ''COUNT=''" "?plain ''UNTIL=''" by (simp_all add: is_space_def)
  have "?plain (''FREQ='' @ ?f)" using freq_plain [OF f] keys ap by blast
  moreover have "\<forall>x \<in> set (map ((@) ''BYDAY='') byday). ?plain x"
    using day_code_plain(3,4) [OF conjunct1 [OF w]] keys(2) by (simp add: byday_def)
  moreover have cnt: "?plain (''COUNT='' @ dec_nat n)" for n using dec_nat_plain keys(3) ap by blast
  have "?plain (''UNTIL='' @ format_date t)" if "parse_form_date e = Some t" for t
    using parse_until_part(2,3) [OF that] keys(4) ap by blast
  then have "lim = [] \<or> (\<exists>x. lim = [x] \<and> ?plain x)"
    unfolding lim_def using cnt by (cases "?count > 0"; cases "parse_form_date e") auto
  then have "\<forall>x \<in> set lim. ?plain x" by auto
  ultimately have plain: "\<forall>x \<in> set ([''FREQ='' @ ?f] @ map ((@) ''BYDAY='') byday @ lim). ?plain x" by auto
  show ?thesis unfolding b
  proof (rule ParseRRULE_parts [OF _ _ plain])
    show "parse_parts new_pattern ([''FREQ='' @ ?f] @ map ((@) ''BYDAY='') byday @ lim) = Inr (form_pattern kind st c e)"
      unfolding parse_parts_append
      by (simp add: parse_freq_part [OF f, simplified] day lim new_pattern_def) (simp add: form_pattern_def byday_def)
  qed (use f in \<open>auto simp: form_pattern_def\<close>)
qed

section \<open>Properties\<close>

text \<open>
  the canonical name of a group is always a slug - lower-case letters and digits with single hyphens between
  them, never empty - and canonicalising it again changes nothing, so a link built from it leads to a name that
  the lookup can hold.
\<close>

theorem canonicalizeName_slug:
  "slug (canonicalizeName name) \<and> canonicalizeName (canonicalizeName name) = canonicalizeName name"
  using canonical_slug canonical_of_slug by blast

text \<open>Different names share a canonical name: both of these become \<open>c\<close>.\<close>

lemma canonical_collision: "canonicalizeName ''C++'' = ''c''" "canonicalizeName ''C#'' = ''c''"
  by code_simp+

text \<open>
  C33: the rule that the form of a new event builds is always accepted by the parser of recurrence rules, and
  the pattern read back is the one the form asks for: the frequency chosen, the number of occurrences if it is a
  positive number, else the last date if it is a date, and for a weekly rule the day of the week of the first event.
\<close>

theorem buildRRULE_accepted:
  assumes "ToLower kind \<in> {''daily'', ''weekly'', ''monthly''}"
  shows "ParseRRULE (buildRRULE kind startsAt countStr endDate) = Inr (form_pattern kind startsAt countStr endDate)"
  by (rule built_pattern [OF assms])

theorem buildRRULE_accepted_witness:
  "ParseRRULE (buildRRULE ''Weekly'' 0 '''' ''2026-02-28'') = Inr (form_pattern ''Weekly'' 0 '''' ''2026-02-28'')"
  by (rule buildRRULE_accepted) code_simp

end
