(* ===== verification/Email.thy ===== *)
theory Email
  imports WebText
begin

text \<open>
  src/internal/email/: the texts of the four mails (templates.go), the message that carries them and the three
  senders (sender.go). The templates only insert fields, so a rendering is a concatenation and never fails. The SMTP
  exchange itself, net/smtp's SendMail, is a parameter.
\<close>

section \<open>Dates\<close>

definition month_names :: "string list" where
  "month_names = [''Jan'', ''Feb'', ''Mar'', ''Apr'', ''May'', ''Jun'', ''Jul'', ''Aug'', ''Sep'', ''Oct'', ''Nov'', ''Dec'']"

definition day_names :: "string list" where
  "day_names = [''Sun'', ''Mon'', ''Tue'', ''Wed'', ''Thu'', ''Fri'', ''Sat'']"

text \<open>The hour of the layout's 3: 12 for 0 and for 12.\<close>

definition hour12 :: "int \<Rightarrow> int" where
  "hour12 h = (if h mod 12 = 0 then 12 else h mod 12)"

text \<open>The layout Mon, Jan 2, 2006 3:04 PM MST in UTC.\<close>

definition FormatEventDate :: "int \<Rightarrow> string" where
  "FormatEventDate unix =
     (let t = unix * second
      in day_names ! nat (Weekday t) @ '', '' @ month_names ! nat (Month t - 1) @ '' '' @ dec_nat (nat (Day t)) @ '', '' @
         format_year (Year t) @ '' '' @ dec_nat (nat (hour12 (Hour t))) @ '':'' @ pad_zero 2 (nat (Minute t)) @ '' '' @
         (if Hour t \<ge> 12 then ''PM'' else ''AM'') @ '' UTC'')"

text \<open>strings.Fields: the maximal runs of characters that are not white space.\<close>

fun fields_from :: "string \<Rightarrow> string \<Rightarrow> string list" where
  "fields_from cur [] = (if cur = [] then [] else [cur])"
| "fields_from cur (c # s) =
     (if is_space c then (if cur = [] then fields_from [] s else cur # fields_from [] s)
      else fields_from (cur @ [c]) s)"

definition Fields :: "string \<Rightarrow> string list" where
  "Fields s = fields_from [] s"

definition formatTimeOnly :: "string \<Rightarrow> string" where
  "formatTimeOnly dateStr =
     (let parts = Fields dateStr; n = length parts
      in if n < 2 then dateStr else parts ! (n - 2) @ '' '' @ parts ! (n - 1))"

section \<open>Templates\<close>

record rsvp_confirm_data =
  rc_EventTitle :: string
  rc_EventDate :: string
  rc_EventLocation :: string
  rc_MagicLink :: string
  rc_GroupName :: string

record rsvp_confirmed_data =
  rd_EventTitle :: string
  rd_EventDate :: string
  rd_EventLocation :: string
  rd_GroupName :: string
  rd_CancelURL :: string

record event_reminder_data =
  er_EventTitle :: string
  er_EventDate :: string
  er_EventLocation :: string
  er_GroupName :: string
  er_EventURL :: string

record organizer_notify_data =
  on_EventTitle :: string
  on_Name :: string
  on_Email :: string
  on_EventDate :: string

abbreviation nl :: string where "nl \<equiv> [CHR 10]"

abbreviation quoted :: "string \<Rightarrow> string" where "quoted s \<equiv> CHR 0x22 # s @ [CHR 0x22]"

text \<open>The signature; its dash is three bytes of UTF-8.\<close>

definition mail_signature :: string where
  "mail_signature = [CHR 0xE2, CHR 0x80, CHR 0x94] @ '' Federated Meetup'' @ nl"

definition when_where :: "string \<Rightarrow> string \<Rightarrow> string \<Rightarrow> string" where
  "when_where date location grp =
     ''When: '' @ date @ nl @ ''Where: '' @ location @ nl @ ''Group: '' @ grp @ nl @ nl"

definition RenderRsvpConfirm :: "rsvp_confirm_data \<Rightarrow> string \<times> string" where
  "RenderRsvpConfirm d =
     (''Confirm your RSVP for '' @ rc_EventTitle d,
      ''Hi,'' @ nl @ nl @ ''You have been invited to RSVP for '' @ quoted (rc_EventTitle d) @ ''.'' @ nl @ nl @
      when_where (rc_EventDate d) (rc_EventLocation d) (rc_GroupName d) @
      ''Click the link below to confirm your RSVP:'' @ nl @ nl @ ''  '' @ rc_MagicLink d @ nl @ nl @
      ''If you did not request this RSVP, you can safely ignore this email.'' @ nl @ nl @ mail_signature)"

definition RenderRsvpConfirmed :: "rsvp_confirmed_data \<Rightarrow> string \<times> string" where
  "RenderRsvpConfirmed d =
     (''Your RSVP is confirmed for '' @ rd_EventTitle d,
      ''Hi,'' @ nl @ nl @ ''Your RSVP is confirmed for '' @ quoted (rd_EventTitle d) @ ''.'' @ nl @ nl @
      when_where (rd_EventDate d) (rd_EventLocation d) (rd_GroupName d) @
      ''We look forward to seeing you there!'' @ nl @ nl @ ''If you need to cancel, visit:'' @ nl @ ''  '' @
      rd_CancelURL d @ nl @ nl @ mail_signature)"

definition RenderEventReminder :: "event_reminder_data \<Rightarrow> string \<times> string" where
  "RenderEventReminder d =
     (''Reminder: '' @ er_EventTitle d @ '' tomorrow at '' @ formatTimeOnly (er_EventDate d),
      ''Hi,'' @ nl @ nl @ ''This is a reminder that '' @ quoted (er_EventTitle d) @ '' is happening tomorrow.'' @ nl @ nl @
      when_where (er_EventDate d) (er_EventLocation d) (er_GroupName d) @
      ''Event page: '' @ er_EventURL d @ nl @ nl @ ''See you there!'' @ nl @ nl @ mail_signature)"

definition RenderOrganizerNotify :: "organizer_notify_data \<Rightarrow> string \<times> string" where
  "RenderOrganizerNotify d =
     (''New RSVP for '' @ on_EventTitle d @ '' from '' @ on_Name d,
      ''Hello,'' @ nl @ nl @ ''A new RSVP has been received for '' @ quoted (on_EventTitle d) @ ''.'' @ nl @ nl @
      ''Name: '' @ on_Name d @ nl @ ''Email: '' @ on_Email d @ nl @ ''Event date: '' @ on_EventDate d @ nl @ nl @
      mail_signature)"

section \<open>Senders\<close>

abbreviation crlf :: string where "crlf \<equiv> [CHR 13, CHR 10]"

definition buildMessage :: "string \<Rightarrow> string \<Rightarrow> string \<Rightarrow> string \<Rightarrow> string" where
  "buildMessage fr rcpt subject body =
     ''From: '' @ fr @ crlf @ ''To: '' @ rcpt @ crlf @ ''Subject: '' @ subject @ crlf @ ''MIME-Version: 1.0'' @ crlf @
     ''Content-Type: text/plain; charset=utf-8'' @ crlf @ ''Content-Transfer-Encoding: 8bit'' @ crlf @ crlf @ body"

record smtp_config =
  sc_Host :: string
  sc_Port :: string
  sc_Username :: string
  sc_Password :: string
  sc_From :: string

text \<open>SendMail of net/smtp: address, credentials if there is a user name, sender, recipients, message; the error or success.\<close>

type_synonym send_mail = "string \<Rightarrow> (string \<times> string \<times> string) option \<Rightarrow> string \<Rightarrow> string list \<Rightarrow> string \<Rightarrow> string option"

definition SMTPSend :: "send_mail \<Rightarrow> smtp_config \<Rightarrow> string option \<Rightarrow> string \<Rightarrow> string \<Rightarrow> string \<Rightarrow> string option" where
  "SMTPSend sendmail cfg ctx_err rcpt subject body =
     (if sc_Host cfg = '''' then Some ''email: SMTP host not configured''
      else
        (let addr = sc_Host cfg @ '':'' @ sc_Port cfg;
             msg = buildMessage (sc_From cfg) rcpt subject body;
             auth = (if sc_Username cfg \<noteq> '''' then Some (sc_Username cfg, sc_Password cfg, sc_Host cfg) else None)
         in case ctx_err of Some e \<Rightarrow> Some e | None \<Rightarrow> sendmail addr auth (sc_From cfg) [rcpt] msg))"

record noop_sender =
  ns_LastTo :: string
  ns_LastSubject :: string
  ns_LastBody :: string
  ns_SendCount :: nat

definition NewNoopSender :: noop_sender where
  "NewNoopSender = \<lparr>ns_LastTo = '''', ns_LastSubject = '''', ns_LastBody = '''', ns_SendCount = 0\<rparr>"

definition NoopSend :: "noop_sender \<Rightarrow> string \<Rightarrow> string \<Rightarrow> string \<Rightarrow> noop_sender" where
  "NoopSend s rcpt subject body =
     s\<lparr>ns_LastTo := rcpt, ns_LastSubject := subject, ns_LastBody := body, ns_SendCount := ns_SendCount s + 1\<rparr>"

section \<open>Reading a message\<close>

text \<open>The lines of a text at CR LF, and the header lines of a message: those before the first empty line.\<close>

fun crlf_lines :: "string \<Rightarrow> string list" where
  "crlf_lines [] = [[]]"
| "crlf_lines [c] = [[c]]"
| "crlf_lines (c # d # s) =
     (if c = CHR 13 \<and> d = CHR 10 then [] # crlf_lines s
      else (case crlf_lines (d # s) of [] \<Rightarrow> [[c]] | l # ls \<Rightarrow> (c # l) # ls))"

definition header_lines :: "string \<Rightarrow> string list" where
  "header_lines msg = takeWhile (\<lambda>l. l \<noteq> []) (crlf_lines msg)"

lemma crlf_lines_nonempty [simp]: "crlf_lines s \<noteq> []"
  by (induction s rule: crlf_lines.induct) (auto split: list.splits)

lemma crlf_lines_append: "CHR 13 \<notin> set l \<Longrightarrow> crlf_lines (l @ CHR 13 # CHR 10 # s) = l # crlf_lines s"
proof (induction l)
  case (Cons c l)
  then have "crlf_lines (l @ CHR 13 # CHR 10 # s) = l # crlf_lines s" "c \<noteq> CHR 13" by auto
  then show ?case by (cases l) simp_all
qed simp

abbreviation message_text :: "string list \<Rightarrow> string \<Rightarrow> string" where
  "message_text ls body \<equiv> foldr (\<lambda>l s. l @ CHR 13 # CHR 10 # s) ls body"

lemma crlf_lines_message: "\<forall>l \<in> set ls. CHR 13 \<notin> set l \<Longrightarrow> crlf_lines (message_text ls body) = ls @ crlf_lines body"
  by (induction ls) (simp_all add: crlf_lines_append)

abbreviation fixed_headers :: "string list" where
  "fixed_headers \<equiv> [''MIME-Version: 1.0'', ''Content-Type: text/plain; charset=utf-8'', ''Content-Transfer-Encoding: 8bit'', []]"

lemma header_of_message:
  assumes "CHR 13 \<notin> set fr" "CHR 13 \<notin> set rcpt" "CHR 13 \<notin> set subject"
  shows "header_lines (buildMessage fr rcpt subject body) =
    [''From: '' @ fr, ''To: '' @ rcpt, ''Subject: '' @ subject, ''MIME-Version: 1.0'',
     ''Content-Type: text/plain; charset=utf-8'', ''Content-Transfer-Encoding: 8bit'']"
proof -
  let ?ls = "[''From: '' @ fr, ''To: '' @ rcpt, ''Subject: '' @ subject] @ fixed_headers"
  have "buildMessage fr rcpt subject body = message_text ?ls body" by (simp add: buildMessage_def)
  moreover have "crlf_lines (message_text ?ls body) = ?ls @ crlf_lines body"
    by (rule crlf_lines_message) (use assms in simp)
  ultimately show ?thesis by (simp add: header_lines_def)
qed

section \<open>Properties\<close>

lemma fields_from_word: "\<forall>c \<in> set w. \<not> is_space c \<Longrightarrow> fields_from cur (w @ s) = fields_from (cur @ w) s"
  by (induction w arbitrary: cur) auto

lemma Fields_last_words:
  assumes "\<forall>c \<in> set a. \<not> is_space c" "\<forall>c \<in> set b. \<not> is_space c" "a \<noteq> []" "b \<noteq> []"
  shows "\<exists>ws. fields_from cur (s @ '' '' @ a @ '' '' @ b) = ws @ [a, b]"
proof (induction s arbitrary: cur)
  case Nil
  have "fields_from [] (a @ '' '' @ b) = a # fields_from [] b"
    using fields_from_word [OF assms(1), of "[]" "'' '' @ b"] assms(3) by (simp add: is_space_def)
  moreover have "fields_from [] b = [b]" using fields_from_word [OF assms(2), of "[]" "[]"] assms(4) by simp
  ultimately show ?case by (simp add: is_space_def)
next
  case (Cons c s)
  obtain ws1 ws2 where "fields_from [] (s @ '' '' @ a @ '' '' @ b) = ws1 @ [a, b]"
    "fields_from (cur @ [c]) (s @ '' '' @ a @ '' '' @ b) = ws2 @ [a, b]" using Cons.IH by blast
  then show ?case by (cases "is_space c"; cases "cur = []") (auto intro: exI [of _ "cur # ws1"])
qed

lemma formatTimeOnly_date: "formatTimeOnly (FormatEventDate unix) \<in> {''AM UTC'', ''PM UTC''}"
proof -
  define half where "half = (if Hour (unix * second) \<ge> 12 then ''PM'' else ''AM'')"
  obtain p where p: "FormatEventDate unix = p @ '' '' @ half @ '' '' @ ''UTC''"
  proof
    let ?t = "unix * second"
    show "FormatEventDate unix = (day_names ! nat (Weekday ?t) @ '', '' @ month_names ! nat (Month ?t - 1) @ '' '' @
        dec_nat (nat (Day ?t)) @ '', '' @ format_year (Year ?t) @ '' '' @ dec_nat (nat (hour12 (Hour ?t))) @ '':'' @
        pad_zero 2 (nat (Minute ?t))) @ '' '' @ half @ '' '' @ ''UTC''"
      by (simp add: FormatEventDate_def half_def Let_def)
  qed
  have h: "\<forall>c \<in> set half. \<not> is_space c" "\<forall>c \<in> set ''UTC''. \<not> is_space c" "half \<noteq> []"
    by (simp_all add: half_def is_space_def)
  obtain ws where "Fields (FormatEventDate unix) = ws @ [half, ''UTC'']"
    using Fields_last_words [OF h(1,2,3), of "[]" p] unfolding Fields_def p by auto
  then have "formatTimeOnly (FormatEventDate unix) = half @ '' UTC''"
    by (simp add: formatTimeOnly_def Let_def nth_append)
  then show ?thesis by (simp add: half_def split: if_splits)
qed

text \<open>
  the subject of a reminder never names a time. Its date is printed with the zone at the end, and the two
  words taken as the time of day are the half of the day and the zone: \<open>AM UTC\<close> or \<open>PM UTC\<close>.
\<close>

theorem reminder_subject_without_time:
  "fst (RenderEventReminder (d\<lparr>er_EventDate := FormatEventDate unix\<rparr>))
    \<in> {''Reminder: '' @ er_EventTitle d @ '' tomorrow at AM UTC'', ''Reminder: '' @ er_EventTitle d @ '' tomorrow at PM UTC''}"
  using formatTimeOnly_date [of unix] by (auto simp: RenderEventReminder_def)

text \<open>
  what a mail client reads as the header of a message is the six lines the sender means, and the body cannot
  add to them, if sender, recipient and subject hold no carriage return.
\<close>

theorem message_header_exact:
  assumes "CHR 13 \<notin> set fr" "CHR 13 \<notin> set rcpt" "CHR 13 \<notin> set subject"
  shows "header_lines (buildMessage fr rcpt subject body) =
    [''From: '' @ fr, ''To: '' @ rcpt, ''Subject: '' @ subject, ''MIME-Version: 1.0'',
     ''Content-Type: text/plain; charset=utf-8'', ''Content-Transfer-Encoding: 8bit'']"
  by (rule header_of_message [OF assms])

theorem message_header_exact_witness:
  "header_lines (buildMessage ''a@x'' ''b@y'' ''hi'' (crlf @ ''Bcc: m@z'')) =
    [''From: a@x'', ''To: b@y'', ''Subject: hi'', ''MIME-Version: 1.0'',
     ''Content-Type: text/plain; charset=utf-8'', ''Content-Transfer-Encoding: 8bit'']"
  using message_header_exact [of "''a@x''" "''b@y''" "''hi''"] by simp

text \<open>
  The subject is made of the title of the event, whose characters nobody checks: a title with a line break adds
  header lines of its choice to every mail about the event.
\<close>

lemma title_adds_header:
  "''Bcc: m@z'' \<in> set (header_lines (buildMessage ''a@x'' ''b@y''
     (fst (RenderRsvpConfirm (d\<lparr>rc_EventTitle := ''x'' @ crlf @ ''Bcc: m@z''\<rparr>))) body))"
proof -
  let ?ls = "[''From: a@x'', ''To: b@y'', ''Subject: Confirm your RSVP for x'', ''Bcc: m@z''] @ fixed_headers"
  have "buildMessage ''a@x'' ''b@y'' (fst (RenderRsvpConfirm (d\<lparr>rc_EventTitle := ''x'' @ crlf @ ''Bcc: m@z''\<rparr>))) body =
     message_text ?ls body"
    by (simp add: buildMessage_def RenderRsvpConfirm_def)
  moreover have "crlf_lines (message_text ?ls body) = ?ls @ crlf_lines body"
    by (rule crlf_lines_message) simp
  ultimately show ?thesis by (simp add: header_lines_def)
qed

end
