(* ===== verification/WebStore.thy ===== *)
theory WebStore
  imports GoStrings Calendar
begin

text \<open>
  src/internal/web/store.go: the SQLite tables of the web frontend and the statements on them. A table is the list
  of its rows, the oldest first; a statement is a function on the list that follows the SQL text. Every call of the
  database may fail: the argument \<open>ok\<close> says whether this one succeeds, a failed statement returns \<open>None\<close> and
  changes nothing. Where the SQL leaves the order of equal keys open, the older row comes first. The clock of the
  store is the argument \<open>now\<close>. Column names prefix the fields of a row where the Go record has other fields.
\<close>

section \<open>Tables with a primary key\<close>

text \<open>INSERT ... ON CONFLICT DO UPDATE: \<open>merge\<close> gives the columns that the update sets.\<close>

fun upsert :: "('r \<Rightarrow> 'k) \<Rightarrow> ('r \<Rightarrow> 'r \<Rightarrow> 'r) \<Rightarrow> 'r \<Rightarrow> 'r list \<Rightarrow> 'r list" where
  "upsert key merge r [] = [r]"
| "upsert key merge r (x # xs) = (if key x = key r then merge x r # xs else x # upsert key merge r xs)"

definition update_where :: "('r \<Rightarrow> bool) \<Rightarrow> ('r \<Rightarrow> 'r) \<Rightarrow> 'r list \<Rightarrow> 'r list" where
  "update_where P f = map (\<lambda>r. if P r then f r else r)"

definition delete_where :: "('r \<Rightarrow> bool) \<Rightarrow> 'r list \<Rightarrow> 'r list" where
  "delete_where P = filter (\<lambda>r. \<not> P r)"

section \<open>Rows and records\<close>

record group_row =
  gr_group_key :: string
  gr_canonical_name :: string
  gr_display_name :: string
  gr_description :: string
  gr_cached_at :: int

record cached_group =
  cg_GroupKey :: string
  cg_CanonicalName :: string
  cg_DisplayName :: string
  cg_Description :: string
  cg_MemberCount :: u64
  cg_CreatedAt :: int

record event_row =
  er_group_key :: string
  er_event_id :: string
  er_title :: string
  er_description :: string
  er_starts_at :: int
  er_location :: string
  er_capacity :: int
  er_cancelled :: bool
  er_cached_at :: int

record cached_event =
  ce_GroupKey :: string
  ce_EventID :: string
  ce_Title :: string
  ce_Description :: string
  ce_StartsAt :: int
  ce_Location :: string
  ce_Capacity :: int
  ce_Cancelled :: bool
  ce_RsvpCount :: nat

record rsvp_record =
  wr_GroupKey :: string
  wr_EventID :: string
  wr_UserEmail :: string
  wr_UserName :: string
  wr_Token :: string
  wr_Confirmed :: bool
  wr_Attended :: bool
  wr_CreatedAt :: int

record session_row =
  sr_token :: string
  sr_group_key :: string
  sr_expires_at :: int

record order_record =
  wo_OrderID :: string
  wo_GroupKey :: string
  wo_EventID :: string
  wo_Email :: string
  wo_AmountCents :: int
  wo_Status :: string
  wo_StripeSessionID :: string
  wo_CreatedAt :: int

record web_store =
  ws_groups :: "group_row list"
  ws_events :: "event_row list"
  ws_rsvps :: "rsvp_record list"
  ws_sessions :: "session_row list"
  ws_orders :: "order_record list"

definition empty_web_store :: web_store where
  "empty_web_store = \<lparr>ws_groups = [], ws_events = [], ws_rsvps = [], ws_sessions = [], ws_orders = []\<rparr>"

definition Unix :: "go_time \<Rightarrow> int" where
  "Unix t = t div second"

section \<open>Groups\<close>

definition scan_group :: "group_row \<Rightarrow> cached_group" where
  "scan_group r = \<lparr>cg_GroupKey = gr_group_key r, cg_CanonicalName = gr_canonical_name r,
     cg_DisplayName = gr_display_name r, cg_Description = gr_description r, cg_MemberCount = 0, cg_CreatedAt = 0\<rparr>"

definition merge_group :: "group_row \<Rightarrow> group_row \<Rightarrow> group_row" where
  "merge_group x r = x\<lparr>gr_canonical_name := gr_canonical_name r, gr_display_name := gr_display_name r,
     gr_description := gr_description r, gr_cached_at := gr_cached_at r\<rparr>"

definition UpsertGroup :: "bool \<Rightarrow> go_time \<Rightarrow> cached_group \<Rightarrow> web_store \<Rightarrow> web_store option" where
  "UpsertGroup ok now g s =
     (if \<not> ok then None
      else Some (s\<lparr>ws_groups := upsert gr_group_key merge_group
        \<lparr>gr_group_key = cg_GroupKey g, gr_canonical_name = cg_CanonicalName g, gr_display_name = cg_DisplayName g,
         gr_description = cg_Description g, gr_cached_at = Unix now\<rparr> (ws_groups s)\<rparr>))"

definition ListGroups :: "bool \<Rightarrow> web_store \<Rightarrow> cached_group list option" where
  "ListGroups ok s = (if \<not> ok then None else Some (map scan_group (sort_key gr_display_name (ws_groups s))))"

definition GetGroupByCanonicalName :: "bool \<Rightarrow> string \<Rightarrow> web_store \<Rightarrow> cached_group option" where
  "GetGroupByCanonicalName ok name s =
     (if \<not> ok then None else map_option scan_group (find (\<lambda>r. gr_canonical_name r = name) (ws_groups s)))"

definition GetGroup :: "bool \<Rightarrow> string \<Rightarrow> web_store \<Rightarrow> cached_group option" where
  "GetGroup ok groupKey s =
     (if \<not> ok then None else map_option scan_group (find (\<lambda>r. gr_group_key r = groupKey) (ws_groups s)))"

definition DeleteGroup :: "bool \<Rightarrow> string \<Rightarrow> web_store \<Rightarrow> web_store option" where
  "DeleteGroup ok groupKey s =
     (if \<not> ok then None else Some (s\<lparr>ws_groups := delete_where (\<lambda>r. gr_group_key r = groupKey) (ws_groups s)\<rparr>))"

section \<open>Events\<close>

definition event_key :: "event_row \<Rightarrow> string \<times> string" where
  "event_key r = (er_group_key r, er_event_id r)"

definition scan_event :: "event_row \<Rightarrow> cached_event" where
  "scan_event r = \<lparr>ce_GroupKey = er_group_key r, ce_EventID = er_event_id r, ce_Title = er_title r,
     ce_Description = er_description r, ce_StartsAt = er_starts_at r, ce_Location = er_location r,
     ce_Capacity = er_capacity r, ce_Cancelled = er_cancelled r, ce_RsvpCount = 0\<rparr>"

definition merge_event :: "event_row \<Rightarrow> event_row \<Rightarrow> event_row" where
  "merge_event x r = x\<lparr>er_title := er_title r, er_description := er_description r, er_starts_at := er_starts_at r,
     er_location := er_location r, er_capacity := er_capacity r, er_cancelled := er_cancelled r,
     er_cached_at := er_cached_at r\<rparr>"

definition UpsertEvent :: "bool \<Rightarrow> go_time \<Rightarrow> cached_event \<Rightarrow> web_store \<Rightarrow> web_store option" where
  "UpsertEvent ok now e s =
     (if \<not> ok then None
      else Some (s\<lparr>ws_events := upsert event_key merge_event
        \<lparr>er_group_key = ce_GroupKey e, er_event_id = ce_EventID e, er_title = ce_Title e,
         er_description = ce_Description e, er_starts_at = ce_StartsAt e, er_location = ce_Location e,
         er_capacity = ce_Capacity e, er_cancelled = ce_Cancelled e, er_cached_at = Unix now\<rparr> (ws_events s)\<rparr>))"

definition GetEvent :: "bool \<Rightarrow> string \<Rightarrow> string \<Rightarrow> web_store \<Rightarrow> cached_event option" where
  "GetEvent ok groupKey eventID s =
     (if \<not> ok then None
      else map_option scan_event (find (\<lambda>r. er_group_key r = groupKey \<and> er_event_id r = eventID) (ws_events s)))"

definition ListUpcomingEvents :: "bool \<Rightarrow> go_time \<Rightarrow> string \<Rightarrow> int \<Rightarrow> web_store \<Rightarrow> cached_event list option" where
  "ListUpcomingEvents ok now groupKey limit s =
     (let limit = (if limit \<le> 0 \<or> limit > 200 then 50 else limit);
          rows = filter (\<lambda>r. (groupKey = '''' \<or> er_group_key r = groupKey) \<and> \<not> er_cancelled r \<and>
            Unix now \<le> er_starts_at r) (ws_events s)
      in if \<not> ok then None else Some (map scan_event (take (nat limit) (sort_key er_starts_at rows))))"

definition ListEventsByGroup :: "bool \<Rightarrow> string \<Rightarrow> web_store \<Rightarrow> cached_event list option" where
  "ListEventsByGroup ok groupKey s =
     (if \<not> ok then None
      else Some (map scan_event (sort_key (\<lambda>r. - er_starts_at r) (filter (\<lambda>r. er_group_key r = groupKey) (ws_events s)))))"

definition DeleteEvent :: "bool \<Rightarrow> string \<Rightarrow> string \<Rightarrow> web_store \<Rightarrow> web_store option" where
  "DeleteEvent ok groupKey eventID s =
     (if \<not> ok then None
      else Some (s\<lparr>ws_events := delete_where (\<lambda>r. er_group_key r = groupKey \<and> er_event_id r = eventID) (ws_events s)\<rparr>))"

section \<open>RSVPs\<close>

definition rsvp_key :: "rsvp_record \<Rightarrow> string \<times> string \<times> string" where
  "rsvp_key r = (wr_GroupKey r, wr_EventID r, wr_UserEmail r)"

definition merge_rsvp :: "rsvp_record \<Rightarrow> rsvp_record \<Rightarrow> rsvp_record" where
  "merge_rsvp x r = x\<lparr>wr_UserName := wr_UserName r, wr_Token := wr_Token r, wr_Confirmed := wr_Confirmed r,
     wr_Attended := wr_Attended r\<rparr>"

definition CreateRsvp :: "bool \<Rightarrow> go_time \<Rightarrow> rsvp_record \<Rightarrow> web_store \<Rightarrow> web_store option" where
  "CreateRsvp ok now r s =
     (let r = (if wr_CreatedAt r = 0 then r\<lparr>wr_CreatedAt := Unix now\<rparr> else r)
      in if \<not> ok then None else Some (s\<lparr>ws_rsvps := upsert rsvp_key merge_rsvp r (ws_rsvps s)\<rparr>))"

definition GetRsvpByToken :: "bool \<Rightarrow> string \<Rightarrow> web_store \<Rightarrow> rsvp_record option" where
  "GetRsvpByToken ok token s = (if \<not> ok then None else find (\<lambda>r. wr_Token r = token) (ws_rsvps s))"

text \<open>Two statements, the select and the update; the record returned is the one that was read, marked confirmed.\<close>

definition ConfirmRsvp :: "bool \<Rightarrow> bool \<Rightarrow> string \<Rightarrow> web_store \<Rightarrow> rsvp_record option \<times> web_store" where
  "ConfirmRsvp ok_select ok_update token s =
     (case GetRsvpByToken ok_select token s of
        None \<Rightarrow> (None, s)
      | Some r \<Rightarrow>
          if wr_Confirmed r then (Some r, s)
          else if \<not> ok_update then (None, s)
          else (Some (r\<lparr>wr_Confirmed := True\<rparr>),
            s\<lparr>ws_rsvps := update_where (\<lambda>r. wr_Token r = token) (\<lambda>r. r\<lparr>wr_Confirmed := True\<rparr>) (ws_rsvps s)\<rparr>))"

definition RsvpCount :: "bool \<Rightarrow> string \<Rightarrow> string \<Rightarrow> web_store \<Rightarrow> nat option" where
  "RsvpCount ok groupKey eventID s =
     (if \<not> ok then None
      else Some (length (filter (\<lambda>r. wr_GroupKey r = groupKey \<and> wr_EventID r = eventID \<and> wr_Confirmed r) (ws_rsvps s))))"

definition ListRsvpsForEvent :: "bool \<Rightarrow> string \<Rightarrow> string \<Rightarrow> web_store \<Rightarrow> rsvp_record list option" where
  "ListRsvpsForEvent ok groupKey eventID s =
     (if \<not> ok then None
      else Some (sort_key wr_CreatedAt
        (filter (\<lambda>r. wr_GroupKey r = groupKey \<and> wr_EventID r = eventID \<and> wr_Confirmed r) (ws_rsvps s))))"

definition ListRsvpsByEmail :: "bool \<Rightarrow> string \<Rightarrow> web_store \<Rightarrow> rsvp_record list option" where
  "ListRsvpsByEmail ok email s =
     (if \<not> ok then None
      else Some (sort_key (\<lambda>r. - wr_CreatedAt r) (filter (\<lambda>r. wr_UserEmail r = email) (ws_rsvps s))))"

definition CancelRsvp :: "bool \<Rightarrow> string \<Rightarrow> string \<Rightarrow> string \<Rightarrow> web_store \<Rightarrow> web_store option" where
  "CancelRsvp ok groupKey eventID email s =
     (if \<not> ok then None
      else Some (s\<lparr>ws_rsvps := update_where (\<lambda>r. rsvp_key r = (groupKey, eventID, email))
        (\<lambda>r. r\<lparr>wr_Confirmed := False\<rparr>) (ws_rsvps s)\<rparr>))"

definition MarkRsvpAttended :: "bool \<Rightarrow> string \<Rightarrow> string \<Rightarrow> web_store \<Rightarrow> web_store option" where
  "MarkRsvpAttended ok eventID email s =
     (if \<not> ok then None
      else Some (s\<lparr>ws_rsvps := update_where (\<lambda>r. wr_EventID r = eventID \<and> wr_UserEmail r = email)
        (\<lambda>r. r\<lparr>wr_Attended := True\<rparr>) (ws_rsvps s)\<rparr>))"

section \<open>Organizer sessions\<close>

definition merge_session :: "session_row \<Rightarrow> session_row \<Rightarrow> session_row" where
  "merge_session x r = x\<lparr>sr_group_key := sr_group_key r, sr_expires_at := sr_expires_at r\<rparr>"

definition CreateSession :: "bool \<Rightarrow> go_time \<Rightarrow> string \<Rightarrow> string \<Rightarrow> int \<Rightarrow> web_store \<Rightarrow> web_store option" where
  "CreateSession ok now token groupKey ttl s =
     (if \<not> ok then None
      else Some (s\<lparr>ws_sessions := upsert sr_token merge_session
        \<lparr>sr_token = token, sr_group_key = groupKey, sr_expires_at = Unix (now + ttl)\<rparr> (ws_sessions s)\<rparr>))"

definition ValidateSession :: "bool \<Rightarrow> go_time \<Rightarrow> string \<Rightarrow> web_store \<Rightarrow> string option" where
  "ValidateSession ok now token s =
     (case (if ok then find (\<lambda>r. sr_token r = token) (ws_sessions s) else None) of
        None \<Rightarrow> None
      | Some r \<Rightarrow> if Unix now > sr_expires_at r then None else Some (sr_group_key r))"

definition DeleteSession :: "bool \<Rightarrow> string \<Rightarrow> web_store \<Rightarrow> web_store option" where
  "DeleteSession ok token s =
     (if \<not> ok then None else Some (s\<lparr>ws_sessions := delete_where (\<lambda>r. sr_token r = token) (ws_sessions s)\<rparr>))"

section \<open>Orders\<close>

definition merge_order :: "order_record \<Rightarrow> order_record \<Rightarrow> order_record" where
  "merge_order x r = x\<lparr>wo_Status := wo_Status r, wo_StripeSessionID := wo_StripeSessionID r\<rparr>"

definition CreateOrder :: "bool \<Rightarrow> go_time \<Rightarrow> order_record \<Rightarrow> web_store \<Rightarrow> web_store option" where
  "CreateOrder ok now od s =
     (let od = (if wo_CreatedAt od = 0 then od\<lparr>wo_CreatedAt := Unix now\<rparr> else od)
      in if \<not> ok then None else Some (s\<lparr>ws_orders := upsert wo_OrderID merge_order od (ws_orders s)\<rparr>))"

definition GetOrder :: "bool \<Rightarrow> string \<Rightarrow> web_store \<Rightarrow> order_record option" where
  "GetOrder ok orderID s = (if \<not> ok then None else find (\<lambda>r. wo_OrderID r = orderID) (ws_orders s))"

definition ListOrdersByEvent :: "bool \<Rightarrow> string \<Rightarrow> string \<Rightarrow> web_store \<Rightarrow> order_record list option" where
  "ListOrdersByEvent ok groupKey eventID s =
     (if \<not> ok then None
      else Some (sort_key (\<lambda>r. - wo_CreatedAt r) (filter (\<lambda>r. wo_GroupKey r = groupKey \<and> wo_EventID r = eventID) (ws_orders s))))"

definition UpdateOrderStatus :: "bool \<Rightarrow> string \<Rightarrow> string \<Rightarrow> web_store \<Rightarrow> web_store option" where
  "UpdateOrderStatus ok orderID status s =
     (if \<not> ok then None
      else Some (s\<lparr>ws_orders := update_where (\<lambda>r. wo_OrderID r = orderID) (\<lambda>r. r\<lparr>wo_Status := status\<rparr>) (ws_orders s)\<rparr>))"

section \<open>Keyed tables\<close>

text \<open>What every table relies on: the update of a conflicting insert leaves the key columns alone.\<close>

locale keyed_table =
  fixes key :: "'r \<Rightarrow> 'k" and merge :: "'r \<Rightarrow> 'r \<Rightarrow> 'r"
  assumes merge_key: "key (merge x r) = key x"
begin

abbreviation keys_ok :: "'r list \<Rightarrow> bool" where
  "keys_ok xs \<equiv> distinct (map key xs)"

lemma upsert_keys: "key ` set (upsert key merge r xs) = insert (key r) (key ` set xs)"
  by (induction xs) (auto simp: merge_key)

lemma upsert_ok: "keys_ok xs \<Longrightarrow> keys_ok (upsert key merge r xs)"
proof (induction xs)
  case (Cons x xs)
  then show ?case using upsert_keys [of r xs] by (auto simp: merge_key)
qed simp

lemma upsert_find:
  "find (\<lambda>x. key x = k) (upsert key merge r xs) =
    (if k = key r then Some (case find (\<lambda>x. key x = k) xs of None \<Rightarrow> r | Some x \<Rightarrow> merge x r)
     else find (\<lambda>x. key x = k) xs)"
  by (induction xs) (auto simp: merge_key)

lemma upsert_members: "x \<in> set (upsert key merge r xs) \<Longrightarrow> x \<in> set xs \<or> x = r \<or> (\<exists>y \<in> set xs. key y = key r \<and> x = merge y r)"
  by (induction xs) (auto split: if_splits)

lemma update_ok: "(\<And>x. key (f x) = key x) \<Longrightarrow> keys_ok xs \<Longrightarrow> keys_ok (update_where P f xs)"
proof -
  assume f: "\<And>x. key (f x) = key x" and "keys_ok xs"
  then have "map key (update_where P f xs) = map key xs" by (auto simp: update_where_def)
  then show ?thesis using \<open>keys_ok xs\<close> by simp
qed

lemma delete_ok: "keys_ok xs \<Longrightarrow> keys_ok (delete_where P xs)"
  by (simp add: delete_where_def distinct_map_filter)

lemma delete_find: "find (\<lambda>x. key x = k) (delete_where (\<lambda>x. key x = k) xs) = None"
  by (induction xs) (auto simp: delete_where_def)

end

interpretation group_table: keyed_table gr_group_key merge_group
  by unfold_locales (simp add: merge_group_def)

interpretation event_table: keyed_table event_key merge_event
  by unfold_locales (simp add: merge_event_def event_key_def)

interpretation rsvp_table: keyed_table rsvp_key merge_rsvp
  by unfold_locales (simp add: merge_rsvp_def rsvp_key_def)

interpretation session_table: keyed_table sr_token merge_session
  by unfold_locales (simp add: merge_session_def)

interpretation order_table: keyed_table wo_OrderID merge_order
  by unfold_locales (simp add: merge_order_def)

section \<open>The statements keep the keys\<close>

definition tables_ok :: "web_store \<Rightarrow> bool" where
  "tables_ok w \<longleftrightarrow> distinct (map gr_group_key (ws_groups w)) \<and> distinct (map event_key (ws_events w)) \<and>
     distinct (map rsvp_key (ws_rsvps w)) \<and> distinct (map sr_token (ws_sessions w)) \<and> distinct (map wo_OrderID (ws_orders w))"

lemma tables_ok_empty: "tables_ok empty_web_store"
  by (simp add: tables_ok_def empty_web_store_def)

lemma statements_keep_keys:
  assumes "tables_ok w"
  shows "UpsertGroup ok now g w = Some w' \<Longrightarrow> tables_ok w'" "UpsertEvent ok now e w = Some w' \<Longrightarrow> tables_ok w'"
    "CreateRsvp ok now r w = Some w' \<Longrightarrow> tables_ok w'" "tables_ok (snd (ConfirmRsvp ok ok2 token w))"
    "CancelRsvp ok gk i em w = Some w' \<Longrightarrow> tables_ok w'" "MarkRsvpAttended ok i em w = Some w' \<Longrightarrow> tables_ok w'"
    "CreateSession ok now token gk ttl w = Some w' \<Longrightarrow> tables_ok w'" "DeleteSession ok token w = Some w' \<Longrightarrow> tables_ok w'"
    "CreateOrder ok now od w = Some w' \<Longrightarrow> tables_ok w'" "UpdateOrderStatus ok oid st w = Some w' \<Longrightarrow> tables_ok w'"
    "DeleteGroup ok gk w = Some w' \<Longrightarrow> tables_ok w'" "DeleteEvent ok gk i w = Some w' \<Longrightarrow> tables_ok w'"
  using assms
  by (auto simp: tables_ok_def UpsertGroup_def UpsertEvent_def CreateRsvp_def ConfirmRsvp_def CancelRsvp_def MarkRsvpAttended_def
      CreateSession_def DeleteSession_def CreateOrder_def UpdateOrderStatus_def DeleteGroup_def DeleteEvent_def Let_def
      split: if_splits option.splits
      intro!: group_table.upsert_ok event_table.upsert_ok rsvp_table.upsert_ok session_table.upsert_ok order_table.upsert_ok
        rsvp_table.update_ok order_table.update_ok group_table.delete_ok event_table.delete_ok session_table.delete_ok
      simp: rsvp_key_def)

text \<open>Which statements touch the sessions and the RSVPs.\<close>

lemma session_tables:
  "UpsertGroup ok now g w = Some w' \<Longrightarrow> ws_sessions w' = ws_sessions w" "UpsertEvent ok now e w = Some w' \<Longrightarrow> ws_sessions w' = ws_sessions w"
  "CreateRsvp ok now r w = Some w' \<Longrightarrow> ws_sessions w' = ws_sessions w" "ws_sessions (snd (ConfirmRsvp ok ok2 token w)) = ws_sessions w"
  "CancelRsvp ok gk i em w = Some w' \<Longrightarrow> ws_sessions w' = ws_sessions w" "MarkRsvpAttended ok i em w = Some w' \<Longrightarrow> ws_sessions w' = ws_sessions w"
  "CreateOrder ok now od w = Some w' \<Longrightarrow> ws_sessions w' = ws_sessions w"
  "DeleteSession ok token w = Some w' \<Longrightarrow> set (ws_sessions w') \<subseteq> set (ws_sessions w)"
  by (auto simp: UpsertGroup_def UpsertEvent_def CreateRsvp_def ConfirmRsvp_def CancelRsvp_def MarkRsvpAttended_def
      DeleteSession_def CreateOrder_def delete_where_def Let_def split: if_splits option.splits)

lemma rsvp_tables:
  "UpsertGroup ok now g w = Some w' \<Longrightarrow> ws_rsvps w' = ws_rsvps w" "UpsertEvent ok now e w = Some w' \<Longrightarrow> ws_rsvps w' = ws_rsvps w"
  "CreateSession ok now token gk ttl w = Some w' \<Longrightarrow> ws_rsvps w' = ws_rsvps w"
  "DeleteSession ok token w = Some w' \<Longrightarrow> ws_rsvps w' = ws_rsvps w" "CreateOrder ok now od w = Some w' \<Longrightarrow> ws_rsvps w' = ws_rsvps w"
  by (auto simp: UpsertGroup_def UpsertEvent_def CreateSession_def DeleteSession_def CreateOrder_def Let_def split: if_splits)

lemma CreateSession_rows:
  assumes "CreateSession ok now token gk ttl w = Some w'" "x \<in> set (ws_sessions w')"
  shows "x \<in> set (ws_sessions w) \<or> (sr_token x = token \<and> sr_group_key x = gk)"
  using assms session_table.upsert_members [of x "\<lparr>sr_token = token, sr_group_key = gk, sr_expires_at = Unix (now + ttl)\<rparr>" "ws_sessions w"]
  by (auto simp: CreateSession_def merge_session_def split: if_splits)

text \<open>A session lives for its time to live and no longer.\<close>

lemma ValidateSession_created:
  assumes "CreateSession ok now token gk ttl w = Some w'"
  shows "ValidateSession True now' token w' = (if Unix now' > Unix (now + ttl) then None else Some gk)"
  using assms session_table.upsert_find [of token "\<lparr>sr_token = token, sr_group_key = gk, sr_expires_at = Unix (now + ttl)\<rparr>" "ws_sessions w"]
  by (auto simp: CreateSession_def ValidateSession_def merge_session_def split: if_splits option.splits)

lemma ValidateSession_deleted: "DeleteSession ok token w = Some w' \<Longrightarrow> ValidateSession ok' now token w' = None"
  using session_table.delete_find [of token "ws_sessions w"] by (auto simp: DeleteSession_def ValidateSession_def split: if_splits)

end
