(* ===== verification/Reminder.thy ===== *)
theory Reminder
  imports Email WebStore
begin

text \<open>
  src/cmd/fedmeetup/reminder.go: the scheduler that mails a reminder to everyone with a confirmed RSVP about a day
  before the event. A tick of it reads the web store, which the handlers go on changing: the argument \<open>view\<close> is the store
  as the reads for one event find it. The map \<open>sent\<close> lives as long as the process. Whether a mail arrives only shows in
  the log.
\<close>

section \<open>One tick\<close>

record reminder_mail =
  rm_key :: string
  rm_to :: string
  rm_subject :: string
  rm_body :: string

text \<open>What the environment gives to one tick.\<close>

record reminder_tick =
  rt_list_ok :: bool
  rt_store_now :: go_time
  rt_store :: web_store
  rt_now :: go_time
  rt_view :: "cached_event \<Rightarrow> web_store"
  rt_rsvps_ok :: "cached_event \<Rightarrow> bool"
  rt_group_ok :: "cached_event \<Rightarrow> bool"

definition eventKey :: "cached_event \<Rightarrow> string" where
  "eventKey e = ce_GroupKey e @ ''/'' @ ce_EventID e"

definition hour_ns :: int where
  "hour_ns = 3600 * second"

definition in_window :: "reminder_tick \<Rightarrow> cached_event \<Rightarrow> bool" where
  "in_window k e \<longleftrightarrow> \<not> (ce_StartsAt e < Unix (rt_now k + 22 * hour_ns) \<or> ce_StartsAt e > Unix (rt_now k + 26 * hour_ns))"

definition group_name :: "reminder_tick \<Rightarrow> cached_event \<Rightarrow> string" where
  "group_name k e =
     (case GetGroup (rt_group_ok k e) (ce_GroupKey e) (rt_view k e) of
        None \<Rightarrow> ce_GroupKey e
      | Some g \<Rightarrow> if cg_DisplayName g \<noteq> '''' then cg_DisplayName g else ce_GroupKey e)"

definition reminder_text :: "reminder_tick \<Rightarrow> string \<Rightarrow> cached_event \<Rightarrow> string \<times> string" where
  "reminder_text k baseURL e = RenderEventReminder
     \<lparr>er_EventTitle = ce_Title e, er_EventDate = FormatEventDate (ce_StartsAt e), er_EventLocation = ce_Location e,
      er_GroupName = group_name k e,
      er_EventURL = baseURL @ ''/events/'' @ ce_GroupKey e @ ''/'' @ ce_EventID e\<rparr>"

text \<open>The body of the loop: the mails for one event and the new map.\<close>

definition remind_event :: "reminder_tick \<Rightarrow> string \<Rightarrow> string set \<Rightarrow> cached_event \<Rightarrow> reminder_mail list \<times> string set" where
  "remind_event k baseURL sent e =
     (if ce_Cancelled e then ([], sent)
      else if \<not> in_window k e then ([], sent)
      else if eventKey e \<in> sent then ([], sent)
      else
        (case ListRsvpsForEvent (rt_rsvps_ok k e) (ce_GroupKey e) (ce_EventID e) (rt_view k e) of
           None \<Rightarrow> ([], sent)
         | Some rsvps \<Rightarrow>
             if rsvps = [] then ([], insert (eventKey e) sent)
             else (case reminder_text k baseURL e of
                     (subject, body) \<Rightarrow>
                       (map (\<lambda>r. \<lparr>rm_key = eventKey e, rm_to = wr_UserEmail r, rm_subject = subject, rm_body = body\<rparr>) rsvps,
                        insert (eventKey e) sent))))"

fun remind_events :: "reminder_tick \<Rightarrow> string \<Rightarrow> string set \<Rightarrow> cached_event list \<Rightarrow> reminder_mail list \<times> string set" where
  "remind_events k baseURL sent [] = ([], sent)"
| "remind_events k baseURL sent (e # es) =
     (case remind_event k baseURL sent e of
        (ms, sent) \<Rightarrow> (case remind_events k baseURL sent es of (ms', sent) \<Rightarrow> (ms @ ms', sent)))"

definition sendReminders :: "reminder_tick \<Rightarrow> string \<Rightarrow> string set \<Rightarrow> reminder_mail list \<times> string set" where
  "sendReminders k baseURL sent =
     (case ListUpcomingEvents (rt_list_ok k) (rt_store_now k) '''' 200 (rt_store k) of
        None \<Rightarrow> ([], sent)
      | Some events \<Rightarrow> remind_events k baseURL sent events)"

text \<open>The scheduler: a tick at once, then one per quarter of an hour, all with the same map.\<close>

fun reminder_loop :: "string \<Rightarrow> string set \<Rightarrow> reminder_tick list \<Rightarrow> reminder_mail list" where
  "reminder_loop baseURL sent [] = []"
| "reminder_loop baseURL sent (k # ks) =
     (case sendReminders k baseURL sent of (ms, sent) \<Rightarrow> ms @ reminder_loop baseURL sent ks)"

definition startReminderScheduler :: "string \<Rightarrow> reminder_tick list \<Rightarrow> reminder_mail list" where
  "startReminderScheduler baseURL ks = reminder_loop baseURL {} ks"

section \<open>The map of what was sent\<close>

abbreviation mail_ids :: "reminder_mail list \<Rightarrow> (string \<times> string) list" where
  "mail_ids ms \<equiv> map (\<lambda>m. (rm_key m, rm_to m)) ms"

definition view_ok :: "reminder_tick \<Rightarrow> bool" where
  "view_ok k \<longleftrightarrow> (\<forall>e. distinct (map rsvp_key (ws_rsvps (rt_view k e))))"

lemma distinct_emails:
  assumes "distinct (map rsvp_key (ws_rsvps s))" "ListRsvpsForEvent ok g i s = Some rs"
  shows "distinct (map wr_UserEmail rs)"
proof -
  let ?f = "filter (\<lambda>r. wr_GroupKey r = g \<and> wr_EventID r = i \<and> wr_Confirmed r) (ws_rsvps s)"
  have rs: "rs = sort_key wr_CreatedAt ?f" using assms(2) by (simp add: ListRsvpsForEvent_def split: if_splits)
  have "inj_on rsvp_key (set (ws_rsvps s))" "distinct (ws_rsvps s)" using assms(1) by (simp_all add: distinct_map)
  then have "inj_on wr_UserEmail (set ?f)" "distinct ?f" by (auto simp: inj_on_def rsvp_key_def)
  then show ?thesis by (simp add: rs distinct_map)
qed

lemma remind_event_sent:
  assumes "remind_event k b sent e = (ms, sent')" "view_ok k"
  shows "sent \<subseteq> sent'" "\<forall>m \<in> set ms. rm_key m \<notin> sent \<and> rm_key m \<in> sent'" "distinct (mail_ids ms)"
proof -
  have d: "distinct (map wr_UserEmail rs)"
    if "ListRsvpsForEvent (rt_rsvps_ok k e) (ce_GroupKey e) (ce_EventID e) (rt_view k e) = Some rs" for rs
    using distinct_emails [OF _ that] assms(2) by (simp add: view_ok_def)
  show "sent \<subseteq> sent'" "\<forall>m \<in> set ms. rm_key m \<notin> sent \<and> rm_key m \<in> sent'"
    using assms(1) by (auto simp: remind_event_def split: if_splits option.splits prod.splits)
  show "distinct (mail_ids ms)"
    using assms(1) d by (auto simp: remind_event_def distinct_map inj_on_def comp_def split: if_splits option.splits prod.splits)
qed

lemma distinct_mails:
  assumes "distinct (mail_ids ms)" "distinct (mail_ids ms')" "\<forall>m \<in> set ms. rm_key m \<in> A" "\<forall>m \<in> set ms'. rm_key m \<notin> A"
  shows "distinct (mail_ids (ms @ ms'))"
  using assms by auto

lemma remind_events_sent:
  assumes "view_ok k" "remind_events k b sent es = (ms, sent')"
  shows "sent \<subseteq> sent' \<and> (\<forall>m \<in> set ms. rm_key m \<notin> sent \<and> rm_key m \<in> sent') \<and> distinct (mail_ids ms)"
  using assms(2)
proof (induction es arbitrary: sent ms)
  case (Cons e es)
  obtain m1 s1 where 1: "remind_event k b sent e = (m1, s1)" by fastforce
  obtain m2 where 2: "remind_events k b s1 es = (m2, sent')" "ms = m1 @ m2"
    using Cons.prems 1 by (auto split: prod.splits)
  note e = remind_event_sent [OF 1 assms(1)] and es = Cons.IH [OF 2(1)]
  have "distinct (mail_ids (m1 @ m2))" using e es by (intro distinct_mails [where A = s1]) auto
  then show ?case using e es 2(2) by auto
qed simp

lemma sendReminders_sent:
  assumes "view_ok k" "sendReminders k b sent = (ms, sent')"
  shows "sent \<subseteq> sent' \<and> (\<forall>m \<in> set ms. rm_key m \<notin> sent \<and> rm_key m \<in> sent') \<and> distinct (mail_ids ms)"
  using assms(2) remind_events_sent [OF assms(1)] by (auto simp: sendReminders_def split: option.splits)

lemma reminder_loop_distinct:
  "\<forall>k \<in> set ks. view_ok k \<Longrightarrow> (\<forall>m \<in> set (reminder_loop b sent ks). rm_key m \<notin> sent) \<and> distinct (mail_ids (reminder_loop b sent ks))"
proof (induction ks arbitrary: sent)
  case (Cons k ks)
  obtain ms s1 where 1: "sendReminders k b sent = (ms, s1)" by fastforce
  have s: "sent \<subseteq> s1 \<and> (\<forall>m \<in> set ms. rm_key m \<notin> sent \<and> rm_key m \<in> s1) \<and> distinct (mail_ids ms)"
    by (rule sendReminders_sent [OF _ 1]) (use Cons.prems in simp)
  have r: "(\<forall>m \<in> set (reminder_loop b s1 ks). rm_key m \<notin> s1) \<and> distinct (mail_ids (reminder_loop b s1 ks))"
    by (rule Cons.IH) (use Cons.prems in simp)
  have "distinct (mail_ids (ms @ reminder_loop b s1 ks))" by (rule distinct_mails [where A = s1]) (use s r in auto)
  then show ?case using s r 1 by auto
qed simp

section \<open>Who is reminded\<close>

lemma remind_event_mails:
  assumes "\<not> ce_Cancelled e" "in_window k e" "eventKey e \<notin> sent"
    "ListRsvpsForEvent (rt_rsvps_ok k e) (ce_GroupKey e) (ce_EventID e) (rt_view k e) = Some rs"
  shows "map rm_to (fst (remind_event k b sent e)) = map wr_UserEmail rs"
    "\<forall>m \<in> set (fst (remind_event k b sent e)). rm_key m = eventKey e"
    "snd (remind_event k b sent e) = insert (eventKey e) sent"
  using assms by (auto simp: remind_event_def split: prod.splits)

lemma remind_event_keys: "snd (remind_event k b sent e) \<subseteq> insert (eventKey e) sent"
  by (auto simp: remind_event_def split: option.splits prod.splits)

lemma remind_events_reach:
  assumes "e \<in> set es" "distinct (map eventKey es)" "\<not> ce_Cancelled e" "in_window k e" "eventKey e \<notin> sent"
    "ListRsvpsForEvent (rt_rsvps_ok k e) (ce_GroupKey e) (ce_EventID e) (rt_view k e) = Some rs" "r \<in> set rs"
  shows "\<exists>m \<in> set (fst (remind_events k b sent es)). rm_key m = eventKey e \<and> rm_to m = wr_UserEmail r"
  using assms(1,2,5)
proof (induction es arbitrary: sent)
  case (Cons e' es)
  obtain m1 s1 m2 s2 where 1: "remind_event k b sent e' = (m1, s1)" and 2: "remind_events k b s1 es = (m2, s2)" by fastforce
  show ?case
  proof (cases "e' = e")
    case True
    note m = remind_event_mails [OF assms(3,4) Cons.prems(3) assms(6), of b]
    have "wr_UserEmail r \<in> set (map rm_to m1)" using m(1) 1 True assms(7) by simp
    then show ?thesis using m(2) 1 2 True by auto
  next
    case False
    then have in_es: "e \<in> set es" using Cons.prems(1) by simp
    then have "eventKey e \<in> eventKey ` set es" by simp
    then have "eventKey e \<noteq> eventKey e'" using Cons.prems(2) by auto
    moreover have "eventKey e \<notin> s1" using remind_event_keys [of k b sent e'] 1 Cons.prems(3) calculation by auto
    ultimately show ?thesis using in_es Cons.IH [of s1] Cons.prems(2) 1 2 by auto
  qed
qed simp

section \<open>Properties\<close>

text \<open>
  C24: nobody is reminded twice. Over all ticks of the scheduler, whatever the handlers write to the store between
  and during them and whichever reads fail, no address gets two reminders of one event; the tables' primary
  key is all that is assumed of the store.
\<close>

theorem reminders_once:
  assumes "\<forall>k \<in> set ks. view_ok k"
  shows "distinct (mail_ids (startReminderScheduler baseURL ks))"
  unfolding startReminderScheduler_def using reminder_loop_distinct [OF assms] by blast

text \<open>
  C25: a tick reminds everyone it should: for each event that the store lists, that is not cancelled, starts in
  22 to 26 hours and was not dealt with by an earlier tick, every confirmed RSVP gets its mail.
\<close>

theorem reminder_reaches:
  assumes "ListUpcomingEvents (rt_list_ok k) (rt_store_now k) '''' 200 (rt_store k) = Some es"
    "distinct (map eventKey es)" "e \<in> set es" "\<not> ce_Cancelled e" "in_window k e" "eventKey e \<notin> sent"
    "ListRsvpsForEvent (rt_rsvps_ok k e) (ce_GroupKey e) (ce_EventID e) (rt_view k e) = Some rs" "r \<in> set rs"
  shows "\<exists>m \<in> set (fst (sendReminders k baseURL sent)). rm_key m = eventKey e \<and> rm_to m = wr_UserEmail r"
  unfolding sendReminders_def assms(1) option.case
  by (rule remind_events_reach [OF assms(3,2,4,5,6,7,8)])

text \<open>
  An event without a confirmed RSVP when the first tick sees it in the window is marked as sent: whoever confirms
  after that tick, up to 26 hours before the start, is never reminded.
\<close>

lemma late_rsvp_not_reminded:
  assumes "sendReminders k b sent = (ms, sent')" "eventKey e \<in> sent'" "\<forall>k \<in> set ks. view_ok k"
  shows "\<forall>m \<in> set (reminder_loop b sent' ks). rm_key m \<noteq> eventKey e"
  using reminder_loop_distinct [OF assms(3), of b sent'] assms(2) by auto

definition ex_event_row :: event_row where
  "ex_event_row = \<lparr>er_group_key = ''g'', er_event_id = ''e'', er_title = ''Talk'', er_description = '''', er_starts_at = 86400,
     er_location = ''Hall'', er_capacity = 0, er_cancelled = False, er_cached_at = 0\<rparr>"

definition ex_rsvp_row :: rsvp_record where
  "ex_rsvp_row = \<lparr>wr_GroupKey = ''g'', wr_EventID = ''e'', wr_UserEmail = ''a@b'', wr_UserName = ''A'', wr_Token = ''t'',
     wr_Confirmed = True, wr_Attended = False, wr_CreatedAt = 1\<rparr>"

definition ex_web_store :: "rsvp_record list \<Rightarrow> web_store" where
  "ex_web_store rs = empty_web_store\<lparr>ws_events := [ex_event_row], ws_rsvps := rs\<rparr>"

definition ex_tick :: "rsvp_record list \<Rightarrow> reminder_tick" where
  "ex_tick rs = \<lparr>rt_list_ok = True, rt_store_now = 0, rt_store = ex_web_store rs, rt_now = 0, rt_view = (\<lambda>_. ex_web_store rs),
     rt_rsvps_ok = (\<lambda>_. True), rt_group_ok = (\<lambda>_. True)\<rparr>"

lemma ex_tick_facts:
  "ListUpcomingEvents (rt_list_ok (ex_tick rs)) (rt_store_now (ex_tick rs)) '''' 200 (rt_store (ex_tick rs)) = Some [scan_event ex_event_row]"
  "in_window (ex_tick rs) (scan_event ex_event_row)" "\<not> ce_Cancelled (scan_event ex_event_row)"
  "eventKey (scan_event ex_event_row) = ''g/e''"
  "ListRsvpsForEvent (rt_rsvps_ok (ex_tick rs) e) ''g'' ''e'' (rt_view (ex_tick rs) e) = ListRsvpsForEvent True ''g'' ''e'' (ex_web_store rs)"
  by (simp_all add: ex_tick_def ex_web_store_def ListUpcomingEvents_def empty_web_store_def ex_event_row_def Unix_def
      in_window_def scan_event_def hour_ns_def second_def eventKey_def)

theorem reminders_once_witness:
  "distinct (mail_ids (startReminderScheduler ''http://h'' [ex_tick [], ex_tick [ex_rsvp_row]]))"
  by (rule reminders_once) (simp add: view_ok_def ex_tick_def ex_web_store_def)

theorem reminder_reaches_witness:
  "\<exists>m \<in> set (fst (sendReminders (ex_tick [ex_rsvp_row]) ''http://h'' {})). rm_key m = ''g/e'' \<and> rm_to m = ''a@b''"
  using reminder_reaches [OF ex_tick_facts(1), of "scan_event ex_event_row" "[ex_rsvp_row]" "{}" "[ex_rsvp_row]" ex_rsvp_row]
    ex_tick_facts(2,3,4)
  by (simp add: ex_tick_def ex_web_store_def ListRsvpsForEvent_def ex_rsvp_row_def scan_event_def ex_event_row_def)

text \<open>The scheduler on the event above: without RSVPs at the first tick, nothing is ever sent.\<close>

lemma late_rsvp_example:
  "startReminderScheduler ''http://h'' [ex_tick [], ex_tick [ex_rsvp_row], ex_tick [ex_rsvp_row]] = []"
proof -
  have r: "ListRsvpsForEvent True ''g'' ''e'' (ex_web_store []) = Some []"
    by (simp add: ListRsvpsForEvent_def ex_web_store_def empty_web_store_def)
  have g: "ce_GroupKey (scan_event ex_event_row) = ''g''" "ce_EventID (scan_event ex_event_row) = ''e''"
    by (simp_all add: scan_event_def ex_event_row_def)
  have 1: "sendReminders (ex_tick []) b {} = ([], {''g/e''})" for b
    by (simp add: sendReminders_def ex_tick_facts remind_event_def g r)
  have 2: "sendReminders (ex_tick rs) b {''g/e''} = ([], {''g/e''})" for b rs
    by (simp add: sendReminders_def ex_tick_facts remind_event_def)
  show ?thesis by (simp add: startReminderScheduler_def 1 2)
qed

end
