(* ===== verification/WebServer.thy ===== *)
theory WebServer
  imports Email WebStore ProductStore
begin

text \<open>
  The web frontend, src/internal/web/: the middleware that every request passes (middleware.go), the handlers
  (handlers.go), the reads of the product store with the local cache behind it (server.go). A handler
  takes the environment of one run - clock, random tokens, whether each call of the database succeeds -, the
  request and the state, and gives the response with the mails it sent and the new state. The state
  is the SQLite store and the store of the product service, if there is one. Pages are the data given to their templates.
\<close>

section \<open>Requests, environment, responses\<close>

record web_request =
  rq_method :: string
  rq_path :: "string \<Rightarrow> string"
  rq_form :: "string \<Rightarrow> string"
  rq_query :: "string \<Rightarrow> string"
  rq_header :: "string \<Rightarrow> string"
  rq_cookies :: "(string \<times> string) list"
  rq_tls :: bool
  rq_host :: string

text \<open>\<open>we_tokens i\<close> is the token of the i-th call of generateToken, \<open>we_db m i\<close> whether the i-th call of the
  store's method \<open>m\<close> succeeds.\<close>

record web_env =
  we_now :: go_time
  we_wall :: go_time
  we_timestamp :: timestamp
  we_csrf :: string
  we_tokens :: "nat \<Rightarrow> string"
  we_key :: "bytes option"
  we_db :: "string \<Rightarrow> nat \<Rightarrow> bool"
  we_baseURL :: string
  we_activitypub :: bool

record web_state =
  wb_store :: web_store
  wb_product :: "store option"

record rsvp_view =
  rv_GroupKey :: string
  rv_EventID :: string
  rv_EventTitle :: string
  rv_StartsAt :: int
  rv_Confirmed :: bool
  rv_Token :: string

record ticket_view =
  tv_TicketID :: string
  tv_Name :: string
  tv_Price :: "money option"
  tv_Capacity :: u64
  tv_Sold :: u64

record dashboard_event =
  de_EventID :: string
  de_Title :: string
  de_StartsAt :: int
  de_RsvpCount :: nat
  de_TicketSold :: nat
  de_EventRevenue :: money
  de_Attendees :: "(string \<times> string \<times> bool) list"
  de_Capacity :: int
  de_CheckedIn :: nat

record home_page =
  hp_Groups :: "cached_group list"
  hp_Events :: "cached_event list"
  hp_TodayEvents :: "cached_event list"
  hp_WeekEvents :: "cached_event list"
  hp_LaterEvents :: "cached_event list"
  hp_Query :: string
  hp_DateFilter :: string
  hp_TotalEvents :: nat
  hp_TotalGroups :: nat

datatype web_error_text = LengthError length_error | TextError string | RuleError recurrence_error

datatype web_page =
    HomePage home_page
  | GroupPage cached_group "cached_event list" "cached_event list"
  | EventPage cached_event cached_group nat "ticket_view list"
  | MyRsvpsPage string "rsvp_view list"
  | RsvpPage rsvp_record string
  | DashboardPage string "dashboard_event list" money nat
  | LoginPage
  | NewGroupPage "(string \<times> string \<times> string \<times> string \<times> length_error) option"
  | CheckoutPage order_record string string
  | RsvpFragment string
  | RsvpConfirmedFragment
  | EventCreatedFragment string string string
  | ErrorFragment web_error_text

datatype web_body =
    Page web_page
  | HttpError nat string
  | NotFoundPage
  | CsrfRejected
  | Redirect string
  | Download string string string
  | Crash

record web_response =
  wp_body :: web_body
  wp_cookies :: "(string \<times> string) list"
  wp_mails :: "(string \<times> string \<times> string) list"
  wp_deliver :: "(product_event \<times> string) option"

definition reply :: "web_body \<Rightarrow> web_response" where
  "reply b = \<lparr>wp_body = b, wp_cookies = [], wp_mails = [], wp_deliver = None\<rparr>"

definition redirect :: "string \<Rightarrow> web_response" where
  "redirect target = reply (Redirect target)"

definition error_fragment :: "string \<Rightarrow> web_response" where
  "error_fragment msg = reply (Page (ErrorFragment (TextError msg)))"

type_synonym web_handler = "web_env \<Rightarrow> web_request \<Rightarrow> web_state \<Rightarrow> web_response \<times> web_state"

section \<open>Middleware\<close>

definition SessionCookieName :: string where "SessionCookieName = ''fedmeetup_session''"
definition CSRFCookieName :: string where "CSRFCookieName = ''fedmeetup_csrf''"
definition CSRFHeaderName :: string where "CSRFHeaderName = ''X-CSRF-Token''"
definition CSRFFormField :: string where "CSRFFormField = ''csrf_token''"

text \<open>The first cookie of the name.\<close>

definition Cookie :: "web_request \<Rightarrow> string \<Rightarrow> string option" where
  "Cookie r name = map_of (rq_cookies r) name"

definition validateCSRF :: "web_request \<Rightarrow> bool" where
  "validateCSRF r =
     (case Cookie r CSRFCookieName of
        None \<Rightarrow> False
      | Some cookie \<Rightarrow>
          if cookie = '''' then False
          else if rq_form r CSRFFormField \<noteq> '''' then subtleEqual (rq_form r CSRFFormField) cookie
          else if rq_header r CSRFHeaderName \<noteq> '''' then subtleEqual (rq_header r CSRFHeaderName) cookie
          else False)"

definition csrfTokenFromRequest :: "web_request \<Rightarrow> string" where
  "csrfTokenFromRequest r = (case Cookie r CSRFCookieName of None \<Rightarrow> '''' | Some c \<Rightarrow> c)"

definition state_changing :: "string \<Rightarrow> bool" where
  "state_changing m \<longleftrightarrow> m = ''POST'' \<or> m = ''PUT'' \<or> m = ''DELETE''"

text \<open>The request the handlers see: a missing or empty cookie is replaced by a fresh one, added after those sent.\<close>

definition needs_cookie :: "web_request \<Rightarrow> bool" where
  "needs_cookie r \<longleftrightarrow> Cookie r CSRFCookieName = None \<or> Cookie r CSRFCookieName = Some ''''"

definition with_cookie :: "web_env \<Rightarrow> web_request \<Rightarrow> web_request" where
  "with_cookie E r = (if needs_cookie r then r\<lparr>rq_cookies := rq_cookies r @ [(CSRFCookieName, we_csrf E)]\<rparr> else r)"

definition add_cookies :: "(string \<times> string) list \<Rightarrow> web_response \<Rightarrow> web_response" where
  "add_cookies cs p = p\<lparr>wp_cookies := cs @ wp_cookies p\<rparr>"

definition csrfMiddleware :: "web_handler \<Rightarrow> web_handler" where
  "csrfMiddleware h E r s =
     (let cs = (if needs_cookie r then [(CSRFCookieName, we_csrf E)] else []); r = with_cookie E r
      in if state_changing (rq_method r) \<and> \<not> validateCSRF r then (add_cookies cs (reply CsrfRejected), s)
         else (case h E r s of (p, s') \<Rightarrow> (add_cookies cs p, s')))"

definition isAuthenticated :: "web_env \<Rightarrow> web_request \<Rightarrow> web_state \<Rightarrow> string option" where
  "isAuthenticated E r s =
     (case Cookie r SessionCookieName of
        None \<Rightarrow> None
      | Some c \<Rightarrow>
          if c = '''' then None else ValidateSession (we_db E ''ValidateSession'' 0) (we_now E) c (wb_store s))"

definition setSessionCookie :: "string \<Rightarrow> web_response \<Rightarrow> web_response" where
  "setSessionCookie token p = p\<lparr>wp_cookies := wp_cookies p @ [(SessionCookieName, token)]\<rparr>"

definition clearSessionCookie :: "web_response \<Rightarrow> web_response" where
  "clearSessionCookie p = p\<lparr>wp_cookies := wp_cookies p @ [(SessionCookieName, '''')]\<rparr>"

section \<open>The product store and the cache behind it\<close>

definition starts_seconds :: "product_event \<Rightarrow> int" where
  "starts_seconds e = (case pe_StartsAt e of None \<Rightarrow> 0 | Some t \<Rightarrow> ts_seconds t)"

definition cached_from_product :: "string \<Rightarrow> product_event \<Rightarrow> cached_event" where
  "cached_from_product groupKey e =
     \<lparr>ce_GroupKey = groupKey, ce_EventID = pe_EventId e, ce_Title = pe_Title e, ce_Description = pe_Description e,
      ce_StartsAt = starts_seconds e, ce_Location = pe_Location e, ce_Capacity = sint (pe_Capacity e),
      ce_Cancelled = pe_Cancelled e, ce_RsvpCount = 0\<rparr>"

definition product_event_of :: "web_state \<Rightarrow> string \<Rightarrow> product_event option" where
  "product_event_of s eventID = (case wb_product s of None \<Rightarrow> None | Some p \<Rightarrow> ProductStore.GetEvent p eventID)"

definition eventFromProduct :: "bool \<Rightarrow> web_state \<Rightarrow> string \<Rightarrow> string \<Rightarrow> cached_event option" where
  "eventFromProduct ok s groupKey eventID =
     (case product_event_of s eventID of
        Some e \<Rightarrow> Some (cached_from_product groupKey e)
      | None \<Rightarrow> WebStore.GetEvent ok groupKey eventID (wb_store s))"

definition groupFromProduct :: "bool \<Rightarrow> web_state \<Rightarrow> string \<Rightarrow> cached_group option" where
  "groupFromProduct ok s groupID =
     (case (case wb_product s of None \<Rightarrow> None | Some p \<Rightarrow> ProductStore.GetGroup p groupID) of
        Some g \<Rightarrow> Some \<lparr>cg_GroupKey = pg_GroupId g, cg_CanonicalName = pg_CanonicalName g,
          cg_DisplayName = pg_DisplayName g, cg_Description = pg_Description g, cg_MemberCount = pg_MemberCount g,
          cg_CreatedAt = (case pg_CreatedAt g of None \<Rightarrow> 0 | Some t \<Rightarrow> ts_seconds t + ts_nanos t div second)\<rparr>
      | None \<Rightarrow> WebStore.GetGroup ok groupID (wb_store s))"

definition put_store :: "web_state \<Rightarrow> web_store option \<Rightarrow> web_state" where
  "put_store s w = (case w of None \<Rightarrow> s | Some w \<Rightarrow> s\<lparr>wb_store := w\<rparr>)"

text \<open>syncEventsFromProduct stops at the first statement that fails.\<close>

fun sync_events :: "web_env \<Rightarrow> nat \<Rightarrow> string \<Rightarrow> product_event list \<Rightarrow> web_store \<Rightarrow> web_store" where
  "sync_events E i groupID [] w = w"
| "sync_events E i groupID (e # es) w =
     (case UpsertEvent (we_db E ''UpsertEvent'' i) (we_now E) (cached_from_product groupID e) w of
        None \<Rightarrow> w
      | Some w' \<Rightarrow> sync_events E (i + 1) groupID es w')"

definition syncEventsFromProduct :: "web_env \<Rightarrow> string \<Rightarrow> web_state \<Rightarrow> web_state" where
  "syncEventsFromProduct E groupID s =
     (case wb_product s of
        None \<Rightarrow> s
      | Some p \<Rightarrow> s\<lparr>wb_store := sync_events E 0 groupID (EventsForGroup p groupID) (wb_store s)\<rparr>)"

text \<open>The loop of the public pages that overwrites cached events with those of the product store.\<close>

definition enrich :: "web_state \<Rightarrow> cached_event \<Rightarrow> cached_event" where
  "enrich s e =
     (case product_event_of s (ce_EventID e) of
        None \<Rightarrow> e
      | Some pe \<Rightarrow> e\<lparr>ce_Title := pe_Title pe, ce_Description := pe_Description pe,
          ce_Location := (if pe_Location pe \<noteq> '''' then pe_Location pe else ce_Location e),
          ce_Capacity := sint (pe_Capacity pe), ce_Cancelled := pe_Cancelled pe\<rparr>)"

definition baseURL :: "web_request \<Rightarrow> string" where
  "baseURL r = (if rq_tls r then ''https'' else ''http'') @ ''://'' @ rq_host r"

definition absoluteBaseURL :: "web_env \<Rightarrow> web_request \<Rightarrow> string" where
  "absoluteBaseURL E r = (if we_baseURL E \<noteq> '''' then we_baseURL E else baseURL r)"

section \<open>Public pages\<close>

definition or_empty :: "'a list option \<Rightarrow> 'a list" where
  "or_empty x = (case x of None \<Rightarrow> [] | Some l \<Rightarrow> l)"

definition or_zero :: "nat option \<Rightarrow> nat" where
  "or_zero x = (case x of None \<Rightarrow> 0 | Some n \<Rightarrow> n)"

definition Contains :: "string \<Rightarrow> string \<Rightarrow> bool" where
  "Contains s sub \<longleftrightarrow> list_ex (\<lambda>i. take (length sub) (drop i s) = sub) [0..<length s + 1]"

definition count_rsvps :: "web_env \<Rightarrow> nat \<Rightarrow> web_state \<Rightarrow> cached_event \<Rightarrow> nat" where
  "count_rsvps E i s e = or_zero (RsvpCount (we_db E ''RsvpCount'' i) (ce_GroupKey e) (ce_EventID e) (wb_store s))"

text \<open>The loop of handleHome that splits the events; \<open>i\<close> counts its calls of RsvpCount.\<close>

fun split_events :: "web_env \<Rightarrow> web_state \<Rightarrow> int \<Rightarrow> nat \<Rightarrow> cached_event list
    \<Rightarrow> cached_event list \<times> cached_event list \<times> cached_event list" where
  "split_events E s now i [] = ([], [], [])"
| "split_events E s now i (e # es) =
     (if ce_Cancelled e then
        (case split_events E s now i es of (today, week, later) \<Rightarrow> (today, week, e # later))
      else
        (let diff = ce_StartsAt e - now
         in if diff < 0 then split_events E s now i es
            else
              (let e = e\<lparr>ce_RsvpCount := count_rsvps E i s e\<rparr>
               in case split_events E s now (i + 1) es of
                    (today, week, later) \<Rightarrow>
                      if diff < 24 * 3600 then (e # today, week, later)
                      else if diff < 7 * 24 * 3600 then (today, e # week, later)
                      else (today, week, e # later))))"

definition handleHome :: web_handler where
  "handleHome E r s =
     (let groups = or_empty (WebStore.ListGroups (we_db E ''ListGroups'' 0) (wb_store s));
          events = or_empty (ListUpcomingEvents (we_db E ''ListUpcomingEvents'' 0) (we_now E) '''' 50 (wb_store s));
          counted = (if wb_product s = None then 0 else length events);
          events = (if wb_product s = None then events
                    else map (\<lambda>(i, e). (enrich s e)\<lparr>ce_RsvpCount := count_rsvps E i s e\<rparr>) (List.enumerate 0 events));
          query = TrimSpace (rq_query r ''q'');
          dateFilter = (if TrimSpace (rq_query r ''when'') = '''' then ''all'' else TrimSpace (rq_query r ''when''));
          groups = (if query = '''' then groups
                    else filter (\<lambda>g. Contains (ToLower (cg_DisplayName g)) (ToLower query)) groups);
          events = (if query = '''' then events
                    else filter (\<lambda>e. Contains (ToLower (ce_Title e)) (ToLower query)) events)
      in case split_events E s (Unix (we_wall E)) counted events of
           (today, week, later) \<Rightarrow>
             (reply (Page (HomePage \<lparr>hp_Groups = groups,
                hp_Events = (if dateFilter = ''today'' then today else if dateFilter = ''week'' then today @ week else events),
                hp_TodayEvents = today, hp_WeekEvents = week, hp_LaterEvents = later, hp_Query = query,
                hp_DateFilter = dateFilter, hp_TotalEvents = length events, hp_TotalGroups = length groups\<rparr>)), s))"

definition handleGroup :: web_handler where
  "handleGroup E r s =
     (let name = rq_path r ''name''
      in if name = '''' then (reply (HttpError 400 ''group name required''), s)
         else
           (case GetGroupByCanonicalName (we_db E ''GetGroupByCanonicalName'' 0) name (wb_store s) of
              None \<Rightarrow> (reply NotFoundPage, s)
            | Some g \<Rightarrow>
                (let events = or_empty (ListUpcomingEvents (we_db E ''ListUpcomingEvents'' 0) (we_now E) (cg_GroupKey g) 20 (wb_store s));
                     events = map (enrich s) events;
                     counted = map (\<lambda>(i, e). e\<lparr>ce_RsvpCount := count_rsvps E i s e\<rparr>) (List.enumerate 0 events);
                     now = Unix (we_now E)
                 in (reply (Page (GroupPage g (filter (\<lambda>e. \<not> ce_StartsAt e < now) counted)
                       (filter (\<lambda>e. ce_StartsAt e < now) counted))), s))))"

definition ticket_view_of :: "ticket \<Rightarrow> ticket_view" where
  "ticket_view_of t = \<lparr>tv_TicketID = tk_TicketId t, tv_Name = tk_Name t, tv_Price = tk_Price t,
     tv_Capacity = tk_Capacity t, tv_Sold = tk_Sold t\<rparr>"

definition handleEvent :: web_handler where
  "handleEvent E r s =
     (let groupKey = rq_path r ''group_key''; eventID = rq_path r ''event_id''
      in if groupKey = '''' \<or> eventID = '''' then (reply (HttpError 400 ''group_key and event_id required''), s)
         else
           (case eventFromProduct (we_db E ''GetEvent'' 0) s groupKey eventID of
              None \<Rightarrow> (reply NotFoundPage, s)
            | Some event \<Rightarrow>
                (let rsvpCount = or_zero (RsvpCount (we_db E ''RsvpCount'' 0) groupKey eventID (wb_store s));
                     grp = (case groupFromProduct (we_db E ''GetGroup'' 0) s groupKey of
                       Some g \<Rightarrow> g
                     | None \<Rightarrow> \<lparr>cg_GroupKey = groupKey, cg_CanonicalName = '''', cg_DisplayName = groupKey,
                         cg_Description = '''', cg_MemberCount = 0, cg_CreatedAt = 0\<rparr>);
                     tickets = (case wb_product s of None \<Rightarrow> [] | Some p \<Rightarrow> map ticket_view_of (TicketsForEvent p eventID))
                 in (reply (Page (EventPage event grp rsvpCount tickets)), s))))"

section \<open>RSVPs\<close>

text \<open>Title, place and start of the event for the mails, and the name of the group.\<close>

definition mail_event :: "bool \<Rightarrow> web_state \<Rightarrow> string \<Rightarrow> string \<Rightarrow> string \<times> string \<times> int" where
  "mail_event ok s groupKey eventID =
     (case eventFromProduct ok s groupKey eventID of
        None \<Rightarrow> (''your event'', '''', 0)
      | Some e \<Rightarrow> (ce_Title e, ce_Location e, ce_StartsAt e))"

definition mail_group :: "bool \<Rightarrow> web_state \<Rightarrow> string \<Rightarrow> string" where
  "mail_group ok s groupKey =
     (case groupFromProduct ok s groupKey of
        None \<Rightarrow> groupKey
      | Some g \<Rightarrow> if cg_DisplayName g \<noteq> '''' then cg_DisplayName g else groupKey)"

definition handleRsvpSubmit :: web_handler where
  "handleRsvpSubmit E r s =
     (let groupKey = rq_path r ''group_key''; eventID = rq_path r ''event_id'';
          email = rq_form r ''email''; name = rq_form r ''name''
      in if groupKey = '''' \<or> eventID = '''' then (error_fragment ''missing event identifier'', s)
         else
           (case validateString ''email'' email 3 256 of
              Some e \<Rightarrow> (reply (Page (ErrorFragment (LengthError e))), s)
            | None \<Rightarrow>
              (case validateString ''name'' name 0 256 of
                 Some e \<Rightarrow> (reply (Page (ErrorFragment (LengthError e))), s)
               | None \<Rightarrow>
                 if eventFromProduct (we_db E ''GetEvent'' 0) s groupKey eventID = None
                 then (error_fragment ''event not found'', s)
                 else
                   (let token = we_tokens E 0;
                        record = \<lparr>wr_GroupKey = groupKey, wr_EventID = eventID, wr_UserEmail = email, wr_UserName = name,
                          wr_Token = token, wr_Confirmed = False, wr_Attended = False, wr_CreatedAt = Unix (we_now E)\<rparr>
                    in case CreateRsvp (we_db E ''CreateRsvp'' 0) (we_now E) record (wb_store s) of
                         None \<Rightarrow> (error_fragment ''failed to create RSVP'', s)
                       | Some w \<Rightarrow>
                           (let s = s\<lparr>wb_store := w\<rparr>;
                                (title, location, starts) = mail_event (we_db E ''GetEvent'' 1) s groupKey eventID;
                                (subject, body) = RenderRsvpConfirm
                                  \<lparr>rc_EventTitle = title, rc_EventDate = FormatEventDate starts, rc_EventLocation = location,
                                   rc_MagicLink = absoluteBaseURL E r @ ''/rsvp/'' @ token,
                                   rc_GroupName = mail_group (we_db E ''GetGroup'' 0) s groupKey\<rparr>
                            in ((reply (Page (RsvpFragment email)))\<lparr>wp_mails := [(email, subject, body)]\<rparr>, s))))))"

definition rsvp_title :: "bool \<Rightarrow> web_state \<Rightarrow> rsvp_record \<Rightarrow> string" where
  "rsvp_title ok s rec =
     (case eventFromProduct ok s (wr_GroupKey rec) (wr_EventID rec) of None \<Rightarrow> ''Unknown event'' | Some e \<Rightarrow> ce_Title e)"

definition handleMyRsvps :: web_handler where
  "handleMyRsvps E r s =
     (let email = TrimSpace (rq_query r ''email'');
          records = (if email = '''' then [] else or_empty (ListRsvpsByEmail (we_db E ''ListRsvpsByEmail'' 0) email (wb_store s)))
      in (reply (Page (MyRsvpsPage email
            (map (\<lambda>(i, rec). \<lparr>rv_GroupKey = wr_GroupKey rec, rv_EventID = wr_EventID rec,
                rv_EventTitle = rsvp_title (we_db E ''GetEvent'' i) s rec, rv_StartsAt = 0,
                rv_Confirmed = wr_Confirmed rec, rv_Token = wr_Token rec\<rparr>) (List.enumerate 0 records)))), s))"

definition handleCancelRsvp :: web_handler where
  "handleCancelRsvp E r s =
     (let email = rq_form r ''email''; groupKey = rq_form r ''group_key''; eventID = rq_form r ''event_id''
      in if email = '''' \<or> groupKey = '''' \<or> eventID = ''''
         then (reply (HttpError 400 ''email, group_key, and event_id required''), s)
         else (redirect (''/my-rsvps?email='' @ email),
           put_store s (WebStore.CancelRsvp (we_db E ''CancelRsvp'' 0) groupKey eventID email (wb_store s))))"

definition handleRsvpConfirm :: web_handler where
  "handleRsvpConfirm E r s =
     (let token = rq_path r ''token''
      in if token = '''' then (reply NotFoundPage, s)
         else (case GetRsvpByToken (we_db E ''GetRsvpByToken'' 0) token (wb_store s) of
                 None \<Rightarrow> (reply NotFoundPage, s)
               | Some rec \<Rightarrow> (reply (Page (RsvpPage rec (rsvp_title (we_db E ''GetEvent'' 0) s rec))), s)))"

definition handleRsvpConfirmPost :: web_handler where
  "handleRsvpConfirmPost E r s =
     (let token = rq_path r ''token''
      in if token = '''' then (error_fragment ''missing token'', s)
         else
           (case ConfirmRsvp (we_db E ''ConfirmRsvp'' 0) (we_db E ''ConfirmRsvp'' 1) token (wb_store s) of
              (None, w) \<Rightarrow> (error_fragment ''invalid or expired token'', s\<lparr>wb_store := w\<rparr>)
            | (Some rec, w) \<Rightarrow>
                (let s = s\<lparr>wb_store := w\<rparr>;
                     (title, location, starts) = mail_event (we_db E ''GetEvent'' 0) s (wr_GroupKey rec) (wr_EventID rec);
                     (subject, body) = RenderRsvpConfirmed
                       \<lparr>rd_EventTitle = title, rd_EventDate = FormatEventDate starts, rd_EventLocation = location,
                        rd_GroupName = mail_group (we_db E ''GetGroup'' 0) s (wr_GroupKey rec),
                        rd_CancelURL = we_baseURL E @ ''/my-rsvps?email='' @ wr_UserEmail rec\<rparr>
                 in ((reply (Page RsvpConfirmedFragment))\<lparr>wp_mails := [(wr_UserEmail rec, subject, body)]\<rparr>, s))))"

section \<open>Tickets and checkout\<close>

definition status_name :: "order_status \<Rightarrow> string" where
  "status_name st = ''ORDER_STATUS_'' @
     (case st of ORDER_UNSPECIFIED \<Rightarrow> ''UNSPECIFIED'' | ORDER_PENDING \<Rightarrow> ''PENDING'' | ORDER_COMPLETED \<Rightarrow> ''COMPLETED''
      | ORDER_REFUNDED \<Rightarrow> ''REFUNDED'' | ORDER_PARTIALLY_REFUNDED \<Rightarrow> ''PARTIALLY_REFUNDED''
      | ORDER_DISPUTED \<Rightarrow> ''DISPUTED'' | ORDER_FAILED \<Rightarrow> ''FAILED'')"

definition amount_of :: "product_order \<Rightarrow> int" where
  "amount_of od = (case od_AmountPaid od of None \<Rightarrow> 0 | Some m \<Rightarrow> sint (mo_Amount m))"

definition handlePurchaseTicket :: web_handler where
  "handlePurchaseTicket E r s =
     (let groupKey = rq_path r ''group_key''; eventID = rq_path r ''event_id'';
          ticketID = rq_form r ''ticket_id''; email = rq_form r ''email''
      in if groupKey = '''' \<or> eventID = '''' then (reply (HttpError 400 ''missing event identifier''), s)
         else if ticketID = '''' then (reply (HttpError 400 ''ticket_id required''), s)
         else if validateString ''email'' email 3 256 \<noteq> None then (reply (HttpError 400 ''valid email required''), s)
         else
           (case wb_product s of
              None \<Rightarrow> (reply (HttpError 500 ''ticketing not configured''), s)
            | Some ps \<Rightarrow>
              (case GetTicket ps ticketID of
                 None \<Rightarrow> (reply (HttpError 404 ''ticket not found''), s)
               | Some ticket \<Rightarrow>
                 (let amount = (case tk_Price ticket of None \<Rightarrow> 0 | Some m \<Rightarrow> mo_Amount m);
                      currency = (case tk_Price ticket of None \<Rightarrow> ''USD''
                        | Some m \<Rightarrow> if mo_Currency m \<noteq> '''' then mo_Currency m else ''USD'');
                      orderID = take 16 (we_tokens E 0);
                      sessionID = ''mock_sess_'' @ orderID
                  in case AtomicPurchaseTicket ps (we_timestamp E) ticketID email orderID sessionID 1 amount currency of
                       ((od, found, soldOut), ps') \<Rightarrow>
                         (let s = s\<lparr>wb_product := Some ps'\<rparr>
                          in if \<not> found then (reply (HttpError 404 ''ticket not found''), s)
                             else if soldOut then (reply (HttpError 409 ''ticket is sold out''), s)
                             else
                               (case od of
                                  None \<Rightarrow> (reply Crash, s)
                                | Some od \<Rightarrow>
                                    (redirect (''/checkout/'' @ od_OrderId od),
                                     put_store s (CreateOrder (we_db E ''CreateOrder'' 0) (we_now E)
                                       \<lparr>wo_OrderID = od_OrderId od, wo_GroupKey = groupKey, wo_EventID = eventID,
                                        wo_Email = email, wo_AmountCents = amount_of od, wo_Status = status_name (od_Status od),
                                        wo_StripeSessionID = od_StripeSessionId od, wo_CreatedAt = 0\<rparr> (wb_store s)))))))))"

definition order_from_product :: "product_order \<Rightarrow> order_record" where
  "order_from_product od = \<lparr>wo_OrderID = od_OrderId od, wo_GroupKey = '''', wo_EventID = '''',
     wo_Email = od_AttendeeEmail od, wo_AmountCents = amount_of od, wo_Status = status_name (od_Status od),
     wo_StripeSessionID = od_StripeSessionId od, wo_CreatedAt = 0\<rparr>"

text \<open>The local copy if there is one, else the order of the product service, which is then copied.\<close>

definition checkout_lookup :: "web_env \<Rightarrow> string \<Rightarrow> web_state \<Rightarrow> (order_record \<times> web_state) option" where
  "checkout_lookup E orderID s =
     (case WebStore.GetOrder (we_db E ''GetOrder'' 0) orderID (wb_store s) of
        Some od \<Rightarrow> Some (od, s)
      | None \<Rightarrow>
          (case (case wb_product s of None \<Rightarrow> None | Some p \<Rightarrow> ProductStore.GetOrder p orderID) of
             None \<Rightarrow> None
           | Some pod \<Rightarrow> Some (order_from_product pod,
               put_store s (CreateOrder (we_db E ''CreateOrder'' 0) (we_now E) (order_from_product pod) (wb_store s)))))"

definition checkout_page :: "web_env \<Rightarrow> web_state \<Rightarrow> order_record \<Rightarrow> web_page" where
  "checkout_page E s od =
     (let title = (if wo_EventID od = '''' then ''Event''
            else (case eventFromProduct (we_db E ''GetEvent'' 0) s (wo_GroupKey od) (wo_EventID od) of
              None \<Rightarrow> ''Event'' | Some e \<Rightarrow> ce_Title e));
          url = (if wo_StripeSessionID od \<noteq> ''''
            then ''https://checkout.stripe.com/c/pay/'' @ wo_StripeSessionID od else '''')
      in CheckoutPage od title url)"

definition handleCheckout :: web_handler where
  "handleCheckout E r s =
     (let orderID = rq_path r ''order_id''
      in if orderID = '''' then (reply (HttpError 400 ''order_id required''), s)
         else
           (case checkout_lookup E orderID s of
              None \<Rightarrow> (reply NotFoundPage, s)
            | Some (od, s) \<Rightarrow>
                if wo_OrderID od = '''' then (reply NotFoundPage, s) else (reply (Page (checkout_page E s od)), s)))"

section \<open>Sessions and groups\<close>

definition login_page :: web_response where
  "login_page = redirect ''/dashboard/login''"

definition week_ttl :: int where
  "week_ttl = 7 * 24 * 3600 * second"

definition handleLogin :: web_handler where
  "handleLogin E r s = (reply (Page LoginPage), s)"

definition handleLoginPost :: web_handler where
  "handleLoginPost E r s =
     (let token = rq_form r ''token''
      in if token = '''' then (reply (HttpError 400 ''token required''), s)
         else
           (case wb_product s of
              None \<Rightarrow> (reply (HttpError 500 ''organizer auth not configured''), s)
            | Some p \<Rightarrow>
              (case GetOrganizerTokenGroup p token of
                 None \<Rightarrow> (reply (HttpError 401 ''invalid token''), s)
               | Some groupID \<Rightarrow>
                 (case CreateSession (we_db E ''CreateSession'' 0) (we_now E) (we_tokens E 0) groupID week_ttl (wb_store s) of
                    None \<Rightarrow> (reply (HttpError 500 ''failed to create session''), s)
                  | Some w \<Rightarrow> (setSessionCookie (we_tokens E 0) (redirect ''/dashboard''), s\<lparr>wb_store := w\<rparr>)))))"

definition handleLogout :: web_handler where
  "handleLogout E r s =
     (clearSessionCookie (redirect ''/''),
      (case Cookie r SessionCookieName of
         None \<Rightarrow> s
       | Some c \<Rightarrow> if c = '''' then s else put_store s (DeleteSession (we_db E ''DeleteSession'' 0) c (wb_store s))))"

definition handleNewGroup :: web_handler where
  "handleNewGroup E r s = (reply (Page (NewGroupPage None)), s)"

definition blank_group :: product_group where
  "blank_group = \<lparr>pg_GroupId = '''', pg_CanonicalName = '''', pg_DisplayName = '''', pg_Description = '''',
     pg_HostingMode = HOSTING_MODE_UNSPECIFIED, pg_HostingTier = HOSTING_TIER_UNSPECIFIED,
     pg_Package = PACKAGE_UNSPECIFIED, pg_CustomDomain = '''', pg_MemberCount = 0, pg_CreatedAt = None\<rparr>"

definition new_group :: "web_request \<Rightarrow> bytes \<Rightarrow> product_group" where
  "new_group r key =
     (let displayName = TrimSpace (rq_form r ''display_name''); groupKey = hex key
      in blank_group\<lparr>pg_GroupId := groupKey,
           pg_CanonicalName := (if length groupKey \<ge> 8 then canonicalizeName displayName @ ''-'' @ take 8 groupKey
             else canonicalizeName displayName),
           pg_DisplayName := displayName, pg_Description := TrimSpace (rq_form r ''description'')\<rparr>)"

text \<open>The group and its organizer token in the product store, if there is one, then the cache; a failure there is ignored.\<close>

definition with_group :: "web_env \<Rightarrow> web_request \<Rightarrow> bytes \<Rightarrow> web_state \<Rightarrow> web_state" where
  "with_group E r key s =
     (let g = new_group r key;
          s = s\<lparr>wb_product := map_option (\<lambda>p. PutOrganizerToken (PutGroup p g) (we_tokens E 0) (hex key)) (wb_product s)\<rparr>
      in put_store s (UpsertGroup (we_db E ''UpsertGroup'' 0) (we_now E)
           \<lparr>cg_GroupKey = hex key, cg_CanonicalName = pg_CanonicalName g, cg_DisplayName = pg_DisplayName g,
            cg_Description = pg_Description g, cg_MemberCount = 0, cg_CreatedAt = 0\<rparr> (wb_store s)))"

definition handleCreateGroup :: web_handler where
  "handleCreateGroup E r s =
     (let displayName = TrimSpace (rq_form r ''display_name''); description = TrimSpace (rq_form r ''description'');
          organizerName = TrimSpace (rq_form r ''organizer_name''); organizerEmail = TrimSpace (rq_form r ''organizer_email'');
          retry = (\<lambda>e. reply (Page (NewGroupPage (Some (displayName, description, organizerName, organizerEmail, e)))))
      in case validateString ''group name'' displayName 1 256 of Some e \<Rightarrow> (retry e, s) | None \<Rightarrow>
         (case validateString ''description'' description 0 4096 of Some e \<Rightarrow> (retry e, s) | None \<Rightarrow>
         (case validateString ''organizer name'' organizerName 1 256 of Some e \<Rightarrow> (retry e, s) | None \<Rightarrow>
         (case validateString ''organizer email'' organizerEmail 3 256 of Some e \<Rightarrow> (retry e, s) | None \<Rightarrow>
         (case we_key E of None \<Rightarrow> (reply (HttpError 500 ''failed to generate group key''), s) | Some key \<Rightarrow>
           (let s = with_group E r key s; sessionToken = we_tokens E 1
            in case CreateSession (we_db E ''CreateSession'' 0) (we_now E) sessionToken (hex key) week_ttl (wb_store s) of
                 None \<Rightarrow> (reply (HttpError 500 ''failed to create session''), s)
               | Some w \<Rightarrow> (setSessionCookie sessionToken (redirect ''/dashboard''), s\<lparr>wb_store := w\<rparr>)))))))"

section \<open>The dashboard\<close>

text \<open>The orders of an event: how many count as sold, the revenue and its currency, and the totals so far.\<close>

definition order_step :: "nat \<times> (u64 \<times> string) \<times> (u64 \<times> string) \<Rightarrow> product_order \<Rightarrow> nat \<times> (u64 \<times> string) \<times> (u64 \<times> string)" where
  "order_step acc od =
     (case acc of (sold, (revenue, cur), (tot, tcur)) \<Rightarrow>
        if od_Status od = ORDER_COMPLETED \<or> od_Status od = ORDER_PENDING then
          (case od_AmountPaid od of
             None \<Rightarrow> (sold + 1, (revenue, cur), (tot, tcur))
           | Some m \<Rightarrow>
               if od_Status od = ORDER_COMPLETED then
                 (sold + 1, (revenue + mo_Amount m, if mo_Currency m \<noteq> '''' then mo_Currency m else cur),
                  (tot + mo_Amount m, if mo_Currency m \<noteq> '''' then mo_Currency m else tcur))
               else (sold + 1, (revenue, cur), (tot, tcur)))
        else acc)"

definition event_orders :: "web_state \<Rightarrow> string \<Rightarrow> product_order list" where
  "event_orders s eventID = (case wb_product s of None \<Rightarrow> [] | Some p \<Rightarrow> OrdersForEvent p eventID)"

definition dashboard_row :: "web_env \<Rightarrow> web_state \<Rightarrow> nat \<Rightarrow> u64 \<times> string \<Rightarrow> cached_event
    \<Rightarrow> dashboard_event \<times> (u64 \<times> string)" where
  "dashboard_row E s i tot e =
     (let recs = or_empty (ListRsvpsForEvent (we_db E ''ListRsvpsForEvent'' i) (ce_GroupKey e) (ce_EventID e) (wb_store s))
      in case foldl order_step (0, (0, ''USD''), tot) (event_orders s (ce_EventID e)) of
           (sold, (revenue, cur), tot) \<Rightarrow>
             (\<lparr>de_EventID = ce_EventID e, de_Title = ce_Title e, de_StartsAt = ce_StartsAt e,
               de_RsvpCount = count_rsvps E i s e, de_TicketSold = sold,
               de_EventRevenue = \<lparr>mo_Amount = revenue, mo_Currency = cur\<rparr>,
               de_Attendees = map (\<lambda>rec. (wr_UserEmail rec, wr_UserName rec, wr_Attended rec)) recs,
               de_Capacity = (case product_event_of s (ce_EventID e) of None \<Rightarrow> ce_Capacity e | Some pe \<Rightarrow> sint (pe_Capacity pe)),
               de_CheckedIn = length (filter wr_Attended recs)\<rparr>, tot))"

fun dashboard_rows :: "web_env \<Rightarrow> web_state \<Rightarrow> nat \<Rightarrow> u64 \<times> string \<Rightarrow> cached_event list
    \<Rightarrow> dashboard_event list \<times> (u64 \<times> string)" where
  "dashboard_rows E s i tot [] = ([], tot)"
| "dashboard_rows E s i tot (e # es) =
     (case dashboard_row E s i tot e of
        (row, tot) \<Rightarrow> (case dashboard_rows E s (i + 1) tot es of (rows, tot) \<Rightarrow> (row # rows, tot)))"

definition handleDashboard :: web_handler where
  "handleDashboard E r s =
     (case isAuthenticated E r s of
        None \<Rightarrow> (login_page, s)
      | Some groupKey \<Rightarrow>
          (let s = syncEventsFromProduct E groupKey s;
               events = or_empty (ListEventsByGroup (we_db E ''ListEventsByGroup'' 0) groupKey (wb_store s))
           in case dashboard_rows E s 0 (0, ''USD'') events of
                (rows, (tot, cur)) \<Rightarrow>
                  (reply (Page (DashboardPage groupKey rows \<lparr>mo_Amount = tot, mo_Currency = cur\<rparr>
                     (sum_list (map de_RsvpCount rows)))), s)))"

definition blank_event :: product_event where
  "blank_event = \<lparr>pe_EventId = '''', pe_GroupId = '''', pe_Title = '''', pe_Description = '''', pe_StartsAt = None,
     pe_EndsAt = None, pe_Location = '''', pe_VenueId = '''', pe_Visibility = VISIBILITY_UNSPECIFIED, pe_Capacity = 0,
     pe_Package = PACKAGE_UNSPECIFIED, pe_Paid = False, pe_Slug = '''', pe_Cancelled = False, pe_Recurrence = None\<rparr>"

text \<open>timestamppb.New.\<close>

definition new_timestamp :: "go_time \<Rightarrow> timestamp" where
  "new_timestamp t = \<lparr>ts_seconds = Unix t, ts_nanos = t mod second\<rparr>"

text \<open>The fields of the form of a new event that the loop over its instances uses.\<close>

record event_form =
  ef_group :: string
  ef_title :: string
  ef_description :: string
  ef_location :: string
  ef_capacity :: int
  ef_rrule :: string

definition form_event :: "event_form \<Rightarrow> string \<Rightarrow> go_time \<Rightarrow> product_event" where
  "form_event f eventID st = blank_event\<lparr>pe_EventId := eventID, pe_GroupId := ef_group f, pe_Title := ef_title f,
     pe_Description := ef_description f, pe_StartsAt := Some (new_timestamp st), pe_Location := ef_location f,
     pe_Capacity := word_of_int (ef_capacity f)\<rparr>"

text \<open>One instance: the row of the cache, then the event of the product store; \<open>None\<close> if the statement fails.\<close>

definition create_instance :: "web_env \<Rightarrow> event_form \<Rightarrow> nat \<Rightarrow> string \<Rightarrow> go_time \<Rightarrow> web_state \<Rightarrow> web_state option" where
  "create_instance E f i eventID st s =
     (case UpsertEvent (we_db E ''UpsertEvent'' i) (we_now E)
        \<lparr>ce_GroupKey = ef_group f, ce_EventID = eventID, ce_Title = ef_title f, ce_Description = ef_description f,
         ce_StartsAt = Unix st, ce_Location = ef_location f, ce_Capacity = ef_capacity f, ce_Cancelled = False,
         ce_RsvpCount = 0\<rparr> (wb_store s) of
        None \<Rightarrow> None
      | Some w \<Rightarrow>
          Some (s\<lparr>wb_store := w,
            wb_product := map_option (\<lambda>p. PutEvent p ((form_event f eventID st)\<lparr>pe_Slug := eventID,
              pe_Recurrence := (if ef_rrule f \<noteq> '''' then Some \<lparr>rr_Rrule = ef_rrule f, rr_Exceptions = [], rr_Timezone = ''''\<rparr>
                                else None)\<rparr>)) (wb_product s)\<rparr>))"

text \<open>The loop over the start times; whether it ran to its end, and the state in any case.\<close>

fun create_instances :: "web_env \<Rightarrow> event_form \<Rightarrow> nat \<Rightarrow> nat \<Rightarrow> go_time list \<Rightarrow> web_state \<Rightarrow> bool \<times> web_state" where
  "create_instances E f t i [] s = (True, s)"
| "create_instances E f t i (st # sts) s =
     (case create_instance E f i (take 16 (we_tokens E (t + i))) st s of
        None \<Rightarrow> (False, s)
      | Some s' \<Rightarrow> create_instances E f t (i + 1) sts s')"

definition form_capacity :: "string \<Rightarrow> int" where
  "form_capacity s = (case Atoi s of None \<Rightarrow> 0 | Some n \<Rightarrow> if n < 0 then 0 else n)"

text \<open>The start times: those of the rule if there is one, up to two years on, or the one given.\<close>

definition start_times :: "string \<Rightarrow> go_time \<Rightarrow> web_error_text + go_time list" where
  "start_times rrule startsAt =
     (if rrule = '''' then Inr [startsAt]
      else
        (case ParseRRULE rrule of
           Inl e \<Rightarrow> Inl (RuleError e)
         | Inr p \<Rightarrow>
             (case ExpandInstances 1001 p startsAt (AddDate startsAt 2 0 0) of
                None \<Rightarrow> Inr []
              | Some ts \<Rightarrow> if ts = [] then Inl (TextError ''recurrence produced no instances'') else Inr ts)))"

text \<open>The checks of the form: the error to show, or the fields, the number of tokens drawn before the loop, the start times.\<close>

definition read_event_form :: "string \<Rightarrow> web_request \<Rightarrow> web_error_text + event_form \<times> nat \<times> go_time list" where
  "read_event_form groupKey r =
     (let title = rq_form r ''title''; description = rq_form r ''description''; location = rq_form r ''location'';
          kind = rq_form r ''recurrence_type''
      in case validateString ''title'' title 1 1024 of Some e \<Rightarrow> Inl (LengthError e) | None \<Rightarrow>
         (case validateString ''description'' description 0 4096 of Some e \<Rightarrow> Inl (LengthError e) | None \<Rightarrow>
         (case validateString ''location'' location 0 1024 of Some e \<Rightarrow> Inl (LengthError e) | None \<Rightarrow>
         (case parse_form_time (rq_form r ''starts_at'') of None \<Rightarrow> Inl (TextError ''invalid start time'')
          | Some startsAt \<Rightarrow>
            (let rrule = (if kind \<noteq> '''' \<and> kind \<noteq> ''none''
                   then buildRRULE kind startsAt (rq_form r ''recurrence_count'') (rq_form r ''recurrence_until'') else '''')
             in case start_times rrule startsAt of
                  Inl e \<Rightarrow> Inl e
                | Inr sts \<Rightarrow>
                    Inr (\<lparr>ef_group = groupKey, ef_title = title, ef_description = description, ef_location = location,
                          ef_capacity = form_capacity (rq_form r ''capacity''), ef_rrule = rrule\<rparr>,
                         if rrule \<noteq> '''' then 1 else 0, sts))))))"

text \<open>The response once all instances are stored, with the delivery of the first one to the followers.\<close>

definition event_created :: "web_env \<Rightarrow> event_form \<Rightarrow> nat \<Rightarrow> go_time list \<Rightarrow> web_state \<Rightarrow> web_response" where
  "event_created E f t sts s =
     (let first = (if sts = [] then '''' else take 16 (we_tokens E t));
          page = reply (Page (EventCreatedFragment (ef_title f) (ef_group f) first))
      in if \<not> we_activitypub E then page
         else
           (case wb_product s of
              None \<Rightarrow> reply Crash
            | Some p \<Rightarrow>
                (let groupName = (case ProductStore.GetGroup p (ef_group f) of
                       None \<Rightarrow> ef_group f
                     | Some g \<Rightarrow> if pg_CanonicalName g \<noteq> '''' then pg_CanonicalName g else ef_group f)
                 in if sts = [] then page else page\<lparr>wp_deliver := Some (form_event f first (hd sts), groupName)\<rparr>)))"

definition handleCreateEvent :: web_handler where
  "handleCreateEvent E r s =
     (case isAuthenticated E r s of
        None \<Rightarrow> (login_page, s)
      | Some groupKey \<Rightarrow>
          (case read_event_form groupKey r of
             Inl e \<Rightarrow> (reply (Page (ErrorFragment e)), s)
           | Inr (f, t, sts) \<Rightarrow>
               (case create_instances E f t 0 sts s of
                  (stored, s) \<Rightarrow>
                    if \<not> stored then (error_fragment ''failed to create event'', s)
                    else (event_created E f t sts s, s))))"

text \<open>strconv.ParseUint with base 10 and 64 bits.\<close>

definition ParseUint :: "string \<Rightarrow> u64 option" where
  "ParseUint s =
     (let n = foldl (\<lambda>n c. n * 10 + digit_value c) 0 s
      in if s = [] \<or> \<not> list_all (\<lambda>c. digit_value c < 10) s \<or> 2 ^ 64 \<le> n then None else Some (word_of_nat n))"

definition or_zero_uint :: "u64 option \<Rightarrow> u64" where
  "or_zero_uint x = (case x of None \<Rightarrow> 0 | Some n \<Rightarrow> n)"

definition handleCreateTicket :: web_handler where
  "handleCreateTicket E r s =
     (case isAuthenticated E r s of
        None \<Rightarrow> (login_page, s)
      | Some groupKey \<Rightarrow>
        (let eventID = rq_path r ''event_id''; ticketName = rq_form r ''ticket_name''
         in if eventID = '''' then (reply (HttpError 400 ''event_id required''), s)
            else
              (case validateString ''ticket_name'' ticketName 1 256 of
                 Some e \<Rightarrow> (reply (Page (ErrorFragment (LengthError e))), s)
               | None \<Rightarrow>
                 (let ticket = \<lparr>tk_TicketId = ''tick-'' @ take 12 (we_tokens E 0), tk_Name = ticketName,
                        tk_TierType = TIER_UNSPECIFIED,
                        tk_Price = Some \<lparr>mo_Amount = or_zero_uint (ParseUint (rq_form r ''price_cents'')), mo_Currency = ''USD''\<rparr>,
                        tk_Capacity = or_zero_uint (ParseUint (rq_form r ''ticket_capacity'')), tk_Sold = 0,
                        tk_SaleStartsAt = None, tk_SaleEndsAt = None\<rparr>
                  in (redirect ''/dashboard'', s\<lparr>wb_product := map_option (\<lambda>p. PutTicket p eventID ticket) (wb_product s)\<rparr>)))))"

definition handleCheckIn :: web_handler where
  "handleCheckIn E r s =
     (case isAuthenticated E r s of
        None \<Rightarrow> (login_page, s)
      | Some _ \<Rightarrow>
        (let eventID = rq_form r ''event_id''; email = rq_form r ''email''
         in if eventID = '''' \<or> email = '''' then (reply (HttpError 400 ''event_id and email required''), s)
            else
              (let s = (case wb_product s of
                     None \<Rightarrow> s
                   | Some p \<Rightarrow> (case ProductStore.GetRsvp p eventID email of
                       None \<Rightarrow> s
                     | Some rec \<Rightarrow> s\<lparr>wb_product := Some (UpdateRsvp p (rec\<lparr>rs_Attended := True\<rparr>))\<rparr>))
               in (redirect ''/dashboard'',
                   put_store s (MarkRsvpAttended (we_db E ''MarkRsvpAttended'' 0) eventID email (wb_store s))))))"

definition handleCancelEvent :: web_handler where
  "handleCancelEvent E r s =
     (case isAuthenticated E r s of
        None \<Rightarrow> (login_page, s)
      | Some groupKey \<Rightarrow>
        (let eventID = rq_path r ''event_id''
         in if eventID = '''' then (reply (HttpError 400 ''event_id required''), s)
            else
              (let s = (case wb_product s of
                     None \<Rightarrow> s
                   | Some p \<Rightarrow> (case ProductStore.GetEvent p eventID of
                       None \<Rightarrow> s
                     | Some e \<Rightarrow> s\<lparr>wb_product := Some (PutEvent p (e\<lparr>pe_Cancelled := True\<rparr>))\<rparr>))
               in (redirect ''/dashboard'',
                   case WebStore.GetEvent (we_db E ''GetEvent'' 0) groupKey eventID (wb_store s) of
                     None \<Rightarrow> s
                   | Some ce \<Rightarrow> put_store s (UpsertEvent (we_db E ''UpsertEvent'' 0) (we_now E) (ce\<lparr>ce_Cancelled := True\<rparr>) (wb_store s))))))"

section \<open>Calendar, feed and attendee list\<close>

definition event_url :: "web_request \<Rightarrow> string \<Rightarrow> string \<Rightarrow> string" where
  "event_url r groupKey eventID = baseURL r @ ''/events/'' @ groupKey @ ''/'' @ eventID"

text \<open>The lines of an event, each ended by CR LF.\<close>

definition ics_lines :: "string list \<Rightarrow> string" where
  "ics_lines ls = concat (map (\<lambda>l. l @ crlf) ls)"

definition vevent :: "web_env \<Rightarrow> string \<Rightarrow> cached_event \<Rightarrow> string \<Rightarrow> string list" where
  "vevent E eventID e url =
     (let start = ce_StartsAt e * second
      in [''BEGIN:VEVENT'', ''UID:'' @ eventID @ ''@federated-meetup'', ''DTSTAMP:'' @ format_stamp (we_wall E),
          ''DTSTART:'' @ format_stamp start, ''DTEND:'' @ format_stamp (start + 2 * 3600 * second),
          ''SUMMARY:'' @ icsEscape (ce_Title e), ''DESCRIPTION:'' @ icsEscape (ce_Description e),
          ''LOCATION:'' @ icsEscape (ce_Location e), ''URL:'' @ url, ''END:VEVENT''])"

definition handleEventICS :: web_handler where
  "handleEventICS E r s =
     (let groupKey = rq_path r ''group_key''; eventID = rq_path r ''event_id''
      in if groupKey = '''' \<or> eventID = '''' then (reply (HttpError 400 ''group_key and event_id required''), s)
         else
           (case eventFromProduct (we_db E ''GetEvent'' 0) s groupKey eventID of
              None \<Rightarrow> (reply NotFoundPage, s)
            | Some e \<Rightarrow>
                (reply (Download ''text/calendar; charset=utf-8'' (eventID @ ''.ics'')
                   (ics_lines ([''BEGIN:VCALENDAR'', ''VERSION:2.0'', ''PRODID:-//Federated Meetup//Event//EN'',
                      ''CALSCALE:GREGORIAN'', ''METHOD:PUBLISH''] @
                      vevent E eventID e (event_url r groupKey eventID) @ [''END:VCALENDAR'']))), s)))"

text \<open>The events of the feeds: the upcoming ones of the group, brought up to date, less those cancelled or past.\<close>

definition feed_events :: "web_env \<Rightarrow> web_state \<Rightarrow> string \<Rightarrow> int \<Rightarrow> cached_event list" where
  "feed_events E s groupKey limit =
     filter (\<lambda>e. \<not> (ce_StartsAt e < Unix (we_now E) \<or> ce_Cancelled e))
       (map (enrich s) (or_empty (ListUpcomingEvents (we_db E ''ListUpcomingEvents'' 0) (we_now E) groupKey limit (wb_store s))))"

definition handleGroupICS :: web_handler where
  "handleGroupICS E r s =
     (let name = rq_path r ''name''
      in if name = '''' then (reply (HttpError 400 ''group name required''), s)
         else
           (case GetGroupByCanonicalName (we_db E ''GetGroupByCanonicalName'' 0) name (wb_store s) of
              None \<Rightarrow> (reply NotFoundPage, s)
            | Some g \<Rightarrow>
                (reply (Download ''text/calendar; charset=utf-8'' (cg_CanonicalName g @ ''.ics'')
                   (ics_lines ([''BEGIN:VCALENDAR'', ''VERSION:2.0'', ''PRODID:-//Federated Meetup//Group Calendar//EN'',
                      ''CALSCALE:GREGORIAN'', ''METHOD:PUBLISH'', ''X-WR-CALNAME:'' @ icsEscape (cg_DisplayName g),
                      ''X-WR-CALDESC:'' @ icsEscape (cg_Description g)] @
                      concat (map (\<lambda>e. vevent E (ce_EventID e) e (event_url r (ce_GroupKey e) (ce_EventID e)))
                        (feed_events E s (cg_GroupKey g) 100)) @ [''END:VCALENDAR'']))), s)))"

text \<open>The layout 2006-01-02T15:04:05Z.\<close>

definition format_iso :: "go_time \<Rightarrow> string" where
  "format_iso t = format_year (Year t) @ ''-'' @ pad_zero 2 (nat (Month t)) @ ''-'' @ pad_zero 2 (nat (Day t)) @ ''T'' @
     pad_zero 2 (nat (Hour t)) @ '':'' @ pad_zero 2 (nat (Minute t)) @ '':'' @ pad_zero 2 (nat (Second t)) @ ''Z''"

definition attr :: "string \<Rightarrow> string \<Rightarrow> string" where
  "attr name value = name @ ''='' @ quoted value"

definition feed_entry :: "web_request \<Rightarrow> cached_event \<Rightarrow> string" where
  "feed_entry r e =
     (let url = event_url r (ce_GroupKey e) (ce_EventID e);
          summary = xmlEscape (ce_Title e);
          desc = (if xmlEscape (ce_Description e) = '''' then summary else xmlEscape (ce_Description e))
      in ''<entry><title>'' @ summary @ ''</title><link '' @ attr ''href'' url @ ''/><id>'' @ url @ ''</id><updated>'' @
         format_iso (ce_StartsAt e * second) @ ''</updated><summary>'' @ desc @ ''</summary></entry>'')"

definition handleGroupRSS :: web_handler where
  "handleGroupRSS E r s =
     (let name = rq_path r ''name''
      in if name = '''' then (reply (HttpError 400 ''group name required''), s)
         else
           (case GetGroupByCanonicalName (we_db E ''GetGroupByCanonicalName'' 0) name (wb_store s) of
              None \<Rightarrow> (reply NotFoundPage, s)
            | Some g \<Rightarrow>
                (let home = baseURL r @ ''/groups/'' @ cg_CanonicalName g; feedURL = home @ ''/feed.xml''
                 in (reply (Download ''application/atom+xml; charset=utf-8'' ''''
                      (''<?xml '' @ attr ''version'' ''1.0'' @ '' '' @ attr ''encoding'' ''utf-8'' @ ''?><feed '' @
                       attr ''xmlns'' ''http://www.w3.org/2005/Atom'' @ ''><title>'' @ xmlEscape (cg_DisplayName g) @
                       '' '' @ [CHR 0xE2, CHR 0x80, CHR 0x94] @ '' Events</title><link '' @ attr ''href'' feedURL @ '' '' @
                       attr ''rel'' ''self'' @ ''/><link '' @ attr ''href'' home @ ''/><id>'' @ feedURL @ ''</id><updated>'' @
                       format_iso (we_wall E) @ ''</updated>'' @
                       concat (map (feed_entry r) (feed_events E s (cg_GroupKey g) 20)) @ ''</feed>'')), s))))"

definition attendee_row :: "rsvp_record \<Rightarrow> string" where
  "attendee_row rec = csvEscape (wr_UserName rec) @ '','' @ csvEscape (wr_UserEmail rec) @ '','' @
     (if wr_Confirmed rec then ''Confirmed'' else ''Pending'') @ '','' @ (if wr_Attended rec then ''Yes'' else ''No'') @ nl"

definition attendees_csv :: "rsvp_record list \<Rightarrow> string" where
  "attendees_csv recs = ''Name,Email,Status,Checked In'' @ nl @ concat (map attendee_row recs)"

definition handleAttendeesCSV :: web_handler where
  "handleAttendeesCSV E r s =
     (case isAuthenticated E r s of
        None \<Rightarrow> (login_page, s)
      | Some groupKey \<Rightarrow>
        (let eventID = rq_path r ''event_id''
         in if eventID = '''' then (reply (HttpError 400 ''event_id required''), s)
            else (reply (Download ''text/csv; charset=utf-8'' (''attendees-'' @ eventID @ ''.csv'')
                    (attendees_csv (or_empty (ListRsvpsForEvent (we_db E ''ListRsvpsForEvent'' 0) groupKey eventID (wb_store s))))), s)))"

section \<open>Routes\<close>

text \<open>The routes of Server.Routes but for static files and metrics; matching a path is net/http's.\<close>

datatype web_route = RtHome | RtNewGroup | RtCreateGroup | RtGroup | RtGroupICS | RtGroupRSS | RtEvent | RtEventICS
  | RtRsvpSubmit | RtPurchase | RtRsvpConfirm | RtRsvpConfirmPost | RtMyRsvps | RtCancelRsvp | RtDashboard | RtLogin
  | RtLoginPost | RtCreateEvent | RtCreateTicket | RtCancelEvent | RtCheckIn | RtLogout | RtAttendeesCSV | RtCheckout

fun route_handler :: "web_route \<Rightarrow> string \<times> web_handler" where
  "route_handler RtHome = (''GET'', handleHome)"
| "route_handler RtNewGroup = (''GET'', handleNewGroup)"
| "route_handler RtCreateGroup = (''POST'', handleCreateGroup)"
| "route_handler RtGroup = (''GET'', handleGroup)"
| "route_handler RtGroupICS = (''GET'', handleGroupICS)"
| "route_handler RtGroupRSS = (''GET'', handleGroupRSS)"
| "route_handler RtEvent = (''GET'', handleEvent)"
| "route_handler RtEventICS = (''GET'', handleEventICS)"
| "route_handler RtRsvpSubmit = (''POST'', handleRsvpSubmit)"
| "route_handler RtPurchase = (''POST'', handlePurchaseTicket)"
| "route_handler RtRsvpConfirm = (''GET'', handleRsvpConfirm)"
| "route_handler RtRsvpConfirmPost = (''POST'', handleRsvpConfirmPost)"
| "route_handler RtMyRsvps = (''GET'', handleMyRsvps)"
| "route_handler RtCancelRsvp = (''POST'', handleCancelRsvp)"
| "route_handler RtDashboard = (''GET'', handleDashboard)"
| "route_handler RtLogin = (''GET'', handleLogin)"
| "route_handler RtLoginPost = (''POST'', handleLoginPost)"
| "route_handler RtCreateEvent = (''POST'', handleCreateEvent)"
| "route_handler RtCreateTicket = (''POST'', handleCreateTicket)"
| "route_handler RtCancelEvent = (''POST'', handleCancelEvent)"
| "route_handler RtCheckIn = (''POST'', handleCheckIn)"
| "route_handler RtLogout = (''POST'', handleLogout)"
| "route_handler RtAttendeesCSV = (''GET'', handleAttendeesCSV)"
| "route_handler RtCheckout = (''GET'', handleCheckout)"

text \<open>A GET pattern also takes HEAD requests.\<close>

definition method_matches :: "string \<Rightarrow> string \<Rightarrow> bool" where
  "method_matches pattern m \<longleftrightarrow> m = pattern \<or> (pattern = ''GET'' \<and> m = ''HEAD'')"

definition routed :: "web_route \<Rightarrow> web_handler" where
  "routed rt E r s =
     (case route_handler rt of
        (m, h) \<Rightarrow> if method_matches m (rq_method r) then h E r s else (reply (HttpError 405 ''Method Not Allowed''), s))"

definition serve :: "web_route \<Rightarrow> web_handler" where
  "serve rt = csrfMiddleware (routed rt)"

end
