(* ===== verification/ActivityPub.thy ===== *)
theory ActivityPub
  imports WebServer "HOL-Library.Sublist"
begin

text \<open>
  src/internal/activitypub/: the groups as ActivityPub actors. WebFinger, the actor document, the outbox, the inbox
  with its map of followers and the delivery of a new event to them (activitypub.go), the lookup of groups
  (adapter.go), the signature header (signatures.go). Parameters: encoding/json, the HTTP client and the
  answers of the other servers. SHA-256 and base64 of a digest are parameters too.
\<close>

section \<open>signatures.go\<close>

record signature_params =
  sp_KeyID :: string
  sp_Algorithm :: string
  sp_Headers :: "string list"
  sp_Signature :: string

definition no_params :: signature_params where
  "no_params = \<lparr>sp_KeyID = '''', sp_Algorithm = '''', sp_Headers = [], sp_Signature = ''''\<rparr>"

definition signature_part :: "signature_params \<Rightarrow> string \<Rightarrow> signature_params" where
  "signature_part params part =
     (case SplitN2 (CHR ''='') (TrimSpace part) of
        (_, None) \<Rightarrow> params
      | (k, Some v) \<Rightarrow>
          let key = TrimSpace k; val = TrimChar (CHR 0x22) v
          in if key = ''keyId'' then params\<lparr>sp_KeyID := val\<rparr>
             else if key = ''algorithm'' then params\<lparr>sp_Algorithm := val\<rparr>
             else if key = ''headers'' then params\<lparr>sp_Headers := Fields val\<rparr>
             else if key = ''signature'' then params\<lparr>sp_Signature := val\<rparr>
             else params)"

definition ParseSignatureHeader :: "string \<Rightarrow> signature_params option" where
  "ParseSignatureHeader header =
     (let params = foldl signature_part no_params (Split (CHR '','') header)
      in if sp_Signature params = '''' then None else Some params)"

definition VerifyHTTPSignature :: "string \<Rightarrow> string \<Rightarrow> bool" where
  "VerifyHTTPSignature sigHeader body =
     (if sigHeader = '''' then True else ParseSignatureHeader sigHeader \<noteq> None)"

definition verifyDigest :: "(string \<Rightarrow> string) \<Rightarrow> string \<Rightarrow> string \<Rightarrow> bool" where
  "verifyDigest sha256Base64 digest body \<longleftrightarrow> digest = ''SHA-256='' @ sha256Base64 body"

section \<open>The service\<close>

text \<open>The service and, through adapter.go, the product store: groups are looked up by their id.\<close>

record activity_service =
  as_baseURL :: string
  as_followers :: "string \<Rightarrow> string list"

definition TrimSuffix :: "string \<Rightarrow> string \<Rightarrow> string" where
  "TrimSuffix s sfx =
     (if length sfx \<le> length s \<and> drop (length s - length sfx) s = sfx then take (length s - length sfx) s else s)"

definition NewActivityPubService :: "string \<Rightarrow> activity_service" where
  "NewActivityPubService base = \<lparr>as_baseURL = TrimSuffix base ''/'', as_followers = (\<lambda>_. [])\<rparr>"

definition adapter_GetGroup :: "store \<Rightarrow> string \<Rightarrow> product_group option" where
  "adapter_GetGroup p canonicalName = ProductStore.GetGroup p canonicalName"

definition ListEventsByGroup :: "store \<Rightarrow> string \<Rightarrow> product_event list" where
  "ListEventsByGroup p groupID = EventsForGroup p groupID"

section \<open>Documents\<close>

record ap_event =
  ae_ID :: string
  ae_Name :: string
  ae_Summary :: string
  ae_StartTime :: string
  ae_EndTime :: string
  ae_Location :: string
  ae_URL :: string
  ae_AttributedTo :: string

record ap_activity =
  aa_ID :: string
  aa_Actor :: string
  aa_Object :: ap_event
  aa_To :: "string list"

record ap_actor =
  ac_ID :: string
  ac_Inbox :: string
  ac_Outbox :: string
  ac_PreferredUsername :: string
  ac_Name :: string
  ac_Summary :: string
  ac_URL :: string

datatype ap_reply =
    ApError nat string
  | ApFinger string string string
  | ApActor ap_actor
  | ApOutbox string "ap_activity list"
  | ApInbox string
  | ApAccepted
  | ApIgnored

definition public_address :: string where
  "public_address = ''https://www.w3.org/ns/activitystreams#Public''"

definition actorURL :: "activity_service \<Rightarrow> string \<Rightarrow> string" where
  "actorURL a name = as_baseURL a @ ''/ap/actor/'' @ name"

text \<open>RFC3339 of an instant in UTC, with its seconds and no fraction.\<close>

definition rfc3339 :: "timestamp option \<Rightarrow> string" where
  "rfc3339 t = format_iso (case t of None \<Rightarrow> 0 | Some t \<Rightarrow> ts_seconds t * second + ts_nanos t)"

definition create_activity :: "activity_service \<Rightarrow> string \<Rightarrow> string \<Rightarrow> string \<Rightarrow> product_event \<Rightarrow> ap_activity" where
  "create_activity a name startTime endTime e =
     (let eventURL = as_baseURL a @ ''/events/'' @ name @ ''/'' @ pe_EventId e
      in \<lparr>aa_ID = actorURL a name @ ''/activities/create-'' @ pe_EventId e, aa_Actor = actorURL a name,
          aa_Object = \<lparr>ae_ID = eventURL, ae_Name = pe_Title e, ae_Summary = pe_Description e, ae_StartTime = startTime,
            ae_EndTime = endTime, ae_Location = pe_Location e, ae_URL = eventURL, ae_AttributedTo = actorURL a name\<rparr>,
          aa_To = [public_address]\<rparr>)"

definition handleWebFinger :: "activity_service \<Rightarrow> store \<Rightarrow> string \<Rightarrow> ap_reply" where
  "handleWebFinger a p resource =
     (if resource = '''' then ApError 400 ''missing resource''
      else if take 5 resource \<noteq> ''acct:'' then ApError 400 ''unsupported resource type''
      else
        (case SplitN2 (CHR ''@'') (drop 5 resource) of
           (_, None) \<Rightarrow> ApError 400 ''invalid acct format''
         | (groupName, Some _) \<Rightarrow>
             if adapter_GetGroup p groupName = None then ApError 404 ''group not found''
             else ApFinger resource (actorURL a groupName) (as_baseURL a @ ''/groups/'' @ groupName)))"

definition handleActor :: "activity_service \<Rightarrow> store \<Rightarrow> string \<Rightarrow> ap_reply" where
  "handleActor a p name =
     (if name = '''' then ApError 400 ''missing name''
      else
        (case adapter_GetGroup p name of
           None \<Rightarrow> ApError 404 ''group not found''
         | Some g \<Rightarrow> ApActor
             \<lparr>ac_ID = actorURL a name, ac_Inbox = as_baseURL a @ ''/ap/inbox/'' @ name,
              ac_Outbox = as_baseURL a @ ''/ap/outbox/'' @ name, ac_PreferredUsername = name,
              ac_Name = pg_DisplayName g, ac_Summary = pg_Description g, ac_URL = as_baseURL a @ ''/groups/'' @ name\<rparr>))"

definition handleOutbox :: "activity_service \<Rightarrow> store \<Rightarrow> string \<Rightarrow> ap_reply" where
  "handleOutbox a p name =
     (if name = '''' then ApError 400 ''missing name''
      else
        (case adapter_GetGroup p name of
           None \<Rightarrow> ApError 404 ''group not found''
         | Some g \<Rightarrow> ApOutbox (as_baseURL a @ ''/ap/outbox/'' @ name)
             (map (\<lambda>e. create_activity a name (rfc3339 (pe_StartsAt e)) '''' e) (ListEventsByGroup p (pg_GroupId g)))))"

section \<open>The inbox\<close>

text \<open>JSON values, as far as the handler looks at them.\<close>

datatype json = JString string | JObject "(string \<times> json) list" | JOther

definition json_string :: "(string \<times> json) list \<Rightarrow> string \<Rightarrow> string" where
  "json_string obj key = (case map_of obj key of Some (JString s) \<Rightarrow> s | _ \<Rightarrow> '''')"

definition removeFollower :: "string \<Rightarrow> string \<Rightarrow> activity_service \<Rightarrow> activity_service" where
  "removeFollower name actor a = a\<lparr>as_followers := (as_followers a)(name := remove1 actor (as_followers a name))\<rparr>"

text \<open>The activity, once the body was parsed.\<close>

definition receive :: "string \<Rightarrow> (string \<times> json) list \<Rightarrow> activity_service \<Rightarrow> ap_reply \<times> activity_service" where
  "receive name activity a =
     (let kind = json_string activity ''type''; actor = json_string activity ''actor''
      in if kind = ''Follow'' then
           (ApAccepted, if actor = '''' then a
              else a\<lparr>as_followers := (as_followers a)(name := as_followers a name @ [actor])\<rparr>)
         else if kind = ''Undo'' then
           (ApAccepted,
            case map_of activity ''object'' of
              Some (JObject obj) \<Rightarrow> if json_string obj ''type'' = ''Follow'' then removeFollower name actor a else a
            | _ \<Rightarrow> a)
         else (ApIgnored, a))"

record inbox_request =
  ir_method :: string
  ir_name :: string
  ir_signature :: string
  ir_body :: "string option"

definition handleInbox :: "(string \<Rightarrow> (string \<times> json) list option) \<Rightarrow> store \<Rightarrow> inbox_request \<Rightarrow> activity_service
    \<Rightarrow> ap_reply \<times> activity_service" where
  "handleInbox unmarshal p rq a =
     (let name = ir_name rq
      in if name = '''' then (ApError 400 ''missing name'', a)
         else if adapter_GetGroup p name = None then (ApError 404 ''group not found'', a)
         else if ir_method rq = ''GET'' then (ApInbox (as_baseURL a @ ''/ap/inbox/'' @ name), a)
         else if ir_method rq \<noteq> ''POST'' then (ApError 405 ''method not allowed'', a)
         else
           (case ir_body rq of
              None \<Rightarrow> (ApError 400 ''failed to read body'', a)
            | Some body \<Rightarrow>
                if ir_signature rq \<noteq> '''' \<and> \<not> VerifyHTTPSignature (ir_signature rq) body
                then (ApError 401 ''signature verification failed'', a)
                else
                  (case unmarshal body of
                     None \<Rightarrow> (ApError 400 ''failed to parse activity'', a)
                   | Some activity \<Rightarrow> receive name activity a)))"

definition Followers :: "activity_service \<Rightarrow> string \<Rightarrow> string list" where
  "Followers a groupName = as_followers a groupName"

section \<open>Delivery\<close>

text \<open>
  The HTTP client during one delivery; the first number is the position of the follower, the second the attempt.
  A request that cannot be made, a transport error, or the status of the answer; for an actor document also
  the inbox it names, \<open>None\<close> if it does not parse. \<open>hc_done\<close> is whether the context ends during the wait.
\<close>

record http_client =
  hc_get_ok :: "string \<Rightarrow> bool"
  hc_get :: "nat \<Rightarrow> string \<Rightarrow> string + nat \<times> string option"
  hc_post_ok :: "string \<Rightarrow> bool"
  hc_post :: "nat \<Rightarrow> nat \<Rightarrow> string \<Rightarrow> ap_activity \<Rightarrow> string + nat"
  hc_done :: "nat \<Rightarrow> nat \<Rightarrow> bool"

datatype discover_error = CreateRequest | FetchActor string | FetchStatus nat | ParseActor | NoInbox

definition DiscoverInboxURL :: "http_client \<Rightarrow> nat \<Rightarrow> string \<Rightarrow> discover_error + string" where
  "DiscoverInboxURL H i url =
     (if \<not> hc_get_ok H url then Inl CreateRequest
      else
        (case hc_get H i url of
           Inl e \<Rightarrow> Inl (FetchActor e)
         | Inr (status, inbox) \<Rightarrow>
             if status \<noteq> 200 then Inl (FetchStatus status)
             else (case inbox of None \<Rightarrow> Inl ParseActor | Some u \<Rightarrow> if u = '''' then Inl NoInbox else Inr u)))"

datatype post_error = PostRequest | PostTransport string | PostStatus nat | ContextDone

text \<open>The loop of postToInbox: the error at the end, if any, and the attempts that reached the inbox's server or tried to.\<close>

fun post_attempts :: "http_client \<Rightarrow> nat \<Rightarrow> string \<Rightarrow> ap_activity \<Rightarrow> post_error option \<Rightarrow> nat list
    \<Rightarrow> post_error option \<times> nat list" where
  "post_attempts H i url act lastErr [] = (lastErr, [])"
| "post_attempts H i url act lastErr (n # ns) =
     (if n > 0 \<and> hc_done H i n then (Some ContextDone, [])
      else if \<not> hc_post_ok H url then post_attempts H i url act (Some PostRequest) ns
      else
        (case (case hc_post H i n url act of
                 Inl e \<Rightarrow> post_attempts H i url act (Some (PostTransport e)) ns
               | Inr status \<Rightarrow>
                   if 200 \<le> status \<and> status < 300 then (None, [])
                   else if 400 \<le> status \<and> status < 500 \<and> status \<noteq> 429 then (Some (PostStatus status), [])
                   else post_attempts H i url act (Some (PostStatus status)) ns) of
           (e, sent) \<Rightarrow> (e, n # sent)))"

definition postToInbox :: "http_client \<Rightarrow> nat \<Rightarrow> string \<Rightarrow> ap_activity \<Rightarrow> post_error option \<times> nat list" where
  "postToInbox H i url act = post_attempts H i url act None [0, 1, 2]"

datatype delivery_error = DiscoverFailed string discover_error | DeliverFailed string post_error

record delivery_report =
  dr_Successes :: nat
  dr_Failures :: nat
  dr_Errors :: "delivery_error list"

definition empty_report :: delivery_report where
  "empty_report = \<lparr>dr_Successes = 0, dr_Failures = 0, dr_Errors = []\<rparr>"

definition report_failure :: "delivery_error \<Rightarrow> delivery_report \<Rightarrow> delivery_report" where
  "report_failure e r = r\<lparr>dr_Failures := dr_Failures r + 1, dr_Errors := dr_Errors r @ [e]\<rparr>"

text \<open>The report and the requests made, each as the position of the follower and the attempt.\<close>

fun deliver_from :: "http_client \<Rightarrow> ap_activity \<Rightarrow> nat \<Rightarrow> string list \<Rightarrow> delivery_report \<Rightarrow> delivery_report \<times> (nat \<times> nat) list" where
  "deliver_from H act i [] r = (r, [])"
| "deliver_from H act i (f # fs) r =
     (case DiscoverInboxURL H i f of
        Inl e \<Rightarrow> deliver_from H act (i + 1) fs (report_failure (DiscoverFailed f e) r)
      | Inr url \<Rightarrow>
          (case postToInbox H i url act of
             (err, sent) \<Rightarrow>
               (case deliver_from H act (i + 1) fs
                  (case err of None \<Rightarrow> r\<lparr>dr_Successes := dr_Successes r + 1\<rparr>
                   | Some e \<Rightarrow> report_failure (DeliverFailed url e) r) of
                  (r', posts) \<Rightarrow> (r', map (\<lambda>n. (i, n)) sent @ posts))))"

definition DeliverActivity :: "http_client \<Rightarrow> activity_service \<Rightarrow> ap_activity \<Rightarrow> string \<Rightarrow> delivery_report \<times> (nat \<times> nat) list" where
  "DeliverActivity H a act groupID = deliver_from H act 0 (Followers a groupID) empty_report"

definition DeliverNewEvent :: "http_client \<Rightarrow> activity_service \<Rightarrow> product_event \<Rightarrow> string \<Rightarrow> delivery_report \<times> (nat \<times> nat) list" where
  "DeliverNewEvent H a e groupID =
     DeliverActivity H a
       (create_activity a groupID (if pe_StartsAt e = None then '''' else rfc3339 (pe_StartsAt e))
          (if pe_EndsAt e = None then '''' else rfc3339 (pe_EndsAt e)) e) groupID"

section \<open>Deliveries\<close>

definition accepted :: "string + nat \<Rightarrow> bool" where
  "accepted x = (case x of Inl _ \<Rightarrow> False | Inr st \<Rightarrow> 200 \<le> st \<and> st < 300)"

definition retryable :: "string + nat \<Rightarrow> bool" where
  "retryable x = (case x of Inl _ \<Rightarrow> True | Inr st \<Rightarrow> \<not> (200 \<le> st \<and> st < 300) \<and> \<not> (400 \<le> st \<and> st < 500 \<and> st \<noteq> 429))"

lemma post_attempts_order: "post_attempts H i url act e ns = (e', sent) \<Longrightarrow> subseq sent ns"
proof (induction ns arbitrary: e e' sent)
  case (Cons n ns)
  then show ?case by (auto split: if_splits sum.splits prod.splits)
qed simp

lemma post_attempts_policy:
  assumes "post_attempts H i url act e ns = (e', sent)" "ns \<noteq> [] \<or> e \<noteq> None"
  shows "(\<forall>n \<in> set (butlast sent). retryable (hc_post H i n url act)) \<and>
    (e' = None \<longleftrightarrow> sent \<noteq> [] \<and> accepted (hc_post H i (last sent) url act))"
  using assms
proof (induction ns arbitrary: e e' sent)
  case (Cons n ns)
  show ?case
  proof (cases "n > 0 \<and> hc_done H i n \<or> \<not> hc_post_ok H url")
    case True
    then show ?thesis using Cons by (auto split: if_splits)
  next
    case False
    show ?thesis
    proof (cases "hc_post H i n url act")
      case (Inl x)
      then obtain s' where s: "post_attempts H i url act (Some (PostTransport x)) ns = (e', s')" "sent = n # s'"
        using Cons.prems(1) False by (auto split: prod.splits)
      then show ?thesis using Cons.IH [OF s(1)] Inl by (auto simp: retryable_def accepted_def)
    next
      case (Inr st)
      show ?thesis
      proof (cases "retryable (Inr st)")
        case True
        then obtain s' where s: "post_attempts H i url act (Some (PostStatus st)) ns = (e', s')" "sent = n # s'"
          using Cons.prems(1) False Inr by (auto simp: retryable_def split: prod.splits if_splits)
        then show ?thesis using Cons.IH [OF s(1)] True Inr by (auto simp: retryable_def accepted_def)
      next
        case stop: False
        then show ?thesis using Cons.prems(1) False Inr by (auto simp: retryable_def accepted_def split: if_splits)
      qed
    qed
  qed
qed simp

lemma postToInbox_sent:
  assumes "postToInbox H i url act = (e, sent)"
  shows "distinct sent" "set sent \<subseteq> {0, 1, 2}" "length sent \<le> 3"
proof -
  have s: "subseq sent [0, 1, 2]" using post_attempts_order assms by (simp add: postToInbox_def)
  have "sent \<in> set (subseqs [0, 1, 2])" unfolding in_set_subseqs by (rule s)
  then show "distinct sent" by (rule subseqs_distinctD) simp
  show "set sent \<subseteq> {0, 1, 2}"
  proof
    fix n assume "n \<in> set sent"
    then obtain m where "m \<in> set [0, 1, 2]" "n = m" using list_emb_set [OF s] by blast
    then show "n \<in> {0, 1, 2}" by simp
  qed
  show "length sent \<le> 3" using list_emb_length [OF s] by simp
qed

lemma deliver_from_counts:
  "deliver_from H act i fs r = (r', posts) \<Longrightarrow>
    dr_Successes r' + dr_Failures r' = dr_Successes r + dr_Failures r + length fs \<and>
    (length (dr_Errors r) = dr_Failures r \<longrightarrow> length (dr_Errors r') = dr_Failures r')"
proof (induction fs arbitrary: i r r' posts)
  case (Cons f fs)
  then show ?case
    by (auto simp: report_failure_def split: sum.splits prod.splits option.splits dest!: Cons.IH)
qed simp

lemma deliver_from_posts:
  "deliver_from H act i fs r = (r', posts) \<Longrightarrow>
    distinct posts \<and> set posts \<subseteq> {i..<i + length fs} \<times> {0, 1, 2}"
proof (induction fs arbitrary: i r r' posts)
  case (Cons f fs)
  show ?case
  proof (cases "DiscoverInboxURL H i f")
    case (Inl e)
    then show ?thesis using Cons.prems Cons.IH [of "i + 1" _ r' posts] by fastforce
  next
    case (Inr url)
    obtain err sent where p: "postToInbox H i url act = (err, sent)" by fastforce
    obtain r2 posts2 where d: "deliver_from H act (i + 1) fs r2 = (r', posts2)" "posts = map (\<lambda>n. (i, n)) sent @ posts2"
      using Cons.prems Inr p by (auto split: prod.splits)
    note 2 = Cons.IH [OF d(1)]
    have "distinct (map (\<lambda>n. (i, n)) sent)" using postToInbox_sent(1) [OF p] by (simp add: distinct_map inj_on_def)
    moreover have "set (map (\<lambda>n. (i, n)) sent) \<subseteq> {i} \<times> {0, 1, 2}" using postToInbox_sent(2) [OF p] by auto
    moreover have "set (map (\<lambda>n. (i, n)) sent) \<inter> set posts2 = {}" using 2 by auto
    ultimately show ?thesis using 2 d(2) by auto
  qed
qed simp

section \<open>Followers\<close>

text \<open>What the inbox does with the followers of one name, whichever products it is served from.\<close>

inductive inbox_step :: "(string \<Rightarrow> (string \<times> json) list option) \<Rightarrow> store set \<Rightarrow> activity_service \<Rightarrow> activity_service \<Rightarrow> bool"
  for U S where
  "p \<in> S \<Longrightarrow> inbox_step U S a (snd (handleInbox U p rq a))"

lemma receive_followers: "name \<noteq> n \<Longrightarrow> as_followers (snd (receive n act a)) name = as_followers a name"
  by (auto simp: receive_def removeFollower_def Let_def split: option.splits json.splits)

lemma inbox_unknown:
  assumes "(inbox_step U S)\<^sup>*\<^sup>* a a'" "\<forall>p \<in> S. adapter_GetGroup p name = None"
  shows "as_followers a' name = as_followers a name"
  using assms(1)
proof (induction rule: rtranclp_induct)
  case (step b c)
  from step(2) obtain p rq where c: "p \<in> S" "c = snd (handleInbox U p rq b)" by (cases rule: inbox_step.cases) auto
  have "as_followers c name = as_followers b name"
    using assms(2) c receive_followers [of name "ir_name rq" _ b]
    by (cases "ir_name rq = name") (auto simp: handleInbox_def Let_def split: option.splits)
  then show ?case using step by simp
qed simp

lemma mset_follow_undo: "mset (remove1 x (xs @ [x])) = mset xs"
  by simp

section \<open>Properties\<close>

text \<open>
  C30: a delivery accounts for every follower exactly once: successes and failures add up to the number of
  followers, every failure has its error, and no follower's inbox is tried more than three times, no attempt twice.
\<close>

theorem delivery_report_complete:
  assumes "DeliverNewEvent H a e name = (r, posts)"
  shows "dr_Successes r + dr_Failures r = length (Followers a name) \<and> length (dr_Errors r) = dr_Failures r \<and>
    distinct posts \<and> set posts \<subseteq> {0..<length (Followers a name)} \<times> {0, 1, 2}"
proof -
  obtain act where d: "deliver_from H act 0 (Followers a name) empty_report = (r, posts)"
    using assms by (auto simp: DeliverNewEvent_def DeliverActivity_def)
  show ?thesis using deliver_from_counts [OF d] deliver_from_posts [OF d] by (simp add: empty_report_def)
qed

text \<open>
  the retry policy of a delivery: at most three requests; another one only after a transport error or an answer
  that is neither a success nor a client error other than 429; and the delivery counts as done exactly if the
  last request was answered with a success.
\<close>

theorem retry_policy:
  assumes "postToInbox H i url act = (e, sent)"
  shows "length sent \<le> 3 \<and> (\<forall>n \<in> set (butlast sent). retryable (hc_post H i n url act)) \<and>
    (e = None \<longleftrightarrow> sent \<noteq> [] \<and> accepted (hc_post H i (last sent) url act))"
  using postToInbox_sent(3) [OF assms] post_attempts_policy [OF assms [unfolded postToInbox_def]] by simp

text \<open>Nothing ties a request to the actor it names: an unsigned request follows or unfollows in anybody's name.\<close>

lemma unsigned_inbox:
  assumes "adapter_GetGroup p name \<noteq> None" "name \<noteq> ''''" "U body = Some act"
  shows "handleInbox U p \<lparr>ir_method = ''POST'', ir_name = name, ir_signature = '''', ir_body = Some body\<rparr> a = receive name act a"
  using assms by (auto simp: handleInbox_def Let_def)

lemma any_signature_inbox:
  assumes "adapter_GetGroup p name \<noteq> None" "name \<noteq> ''''" "U body = Some act" "ParseSignatureHeader sig \<noteq> None"
  shows "handleInbox U p \<lparr>ir_method = ''POST'', ir_name = name, ir_signature = sig, ir_body = Some body\<rparr> a = receive name act a"
  using assms by (auto simp: handleInbox_def VerifyHTTPSignature_def Let_def)

text \<open>A repeated Follow counts twice, so the follower gets every event twice, and one Undo leaves one entry.\<close>

lemma follow_twice:
  assumes "actor \<noteq> ''''"
  shows "as_followers (snd (receive n [(''type'', JString ''Follow''), (''actor'', JString actor)]
    (snd (receive n [(''type'', JString ''Follow''), (''actor'', JString actor)] a)))) n = as_followers a n @ [actor, actor]"
  using assms by (simp add: receive_def json_string_def)

definition ex_client :: http_client where
  "ex_client = \<lparr>hc_get_ok = (\<lambda>_. True), hc_get = (\<lambda>i u. Inr (200, Some (u @ ''/inbox''))), hc_post_ok = (\<lambda>_. True),
     hc_post = (\<lambda>i n u act. Inr (if n = 0 then 503 else 202)), hc_done = (\<lambda>_ _. False)\<rparr>"

definition ex_service :: activity_service where
  "ex_service = \<lparr>as_baseURL = ''https://fm'', as_followers = (\<lambda>n. if n = ''g'' then [''https://m/alice'', ''https://m/bob''] else [])\<rparr>"

lemma ex_client_posts: "postToInbox ex_client i url act = (None, [0, 1])"
  by (simp add: postToInbox_def ex_client_def)

lemma ex_delivery:
  "DeliverNewEvent ex_client ex_service e ''g'' =
    (\<lparr>dr_Successes = 2, dr_Failures = 0, dr_Errors = []\<rparr>, [(0, 0), (0, 1), (1, 0), (1, 1)])"
proof -
  have d: "DiscoverInboxURL ex_client i f = Inr (f @ ''/inbox'')" if "f \<noteq> ''''" for i f
    using that by (simp add: DiscoverInboxURL_def ex_client_def)
  have f: "Followers ex_service ''g'' = [''https://m/alice'', ''https://m/bob'']" by (simp add: Followers_def ex_service_def)
  show ?thesis
    unfolding DeliverNewEvent_def DeliverActivity_def f by (simp add: d ex_client_posts empty_report_def)
qed

theorem delivery_report_complete_witness:
  "distinct [(0, 0), (0, 1), (1, 0), (1::nat, 1::nat)] \<and> length (Followers ex_service ''g'') = 2"
  using delivery_report_complete [OF ex_delivery] by simp

theorem retry_policy_witness:
  "length [0, 1 :: nat] \<le> 3 \<and> (\<forall>n \<in> {0 :: nat}. retryable (hc_post ex_client 0 n ''https://m'' (create_activity ex_service ''g'' '''' '''' blank_event)))"
  using retry_policy [OF ex_client_posts [of 0 "''https://m''" "create_activity ex_service ''g'' '''' '''' blank_event"]] by simp

end
