(* ===== verification/WebRules.thy ===== *)
theory WebRules
  imports ActivityPub Orders Reminder
begin

text \<open>
  What the web frontend guarantees: its two request guards, what each route can change, the invariant of the state
  that every request keeps (with the requests of the product service and the payment provider interleaved), and the
  documents it serves.
\<close>

section \<open>The guards\<close>

definition token_matches :: "web_request \<Rightarrow> bool" where
  "token_matches r \<longleftrightarrow> (\<exists>c. Cookie r CSRFCookieName = Some c \<and> c \<noteq> '''' \<and>
     (rq_form r CSRFFormField = c \<or> (rq_form r CSRFFormField = '''' \<and> rq_header r CSRFHeaderName = c)))"

lemma validateCSRF_iff: "validateCSRF r \<longleftrightarrow> token_matches r"
  by (auto simp: validateCSRF_def token_matches_def subtleEqual_iff split: option.splits)

lemma serve_cases:
  obtains (rejected) "state_changing (rq_method r)" "\<not> token_matches (with_cookie E r)" "snd (serve rt E r s) = s"
      "wp_body (fst (serve rt E r s)) = CsrfRejected" "wp_mails (fst (serve rt E r s)) = []"
  | (not_allowed) "snd (serve rt E r s) = s" "wp_body (fst (serve rt E r s)) = HttpError 405 ''Method Not Allowed''"
  | (handled) m h where "route_handler rt = (m, h)" "method_matches m (rq_method r)"
      "snd (serve rt E r s) = snd (h E (with_cookie E r) s)"
      "wp_body (fst (serve rt E r s)) = wp_body (fst (h E (with_cookie E r) s))"
proof -
  obtain m h where mh: "route_handler rt = (m, h)" by fastforce
  have meth: "rq_method (with_cookie E r) = rq_method r" by (simp add: with_cookie_def)
  show thesis
  proof (cases "state_changing (rq_method r) \<and> \<not> validateCSRF (with_cookie E r)")
    case True
    then have "serve rt E r s = (add_cookies (if needs_cookie r then [(CSRFCookieName, we_csrf E)] else []) (reply CsrfRejected), s)"
      by (simp add: serve_def csrfMiddleware_def Let_def meth)
    then show thesis using True by (intro rejected) (simp_all add: validateCSRF_iff add_cookies_def reply_def)
  next
    case ok: False
    show thesis
    proof (cases "method_matches m (rq_method r)")
      case True
      then show thesis using ok
        by (intro handled [OF mh])
          (auto simp: serve_def csrfMiddleware_def Let_def meth routed_def mh add_cookies_def split: prod.splits)
    next
      case False
      then show thesis using ok
        by (intro not_allowed)
          (auto simp: serve_def csrfMiddleware_def Let_def meth routed_def mh add_cookies_def reply_def)
    qed
  qed
qed

section \<open>What a request changes\<close>

text \<open>The state that belongs to people: everything but the cached events and the local copies of orders.\<close>

definition same_people :: "web_state \<Rightarrow> web_state \<Rightarrow> bool" where
  "same_people s s' \<longleftrightarrow> wb_product s' = wb_product s \<and> ws_groups (wb_store s') = ws_groups (wb_store s) \<and>
     ws_rsvps (wb_store s') = ws_rsvps (wb_store s) \<and> ws_sessions (wb_store s') = ws_sessions (wb_store s)"

lemma same_people_refl [simp]: "same_people s s"
  by (simp add: same_people_def)

lemma UpsertEvent_tables:
  "UpsertEvent ok now e w = Some w' \<Longrightarrow> ws_groups w' = ws_groups w \<and> ws_rsvps w' = ws_rsvps w \<and> ws_sessions w' = ws_sessions w \<and>
    ws_orders w' = ws_orders w"
  by (auto simp: UpsertEvent_def split: if_splits)

lemma sync_events_tables:
  "ws_groups (sync_events E i g es w) = ws_groups w \<and> ws_rsvps (sync_events E i g es w) = ws_rsvps w \<and>
   ws_sessions (sync_events E i g es w) = ws_sessions w \<and> ws_orders (sync_events E i g es w) = ws_orders w"
proof (induction E i g es w rule: sync_events.induct)
  case (2 E i g e es w)
  then show ?case by (auto dest: UpsertEvent_tables split: option.splits)
qed simp

lemma CreateOrder_tables:
  "CreateOrder ok now od w = Some w' \<Longrightarrow> ws_groups w' = ws_groups w \<and> ws_rsvps w' = ws_rsvps w \<and> ws_sessions w' = ws_sessions w \<and>
    ws_events w' = ws_events w"
  by (auto simp: CreateOrder_def Let_def split: if_splits)

lemma put_store_none [simp]: "put_store s None = s" and put_store_some [simp]: "put_store s (Some w) = s\<lparr>wb_store := w\<rparr>"
  by (simp_all add: put_store_def)

lemma handleDashboard_state:
  "snd (handleDashboard E r s) = (case isAuthenticated E r s of None \<Rightarrow> s | Some g \<Rightarrow> syncEventsFromProduct E g s)"
  by (auto simp: handleDashboard_def Let_def split: option.splits prod.splits)

lemma handleCheckout_state:
  assumes "P s" "\<And>od. P (put_store s (CreateOrder (we_db E ''CreateOrder'' 0) (we_now E) od (wb_store s)))"
  shows "P (snd (handleCheckout E r s))"
proof -
  have "P (snd x)" if "checkout_lookup E i s = Some x" for i x
    using that assms by (auto simp: checkout_lookup_def split: option.splits)
  then show ?thesis using assms(1) by (auto simp: handleCheckout_def Let_def split: option.split)
qed

lemma read_handlers_state:
  "snd (handleHome E r s) = s" "snd (handleNewGroup E r s) = s" "snd (handleGroup E r s) = s" "snd (handleGroupICS E r s) = s"
  "snd (handleGroupRSS E r s) = s" "snd (handleEvent E r s) = s" "snd (handleEventICS E r s) = s"
  "snd (handleRsvpConfirm E r s) = s" "snd (handleMyRsvps E r s) = s" "snd (handleLogin E r s) = s"
  "snd (handleAttendeesCSV E r s) = s"
  subgoal by (simp add: handleHome_def Let_def case_prod_beta)
  subgoal by (simp add: handleNewGroup_def)
  subgoal by (simp add: handleGroup_def Let_def option.case_distrib [of snd] cong: option.case_cong split: option.split)
  subgoal by (simp add: handleGroupICS_def Let_def option.case_distrib [of snd] cong: option.case_cong split: option.split)
  subgoal by (simp add: handleGroupRSS_def Let_def option.case_distrib [of snd] cong: option.case_cong split: option.split)
  subgoal by (simp add: handleEvent_def Let_def option.case_distrib [of snd] cong: option.case_cong split: option.split)
  subgoal by (simp add: handleEventICS_def Let_def option.case_distrib [of snd] cong: option.case_cong split: option.split)
  subgoal by (simp add: handleRsvpConfirm_def Let_def option.case_distrib [of snd] cong: option.case_cong split: option.split)
  subgoal by (simp add: handleMyRsvps_def Let_def)
  subgoal by (simp add: handleLogin_def)
  subgoal by (simp add: handleAttendeesCSV_def Let_def option.case_distrib [of snd] cong: option.case_cong split: option.split)
  done

lemma get_handlers_safe:
  assumes "route_handler rt = (''GET'', h)"
  shows "same_people s (snd (h E r s))"
proof -
  have dash: "same_people s (snd (handleDashboard E r s))"
    by (cases "isAuthenticated E r s"; cases "wb_product s")
      (simp_all add: handleDashboard_state syncEventsFromProduct_def same_people_def sync_events_tables)
  have "same_people s (put_store s (CreateOrder ok now od (wb_store s)))" for ok now od
    by (cases "CreateOrder ok now od (wb_store s)") (auto simp: same_people_def dest: CreateOrder_tables)
  then have checkout: "same_people s (snd (handleCheckout E r s))" by (intro handleCheckout_state [where P = "same_people s"]) simp_all
  have h: "h = snd (route_handler rt)" "fst (route_handler rt) = ''GET''" using assms by simp_all
  show ?thesis unfolding h(1) using h(2) by (cases rt) (simp_all add: read_handlers_state dash checkout)
qed

section \<open>The state-changing handlers\<close>

text \<open>Each lemma lists the states a handler can leave behind.\<close>

definition submitted :: "web_env \<Rightarrow> web_request \<Rightarrow> rsvp_record" where
  "submitted E r = \<lparr>wr_GroupKey = rq_path r ''group_key'', wr_EventID = rq_path r ''event_id'',
     wr_UserEmail = rq_form r ''email'', wr_UserName = rq_form r ''name'', wr_Token = we_tokens E 0, wr_Confirmed = False,
     wr_Attended = False, wr_CreatedAt = Unix (we_now E)\<rparr>"

lemma handleRsvpSubmit_state:
  assumes "P s" "\<And>w. CreateRsvp (we_db E ''CreateRsvp'' 0) (we_now E) (submitted E r) (wb_store s) = Some w \<Longrightarrow> P (s\<lparr>wb_store := w\<rparr>)"
  shows "P (snd (handleRsvpSubmit E r s))"
  using assms by (simp add: handleRsvpSubmit_def submitted_def Let_def case_prod_beta split: option.split)

lemma handleCancelRsvp_state:
  assumes "P s" "\<And>g i em. P (put_store s (WebStore.CancelRsvp (we_db E ''CancelRsvp'' 0) g i em (wb_store s)))"
  shows "P (snd (handleCancelRsvp E r s))"
  using assms by (simp add: handleCancelRsvp_def Let_def)

lemma handleRsvpConfirmPost_state:
  assumes "P s" "rq_path r ''token'' \<noteq> '''' \<Longrightarrow>
    P (s\<lparr>wb_store := snd (ConfirmRsvp (we_db E ''ConfirmRsvp'' 0) (we_db E ''ConfirmRsvp'' 1) (rq_path r ''token'') (wb_store s))\<rparr>)"
  shows "P (snd (handleRsvpConfirmPost E r s))"
  using assms by (simp add: handleRsvpConfirmPost_def Let_def case_prod_beta split: option.split)

lemma handleLoginPost_state:
  assumes "P s" "\<And>p g w. wb_product s = Some p \<Longrightarrow> GetOrganizerTokenGroup p (rq_form r ''token'') = Some g \<Longrightarrow>
    CreateSession (we_db E ''CreateSession'' 0) (we_now E) (we_tokens E 0) g week_ttl (wb_store s) = Some w \<Longrightarrow> P (s\<lparr>wb_store := w\<rparr>)"
  shows "P (snd (handleLoginPost E r s))"
  using assms by (simp add: handleLoginPost_def Let_def split: option.split)

lemma handleLogout_state:
  assumes "P s" "\<And>c. P (put_store s (DeleteSession (we_db E ''DeleteSession'' 0) c (wb_store s)))"
  shows "P (snd (handleLogout E r s))"
  using assms by (simp add: handleLogout_def split: option.split)

lemma handlePurchaseTicket_state:
  assumes "P s" "\<And>p tid em oid ss amt cur od. wb_product s = Some p \<Longrightarrow>
    P (put_store (s\<lparr>wb_product := Some (snd (AtomicPurchaseTicket p (we_timestamp E) tid em oid ss 1 amt cur))\<rparr>)
      (CreateOrder (we_db E ''CreateOrder'' 0) (we_now E) od (wb_store s)))"
    "\<And>p tid em oid ss amt cur. wb_product s = Some p \<Longrightarrow>
    P (s\<lparr>wb_product := Some (snd (AtomicPurchaseTicket p (we_timestamp E) tid em oid ss 1 amt cur))\<rparr>)"
  shows "P (snd (handlePurchaseTicket E r s))"
  using assms by (simp add: handlePurchaseTicket_def Let_def case_prod_beta split: option.split)

lemma handleCreateGroup_state:
  assumes "P s" "\<And>key. we_key E = Some key \<Longrightarrow> P (with_group E r key s)"
    "\<And>key w. we_key E = Some key \<Longrightarrow>
      CreateSession (we_db E ''CreateSession'' 0) (we_now E) (we_tokens E 1) (hex key) week_ttl (wb_store (with_group E r key s)) = Some w \<Longrightarrow>
      P (with_group E r key s\<lparr>wb_store := w\<rparr>)"
  shows "P (snd (handleCreateGroup E r s))"
  using assms by (simp add: handleCreateGroup_def Let_def split: option.split)

lemma create_instances_state:
  assumes "P s" "\<And>s i eventID st s'. P s \<Longrightarrow> create_instance E f i eventID st s = Some s' \<Longrightarrow> P s'"
  shows "P (snd (create_instances E f t i sts s))"
  using assms(1)
proof (induction sts arbitrary: i s)
  case (Cons st sts)
  show ?case
  proof (cases "create_instance E f i (take 16 (we_tokens E (t + i))) st s")
    case None
    then show ?thesis using Cons.prems by simp
  next
    case (Some s')
    then have "P s'" using assms(2) [OF Cons.prems] by blast
    then show ?thesis using Cons.IH [of s' "i + 1"] Some by simp
  qed
qed simp

lemma handleCreateEvent_state:
  assumes "P s" "\<And>f t sts. P (snd (create_instances E f t 0 sts s))"
  shows "P (snd (handleCreateEvent E r s))"
proof (cases "isAuthenticated E r s")
  case None
  then show ?thesis using assms(1) by (simp add: handleCreateEvent_def)
next
  case (Some g)
  show ?thesis
  proof (cases "read_event_form g r")
    case (Inl e)
    then show ?thesis using assms(1) Some by (simp add: handleCreateEvent_def)
  next
    case (Inr x)
    obtain f t sts where x: "x = (f, t, sts)" by (cases x) auto
    have "snd (handleCreateEvent E r s) = snd (create_instances E f t 0 sts s)"
      using Some Inr x by (simp add: handleCreateEvent_def case_prod_beta)
    then show ?thesis using assms(2) by simp
  qed
qed

definition checked_in :: "store \<Rightarrow> string \<Rightarrow> string \<Rightarrow> store" where
  "checked_in p i em = (case ProductStore.GetRsvp p i em of None \<Rightarrow> p | Some rec \<Rightarrow> UpdateRsvp p (rec\<lparr>rs_Attended := True\<rparr>))"

lemma handleCheckIn_state:
  assumes "P s" "\<And>i em. P (put_store (s\<lparr>wb_product := map_option (\<lambda>p. checked_in p i em) (wb_product s)\<rparr>)
    (MarkRsvpAttended (we_db E ''MarkRsvpAttended'' 0) i em (wb_store s)))"
  shows "P (snd (handleCheckIn E r s))"
proof -
  let ?i = "rq_form r ''event_id''" and ?em = "rq_form r ''email''"
  have "(case wb_product s of None \<Rightarrow> s | Some p \<Rightarrow> (case ProductStore.GetRsvp p ?i ?em of None \<Rightarrow> s
      | Some rec \<Rightarrow> s\<lparr>wb_product := Some (UpdateRsvp p (rec\<lparr>rs_Attended := True\<rparr>))\<rparr>)) =
     s\<lparr>wb_product := map_option (\<lambda>p. checked_in p ?i ?em) (wb_product s)\<rparr>"
    by (cases s) (auto simp: checked_in_def split: option.split)
  then show ?thesis using assms by (simp add: handleCheckIn_def Let_def split: option.split)
qed

definition cancelled_in :: "store \<Rightarrow> string \<Rightarrow> store" where
  "cancelled_in p i = (case ProductStore.GetEvent p i of None \<Rightarrow> p | Some e \<Rightarrow> PutEvent p (e\<lparr>pe_Cancelled := True\<rparr>))"

lemma handleCancelEvent_eq:
  assumes "isAuthenticated E r s = Some g" "rq_path r ''event_id'' = i" "i \<noteq> ''''"
  shows "snd (handleCancelEvent E r s) =
    (let s = s\<lparr>wb_product := map_option (\<lambda>p. cancelled_in p i) (wb_product s)\<rparr>
     in case WebStore.GetEvent (we_db E ''GetEvent'' 0) g i (wb_store s) of None \<Rightarrow> s
        | Some ce \<Rightarrow> put_store s (UpsertEvent (we_db E ''UpsertEvent'' 0) (we_now E) (ce\<lparr>ce_Cancelled := True\<rparr>) (wb_store s)))"
proof -
  have "(case wb_product s of None \<Rightarrow> s | Some p \<Rightarrow> (case ProductStore.GetEvent p i of None \<Rightarrow> s
      | Some e \<Rightarrow> s\<lparr>wb_product := Some (PutEvent p (e\<lparr>pe_Cancelled := True\<rparr>))\<rparr>)) =
     s\<lparr>wb_product := map_option (\<lambda>p. cancelled_in p i) (wb_product s)\<rparr>"
    by (cases s) (auto simp: cancelled_in_def split: option.split)
  then show ?thesis using assms by (simp add: handleCancelEvent_def Let_def)
qed

lemma handleCancelEvent_state:
  assumes "P s" "\<And>i. P (s\<lparr>wb_product := map_option (\<lambda>p. cancelled_in p i) (wb_product s)\<rparr>)"
    "\<And>i ce. P (put_store (s\<lparr>wb_product := map_option (\<lambda>p. cancelled_in p i) (wb_product s)\<rparr>)
      (UpsertEvent (we_db E ''UpsertEvent'' 0) (we_now E) ce (wb_store s)))"
  shows "P (snd (handleCancelEvent E r s))"
proof (cases "isAuthenticated E r s = None \<or> rq_path r ''event_id'' = ''''")
  case True
  then show ?thesis using assms(1) by (auto simp: handleCancelEvent_def Let_def split: option.split)
next
  case False
  then obtain g where "isAuthenticated E r s = Some g" by auto
  from handleCancelEvent_eq [OF this refl] False show ?thesis using assms(2,3) by (simp add: Let_def split: option.split)
qed

lemma handleCreateTicket_state:
  assumes "P s" "\<And>ev name price cap. P (s\<lparr>wb_product := map_option (\<lambda>p. PutTicket p ev
    \<lparr>tk_TicketId = ''tick-'' @ take 12 (we_tokens E 0), tk_Name = name, tk_TierType = TIER_UNSPECIFIED, tk_Price = price,
     tk_Capacity = or_zero_uint (ParseUint (rq_form r ''ticket_capacity'')), tk_Sold = 0, tk_SaleStartsAt = None,
     tk_SaleEndsAt = None\<rparr>) (wb_product s)\<rparr>)"
  shows "P (snd (handleCreateTicket E r s))"
  using assms by (simp add: handleCreateTicket_def Let_def split: option.split)

text \<open>All routes at once.\<close>

lemma route_state:
  assumes "P s"
    and order: "\<And>ok now od. P (put_store s (CreateOrder ok now od (wb_store s)))"
    and sync: "\<And>g. P (syncEventsFromProduct E g s)"
    and submit: "\<And>ok now w. rt = RtRsvpSubmit \<Longrightarrow> CreateRsvp ok now (submitted E r) (wb_store s) = Some w \<Longrightarrow> P (s\<lparr>wb_store := w\<rparr>)"
    and cancel: "\<And>ok g i em. P (put_store s (WebStore.CancelRsvp ok g i em (wb_store s)))"
    and confirm: "\<And>ok ok2. rt = RtRsvpConfirmPost \<Longrightarrow> rq_path r ''token'' \<noteq> '''' \<Longrightarrow>
      P (s\<lparr>wb_store := snd (ConfirmRsvp ok ok2 (rq_path r ''token'') (wb_store s))\<rparr>)"
    and login: "\<And>ok p g w. rt = RtLoginPost \<Longrightarrow> wb_product s = Some p \<Longrightarrow> GetOrganizerTokenGroup p (rq_form r ''token'') = Some g \<Longrightarrow>
      CreateSession ok (we_now E) (we_tokens E 0) g week_ttl (wb_store s) = Some w \<Longrightarrow> P (s\<lparr>wb_store := w\<rparr>)"
    and logout: "\<And>ok c. P (put_store s (DeleteSession ok c (wb_store s)))"
    and purchase: "\<And>p tid em oid ss amt cur ok od. wb_product s = Some p \<Longrightarrow>
      P (put_store (s\<lparr>wb_product := Some (snd (AtomicPurchaseTicket p (we_timestamp E) tid em oid ss 1 amt cur))\<rparr>)
        (CreateOrder ok (we_now E) od (wb_store s)))"
    and purchase': "\<And>p tid em oid ss amt cur. wb_product s = Some p \<Longrightarrow>
      P (s\<lparr>wb_product := Some (snd (AtomicPurchaseTicket p (we_timestamp E) tid em oid ss 1 amt cur))\<rparr>)"
    and grp: "\<And>key. rt = RtCreateGroup \<Longrightarrow> we_key E = Some key \<Longrightarrow> P (with_group E r key s)"
    and grp': "\<And>key ok w. rt = RtCreateGroup \<Longrightarrow> we_key E = Some key \<Longrightarrow>
      CreateSession ok (we_now E) (we_tokens E 1) (hex key) week_ttl (wb_store (with_group E r key s)) = Some w \<Longrightarrow>
      P (with_group E r key s\<lparr>wb_store := w\<rparr>)"
    and event: "\<And>f t sts. P (snd (create_instances E f t 0 sts s))"
    and ticket: "\<And>ev name price. P (s\<lparr>wb_product := map_option (\<lambda>p. PutTicket p ev
      \<lparr>tk_TicketId = ''tick-'' @ take 12 (we_tokens E 0), tk_Name = name, tk_TierType = TIER_UNSPECIFIED, tk_Price = price,
       tk_Capacity = or_zero_uint (ParseUint (rq_form r ''ticket_capacity'')), tk_Sold = 0, tk_SaleStartsAt = None,
       tk_SaleEndsAt = None\<rparr>) (wb_product s)\<rparr>)"
    and checkin: "\<And>ok i em. P (put_store (s\<lparr>wb_product := map_option (\<lambda>p. checked_in p i em) (wb_product s)\<rparr>)
      (MarkRsvpAttended ok i em (wb_store s)))"
    and cancelled: "\<And>i. P (s\<lparr>wb_product := map_option (\<lambda>p. cancelled_in p i) (wb_product s)\<rparr>)"
    and cancelled': "\<And>i ok ce. P (put_store (s\<lparr>wb_product := map_option (\<lambda>p. cancelled_in p i) (wb_product s)\<rparr>)
      (UpsertEvent ok (we_now E) ce (wb_store s)))"
  shows "P (snd (snd (route_handler rt) E r s))"
proof -
  have dash: "P (snd (handleDashboard E r s))"
    using assms(1) sync by (cases "isAuthenticated E r s") (simp_all add: handleDashboard_state)
  have created: "P (snd (handleCreateGroup E r s))" if "rt = RtCreateGroup"
    by (rule handleCreateGroup_state [where P = P]) (rule assms(1), rule grp [OF that], assumption, rule grp' [OF that])
  show ?thesis
    by (cases rt)
      (simp_all add: created read_handlers_state assms(1) dash handleCheckout_state [where P = P, OF assms(1) order]
        handleRsvpSubmit_state [where P = P, OF assms(1) submit] handleCancelRsvp_state [where P = P, OF assms(1) cancel]
        handleRsvpConfirmPost_state [where P = P, OF assms(1) confirm] handleLoginPost_state [where P = P, OF assms(1) login]
        handleLogout_state [where P = P, OF assms(1) logout] handlePurchaseTicket_state [where P = P, OF assms(1) purchase purchase']
        handleCreateEvent_state [where P = P, OF assms(1) event]
        handleCreateTicket_state [where P = P, OF assms(1) ticket] handleCheckIn_state [where P = P, OF assms(1) checkin]
        handleCancelEvent_state [where P = P, OF assms(1) cancelled cancelled'])
qed

lemma serve_state:
  assumes "P s" "P (snd (snd (route_handler rt) E (with_cookie E r) s))"
  shows "P (snd (serve rt E r s))"
  by (rule serve_cases [of r E rt s]) (use assms in auto)

lemma with_cookie_same [simp]:
  "rq_path (with_cookie E r) = rq_path r" "rq_form (with_cookie E r) = rq_form r" "submitted E (with_cookie E r) = submitted E r"
  "with_group E (with_cookie E r) = with_group E r"
  by (auto simp: with_cookie_def submitted_def with_group_def new_group_def fun_eq_iff)

section \<open>The invariant of the web state\<close>

definition backed :: "store \<Rightarrow> session_row \<Rightarrow> bool" where
  "backed p x \<longleftrightarrow> (\<exists>tok. GetOrganizerTokenGroup p tok = Some (sr_group_key x))"

definition web_ok :: "web_state \<Rightarrow> bool" where
  "web_ok s \<longleftrightarrow> tables_ok (wb_store s) \<and>
     (\<forall>p. wb_product s = Some p \<longrightarrow> seats_ok p \<and> (\<forall>x \<in> set (ws_sessions (wb_store s)). backed p x))"

text \<open>What the product store keeps when only its tickets, orders, RSVPs or events change.\<close>

definition tokens_grow :: "store \<Rightarrow> store \<Rightarrow> bool" where
  "tokens_grow p p' \<longleftrightarrow> (\<forall>tok g. GetOrganizerTokenGroup p tok = Some g \<longrightarrow> GetOrganizerTokenGroup p' tok = Some g)"

lemma tokens_grow_refl [simp]: "tokens_grow p p"
  by (simp add: tokens_grow_def)

lemma tokens_grow_same: "st_organizerTokens p' = st_organizerTokens p \<Longrightarrow> tokens_grow p p'"
  by (simp add: tokens_grow_def GetOrganizerTokenGroup_def)

lemma untouched_shop:
  assumes "seats_ok p" "st_tickets p' = st_tickets p" "st_orders p' = st_orders p" "st_organizerTokens p' = st_organizerTokens p"
  shows "seats_ok p' \<and> tokens_grow p p'"
  using assms(1) seats_ok_cong [OF assms(2,3)] tokens_grow_same [OF assms(4)] by blast

lemma backed_grow: "backed p x \<Longrightarrow> tokens_grow p p' \<Longrightarrow> backed p' x"
  by (auto simp: backed_def tokens_grow_def)

lemma web_ok_store:
  assumes "web_ok s" "tables_ok w" "set (ws_sessions w) \<subseteq> set (ws_sessions (wb_store s))"
  shows "web_ok (s\<lparr>wb_store := w\<rparr>)"
  using assms by (auto simp: web_ok_def)

lemma web_ok_product:
  assumes "web_ok s" "\<And>p. wb_product s = Some p \<Longrightarrow> seats_ok p \<Longrightarrow> seats_ok (f p) \<and> tokens_grow p (f p)"
  shows "web_ok (s\<lparr>wb_product := map_option f (wb_product s)\<rparr>)"
  using assms backed_grow by (fastforce simp: web_ok_def)

lemma purchase_tokens: "st_organizerTokens (snd (AtomicPurchaseTicket p now tid em oid ss q amt cur)) = st_organizerTokens p"
  by (simp add: AtomicPurchaseTicket_def set_ticket_def set_order_def Let_def split: option.split)

lemma PutTicket_seats:
  assumes "seats_ok p" "GetTicket p (tk_TicketId t) = None" "ticket_ok 0 t"
  shows "seats_ok (PutTicket p ev t)"
proof -
  have "live_orders p (tk_TicketId t) = 0"
    using assms(1,2) by (auto simp: seats_ok_def GetTicket_def live_orders_def count_entries_def filter_empty_conv)
  then show ?thesis
    using assms by (auto simp: seats_ok_def PutTicket_def update_conv' live_orders_def)
qed

text \<open>The requests that the invariant is about: tokens are fresh, a new ticket's capacity leaves room for the sum in the check.\<close>

definition fresh_tokens :: "web_env \<Rightarrow> web_state \<Rightarrow> bool" where
  "fresh_tokens E s \<longleftrightarrow> (\<forall>p. wb_product s = Some p \<longrightarrow>
     GetOrganizerTokenGroup p (we_tokens E 0) = None \<and> GetTicket p (''tick-'' @ take 12 (we_tokens E 0)) = None)"

definition capacity_fits :: "web_request \<Rightarrow> bool" where
  "capacity_fits r \<longleftrightarrow> or_zero_uint (ParseUint (rq_form r ''ticket_capacity'')) \<le> max_capacity"

lemma create_instance_ok: "web_ok s \<Longrightarrow> create_instance E f i eventID st s = Some s' \<Longrightarrow> web_ok s'"
proof -
  assume ok: "web_ok s" and c: "create_instance E f i eventID st s = Some s'"
  obtain w e g where w: "UpsertEvent (we_db E ''UpsertEvent'' i) (we_now E) e (wb_store s) = Some w"
    "s' = s\<lparr>wb_store := w, wb_product := map_option (\<lambda>p. PutEvent p g) (wb_product s)\<rparr>"
    using c by (auto simp: create_instance_def split: option.splits)
  have "web_ok (s\<lparr>wb_store := w\<rparr>)"
    by (rule web_ok_store [OF ok]) (use ok statements_keep_keys(2) [OF _ w(1)] session_tables(2) [OF w(1)] in \<open>auto simp: web_ok_def\<close>)
  then have "web_ok ((s\<lparr>wb_store := w\<rparr>)\<lparr>wb_product := map_option (\<lambda>p. PutEvent p g) (wb_product (s\<lparr>wb_store := w\<rparr>))\<rparr>)"
    by (rule web_ok_product) (erule untouched_shop; simp add: PutEvent_def)
  then show "web_ok s'" by (simp add: w(2))
qed

lemma sync_events_ok: "tables_ok w \<Longrightarrow> tables_ok (sync_events E i g es w)"
proof (induction E i g es w rule: sync_events.induct)
  case (2 E i g e es w)
  then show ?case using statements_keep_keys(2) by (auto split: option.splits)
qed simp

lemma put_store_ok:
  assumes "web_ok s" "\<And>w. x = Some w \<Longrightarrow> tables_ok w \<and> set (ws_sessions w) \<subseteq> set (ws_sessions (wb_store s))"
  shows "web_ok (put_store s x)"
  using assms web_ok_store by (cases x) auto

lemma seats_ok_checked_in: "seats_ok p \<Longrightarrow> seats_ok (checked_in p i em) \<and> tokens_grow p (checked_in p i em)"
  by (erule untouched_shop) (simp_all add: checked_in_def UpdateRsvp_def split: option.split)

lemma seats_ok_cancelled_in: "seats_ok p \<Longrightarrow> seats_ok (cancelled_in p i) \<and> tokens_grow p (cancelled_in p i)"
  by (erule untouched_shop) (simp_all add: cancelled_in_def PutEvent_def split: option.split)

lemma with_group_ok:
  assumes "web_ok s" "fresh_tokens E s"
  shows "web_ok (with_group E r key s)"
    "wb_product (with_group E r key s) = Some p \<Longrightarrow> GetOrganizerTokenGroup p (we_tokens E 0) = Some (hex key)"
proof -
  let ?f = "\<lambda>p. PutOrganizerToken (PutGroup p (new_group r key)) (we_tokens E 0) (hex key)"
  have "seats_ok (?f p) \<and> tokens_grow p (?f p)" if "wb_product s = Some p" "seats_ok p" for p
  proof -
    have "GetOrganizerTokenGroup p (we_tokens E 0) = None" using assms(2) that(1) by (simp add: fresh_tokens_def)
    then have "tokens_grow p (?f p)"
      by (auto simp: tokens_grow_def GetOrganizerTokenGroup_def PutOrganizerToken_def PutGroup_def update_conv')
    moreover have "seats_ok (?f p)"
      using that(2) seats_ok_cong [of "?f p" p] by (simp add: PutOrganizerToken_def PutGroup_def)
    ultimately show ?thesis by blast
  qed
  then have p: "web_ok (s\<lparr>wb_product := map_option ?f (wb_product s)\<rparr>)" by (rule web_ok_product [OF assms(1)])
  have t: "tables_ok (wb_store s)" using assms(1) by (simp add: web_ok_def)
  show "web_ok (with_group E r key s)"
    unfolding with_group_def Let_def
    by (rule put_store_ok [OF p]) (use statements_keep_keys(1) [OF t] session_tables(1) in auto)
  show "wb_product (with_group E r key s) = Some p \<Longrightarrow> GetOrganizerTokenGroup p (we_tokens E 0) = Some (hex key)"
    by (auto simp: with_group_def Let_def put_store_def GetOrganizerTokenGroup_def PutOrganizerToken_def update_conv'
        split: option.splits)
qed

lemma CreateSession_ok:
  assumes "web_ok s" "CreateSession ok now token g ttl (wb_store s) = Some w"
    "\<And>p. wb_product s = Some p \<Longrightarrow> \<exists>tok. GetOrganizerTokenGroup p tok = Some g"
  shows "web_ok (s\<lparr>wb_store := w\<rparr>)"
proof -
  have "tables_ok w" using assms(1) statements_keep_keys(7) [OF _ assms(2)] by (simp add: web_ok_def)
  moreover have "backed p x" if "wb_product s = Some p" "x \<in> set (ws_sessions w)" for p x
    using CreateSession_rows [OF assms(2) that(2)] assms(1) assms(3) [OF that(1)] that(1) by (auto simp: web_ok_def backed_def)
  ultimately show ?thesis using assms(1) by (simp add: web_ok_def)
qed

lemma request_ok:
  assumes "web_ok s" "fresh_tokens E s" "capacity_fits r"
  shows "web_ok (snd (serve rt E r s))"
proof (rule serve_state [where P = web_ok])
  let ?r = "with_cookie E r"
  have t: "tables_ok (wb_store s)" using assms(1) by (simp add: web_ok_def)
  note keep = statements_keep_keys [OF t]
  note store = web_ok_store [OF assms(1)]
  show "web_ok (snd (snd (route_handler rt) E ?r s))"
  proof (rule route_state [where P = web_ok])
    show "web_ok (put_store s (CreateOrder ok now od (wb_store s)))" for ok now od
      by (rule put_store_ok [OF assms(1)]) (use keep(9) session_tables(7) in auto)
    show "web_ok (syncEventsFromProduct E g s)" for g
      unfolding syncEventsFromProduct_def
      by (cases "wb_product s") (use assms(1) store sync_events_ok [OF t] sync_events_tables in auto)
    show "web_ok (s\<lparr>wb_store := w\<rparr>)" if "CreateRsvp ok now (submitted E ?r) (wb_store s) = Some w" for ok now w
      by (rule store) (use keep(3) session_tables(3) that in auto)
    show "web_ok (put_store s (WebStore.CancelRsvp ok g i em (wb_store s)))" for ok g i em
      by (rule put_store_ok [OF assms(1)]) (use keep(5) session_tables(5) in auto)
    show "web_ok (s\<lparr>wb_store := snd (ConfirmRsvp ok ok2 (rq_path ?r ''token'') (wb_store s))\<rparr>)" for ok ok2
      by (rule store) (use keep(4) session_tables(4) in auto)
    show "web_ok (s\<lparr>wb_store := w\<rparr>)"
      if "wb_product s = Some p" "GetOrganizerTokenGroup p (rq_form ?r ''token'') = Some g"
        "CreateSession ok (we_now E) (we_tokens E 0) g week_ttl (wb_store s) = Some w" for ok p g w
      by (rule CreateSession_ok [OF assms(1) that(3)]) (use that in auto)
    show "web_ok (put_store s (DeleteSession ok c (wb_store s)))" for ok c
      by (rule put_store_ok [OF assms(1)]) (use keep(8) session_tables(8) in auto)
    have sold: "web_ok (s\<lparr>wb_product := Some (snd (AtomicPurchaseTicket p (we_timestamp E) tid em oid ss 1 amt cur))\<rparr>)"
      if "wb_product s = Some p" for p tid em oid ss amt cur
      using web_ok_product [OF assms(1), of "\<lambda>p. snd (AtomicPurchaseTicket p (we_timestamp E) tid em oid ss 1 amt cur)"] that
        seats_ok_purchase [of p 1] purchase_tokens tokens_grow_same by simp
    then show "web_ok (s\<lparr>wb_product := Some (snd (AtomicPurchaseTicket p (we_timestamp E) tid em oid ss 1 amt cur))\<rparr>)"
      if "wb_product s = Some p" for p tid em oid ss amt cur using that by blast
    show "web_ok (put_store (s\<lparr>wb_product := Some (snd (AtomicPurchaseTicket p (we_timestamp E) tid em oid ss 1 amt cur))\<rparr>)
        (CreateOrder ok (we_now E) od (wb_store s)))" if "wb_product s = Some p" for p tid em oid ss amt cur ok od
      by (rule put_store_ok [OF sold [OF that]]) (use keep(9) session_tables(7) in auto)
    show "web_ok (with_group E ?r key s)" for key by (rule with_group_ok(1) [OF assms(1,2)])
    show "web_ok (with_group E ?r key s\<lparr>wb_store := w\<rparr>)"
      if "CreateSession ok (we_now E) (we_tokens E 1) (hex key) week_ttl (wb_store (with_group E ?r key s)) = Some w" for key ok w
      by (rule CreateSession_ok [OF with_group_ok(1) [OF assms(1,2)] that]) (use with_group_ok(2) [OF assms(1,2)] in blast)
    show "web_ok (snd (create_instances E f t 0 sts s))" for f t sts
      by (rule create_instances_state [where P = web_ok, OF assms(1)]) (rule create_instance_ok)
    show "web_ok (s\<lparr>wb_product := map_option (\<lambda>p. PutTicket p ev \<lparr>tk_TicketId = ''tick-'' @ take 12 (we_tokens E 0), tk_Name = name,
       tk_TierType = TIER_UNSPECIFIED, tk_Price = price, tk_Capacity = or_zero_uint (ParseUint (rq_form ?r ''ticket_capacity'')),
       tk_Sold = 0, tk_SaleStartsAt = None, tk_SaleEndsAt = None\<rparr>) (wb_product s)\<rparr>)" for ev name price
    proof (rule web_ok_product [OF assms(1)])
      fix p assume p: "wb_product s = Some p" "seats_ok p"
      let ?t = "\<lparr>tk_TicketId = ''tick-'' @ take 12 (we_tokens E 0), tk_Name = name,
       tk_TierType = TIER_UNSPECIFIED, tk_Price = price, tk_Capacity = or_zero_uint (ParseUint (rq_form ?r ''ticket_capacity'')),
       tk_Sold = 0, tk_SaleStartsAt = None, tk_SaleEndsAt = None\<rparr>"
      have "ticket_ok 0 ?t" using assms(3) by (simp add: ticket_ok_def capacity_fits_def)
      moreover have "GetTicket p (tk_TicketId ?t) = None" using assms(2) p(1) by (simp add: fresh_tokens_def)
      ultimately have "seats_ok (PutTicket p ev ?t)" using PutTicket_seats [OF p(2)] by blast
      then show "seats_ok (PutTicket p ev ?t) \<and> tokens_grow p (PutTicket p ev ?t)"
        by (simp add: tokens_grow_same PutTicket_def)
    qed
    have checked: "web_ok (s\<lparr>wb_product := map_option (\<lambda>p. checked_in p i em) (wb_product s)\<rparr>)" for i em
      by (rule web_ok_product [OF assms(1)]) (rule seats_ok_checked_in)
    show "web_ok (put_store (s\<lparr>wb_product := map_option (\<lambda>p. checked_in p i em) (wb_product s)\<rparr>)
      (MarkRsvpAttended ok i em (wb_store s)))" for ok i em
      by (rule put_store_ok [OF checked]) (use keep(6) session_tables(6) in auto)
    have canc: "web_ok (s\<lparr>wb_product := map_option (\<lambda>p. cancelled_in p i) (wb_product s)\<rparr>)" for i
      by (rule web_ok_product [OF assms(1)]) (rule seats_ok_cancelled_in)
    then show "web_ok (s\<lparr>wb_product := map_option (\<lambda>p. cancelled_in p i) (wb_product s)\<rparr>)" for i .
    show "web_ok (put_store (s\<lparr>wb_product := map_option (\<lambda>p. cancelled_in p i) (wb_product s)\<rparr>)
      (UpsertEvent ok (we_now E) ce (wb_store s)))" for i ok ce
      by (rule put_store_ok [OF canc]) (use keep(2) session_tables(2) in auto)
  qed (rule assms(1))
qed (rule assms(1))

section \<open>Runs\<close>

text \<open>
  A step of the host: a request to the web frontend, a request to the ticket shop of the product service or a
  notice of the payment provider (\<open>shop_step\<close>), or any change of the product store that leaves tickets and
  orders alone and forgets no organizer token.
\<close>

inductive web_step :: "provider \<Rightarrow> webhook_lib \<Rightarrow> string \<Rightarrow> string \<Rightarrow> web_state \<Rightarrow> web_state \<Rightarrow> bool"
  for pay L env secret where
  request: "fresh_tokens E s \<Longrightarrow> capacity_fits r \<Longrightarrow> web_step pay L env secret s (snd (serve rt E r s))"
| shop: "wb_product s = Some p \<Longrightarrow> shop_step pay L env secret p p' \<Longrightarrow>
    web_step pay L env secret s (s\<lparr>wb_product := Some p'\<rparr>)"
| catalogue: "wb_product s = Some p \<Longrightarrow> st_tickets p' = st_tickets p \<Longrightarrow> st_orders p' = st_orders p \<Longrightarrow> tokens_grow p p' \<Longrightarrow>
    web_step pay L env secret s (s\<lparr>wb_product := Some p'\<rparr>)"

definition web_start :: "store option \<Rightarrow> web_state" where
  "web_start p = \<lparr>wb_store = empty_web_store, wb_product = p\<rparr>"

lemma web_start_ok: "(\<And>p. x = Some p \<Longrightarrow> seats_ok p) \<Longrightarrow> web_ok (web_start x)"
  by (simp add: web_start_def web_ok_def tables_ok_empty) (simp add: empty_web_store_def)

lemma refund_tokens: "st_organizerTokens (snd (AtomicRefundOrder p now i amt)) = st_organizerTokens p"
  by (simp add: AtomicRefundOrder_def set_order_def release_seat_def set_ticket_def Let_def split: option.split)

lemma order_ops_tokens:
  "st_organizerTokens (snd (AtomicCompleteOrder p i)) = st_organizerTokens p"
  "st_organizerTokens (snd (AtomicMarkOrderFailed p i)) = st_organizerTokens p"
  "st_organizerTokens (snd (AtomicMarkOrderDisputed p i)) = st_organizerTokens p"
  by (simp_all add: AtomicCompleteOrder_def AtomicMarkOrderFailed_def AtomicMarkOrderDisputed_def set_order_def release_seat_def
      set_ticket_def Let_def split: option.split)

lemma webhook_tokens: "st_organizerTokens (snd (WebhookHandler now L env secret p rq)) = st_organizerTokens p"
proof (cases "delivered L (webhook_secret env secret) rq")
  case None
  then show ?thesis by (simp add: WebhookHandler_def ServeHTTP_delivered)
next
  case (Some ev)
  then show ?thesis
    by (simp add: WebhookHandler_def ServeHTTP_delivered Payment.handleEvent_def dispatch_store order_ops_tokens refund_tokens
        split: option.split)
qed

lemma shop_step_tokens: "shop_step pay L env secret p p' \<Longrightarrow> tokens_grow p p'"
proof (rule tokens_grow_same, induction rule: shop_step.induct)
  case (purchase s now oid tid email q)
  show ?case unfolding PurchaseTicket_store by (simp add: purchase_tokens Let_def split: option.split sum.split prod.split)
next
  case (refund s i now token amount reason)
  show ?case using refund_tokens [of s now i amount]
    by (auto simp: RefundOrder_def split: option.splits prod.splits)
next
  case (ticket s tkid t ev token)
  show ?case by (auto simp: CreateTicket_def PutTicket_def split: option.splits)
next
  case (submit s now tok ev email)
  show ?case by (auto simp: SubmitRsvp_def PutToken_def PutRsvp_def Let_def split: option.splits)
next
  case (cancel s ev email tok)
  show ?case by (auto simp: ProductService.CancelRsvp_def put_back_def UpdateRsvp_def split: option.splits)
next
  case (check_in s ev email token)
  show ?case by (auto simp: CheckInAttendee_def put_back_def UpdateRsvp_def split: option.splits)
qed (rule webhook_tokens)

lemma web_step_ok: "web_step pay L env secret s s' \<Longrightarrow> web_ok s \<Longrightarrow> web_ok s'"
proof (induction rule: web_step.induct)
  case (request E s r rt)
  then show ?case by (intro request_ok)
next
  case (shop s p p')
  then have "seats_ok p'" "tokens_grow p p'" using seats_ok_step shop_step_tokens by (auto simp: web_ok_def)
  then show ?case using shop web_ok_product [OF shop.prems, of "\<lambda>_. p'"] by simp
next
  case (catalogue s p p')
  then have "seats_ok p'" using seats_ok_cong [of p' p] by (auto simp: web_ok_def)
  then show ?case using catalogue web_ok_product [OF catalogue.prems, of "\<lambda>_. p'"] by simp
qed

lemma web_run_ok:
  assumes "(web_step pay L env secret)\<^sup>*\<^sup>* s s'" "web_ok s"
  shows "web_ok s'"
  using assms by (induction rule: rtranclp_induct) (auto intro: web_step_ok)

section \<open>Who can do what\<close>

definition confirmed_keys :: "web_store \<Rightarrow> (string \<times> string \<times> string) set" where
  "confirmed_keys w = {rsvp_key x | x. x \<in> set (ws_rsvps w) \<and> wr_Confirmed x}"

lemma confirmed_same: "ws_rsvps w' = ws_rsvps w \<Longrightarrow> confirmed_keys w' = confirmed_keys w"
  by (simp add: confirmed_keys_def)

lemma confirmed_CreateRsvp:
  assumes "CreateRsvp ok now x w = Some w'" "\<not> wr_Confirmed x"
  shows "confirmed_keys w' \<subseteq> confirmed_keys w"
proof -
  let ?x = "if wr_CreatedAt x = 0 then x\<lparr>wr_CreatedAt := Unix now\<rparr> else x"
  have w: "ws_rsvps w' = upsert rsvp_key merge_rsvp ?x (ws_rsvps w)" and "\<not> wr_Confirmed ?x"
    using assms by (auto simp: CreateRsvp_def Let_def split: if_splits)
  then have "y \<in> set (ws_rsvps w)" if "y \<in> set (ws_rsvps w')" "wr_Confirmed y" for y
    using rsvp_table.upsert_members [of y ?x "ws_rsvps w"] that by (auto simp: merge_rsvp_def)
  then show ?thesis by (auto simp: confirmed_keys_def)
qed

lemma confirmed_ConfirmRsvp:
  assumes "k \<in> confirmed_keys (snd (ConfirmRsvp ok ok2 token w))" "k \<notin> confirmed_keys w"
  shows "\<exists>x \<in> set (ws_rsvps w). rsvp_key x = k \<and> wr_Token x = token"
  using assms by (auto simp: ConfirmRsvp_def confirmed_keys_def update_where_def rsvp_key_def split: option.splits if_splits)

lemma confirmed_CancelRsvp: "WebStore.CancelRsvp ok g i em w = Some w' \<Longrightarrow> confirmed_keys w' \<subseteq> confirmed_keys w"
  by (auto simp: WebStore.CancelRsvp_def confirmed_keys_def update_where_def split: if_splits)

lemma confirmed_MarkRsvpAttended: "MarkRsvpAttended ok i em w = Some w' \<Longrightarrow> confirmed_keys w' = confirmed_keys w"
proof -
  assume "MarkRsvpAttended ok i em w = Some w'"
  then have w: "ws_rsvps w' = map (\<lambda>r. if wr_EventID r = i \<and> wr_UserEmail r = em then r\<lparr>wr_Attended := True\<rparr> else r) (ws_rsvps w)"
    by (auto simp: MarkRsvpAttended_def update_where_def split: if_splits)
  define g :: "rsvp_record \<Rightarrow> rsvp_record" where "g = (\<lambda>r. if wr_EventID r = i \<and> wr_UserEmail r = em then r\<lparr>wr_Attended := True\<rparr> else r)"
  have g: "rsvp_key (g r) = rsvp_key r" "wr_Confirmed (g r) = wr_Confirmed r" for r by (simp_all add: g_def rsvp_key_def)
  have c: "confirmed_keys v = rsvp_key ` {x \<in> set (ws_rsvps v). wr_Confirmed x}" for v by (auto simp: confirmed_keys_def)
  have "{x \<in> g ` set (ws_rsvps w). wr_Confirmed x} = g ` {x \<in> set (ws_rsvps w). wr_Confirmed x}" using g(2) by auto
  then show "confirmed_keys w' = confirmed_keys w" by (simp add: c w g_def [symmetric] image_image g(1))
qed

lemma put_store_cases: "(x = None \<Longrightarrow> P s) \<Longrightarrow> (\<And>w. x = Some w \<Longrightarrow> P (s\<lparr>wb_store := w\<rparr>)) \<Longrightarrow> P (put_store s x)"
  by (cases x) auto

lemma create_instances_rsvps: "ws_rsvps (wb_store (snd (create_instances E f t i sts s))) = ws_rsvps (wb_store s)"
  by (rule create_instances_state [where P = "\<lambda>s'. ws_rsvps (wb_store s') = ws_rsvps (wb_store s)"])
    (auto simp: create_instance_def rsvp_tables split: option.splits)

lemma create_instances_sessions: "ws_sessions (wb_store (snd (create_instances E f t i sts s))) = ws_sessions (wb_store s)"
  by (rule create_instances_state [where P = "\<lambda>s'. ws_sessions (wb_store s') = ws_sessions (wb_store s)"])
    (auto simp: create_instance_def session_tables split: option.splits)

lemma wb_store_syncEvents:
  "ws_rsvps (wb_store (syncEventsFromProduct E g s)) = ws_rsvps (wb_store s)"
  "ws_sessions (wb_store (syncEventsFromProduct E g s)) = ws_sessions (wb_store s)"
  by (auto simp: syncEventsFromProduct_def sync_events_tables split: option.splits)

lemma with_group_rows:
  "ws_rsvps (wb_store (with_group E r key s)) = ws_rsvps (wb_store s)"
  "ws_sessions (wb_store (with_group E r key s)) = ws_sessions (wb_store s)"
  by (auto simp: with_group_def Let_def put_store_def rsvp_tables session_tables split: option.splits)

lemma newly_confirmed:
  assumes "k \<in> confirmed_keys (wb_store (snd (serve rt E r s)))" "k \<notin> confirmed_keys (wb_store s)"
  shows "rt = RtRsvpConfirmPost \<and> rq_path r ''token'' \<noteq> '''' \<and>
    (\<exists>x \<in> set (ws_rsvps (wb_store s)). rsvp_key x = k \<and> wr_Token x = rq_path r ''token'')"
proof -
  let ?P = "\<lambda>s'. k \<in> confirmed_keys (wb_store s') \<longrightarrow> rt = RtRsvpConfirmPost \<and> rq_path r ''token'' \<noteq> '''' \<and>
    (\<exists>x \<in> set (ws_rsvps (wb_store s)). rsvp_key x = k \<and> wr_Token x = rq_path r ''token'')"
  let ?r = "with_cookie E r"
  have same: "?P s'" if "ws_rsvps (wb_store s') = ws_rsvps (wb_store s)" for s'
    using assms(2) confirmed_same [OF that] by simp
  have sub: "?P s'" if "confirmed_keys (wb_store s') \<subseteq> confirmed_keys (wb_store s)" for s' using assms(2) that by blast
  have "?P (snd (serve rt E r s))"
  proof (rule serve_state [where P = ?P])
    show "?P (snd (snd (route_handler rt) E ?r s))"
    proof (rule route_state [where P = ?P])
      show "?P (put_store s (CreateOrder ok now od (wb_store s)))" for ok now od
        by (rule put_store_cases) (rule same; simp add: rsvp_tables)+
      show "?P (syncEventsFromProduct E g s)" for g by (rule same) (rule wb_store_syncEvents)
      show "?P (s\<lparr>wb_store := w\<rparr>)" if "CreateRsvp ok now (submitted E ?r) (wb_store s) = Some w" for ok now w
        by (rule sub) (use confirmed_CreateRsvp [OF that] in \<open>simp add: submitted_def\<close>)
      show "?P (put_store s (WebStore.CancelRsvp ok g i em (wb_store s)))" for ok g i em
        by (rule put_store_cases) (rule sub; use confirmed_CancelRsvp in auto)+
      show "?P (s\<lparr>wb_store := snd (ConfirmRsvp ok ok2 (rq_path ?r ''token'') (wb_store s))\<rparr>)"
        if "rt = RtRsvpConfirmPost" "rq_path ?r ''token'' \<noteq> ''''" for ok ok2
        using that confirmed_ConfirmRsvp [OF _ assms(2)] by simp
      show "?P (s\<lparr>wb_store := w\<rparr>)" if "CreateSession ok (we_now E) (we_tokens E 0) g week_ttl (wb_store s) = Some w" for ok g w
        by (rule same) (simp add: rsvp_tables(3) [OF that])
      show "?P (put_store s (DeleteSession ok c (wb_store s)))" for ok c
        by (rule put_store_cases) (rule same; simp add: rsvp_tables)+
      show "?P (put_store (s\<lparr>wb_product := p\<rparr>) (CreateOrder ok (we_now E) od (wb_store s)))" for p ok od
        by (rule put_store_cases) (rule same; simp add: rsvp_tables)+
      show "?P (with_group E ?r key s)" for key by (rule same) (rule with_group_rows)
      show "?P (with_group E ?r key s\<lparr>wb_store := w\<rparr>)"
        if "CreateSession ok (we_now E) (we_tokens E 1) (hex key) week_ttl (wb_store (with_group E ?r key s)) = Some w" for key ok w
        by (rule same) (use rsvp_tables(3) [OF that] with_group_rows in simp)
      show "?P (snd (create_instances E f t 0 sts s))" for f t sts by (rule same) (rule create_instances_rsvps)
      show "?P (put_store (s\<lparr>wb_product := p\<rparr>) (MarkRsvpAttended ok i em (wb_store s)))" for p ok i em
        by (rule put_store_cases) (rule sub; use confirmed_MarkRsvpAttended in auto)+
      show "?P (put_store (s\<lparr>wb_product := p\<rparr>) (UpsertEvent ok (we_now E) ce (wb_store s)))" for p ok ce
        by (rule put_store_cases) (rule same; simp add: rsvp_tables)+
    qed (rule same; simp)+
  qed (rule same, rule refl)
  then show ?thesis using assms(1) by blast
qed

lemma new_session:
  assumes "x \<in> set (ws_sessions (wb_store (snd (serve rt E r s))))" "x \<notin> set (ws_sessions (wb_store s))"
  shows "(rt = RtLoginPost \<and> (\<exists>p. wb_product s = Some p \<and> GetOrganizerTokenGroup p (rq_form r ''token'') = Some (sr_group_key x))) \<or>
    (rt = RtCreateGroup \<and> (\<exists>key. we_key E = Some key \<and> sr_group_key x = hex key))" (is "?new")
proof -
  let ?P = "\<lambda>s'. x \<in> set (ws_sessions (wb_store s')) \<longrightarrow> ?new"
  let ?r = "with_cookie E r"
  have same: "?P s'" if "ws_sessions (wb_store s') = ws_sessions (wb_store s)" for s' using assms(2) that by simp
  have sub: "?P s'" if "set (ws_sessions (wb_store s')) \<subseteq> set (ws_sessions (wb_store s))" for s' using assms(2) that by blast
  have "?P (snd (serve rt E r s))"
  proof (rule serve_state [where P = ?P])
    show "?P (snd (snd (route_handler rt) E ?r s))"
    proof (rule route_state [where P = ?P])
      show "?P (put_store s (CreateOrder ok now od (wb_store s)))" for ok now od
        by (rule put_store_cases) (rule same; simp add: session_tables)+
      show "?P (syncEventsFromProduct E g s)" for g by (rule same) (rule wb_store_syncEvents)
      show "?P (s\<lparr>wb_store := w\<rparr>)" if "CreateRsvp ok now (submitted E ?r) (wb_store s) = Some w" for ok now w
        by (rule same) (simp add: session_tables(3) [OF that])
      show "?P (put_store s (WebStore.CancelRsvp ok g i em (wb_store s)))" for ok g i em
        by (rule put_store_cases) (rule same; simp add: session_tables)+
      show "?P (s\<lparr>wb_store := snd (ConfirmRsvp ok ok2 (rq_path ?r ''token'') (wb_store s))\<rparr>)" for ok ok2
        by (rule same) (simp add: session_tables(4))
      show "?P (s\<lparr>wb_store := w\<rparr>)"
        if "rt = RtLoginPost" "wb_product s = Some p" "GetOrganizerTokenGroup p (rq_form ?r ''token'') = Some g"
          "CreateSession ok (we_now E) (we_tokens E 0) g week_ttl (wb_store s) = Some w" for ok p g w
        using CreateSession_rows [OF that(4), of x] assms(2) that(1-3) by auto
      show "?P (put_store s (DeleteSession ok c (wb_store s)))" for ok c
        by (rule put_store_cases) (rule sub; use session_tables(8) in auto)+
      show "?P (put_store (s\<lparr>wb_product := p\<rparr>) (CreateOrder ok (we_now E) od (wb_store s)))" for p ok od
        by (rule put_store_cases) (rule same; simp add: session_tables)+
      show "?P (with_group E ?r key s)" for key by (rule same) (rule with_group_rows)
      show "?P (with_group E ?r key s\<lparr>wb_store := w\<rparr>)"
        if "rt = RtCreateGroup" "we_key E = Some key"
          "CreateSession ok (we_now E) (we_tokens E 1) (hex key) week_ttl (wb_store (with_group E ?r key s)) = Some w" for key ok w
        using CreateSession_rows [OF that(3), of x] assms(2) that(1,2) with_group_rows by auto
      show "?P (snd (create_instances E f t 0 sts s))" for f t sts by (rule same) (rule create_instances_sessions)
      show "?P (put_store (s\<lparr>wb_product := p\<rparr>) (MarkRsvpAttended ok i em (wb_store s)))" for p ok i em
        by (rule put_store_cases) (rule same; simp add: session_tables)+
      show "?P (put_store (s\<lparr>wb_product := p\<rparr>) (UpsertEvent ok (we_now E) ce (wb_store s)))" for p ok ce
        by (rule put_store_cases) (rule same; simp add: session_tables)+
    qed (rule same; simp)+
  qed (rule same, rule refl)
  then show ?thesis using assms(1) by blast
qed

section \<open>Documents\<close>

text \<open>A reader gets the fields of each attendee back.\<close>

definition attendee_fields :: "rsvp_record \<Rightarrow> string list" where
  "attendee_fields rec = [wr_UserName rec, wr_UserEmail rec, if wr_Confirmed rec then ''Confirmed'' else ''Pending'',
     if wr_Attended rec then ''Yes'' else ''No'']"

lemma csv_plain_word:
  assumes "\<forall>c \<in> set w. c \<noteq> CHR '','' \<and> c \<noteq> CHR 0x22 \<and> c \<noteq> CHR 10 \<and> c \<noteq> CHR 13"
  shows "csvEscape w = w"
  using assms by (auto simp: csvEscape_def ContainsAny_def list_ex_iff)

lemma csv_row:
  "csv_read FieldStart (attendee_row rec @ t) = (let (f, fs, rs) = csv_read FieldStart t in
    (wr_UserName rec, tl (attendee_fields rec), (f # fs) # rs))"
proof -
  have e: "csvEscape ''Confirmed'' = ''Confirmed''" "csvEscape ''Pending'' = ''Pending''" "csvEscape ''Yes'' = ''Yes''"
    "csvEscape ''No'' = ''No''"
    by (rule csv_plain_word; simp)+
  let ?st = "if wr_Confirmed rec then ''Confirmed'' else ''Pending''" and ?at = "if wr_Attended rec then ''Yes'' else ''No''"
  have r: "attendee_row rec @ t = csvEscape (wr_UserName rec) @ CHR '','' # csvEscape (wr_UserEmail rec) @ CHR '','' #
      csvEscape ?st @ CHR '','' # csvEscape ?at @ CHR 10 # t"
    by (simp add: attendee_row_def e)
  show ?thesis unfolding r csv_comma csv_newline by (simp add: Let_def attendee_fields_def split: prod.split)
qed

lemma attendees_read:
  "(let (f, fs, rs) = csv_read FieldStart (concat (map attendee_row recs)) in (f # fs) # rs) = map attendee_fields recs @ [[[]]]"
proof (induction recs)
  case (Cons rec recs)
  have "attendee_fields rec = wr_UserName rec # tl (attendee_fields rec)" by (simp add: attendee_fields_def)
  then show ?case using Cons csv_row [of rec "concat (map attendee_row recs)"] by (auto simp: Let_def split: prod.splits)
qed simp

lemma attendees_csv_read:
  "csv_records (attendees_csv recs) = [''Name'', ''Email'', ''Status'', ''Checked In''] # map attendee_fields recs"
proof -
  obtain f fs rs where r: "csv_read FieldStart (concat (map attendee_row recs)) = (f, fs, rs)" by (metis prod_cases3)
  have "csv_read FieldStart (attendees_csv recs) = (''Name'', [''Email'', ''Status'', ''Checked In''], (f # fs) # rs)"
    by (simp add: attendees_csv_def r)
  then show ?thesis using attendees_read [of recs] by (simp add: csv_records_def r)
qed

text \<open>Calendars.\<close>

lemma crlf_lines_line: "CHR 10 \<notin> set l \<Longrightarrow> crlf_lines (l @ CHR 13 # CHR 10 # s) = l # crlf_lines s"
proof (induction l)
  case (Cons c l)
  then have "crlf_lines (l @ CHR 13 # CHR 10 # s) = l # crlf_lines s" by auto
  then show ?case using Cons.prems by (cases l) auto
qed simp

lemma ics_lines_read: "\<forall>l \<in> set ls. CHR 10 \<notin> set l \<Longrightarrow> crlf_lines (ics_lines ls) = ls @ [[]]"
  by (induction ls) (simp_all add: ics_lines_def crlf_lines_line)

lemma stamp_chars: "CHR 10 \<notin> set (format_stamp t)"
proof -
  have d: "CHR 10 \<notin> set (dec_nat n)" for n using dec_nat_digits [of "CHR 10" n] by (auto simp: digit_value_def)
  then have "CHR 10 \<notin> set (pad_zero w n)" for w n by (simp add: pad_zero_def)
  then show ?thesis by (simp add: format_stamp_def format_date_def format_year_def)
qed

lemma vevent_lines:
  "CHR 10 \<notin> set i \<Longrightarrow> CHR 10 \<notin> set url \<Longrightarrow> l \<in> set (vevent E i e url) \<Longrightarrow> CHR 10 \<notin> set l"
  using stamp_chars icsEscape_line(1) by (auto simp: vevent_def Let_def)

section \<open>New events\<close>

lemma upsert_fresh: "key r \<notin> key ` set xs \<Longrightarrow> upsert key merge r xs = xs @ [r]"
  by (induction xs) auto

definition instance_row :: "web_env \<Rightarrow> event_form \<Rightarrow> string \<Rightarrow> go_time \<Rightarrow> event_row" where
  "instance_row E f eventID st = \<lparr>er_group_key = ef_group f, er_event_id = eventID, er_title = ef_title f,
     er_description = ef_description f, er_starts_at = Unix st, er_location = ef_location f, er_capacity = ef_capacity f,
     er_cancelled = False, er_cached_at = Unix (we_now E)\<rparr>"

abbreviation event_id :: "web_env \<Rightarrow> nat \<Rightarrow> string" where
  "event_id E i \<equiv> take 16 (we_tokens E i)"

lemma create_instances_rows:
  assumes "\<forall>i. we_db E ''UpsertEvent'' i" "distinct (map (event_id E) [t + i..<t + i + length sts])"
    "\<forall>j \<in> {t + i..<t + i + length sts}. (ef_group f, event_id E j) \<notin> event_key ` set (ws_events (wb_store s))"
  shows "fst (create_instances E f t i sts s)"
    "ws_events (wb_store (snd (create_instances E f t i sts s))) = ws_events (wb_store s) @
      map (\<lambda>(j, st). instance_row E f (event_id E j) st) (zip [t + i..<t + i + length sts] sts)"
proof -
  have "fst (create_instances E f t i sts s) \<and>
    ws_events (wb_store (snd (create_instances E f t i sts s))) = ws_events (wb_store s) @
      map (\<lambda>(j, st). instance_row E f (event_id E j) st) (zip [t + i..<t + i + length sts] sts)"
    using assms(2,3)
  proof (induction sts arbitrary: i s)
    case (Cons st sts)
    let ?row = "instance_row E f (event_id E (t + i)) st"
    have k: "event_key ?row = (ef_group f, event_id E (t + i))" by (simp add: event_key_def instance_row_def)
    have "event_key ?row \<notin> event_key ` set (ws_events (wb_store s))" using Cons.prems(2) by (simp add: k)
    then have u: "upsert event_key merge_event ?row (ws_events (wb_store s)) = ws_events (wb_store s) @ [?row]"
      by (rule upsert_fresh)
    obtain s' where c: "create_instance E f i (event_id E (t + i)) st s = Some s'"
      and rows: "ws_events (wb_store s') = ws_events (wb_store s) @ [?row]"
      using assms(1) u by (simp add: create_instance_def UpsertEvent_def instance_row_def)
    have l: "[t + i..<t + i + length (st # sts)] = (t + i) # [t + (i + 1)..<t + (i + 1) + length sts]"
      using upt_conv_Cons [of "t + i" "t + i + length (st # sts)"] by simp
    have d: "distinct (map (event_id E) [t + (i + 1)..<t + (i + 1) + length sts])"
      and n: "event_id E (t + i) \<notin> event_id E ` {t + (i + 1)..<t + (i + 1) + length sts}"
      using Cons.prems(1) unfolding l by (simp_all del: upt_Suc)
    have "\<forall>j \<in> {t + (i + 1)..<t + (i + 1) + length sts}. (ef_group f, event_id E j) \<notin> event_key ` set (ws_events (wb_store s'))"
    proof
      fix j assume j: "j \<in> {t + (i + 1)..<t + (i + 1) + length sts}"
      then have "event_id E j \<noteq> event_id E (t + i)" using n by (metis imageI)
      moreover have "(ef_group f, event_id E j) \<notin> event_key ` set (ws_events (wb_store s))" using Cons.prems(2) j by simp
      ultimately show "(ef_group f, event_id E j) \<notin> event_key ` set (ws_events (wb_store s'))" by (simp add: rows k)
    qed
    note IH = Cons.IH [OF d this]
    have "create_instances E f t i (st # sts) s = create_instances E f t (i + 1) sts s'" by (simp add: c)
    then show ?case using IH unfolding l by (simp add: rows)
  qed simp
  then show "fst (create_instances E f t i sts s)"
    "ws_events (wb_store (snd (create_instances E f t i sts s))) = ws_events (wb_store s) @
      map (\<lambda>(j, st). instance_row E f (event_id E j) st) (zip [t + i..<t + i + length sts] sts)" by blast+
qed

text \<open>The start times of the form: never none, at most 1000, and those of the rule it asks for.\<close>

lemma start_times_bound:
  assumes "start_times rrule startsAt = Inr sts"
  shows "1 \<le> length sts \<and> length sts \<le> 1000"
proof (cases "rrule = ''''")
  case False
  obtain p where p: "ParseRRULE rrule = Inr p" using assms False by (auto simp: start_times_def split: sum.splits)
  obtain l where "ExpandInstances 1001 p startsAt (AddDate startsAt 2 0 0) = Some l" "length l \<le> 1000"
    using ExpandInstances_bounded [of 1001 p startsAt "AddDate startsAt 2 0 0"] by auto
  then show ?thesis using assms False p by (cases "l = []") (auto simp: start_times_def Suc_le_eq)
qed (use assms in \<open>auto simp: start_times_def\<close>)

lemma start_times_rule:
  assumes "ToLower kind \<in> {''daily'', ''weekly'', ''monthly''}" "start_times (buildRRULE kind startsAt c u) startsAt = Inr sts"
  shows "ExpandInstances 1001 (form_pattern kind startsAt c u) startsAt (AddDate startsAt 2 0 0) = Some sts"
proof -
  note p = built_pattern [OF assms(1), of startsAt c u]
  then have "buildRRULE kind startsAt c u \<noteq> ''''" by (auto simp: ParseRRULE_def TrimSpace_def)
  moreover obtain l where "ExpandInstances 1001 (form_pattern kind startsAt c u) startsAt (AddDate startsAt 2 0 0) = Some l"
    using ExpandInstances_bounded [of 1001 "form_pattern kind startsAt c u" startsAt "AddDate startsAt 2 0 0"] by auto
  ultimately show ?thesis using assms(2) p by (auto simp: start_times_def split: if_splits)
qed

lemma read_event_form_times:
  assumes "read_event_form g r = Inr (f, t, sts)"
  obtains startsAt where "parse_form_time (rq_form r ''starts_at'') = Some startsAt" "start_times (ef_rrule f) startsAt = Inr sts"
    "ef_group f = g" "ef_rrule f = (if rq_form r ''recurrence_type'' \<notin> {'''', ''none''}
      then buildRRULE (rq_form r ''recurrence_type'') startsAt (rq_form r ''recurrence_count'') (rq_form r ''recurrence_until'') else '''')"
proof (cases "parse_form_time (rq_form r ''starts_at'')")
  case None
  then show thesis using assms by (simp add: read_event_form_def Let_def split: option.splits)
next
  case (Some startsAt)
  let ?rule = "if rq_form r ''recurrence_type'' \<notin> {'''', ''none''}
      then buildRRULE (rq_form r ''recurrence_type'') startsAt (rq_form r ''recurrence_count'') (rq_form r ''recurrence_until'') else ''''"
  have rule: "?rule = (if rq_form r ''recurrence_type'' \<noteq> '''' \<and> rq_form r ''recurrence_type'' \<noteq> ''none''
      then buildRRULE (rq_form r ''recurrence_type'') startsAt (rq_form r ''recurrence_count'') (rq_form r ''recurrence_until'') else '''')"
    by simp
  have "start_times ?rule startsAt = Inr sts \<and> ef_group f = g \<and> ef_rrule f = ?rule"
    using assms Some unfolding read_event_form_def Let_def rule [symmetric]
    by (auto split: option.splits sum.splits)
  then show thesis using that [OF Some] by simp
qed

section \<open>Pages\<close>

lemma upcoming_starts:
  "WebStore.ListUpcomingEvents ok now g n w = Some es \<Longrightarrow> e \<in> set es \<Longrightarrow> Unix now \<le> ce_StartsAt e \<and> \<not> ce_Cancelled e"
  by (auto simp: WebStore.ListUpcomingEvents_def Let_def scan_event_def split: if_splits dest!: in_set_takeD)

lemma enrich_start [simp]: "ce_StartsAt (enrich s e) = ce_StartsAt e" "ce_GroupKey (enrich s e) = ce_GroupKey e" "ce_EventID (enrich s e) = ce_EventID e"
  by (simp_all add: enrich_def split: option.split)

text \<open>The group page never has a past event to show: its list of past events is filtered from the upcoming ones.\<close>

lemma group_page_no_past:
  assumes "wp_body (fst (handleGroup E r s)) = Page (GroupPage g upcoming past)"
  shows "past = []"
proof -
  let ?now = "Unix (we_now E)"
  obtain es where es: "past = filter (\<lambda>e. ce_StartsAt e < ?now) (map (\<lambda>(i, e). e\<lparr>ce_RsvpCount := count_rsvps E i s e\<rparr>) (List.enumerate 0 (map (enrich s) es)))"
    and "es = or_empty (WebStore.ListUpcomingEvents (we_db E ''ListUpcomingEvents'' 0) (we_now E) (cg_GroupKey g) 20 (wb_store s))"
    using assms by (auto simp: handleGroup_def Let_def reply_def split: if_splits option.splits)
  then have "\<forall>e \<in> set es. ?now \<le> ce_StartsAt e"
    using upcoming_starts by (auto simp: or_empty_def split: option.splits)
  then show ?thesis by (fastforce simp: es filter_empty_conv in_set_enumerate_eq not_less)
qed

end
