(* ===== verification/WebClaims.thy ===== *)
theory WebClaims
  imports WebRules
begin

text \<open>
  The properties of the web frontend over the routes, with concrete requests as witnesses, and the behaviours of the
  handlers that their texts and comments do not intend.
\<close>

section \<open>Concrete requests\<close>

lemma Cookie_with_cookie: "name \<noteq> CSRFCookieName \<Longrightarrow> Cookie (with_cookie E r) name = Cookie r name"
  by (auto simp: with_cookie_def Cookie_def map_add_def split: option.split)

lemma isAuthenticated_with_cookie [simp]: "isAuthenticated E (with_cookie E r) s = isAuthenticated E r s"
proof -
  have "SessionCookieName \<noteq> CSRFCookieName" by (simp add: SessionCookieName_def CSRFCookieName_def)
  then show ?thesis by (simp add: isAuthenticated_def Cookie_with_cookie)
qed

lemma serve_handled:
  assumes "route_handler rt = (m, h)" "rq_method r = m" "\<not> needs_cookie r" "token_matches r"
  shows "snd (serve rt E r s) = snd (h E r s)" "wp_body (fst (serve rt E r s)) = wp_body (fst (h E r s))"
proof -
  have "with_cookie E r = r" using assms(3) by (simp add: with_cookie_def)
  then show "snd (serve rt E r s) = snd (h E r s)" "wp_body (fst (serve rt E r s)) = wp_body (fst (h E r s))"
    using assms by (auto simp: serve_def csrfMiddleware_def Let_def validateCSRF_iff routed_def method_matches_def add_cookies_def
        split: prod.splits)
qed

definition ex_path :: "(string \<times> string) list \<Rightarrow> string \<Rightarrow> string" where
  "ex_path kvs k = (case map_of kvs k of None \<Rightarrow> '''' | Some v \<Rightarrow> v)"

definition ex_post :: "(string \<times> string) list \<Rightarrow> (string \<times> string) list \<Rightarrow> web_request" where
  "ex_post path form = \<lparr>rq_method = ''POST'', rq_path = ex_path path, rq_form = ex_path ((CSRFFormField, ''c'') # form),
     rq_query = (\<lambda>_. ''''), rq_header = (\<lambda>_. ''''), rq_cookies = [(CSRFCookieName, ''c''), (SessionCookieName, ''s'')],
     rq_tls = False, rq_host = ''h''\<rparr>"

definition ex_wenv :: web_env where
  "ex_wenv = \<lparr>we_now = 0, we_wall = 0, we_timestamp = \<lparr>ts_seconds = 0, ts_nanos = 0\<rparr>, we_csrf = ''n'',
     we_tokens = (\<lambda>i. replicate i CHR ''t''), we_key = Some (replicate 32 1), we_db = (\<lambda>_ _. True), we_baseURL = '''',
     we_activitypub = False\<rparr>"

definition ex_wstate :: web_state where
  "ex_wstate = \<lparr>wb_store = empty_web_store\<lparr>ws_events := [ex_event_row], ws_rsvps := [ex_rsvp_row\<lparr>wr_Confirmed := False\<rparr>],
       ws_sessions := [\<lparr>sr_token = ''s'', sr_group_key = ''g'', sr_expires_at = 10\<rparr>]\<rparr>,
     wb_product = Some (PutOrganizerToken NewStore ''key'' ''g'')\<rparr>"

lemma ex_post_facts [simp]:
  "rq_method (ex_post p f) = ''POST''" "\<not> needs_cookie (ex_post p f)" "token_matches (ex_post p f)"
  "rq_path (ex_post p f) = ex_path p" "with_cookie E (ex_post p f) = ex_post p f"
  "isAuthenticated ex_wenv (ex_post p f) ex_wstate = Some ''g''"
  by (simp_all add: ex_post_def needs_cookie_def Cookie_def token_matches_def CSRFFormField_def CSRFCookieName_def ex_path_def
      with_cookie_def isAuthenticated_def SessionCookieName_def ValidateSession_def ex_wenv_def ex_wstate_def Unix_def)

lemma ex_post_form: "k \<noteq> CSRFFormField \<Longrightarrow> rq_form (ex_post p f) k = ex_path f k"
  by (simp add: ex_post_def ex_path_def)

section \<open>The guards\<close>

text \<open>
  C19: no state-changing request without the token: a POST, PUT or DELETE whose form field - or, if that is
  empty, header - is not the client's own CSRF cookie is answered 403 on every route, changes nothing and mails nothing.
\<close>

theorem csrf_guard:
  assumes "state_changing (rq_method r)" "\<not> token_matches (with_cookie E r)"
  shows "wp_body (fst (serve rt E r s)) = CsrfRejected \<and> wp_mails (fst (serve rt E r s)) = [] \<and> snd (serve rt E r s) = s"
proof -
  have "rq_method (with_cookie E r) = rq_method r" by (simp add: with_cookie_def)
  then show ?thesis using assms by (simp add: serve_def csrfMiddleware_def Let_def validateCSRF_iff add_cookies_def reply_def)
qed

definition ex_forged :: web_request where
  "ex_forged = (ex_post [] [])\<lparr>rq_form := (\<lambda>_. ''guess'')\<rparr>"

theorem csrf_guard_witness:
  "wp_body (fst (serve RtLogout ex_wenv ex_forged ex_wstate)) = CsrfRejected \<and> snd (serve RtLogout ex_wenv ex_forged ex_wstate) = ex_wstate"
  using csrf_guard [of ex_forged ex_wenv RtLogout ex_wstate]
  by (simp add: ex_forged_def ex_post_def state_changing_def token_matches_def with_cookie_def needs_cookie_def Cookie_def
      CSRFCookieName_def)

text \<open>
  C34: a GET or HEAD request is safe on every route: it leaves the groups, the RSVPs, the sessions and the whole
  product store as they are; only cached events and local copies of orders may be refreshed.
\<close>

theorem get_is_safe:
  assumes "rq_method r \<in> {''GET'', ''HEAD''}"
  shows "same_people s (snd (serve rt E r s))"
proof (rule serve_cases [of r E rt s])
  fix m h assume h: "route_handler rt = (m, h)" "method_matches m (rq_method r)"
    "snd (serve rt E r s) = snd (h E (with_cookie E r) s)"
  have "m = ''GET''" using h(1,2) assms by (cases rt) (auto simp: method_matches_def)
  then show ?thesis using get_handlers_safe h(1,3) by simp
qed simp_all

theorem get_is_safe_witness:
  "same_people ex_wstate (snd (serve RtDashboard ex_wenv ((ex_post [] [])\<lparr>rq_method := ''GET''\<rparr>) ex_wstate))"
  by (rule get_is_safe) simp

text \<open>
  C20: the dashboard needs a session: without a session cookie that names a live session, every dashboard route
  leaves the state alone and answers with the login page (or the rejection of the request itself).
\<close>

theorem dashboard_guarded:
  assumes "rt \<in> {RtDashboard, RtCreateEvent, RtCreateTicket, RtCancelEvent, RtCheckIn, RtAttendeesCSV}"
    "isAuthenticated E r s = None"
  shows "snd (serve rt E r s) = s \<and> wp_body (fst (serve rt E r s)) \<in>
    {Redirect ''/dashboard/login'', CsrfRejected, HttpError 405 ''Method Not Allowed''}"
proof (rule serve_cases [of r E rt s])
  fix m h assume h: "route_handler rt = (m, h)" "snd (serve rt E r s) = snd (h E (with_cookie E r) s)"
    "wp_body (fst (serve rt E r s)) = wp_body (fst (h E (with_cookie E r) s))"
  have a: "isAuthenticated E (with_cookie E r) s = None" using assms(2) by simp
  have "h E (with_cookie E r) s = (login_page, s)"
    using assms(1) h(1) a
    by (auto simp: handleDashboard_def handleCreateEvent_def handleCreateTicket_def handleCancelEvent_def handleCheckIn_def
        handleAttendeesCSV_def)
  then show ?thesis using h(2,3) by (simp add: login_page_def redirect_def reply_def)
qed simp_all

theorem dashboard_guarded_witness:
  "snd (serve RtCancelEvent (ex_wenv\<lparr>we_now := 11 * second\<rparr>) (ex_post [(''event_id'', ''e'')] []) ex_wstate) = ex_wstate"
  using dashboard_guarded [of RtCancelEvent "ex_wenv\<lparr>we_now := 11 * second\<rparr>" "ex_post [(''event_id'', ''e'')] []" ex_wstate]
  by (simp add: isAuthenticated_def ex_post_def Cookie_def SessionCookieName_def CSRFCookieName_def ValidateSession_def ex_wenv_def
      ex_wstate_def Unix_def second_def)

text \<open>
  C17: an RSVP is confirmed only through its magic link: whatever request the frontend serves, an RSVP that becomes
  confirmed does so by the confirmation route with the token stored in its own row.
\<close>

theorem rsvp_confirmed_by_token:
  assumes "k \<in> confirmed_keys (wb_store (snd (serve rt E r s)))" "k \<notin> confirmed_keys (wb_store s)"
  shows "rt = RtRsvpConfirmPost \<and> rq_path r ''token'' \<noteq> '''' \<and>
    (\<exists>x \<in> set (ws_rsvps (wb_store s)). rsvp_key x = k \<and> wr_Token x = rq_path r ''token'')"
  by (rule newly_confirmed [OF assms])

lemma confirm_serve:
  assumes "rq_path r ''token'' \<noteq> ''''" "rq_method r = ''POST''" "\<not> needs_cookie r" "token_matches r"
  shows "wb_store (snd (serve RtRsvpConfirmPost E r s)) =
    snd (ConfirmRsvp (we_db E ''ConfirmRsvp'' 0) (we_db E ''ConfirmRsvp'' 1) (rq_path r ''token'') (wb_store s))"
  using assms(1) serve_handled(1) [OF _ assms(2-4), of RtRsvpConfirmPost handleRsvpConfirmPost]
  by (simp add: handleRsvpConfirmPost_def Let_def case_prod_beta split: option.split)

theorem rsvp_confirmed_by_token_witness:
  "(\<exists>x \<in> set (ws_rsvps (wb_store ex_wstate)). rsvp_key x = (''g'', ''e'', ''a@b'') \<and> wr_Token x = ''t'')"
proof -
  let ?r = "ex_post [(''token'', ''t'')] []"
  have p: "ex_path [(''token'', ''t'')] ''token'' = ''t''" by (simp add: ex_path_def)
  have "wb_store (snd (serve RtRsvpConfirmPost ex_wenv ?r ex_wstate)) = snd (ConfirmRsvp True True ''t'' (wb_store ex_wstate))"
    by (subst confirm_serve) (simp_all add: p, simp add: ex_wenv_def)
  then have "(''g'', ''e'', ''a@b'') \<in> confirmed_keys (wb_store (snd (serve RtRsvpConfirmPost ex_wenv ?r ex_wstate)))"
    by (simp add: ConfirmRsvp_def GetRsvpByToken_def ex_wstate_def ex_rsvp_row_def update_where_def confirmed_keys_def rsvp_key_def)
  moreover have "(''g'', ''e'', ''a@b'') \<notin> confirmed_keys (wb_store ex_wstate)"
    by (simp add: ex_wstate_def ex_rsvp_row_def confirmed_keys_def)
  ultimately show ?thesis using rsvp_confirmed_by_token [of _ RtRsvpConfirmPost ex_wenv ?r ex_wstate] p by simp
qed

text \<open>
  C18: a session is given out for two reasons only: somebody presented an organizer token of that group at the
  login, or created that very group in this request.
\<close>

theorem session_origin:
  assumes "x \<in> set (ws_sessions (wb_store (snd (serve rt E r s))))" "x \<notin> set (ws_sessions (wb_store s))"
  shows "(rt = RtLoginPost \<and> (\<exists>p. wb_product s = Some p \<and> GetOrganizerTokenGroup p (rq_form r ''token'') = Some (sr_group_key x))) \<or>
    (rt = RtCreateGroup \<and> (\<exists>key. we_key E = Some key \<and> sr_group_key x = hex key))"
  by (rule new_session [OF assms])

theorem session_origin_witness:
  "GetOrganizerTokenGroup (PutOrganizerToken NewStore ''key'' ''g'') ''key'' = Some ''g''"
proof -
  let ?r = "ex_post [] [(''token'', ''key'')]" and ?x = "\<lparr>sr_token = '''', sr_group_key = ''g'', sr_expires_at = 604800\<rparr>"
  have f: "rq_form ?r ''token'' = ''key''" by (subst ex_post_form) (simp_all add: CSRFFormField_def ex_path_def)
  have p: "wb_product ex_wstate = Some (PutOrganizerToken NewStore ''key'' ''g'')" by (simp add: ex_wstate_def)
  have g: "GetOrganizerTokenGroup (PutOrganizerToken NewStore ''key'' ''g'') ''key'' = Some ''g''"
    by (simp add: GetOrganizerTokenGroup_def PutOrganizerToken_def NewStore_def)
  have "?x \<in> set (ws_sessions (wb_store (snd (serve RtLoginPost ex_wenv ?r ex_wstate))))"
    by (simp add: serve_handled(1) [where m = "''POST''" and h = handleLoginPost] handleLoginPost_def Let_def f p g)
      (simp add: ex_wenv_def CreateSession_def ex_wstate_def week_ttl_def Unix_def second_def)
  moreover have "?x \<notin> set (ws_sessions (wb_store ex_wstate))" by (simp add: ex_wstate_def)
  ultimately show ?thesis using session_origin [of ?x RtLoginPost ex_wenv ?r ex_wstate] f p by auto
qed

section \<open>Runs of the host\<close>

text \<open>
  C7: web, shop and payments together keep the books, under the conditions of \<open>web_step\<close>. From an empty start, after
  any interleaving of the steps it allows, the keys of the web tables are unique, no limited ticket has more live orders than its
  counter says nor the counter more than the capacity, and every organizer session belongs to a group with an organizer token.
  The steps are web requests whose random tokens are fresh and whose ticket capacity is at most \<open>max_capacity\<close>;
  changes of the product store that keep tickets, orders and organizer tokens; and shop requests and payment notices
  under the conditions of \<open>shop_step\<close>: no notice completes or disputes an order that is failed or refunded, or refunds
  a failed one, no failed order is refunded by RPC, and a ticket created by RPC has a fresh id
  and, if limited, Sold at most Capacity and Capacity at most \<open>max_capacity\<close>. Without them it is false, see \<open>late_payment_overbooks\<close>.
\<close>

theorem web_reachable_ok:
  assumes "(web_step pay L env secret)\<^sup>*\<^sup>* (web_start x) s" "x \<in> {None, Some NewStore}"
  shows "tables_ok (wb_store s) \<and>
    (\<forall>p. wb_product s = Some p \<longrightarrow>
      (\<forall>tid t. GetTicket p tid = Some t \<and> tk_Capacity t > 0 \<longrightarrow>
        live_orders p tid \<le> unat (tk_Sold t) \<and> tk_Sold t \<le> tk_Capacity t) \<and>
      (\<forall>y \<in> set (ws_sessions (wb_store s)). \<exists>tok. GetOrganizerTokenGroup p tok = Some (sr_group_key y)))"
proof -
  have "seats_ok NewStore" by (simp add: seats_ok_def NewStore_def)
  then have "web_ok s" using assms(2) by (intro web_run_ok [OF assms(1)] web_start_ok) auto
  moreover have "live_orders p tid \<le> unat (tk_Sold t) \<and> tk_Sold t \<le> tk_Capacity t"
    if "seats_ok p" "GetTicket p tid = Some t" "tk_Capacity t > 0" for p tid t
    using seats_okD [OF that(1), of tid t] that(2,3) by (simp add: ticket_ok_def GetTicket_def)
  ultimately show ?thesis by (auto simp: web_ok_def backed_def)
qed

definition ex_group_form :: web_request where
  "ex_group_form = ex_post [] [(''display_name'', ''Go''), (''organizer_name'', ''Ann''), (''organizer_email'', ''a@b'')]"

definition ex_group_made :: web_state where
  "ex_group_made = snd (serve RtCreateGroup ex_wenv ex_group_form (web_start (Some NewStore)))"

lemma ex_group_made_session:
  "hex (replicate 32 1) \<in> set (map sr_group_key (ws_sessions (wb_store ex_group_made)))"
  "wb_product ex_group_made \<noteq> None"
  by code_simp+

theorem web_reachable_ok_witness:
  "\<exists>p tok. wb_product ex_group_made = Some p \<and> GetOrganizerTokenGroup p tok = Some (hex (replicate 32 1))"
proof -
  have "web_step MockProvider ex_hook '''' '''' (web_start (Some NewStore)) ex_group_made"
    unfolding ex_group_made_def
    by (rule web_step.request)
      (simp_all add: fresh_tokens_def web_start_def GetOrganizerTokenGroup_def GetTicket_def NewStore_def capacity_fits_def
        ex_group_form_def ex_post_form CSRFFormField_def ex_path_def ParseUint_def or_zero_uint_def)
  then have "(web_step MockProvider ex_hook '''' '''')\<^sup>*\<^sup>* (web_start (Some NewStore)) ex_group_made"
    by (rule r_into_rtranclp)
  from web_reachable_ok [OF this] ex_group_made_session show ?thesis by force
qed

text \<open>The reminders of a host whose store only ever changes by such steps reach nobody twice.\<close>

lemma hosted_reminders:
  assumes "\<forall>k \<in> set ks. \<forall>e. \<exists>s. (web_step pay L env secret)\<^sup>*\<^sup>* (web_start None) s \<and> rt_view k e = wb_store s"
  shows "distinct (mail_ids (startReminderScheduler base ks))"
proof -
  have "view_ok k" if k: "k \<in> set ks" for k
  proof -
    have "distinct (map rsvp_key (ws_rsvps (rt_view k e)))" for e
    proof -
      obtain s where "(web_step pay L env secret)\<^sup>*\<^sup>* (web_start None) s" "rt_view k e = wb_store s" using assms k by blast
      moreover have "web_ok s" by (rule web_run_ok [OF calculation(1) web_start_ok]) simp
      ultimately show ?thesis by (simp add: web_ok_def tables_ok_def)
    qed
    then show ?thesis by (simp add: view_ok_def)
  qed
  then show ?thesis using reminder_loop_distinct [of ks base "{}"] by (simp add: startReminderScheduler_def)
qed

section \<open>New events\<close>

text \<open>
  C23: an accepted form of a new event creates exactly its instances: with fresh ids and a working database, the
  table gains one row per start time, in order, for the organizer's own group and not cancelled; there are between 1
  and 1000 of them, and for a recurring event they are the instants of the rule within two years of the first.
\<close>

theorem create_event_instances:
  assumes "isAuthenticated E r s = Some g" "read_event_form g r = Inr (f, t, sts)" "\<forall>i. we_db E ''UpsertEvent'' i"
    "distinct (map (event_id E) [t..<t + length sts])"
    "\<forall>j \<in> {t..<t + length sts}. (g, event_id E j) \<notin> event_key ` set (ws_events (wb_store s))"
  shows "ws_events (wb_store (snd (handleCreateEvent E r s))) = ws_events (wb_store s) @
      map (\<lambda>(j, st). instance_row E f (event_id E j) st) (zip [t..<t + length sts] sts) \<and>
    1 \<le> length sts \<and> length sts \<le> 1000 \<and> ef_group f = g \<and>
    (\<forall>startsAt. parse_form_time (rq_form r ''starts_at'') = Some startsAt \<and>
        ToLower (rq_form r ''recurrence_type'') \<in> {''daily'', ''weekly'', ''monthly''} \<longrightarrow>
      ExpandInstances 1001 (form_pattern (rq_form r ''recurrence_type'') startsAt (rq_form r ''recurrence_count'')
        (rq_form r ''recurrence_until'')) startsAt (AddDate startsAt 2 0 0) = Some sts)"
proof -
  obtain startsAt where times: "parse_form_time (rq_form r ''starts_at'') = Some startsAt" "start_times (ef_rrule f) startsAt = Inr sts"
    "ef_group f = g" "ef_rrule f = (if rq_form r ''recurrence_type'' \<notin> {'''', ''none''}
      then buildRRULE (rq_form r ''recurrence_type'') startsAt (rq_form r ''recurrence_count'') (rq_form r ''recurrence_until'') else '''')"
    using read_event_form_times [OF assms(2)] .
  have rows: "ws_events (wb_store (snd (create_instances E f t 0 sts s))) = ws_events (wb_store s) @
      map (\<lambda>(j, st). instance_row E f (event_id E j) st) (zip [t..<t + length sts] sts)"
    using create_instances_rows(2) [of E t 0 sts f s] assms(3-5) times(3) by simp
  have "snd (handleCreateEvent E r s) = snd (create_instances E f t 0 sts s)"
    using assms(1,2) by (simp add: handleCreateEvent_def case_prod_beta)
  moreover have "rq_form r ''recurrence_type'' \<notin> {'''', ''none''}"
    if "ToLower (rq_form r ''recurrence_type'') \<in> {''daily'', ''weekly'', ''monthly''}"
    using that by (auto simp: ToLower_def lower_char_def)
  ultimately show ?thesis
    using rows start_times_bound [OF times(2)] start_times_rule [of "rq_form r ''recurrence_type''" startsAt] times by auto
qed

definition ex_event_form :: web_request where
  "ex_event_form = ex_post [] [(''title'', ''Talk''), (''starts_at'', ''1970-01-02T18:30''), (''capacity'', ''20'')]"

lemma ex_event_form_read:
  "read_event_form ''g'' ex_event_form = Inr (\<lparr>ef_group = ''g'', ef_title = ''Talk'', ef_description = '''', ef_location = '''',
     ef_capacity = 20, ef_rrule = ''''\<rparr>, 0, [153000 * second])"
  by code_simp

theorem create_event_instances_witness:
  "ws_events (wb_store (snd (handleCreateEvent ex_wenv ex_event_form ex_wstate))) =
    [ex_event_row, instance_row ex_wenv \<lparr>ef_group = ''g'', ef_title = ''Talk'', ef_description = '''', ef_location = '''',
     ef_capacity = 20, ef_rrule = ''''\<rparr> '''' (153000 * second)]"
  using create_event_instances [OF _ ex_event_form_read, of ex_wenv ex_wstate]
  by (simp add: ex_event_form_def) (simp add: ex_wenv_def ex_wstate_def event_key_def ex_event_row_def)

section \<open>Documents\<close>

text \<open>
  the texts of people cannot break the documents: each escape is undone by a reader of its format, leaves no
  character that the format gives a meaning (no markup in XML, no line feed in a calendar line), and a CSV field reads
  back as one field whatever it holds.
\<close>

theorem escapes_roundtrip:
  "xml_decode 0 (xmlEscape s) = s \<and> set (xmlEscape s) \<inter> {CHR ''<'', CHR ''>'', CHR 0x22, CHR 0x27} = {} \<and>
   ics_decode (icsEscape s) = s \<and> CHR 10 \<notin> set (icsEscape s) \<and>
   csv_read FieldStart (csvEscape s @ CHR '','' # t) = (let (f, fs, rs) = csv_read FieldStart t in (s, f # fs, rs))"
  using xml_decode_escape [of s "[]"] xmlEscape_plain [of _ s] ics_decode_escape icsEscape_line(1) csv_comma [of s t] by auto

text \<open>
  C32: the attendee list reads back exactly: to an organizer it is served as a file in which a CSV reader finds
  the header and then one record per confirmed RSVP of the event, with name, address and status as they are stored.
\<close>

theorem attendees_csv_exact:
  assumes "isAuthenticated E r s = Some g" "rq_path r ''event_id'' = i" "i \<noteq> ''''"
    "ListRsvpsForEvent (we_db E ''ListRsvpsForEvent'' 0) g i (wb_store s) = Some recs"
  shows "\<exists>text. wp_body (fst (handleAttendeesCSV E r s)) = Download ''text/csv; charset=utf-8'' (''attendees-'' @ i @ ''.csv'') text \<and>
    csv_records text = [''Name'', ''Email'', ''Status'', ''Checked In''] # map attendee_fields recs"
  using assms attendees_csv_read [of recs] by (simp add: handleAttendeesCSV_def Let_def reply_def or_empty_def)

definition ex_full_state :: web_state where
  "ex_full_state = ex_wstate\<lparr>wb_store := (wb_store ex_wstate)\<lparr>ws_rsvps := [ex_rsvp_row\<lparr>wr_UserName := ''Ann, B''\<rparr>]\<rparr>\<rparr>"

theorem attendees_csv_exact_witness:
  "\<exists>text. wp_body (fst (handleAttendeesCSV ex_wenv (ex_post [(''event_id'', ''e'')] []) ex_full_state)) =
      Download ''text/csv; charset=utf-8'' ''attendees-e.csv'' text \<and>
    csv_records text = [[''Name'', ''Email'', ''Status'', ''Checked In''], [''Ann, B'', ''a@b'', ''Confirmed'', ''No'']]"
proof -
  let ?r = "ex_post [(''event_id'', ''e'')] []"
  have a: "isAuthenticated ex_wenv ?r ex_full_state = Some ''g''"
    by (simp add: ex_full_state_def ex_post_def isAuthenticated_def Cookie_def SessionCookieName_def CSRFCookieName_def
        ValidateSession_def ex_wenv_def ex_wstate_def Unix_def)
  have p: "rq_path ?r ''event_id'' = ''e''" by (simp add: ex_path_def)
  have l: "ListRsvpsForEvent (we_db ex_wenv ''ListRsvpsForEvent'' 0) ''g'' ''e'' (wb_store ex_full_state) =
      Some [ex_rsvp_row\<lparr>wr_UserName := ''Ann, B''\<rparr>]"
    by (simp add: ex_wenv_def ex_full_state_def ListRsvpsForEvent_def ex_rsvp_row_def)
  show ?thesis using attendees_csv_exact [OF a p _ l] by (simp add: attendee_fields_def ex_rsvp_row_def)
qed

text \<open>
  C35: the calendar of an event holds exactly its sixteen lines: a client that splits it at CR LF finds these, in this order
  (and nothing after the last CR LF), whatever line breaks, semicolons or commas title, description and place hold, and
  undoing the escapes in the three lines gives title, description and place back; only the ids and the host must be free
  of line feeds. The event lasts two hours.
\<close>

theorem calendar_lines:
  assumes "eventFromProduct (we_db E ''GetEvent'' 0) s g i = Some e" "rq_path r ''group_key'' = g" "rq_path r ''event_id'' = i"
    "g \<noteq> ''''" "i \<noteq> ''''" "CHR 10 \<notin> set (g @ i @ rq_host r)"
  shows "\<exists>text summary description location.
    wp_body (fst (handleEventICS E r s)) = Download ''text/calendar; charset=utf-8'' (i @ ''.ics'') text \<and>
    crlf_lines text = [''BEGIN:VCALENDAR'', ''VERSION:2.0'', ''PRODID:-//Federated Meetup//Event//EN'', ''CALSCALE:GREGORIAN'',
      ''METHOD:PUBLISH'', ''BEGIN:VEVENT'', ''UID:'' @ i @ ''@federated-meetup'', ''DTSTAMP:'' @ format_stamp (we_wall E),
      ''DTSTART:'' @ format_stamp (ce_StartsAt e * second), ''DTEND:'' @ format_stamp ((ce_StartsAt e + 7200) * second),
      ''SUMMARY:'' @ summary, ''DESCRIPTION:'' @ description, ''LOCATION:'' @ location,
      ''URL:'' @ event_url r g i, ''END:VEVENT'', ''END:VCALENDAR'', ''''] \<and>
    ics_decode summary = ce_Title e \<and> ics_decode description = ce_Description e \<and> ics_decode location = ce_Location e"
proof -
  let ?ls = "[''BEGIN:VCALENDAR'', ''VERSION:2.0'', ''PRODID:-//Federated Meetup//Event//EN'', ''CALSCALE:GREGORIAN'',
      ''METHOD:PUBLISH''] @ vevent E i e (event_url r g i) @ [''END:VCALENDAR'']"
  have "CHR 10 \<notin> set (event_url r g i)" using assms(6) by (auto simp: event_url_def baseURL_def)
  then have "\<forall>l \<in> set ?ls. CHR 10 \<notin> set l" using vevent_lines [of i "event_url r g i" _ E e] assms(6) by auto
  from ics_lines_read [OF this] have lines: "crlf_lines (ics_lines ?ls) = ?ls @ [[]]" .
  have v: "vevent E i e u = [''BEGIN:VEVENT'', ''UID:'' @ i @ ''@federated-meetup'', ''DTSTAMP:'' @ format_stamp (we_wall E),
      ''DTSTART:'' @ format_stamp (ce_StartsAt e * second), ''DTEND:'' @ format_stamp ((ce_StartsAt e + 7200) * second),
      ''SUMMARY:'' @ icsEscape (ce_Title e), ''DESCRIPTION:'' @ icsEscape (ce_Description e),
      ''LOCATION:'' @ icsEscape (ce_Location e), ''URL:'' @ u, ''END:VEVENT'']" for u
    by (simp add: vevent_def Let_def algebra_simps)
  have "wp_body (fst (handleEventICS E r s)) = Download ''text/calendar; charset=utf-8'' (i @ ''.ics'') (ics_lines ?ls)"
    using assms(1-5) by (simp add: handleEventICS_def Let_def reply_def)
  moreover note lines [unfolded v append.simps]
  ultimately show ?thesis
    by (intro exI [of _ "ics_lines ?ls"] exI [of _ "icsEscape (ce_Title e)"] exI [of _ "icsEscape (ce_Description e)"]
        exI [of _ "icsEscape (ce_Location e)"]) (simp add: ics_decode_escape v)
qed

theorem calendar_lines_witness:
  "\<exists>text. wp_body (fst (handleEventICS ex_wenv (ex_post [(''group_key'', ''g''), (''event_id'', ''e'')] []) ex_wstate)) =
      Download ''text/calendar; charset=utf-8'' ''e.ics'' text \<and> length (crlf_lines text) = 17"
proof -
  let ?r = "ex_post [(''group_key'', ''g''), (''event_id'', ''e'')] []"
  have e: "eventFromProduct (we_db ex_wenv ''GetEvent'' 0) ex_wstate ''g'' ''e'' = Some (scan_event ex_event_row)"
    by (simp add: eventFromProduct_def product_event_of_def ex_wstate_def ProductStore.GetEvent_def PutOrganizerToken_def NewStore_def
        WebStore.GetEvent_def ex_wenv_def ex_event_row_def)
  have p: "rq_path ?r ''group_key'' = ''g''" "rq_path ?r ''event_id'' = ''e''" by (simp_all add: ex_path_def)
  have "rq_host ?r = ''h''" by (simp add: ex_post_def)
  then show ?thesis using calendar_lines [OF e p] by auto
qed

section \<open>Announcing events\<close>

lemma hex_chars: "set (hex b) \<subseteq> set ''0123456789abcdef''"
proof -
  define D where "D = set ''0123456789abcdef''"
  have d: "hexdigit n \<in> D" if "n < 16" for n
    unfolding hexdigit_def D_def by (rule nth_mem) (use that in simp)
  have "set (hex b) \<subseteq> D"
  proof (induction b)
    case (Cons x xs)
    have "unat x div 16 < 16" using unsigned_less [of x, where ?'a = nat] by simp
    then show ?case using Cons d by simp
  qed simp
  then show ?thesis unfolding D_def .
qed

lemma hex_no_hyphen: "CHR ''-'' \<notin> set (hex b)"
  using hex_chars [of b] by (rule contra_subsetD) simp

lemma new_group_name:
  assumes "length key = 32"
  shows "CHR ''-'' \<in> set (pg_CanonicalName (new_group r key))" "pg_CanonicalName (new_group r key) \<noteq> hex key"
    "pg_CanonicalName (new_group r key) \<noteq> ''vegas-programmers''" "pg_CanonicalName (new_group r key) \<noteq> ''''"
proof -
  obtain x where n: "pg_CanonicalName (new_group r key) = x @ CHR ''-'' # take 8 (hex key)"
    using assms by (simp add: new_group_def Let_def length_hex)
  show "CHR ''-'' \<in> set (pg_CanonicalName (new_group r key))" "pg_CanonicalName (new_group r key) \<noteq> ''''"
    by (simp_all add: n)
  have "CHR ''-'' \<notin> set (hex key)" by (rule hex_no_hyphen)
  then show "pg_CanonicalName (new_group r key) \<noteq> hex key" using n by (metis in_set_conv_decomp)
  show "pg_CanonicalName (new_group r key) \<noteq> ''vegas-programmers''"
  proof
    assume "pg_CanonicalName (new_group r key) = ''vegas-programmers''"
    then have e: "x @ CHR ''-'' # take 8 (hex key) = ''vegas-programmers''" using n by simp
    from arg_cong [OF this, of length] have "length x = 8" using assms by (simp add: length_hex)
    then have "(x @ CHR ''-'' # take 8 (hex key)) ! 8 = CHR ''-''" by (simp add: nth_append)
    then show False unfolding e by simp
  qed
qed

lemma created_group:
  assumes "handleCreateGroup E r s = (resp, s1)" "wp_body resp = Redirect ''/dashboard''" "we_key E = Some key"
    "wb_product s = Some p"
  shows "\<exists>p1. wb_product s1 = Some p1 \<and> ProductStore.GetGroup p1 (hex key) = Some (new_group r key)"
proof -
  have "pg_GroupId (new_group r key) = hex key" by (simp add: new_group_def Let_def)
  then have g: "ProductStore.GetGroup (PutOrganizerToken (PutGroup p (new_group r key)) t k) (hex key) = Some (new_group r key)" for t k
    by (simp add: ProductStore.GetGroup_def PutGroup_def PutOrganizerToken_def update_conv')
  show ?thesis
    using assms g
    by (auto simp: handleCreateGroup_def with_group_def Let_def put_store_def reply_def split: option.splits)
qed

lemma create_instances_group:
  "map_option (\<lambda>p. ProductStore.GetGroup p k) (wb_product (snd (create_instances E f t i sts s))) =
   map_option (\<lambda>p. ProductStore.GetGroup p k) (wb_product s)"
  by (rule create_instances_state [where P = "\<lambda>s'. map_option (\<lambda>p. ProductStore.GetGroup p k) (wb_product s') =
      map_option (\<lambda>p. ProductStore.GetGroup p k) (wb_product s)"])
    (auto simp: create_instance_def ProductStore.GetGroup_def PutEvent_def map_option.compositionality comp_def split: option.splits)

lemma delivered_name:
  assumes "handleCreateEvent E r s = (resp, s')" "wp_deliver resp = Some (e, name)" "isAuthenticated E r s = Some k"
    "wb_product s = Some p" "ProductStore.GetGroup p k = Some g" "pg_CanonicalName g \<noteq> ''''"
  shows "name = pg_CanonicalName g"
proof -
  obtain f t sts s2 where "read_event_form k r = Inr (f, t, sts)" "create_instances E f t 0 sts s = (True, s2)"
    and resp: "resp = event_created E f t sts s2"
    using assms(1-3) by (auto simp: handleCreateEvent_def error_fragment_def reply_def split: sum.splits prod.splits if_splits)
  moreover from this(1) have "ef_group f = k" by (auto simp: read_event_form_def Let_def split: option.splits sum.splits)
  moreover obtain p2 where "wb_product s2 = Some p2" "ProductStore.GetGroup p2 k = Some g"
    using create_instances_group [of k E f t 0 sts s] calculation(2) assms(4,5) by (cases "wb_product s2") auto
  ultimately show ?thesis
    using assms(2,6) by (auto simp: event_created_def Let_def reply_def split: if_splits)
qed

text \<open>
  C31: the followers of a group made with the web form are never told of its events. After handleCreateGroup has succeeded (with a
  32-byte key and a product store), and while the group's record is what it made, an event created with a session of the group is delivered to the followers of the group's canonical name, which is
  not its id in the product store: it ends in a hyphen and the first eight digits of the key. But the inbox takes followers
  only under names that the product store knows as group ids (adapter.go says that the two are the same \<open>for our seed data and
  group creation flow\<close>; they are for the seed, but not in that flow). So whatever requests the inbox has
  served since the start, the report is empty and no request is made, provided that every other group id the inbox saw in the
  product store has no hyphen, as the keys made by the form, or is the seed's.
\<close>

theorem web_groups_never_deliver:
  assumes "handleCreateGroup E r s = (made, s1)" "wp_body made = Redirect ''/dashboard''" "we_key E = Some key" "length key = 32"
    "wb_product s = Some p" "wb_product s1 = Some p1"
    "wb_product s2 = Some p2" "ProductStore.GetGroup p2 (hex key) = ProductStore.GetGroup p1 (hex key)"
    "isAuthenticated E' r' s2 = Some (hex key)" "handleCreateEvent E' r' s2 = (resp, s3)" "wp_deliver resp = Some (e, name)"
    "(inbox_step U S)\<^sup>*\<^sup>* (NewActivityPubService base) a"
    "\<forall>q \<in> S. \<forall>i. adapter_GetGroup q i \<noteq> None \<longrightarrow> CHR ''-'' \<notin> set i \<or> i = ''vegas-programmers''"
  shows "name = pg_CanonicalName (new_group r key) \<and> name \<noteq> hex key \<and> DeliverNewEvent H a e name = (empty_report, [])"
proof -
  note n = new_group_name [OF assms(4), of r]
  have "ProductStore.GetGroup p1 (hex key) = Some (new_group r key)" using created_group [OF assms(1-3,5)] assms(6) by simp
  then have g: "ProductStore.GetGroup p2 (hex key) = Some (new_group r key)" using assms(8) by simp
  have name: "name = pg_CanonicalName (new_group r key)" by (rule delivered_name [OF assms(10,11,9,7) g n(4)])
  have "\<forall>q \<in> S. adapter_GetGroup q name = None" using assms(13) n(1,3) name by (metis option.exhaust option.simps(3))
  then have "as_followers a name = []"
    using inbox_unknown [OF assms(12), of name] by (simp add: NewActivityPubService_def)
  then show ?thesis using name n(2) by (simp add: DeliverNewEvent_def DeliverActivity_def Followers_def)
qed

text \<open>A group is made, somebody follows it by its name and by its id, and an event is created.\<close>

definition ex_follow :: "string \<Rightarrow> inbox_request" where
  "ex_follow name = \<lparr>ir_method = ''POST'', ir_name = name, ir_signature = '''', ir_body = Some ''''\<rparr>"

definition ex_ap_env :: web_env where
  "ex_ap_env = ex_wenv\<lparr>we_tokens := (\<lambda>i. replicate i CHR ''s''), we_activitypub := True\<rparr>"

definition ex_announced :: "web_response \<times> web_state" where
  "ex_announced = handleCreateGroup ex_ap_env ex_group_form (web_start (Some NewStore))"

definition ex_followed :: activity_service where
  "ex_followed =
     (let inbox = (\<lambda>n a. snd (handleInbox (\<lambda>_. Some [(''type'', JString ''Follow''), (''actor'', JString ''x'')])
            (the (wb_product (snd ex_announced))) (ex_follow n) a))
      in inbox (hex (replicate 32 1)) (inbox ''go-01010101'' (NewActivityPubService ''h'')))"

lemma ex_announced_facts:
  "wp_body (fst ex_announced) = Redirect ''/dashboard''" "wb_product (snd ex_announced) \<noteq> None"
  "isAuthenticated ex_ap_env ex_event_form (snd ex_announced) = Some (hex (replicate 32 1))"
  "map_option snd (wp_deliver (fst (handleCreateEvent ex_ap_env ex_event_form (snd ex_announced)))) = Some ''go-01010101''"
  "as_followers ex_followed (hex (replicate 32 1)) = [''x'']"
  "map fst (st_groups (the (wb_product (snd ex_announced)))) = [hex (replicate 32 1)]"
proof -
  show "wp_body (fst ex_announced) = Redirect ''/dashboard''" by code_simp
  show "wb_product (snd ex_announced) \<noteq> None" by code_simp
  show "isAuthenticated ex_ap_env ex_event_form (snd ex_announced) = Some (hex (replicate 32 1))" by code_simp
  show "map_option snd (wp_deliver (fst (handleCreateEvent ex_ap_env ex_event_form (snd ex_announced)))) = Some ''go-01010101''" by code_simp
  show "as_followers ex_followed (hex (replicate 32 1)) = [''x'']" by code_simp
  show "map fst (st_groups (the (wb_product (snd ex_announced)))) = [hex (replicate 32 1)]" by code_simp
qed

theorem web_groups_never_deliver_witness:
  "\<exists>e. wp_deliver (fst (handleCreateEvent ex_ap_env ex_event_form (snd ex_announced))) = Some (e, ''go-01010101'') \<and>
     as_followers ex_followed (hex (replicate 32 1)) = [''x''] \<and>
     DeliverNewEvent ex_client ex_followed e ''go-01010101'' = (empty_report, [])"
proof -
  let ?U = "\<lambda>_ :: string. Some [(''type'', JString ''Follow''), (''actor'', JString ''x'')]"
  obtain p1 where p1: "wb_product (snd ex_announced) = Some p1" using ex_announced_facts(2) by blast
  obtain e where e: "wp_deliver (fst (handleCreateEvent ex_ap_env ex_event_form (snd ex_announced))) = Some (e, ''go-01010101'')"
    using ex_announced_facts(4) by auto
  have step: "inbox_step ?U {p1} a (snd (handleInbox ?U p1 rq a))" for rq a by (rule inbox_step.intros) simp
  have run: "(inbox_step ?U {p1})\<^sup>*\<^sup>* (NewActivityPubService ''h'') ex_followed"
    unfolding ex_followed_def Let_def p1 option.sel
    by (rule rtranclp.rtrancl_into_rtrancl [OF rtranclp.rtrancl_into_rtrancl [OF rtranclp.rtrancl_refl]]) (rule step)+
  have no_hyphen: "\<forall>q \<in> {p1}. \<forall>i. adapter_GetGroup q i \<noteq> None \<longrightarrow> CHR ''-'' \<notin> set i \<or> i = ''vegas-programmers''"
  proof (intro ballI allI impI disjI1)
    fix q i assume "q \<in> {p1}" "adapter_GetGroup q i \<noteq> None"
    then have "i \<in> set (map fst (st_groups p1))"
      by (auto simp: adapter_GetGroup_def ProductStore.GetGroup_def dest: map_of_SomeD intro: rev_image_eqI)
    moreover have "set (map fst (st_groups p1)) = {hex (replicate 32 1)}" using ex_announced_facts(6) unfolding p1 option.sel by simp
    ultimately have "i = hex (replicate 32 1)" by blast
    then show "CHR ''-'' \<notin> set i" by (simp only: hex_no_hyphen not_False_eq_True)
  qed
  have key: "we_key ex_ap_env = Some (replicate 32 1)" "wb_product (web_start (Some NewStore)) = Some NewStore"
    by (simp_all add: ex_ap_env_def ex_wenv_def web_start_def)
  have made: "handleCreateGroup ex_ap_env ex_group_form (web_start (Some NewStore)) = (fst ex_announced, snd ex_announced)"
    by (simp add: ex_announced_def)
  have "DeliverNewEvent ex_client ex_followed e ''go-01010101'' = (empty_report, [])"
    by (rule web_groups_never_deliver [OF made ex_announced_facts(1) key(1) length_replicate key(2) p1 p1 refl
      ex_announced_facts(3) surjective_pairing e run no_hyphen, THEN conjunct2, THEN conjunct2])
  then show ?thesis using e ex_announced_facts(5) by blast
qed

section \<open>What the handlers do not intend\<close>

text \<open>An organizer of any group cancels any event of the product store, and sells or checks in for it as well.\<close>

lemma any_organizer_cancels:
  assumes "isAuthenticated E r s = Some g" "rq_path r ''event_id'' = i" "i \<noteq> ''''" "wb_product s = Some p"
    "ProductStore.GetEvent p i = Some e" "pe_EventId e = i"
  shows "\<exists>p'. wb_product (snd (handleCancelEvent E r s)) = Some p' \<and>
    ProductStore.GetEvent p' i = Some (e\<lparr>pe_Cancelled := True\<rparr>)"
proof -
  have "ProductStore.GetEvent (cancelled_in p i) i = Some (e\<lparr>pe_Cancelled := True\<rparr>)"
    using assms(5,6) by (simp add: cancelled_in_def ProductStore.GetEvent_def PutEvent_def update_conv')
  then show ?thesis
    using handleCancelEvent_eq [OF assms(1-3)] assms(4) by (simp add: Let_def put_store_def split: option.splits)
qed

text \<open>Submitting the form again takes a confirmed RSVP back, and the check-in with it; no token is needed.\<close>

lemma upsert_row:
  "distinct (map key xs) \<Longrightarrow> x \<in> set (upsert key merge r xs) \<Longrightarrow> (\<And>y. key (merge y r) = key y) \<Longrightarrow> key x = key r \<Longrightarrow>
   x = r \<or> (\<exists>y. x = merge y r)"
proof (induction xs)
  case (Cons y ys)
  show ?case
  proof (cases "key y = key r")
    case True
    then have "x = merge y r \<or> x \<in> set ys" using Cons.prems(2) by simp
    moreover have "key x \<notin> key ` set ys" using True Cons.prems(1,4) by simp
    ultimately show ?thesis by blast
  next
    case False
    then have "x \<in> set (upsert key merge r ys)" using Cons.prems(2,4) by auto
    then show ?thesis using Cons.IH Cons.prems by simp
  qed
qed simp

lemma resubmitted_rsvp:
  assumes "tables_ok w" "CreateRsvp ok now (submitted E r) w = Some w'"
  shows "rsvp_key (submitted E r) \<notin> confirmed_keys w'"
proof -
  let ?x = "if wr_CreatedAt (submitted E r) = 0 then (submitted E r)\<lparr>wr_CreatedAt := Unix now\<rparr> else submitted E r"
  have x: "rsvp_key ?x = rsvp_key (submitted E r)" "\<not> wr_Confirmed ?x" by (simp_all add: rsvp_key_def submitted_def)
  have w: "ws_rsvps w' = upsert rsvp_key merge_rsvp ?x (ws_rsvps w)" using assms(2) by (auto simp: CreateRsvp_def Let_def split: if_splits)
  have "\<not> wr_Confirmed y" if "y \<in> set (ws_rsvps w')" "rsvp_key y = rsvp_key (submitted E r)" for y
    using upsert_row [of rsvp_key "ws_rsvps w" y merge_rsvp ?x] that assms(1) x
    by (auto simp: w tables_ok_def merge_rsvp_def rsvp_key_def)
  then show ?thesis by (auto simp: confirmed_keys_def)
qed

text \<open>The page of an address's RSVPs lists their tokens to whoever asks, so the magic link proves nothing.\<close>

lemma my_rsvps_lists_tokens:
  assumes "rec \<in> set (ws_rsvps (wb_store s))" "TrimSpace (rq_query r ''email'') = wr_UserEmail rec" "wr_UserEmail rec \<noteq> ''''"
    "we_db E ''ListRsvpsByEmail'' 0"
  shows "\<exists>em views v. wp_body (fst (handleMyRsvps E r s)) = Page (MyRsvpsPage em views) \<and> v \<in> set views \<and>
    rv_Token v = wr_Token rec \<and> rv_GroupKey v = wr_GroupKey rec \<and> rv_EventID v = wr_EventID rec"
proof -
  let ?recs = "sort_key (\<lambda>r. - wr_CreatedAt r) (filter (\<lambda>x. wr_UserEmail x = wr_UserEmail rec) (ws_rsvps (wb_store s)))"
  have l: "or_empty (ListRsvpsByEmail (we_db E ''ListRsvpsByEmail'' 0) (wr_UserEmail rec) (wb_store s)) = ?recs"
    using assms(4) by (simp add: ListRsvpsByEmail_def or_empty_def)
  have "rec \<in> set ?recs" using assms(1) by simp
  then obtain i where i: "i < length ?recs" "?recs ! i = rec" by (metis in_set_conv_nth)
  let ?view = "\<lambda>(i, rec). \<lparr>rv_GroupKey = wr_GroupKey rec, rv_EventID = wr_EventID rec,
     rv_EventTitle = rsvp_title (we_db E ''GetEvent'' i) s rec, rv_StartsAt = 0, rv_Confirmed = wr_Confirmed rec, rv_Token = wr_Token rec\<rparr>"
  have "wp_body (fst (handleMyRsvps E r s)) = Page (MyRsvpsPage (wr_UserEmail rec) (map ?view (List.enumerate 0 ?recs)))"
    using assms(2,3) l by (simp add: handleMyRsvps_def Let_def reply_def)
  moreover have "(i, rec) \<in> set (List.enumerate 0 ?recs)" using i by (auto simp: in_set_enumerate_eq)
  then have "?view (i, rec) \<in> set (map ?view (List.enumerate 0 ?recs))" unfolding set_map by (rule imageI)
  moreover have "rv_Token (?view (i, rec)) = wr_Token rec \<and> rv_GroupKey (?view (i, rec)) = wr_GroupKey rec \<and>
    rv_EventID (?view (i, rec)) = wr_EventID rec" by simp
  ultimately show ?thesis by blast
qed

text \<open>The checkout page shows the status an order had when it was bought: the local copy is never brought up to date.\<close>

lemma checkout_shows_old_status:
  assumes "WebStore.GetOrder (we_db E ''GetOrder'' 0) i (wb_store s) = Some od" "rq_path r ''order_id'' = i" "i \<noteq> ''''" "wo_OrderID od \<noteq> ''''"
  shows "\<exists>title url. wp_body (fst (handleCheckout E r s)) = Page (CheckoutPage od title url)"
  using assms by (simp add: handleCheckout_def checkout_lookup_def checkout_page_def Let_def reply_def)

text \<open>An event is shown, and takes RSVPs, under any group: the group in the path is not compared with the event's.\<close>

lemma event_under_any_group:
  assumes "product_event_of s i = Some e"
  shows "eventFromProduct ok s g i = Some (cached_from_product g e)"
  using assms by (simp add: eventFromProduct_def)

end
