(* ===== verification/Spec2Isabelle.thy ===== *)
theory Spec2Isabelle
  imports Prelude StateTypes KVStore HLC Crypto Transition Fifo Mesh Custody Broadcaster RateLimit
    Equivocation Branch Group Gates Handlers Apply ApplyFrame Examples ApplySafety ApplyKV
    Persistence Reach Governance EquivocationRules GoStrings Connect Host HostRules HostWrites Federation FederationRules
    MirrorRules Payment ProductStore ProductService ProductPages Orders ShopRules Calendar Recurrence
    RecurrenceRules WebText Email WebStore Reminder WebServer ActivityPub WebRules WebClaims
begin

text \<open>
  A verification development of federated-meetup, a federated host for meetup groups in Go.

  The program. A group is a replicated state machine: stewards sign transitions over the root
  of the state they act on, and every host that applies the same transitions reaches the same
  root (internal/group, with internal/types, hlc, crypto and ratelimit below it). A host serves
  its groups over RPC (internal/host); another host mirrors them by reading that service and
  applying what it gets (internal/federation). Beside it a product layer (internal/product,
  internal/payment) sells tickets and takes RSVPs in an in-memory store, with Stripe as the payment
  provider and a webhook for its events, and expands the recurrence rules of events. A web frontend (internal/web)
  shows it all to people, with a SQLite store of its own for the cache of events, the RSVPs with their magic links and
  the sessions of organizers; it mails (internal/email, cmd/fedmeetup/reminder.go) and announces new events
  over ActivityPub (internal/activitypub).

  The group layer, bottom up, each theory after the file it models:
  \<^item> StateTypes (types.go): entries, the canonical sort, the root hash. KVStore (appendOrUpdate of
    group.go): the write primitive with its caps; the locale \<open>kv_writes\<close> is its contract.
  \<^item> HLC (hlc.go), Crypto (crypto.go, keys.go), RateLimit (ratelimit.go): the clock as byte strings,
    the multisig envelope, the token buckets with float64 arithmetic as rounding of rationals.
  \<^item> Transition (the messages of state.proto, NewTransition), Fifo (the contract of the program's
    bounded buffers), Mesh, Custody, Broadcaster, Equivocation, Branch (the files of the same names): one
    record of state and one definition per operation each.
  \<^item> Group (the State and its lookups in group.go), Gates (gates.go), Handlers (the payload switch, one
    definition per case), Apply (State.Apply: route, enter the branch, check the prior state, the
    rate and equivocation, verify the envelope, handle, commit, broadcast, persist, restore).
  \<^item> Persistence (persistence.go, NewStateWithPersister): the log of rows and its replay.

  The host: Host (host/multigroup.go, host/service.go): the registry of groups and one definition per RPC;
  a write returns the service with the group's state replaced. Federation (federation/syncer.go):
  Bootstrap over pages of the log, Verify, Live over streams of events; the peer is a function from the
  number of a call and its request to the answer, so it may lie and change its mind; the texts of
  the errors of Apply are modelled because the syncer decides by them.

  The product layer: Payment (provider.go, stripe.go, webhook.go), ProductStore (store.go,
  webhook_adapter.go), ProductService (service.go), Recurrence (recurrence.go). GoStrings, Connect and Calendar hold
  what these use of Go's strings, strconv, fmt and time packages and of the RPC library's codes.

  The web layer: WebText (the text functions of the handlers: names, escapes, the rule of a form), Email (templates.go,
  sender.go), WebStore (store.go: one definition per statement, tables as lists of rows; the locale
  \<open>keyed_table\<close> is what a primary key gives, interpreted for the five tables), Reminder (reminder.go), WebServer
  (middleware.go, server.go, handlers.go: a handler maps environment, request and state to response, mails and state;
  \<open>serve\<close> is the middleware around the route), ActivityPub (activitypub.go, adapter.go, signatures.go), WebRules
  (what each route may change; the step relation \<open>web_step\<close> of web requests, shop requests and payment notices
  and its invariant), WebClaims (the properties over the routes).

  What the theorems show.
  \<^item> Components: Root commits to the entries; sign bytes determine group, kind and payload; the multisig counts every
    steward once; Tick and Observe are monotone and causal; a bucket's rate bound; the window in
    which an equivocation is detected; the mesh indexes agree; a subscriber sees the latest 64 events;
    the custody view is the last declaration.
  \<^item> Apply (ApplyFrame, ApplySafety, ApplyKV): a transition that is accepted was signed by the threshold
    of the stewards; a rejected one changes nothing but the equivocation log and the registries that
    the theorem names; branches do not affect one another; and on the map of keys Apply is
    the abstract specification \<open>payload_writes\<close>.
  \<^item> Runs (Reach, Governance, EquivocationRules, Persistence): an invariant of every reachable state, by rule induction on
    a step relation; equal roots mean equal steward sets; no steward has two transitions accepted on one prior
    state, as long as fewer calls than the cap of the log lie between them; a restart replays to the same state.
  \<^item> The host (HostRules, HostWrites): following the cursor of GetLog yields the whole log once; a subscriber gets
    the log from its index and then every later transition without a gap, those accepted between its subscription and
    the reading of the log twice; no sequence of requests breaks the invariant of a hosted group; user actions need
    the stewards.
  \<^item> Mirrors (FederationRules, MirrorRules): against an honest peer Bootstrap ends with the peer's very state machine
    and Verify accepts it, and the stream keeps it so, transitions delivered twice included: this composes GetLog, Subscribe, the broadcaster and
    Apply on both sides. Against any peer a mirror only takes steps of Apply. Live ends with its context.
  \<^item> The shop (ProductPages, Orders, ShopRules): listings are complete; a limited ticket is never
    overbooked, an invariant of the step relation \<open>shop_step\<close>, whose rules exclude events that resurrect an order, refunds of
    failed orders and tickets created with a count above the capacity; only
    organizers of an event change it; webhook requests are idempotent, through the locale
    \<open>order_store\<close>; partial refunds add up.
  \<^item> Recurrence (Calendar, RecurrenceRules): civil dates and day numbers are inverse; the parser accepts only
    well-formed patterns and reads back what is printed; the expansion terminates with at most 1000
    instances (its outer loops counted by fuel), and DAILY, WEEKLY and MONTHLY yield the instants of their closed form.
  \<^item> The web (WebRules, WebClaims, WebText): under any interleaving of the web requests, shop requests and payment
    notices that \<open>web_step\<close> allows the keys stay unique, no limited ticket is overbooked and every session belongs to a group with a token; a
    request without the CSRF token changes nothing; only the magic link confirms an RSVP; sessions come from an
    organizer token or the creation of the group; GET is safe; a created event has exactly the instances of its rule;
    the CSV, calendar and feed outputs read back.
  \<^item> Mails and delivery (Email, Reminder, ActivityPub): nobody is reminded twice of an event and everyone confirmed in
    time is reminded; the header of a message is what the sender means; a delivery accounts for every follower.
  \<^item> Defects that the model exhibits are theorems as well: late payments overbook, a refund returns
    one seat of several, Stripe is asked for the quantity twice, a cancelled RSVP is final, a
    transition without a prior state resets the government, a fresh branch can be taken over, a
    removal can lock its signer out or lose the quorum for good, an overdue MIGRATE stops every restart, the
    syncer does not recognise what it applied before, a served snapshot cannot be checked against its
    root, the second page of events is empty, anyone can flush the evidence of a group, an organizer cancels the
    events of other groups, a resubmitted form unconfirms an RSVP, the page of RSVPs gives their tokens away, a reminder
    never names the time, a title adds mail headers, a late RSVP is never reminded, groups made on the web have no
    followers to deliver to, any signature passes.

  Conventions. Go maps are association lists updated at the key; where the code ranges over a map its
  order is the list's and the theorems do not depend on it. Errors are datatypes, nil is \<open>None\<close>, a
  panic is a value of its own. Machine integers are words; Go's int is \<open>int\<close>. A method that holds a mutex
  from start to end is one step, and so is a handler, except Subscribe, which waits for events: its subscription, its reading of
  the log and its stream are separate, with steps of the group between them. Clocks, randomness, database outcomes, SHA-256, Ed25519, X25519, protobuf
  marshalling, JSON decoding and the Stripe library are arguments (\<open>prims\<close>, \<open>env\<close>, \<open>apply_input\<close>,
  \<open>webhook_lib\<close>, \<open>stripe_sdk\<close>, \<open>sync_env\<close>); what a theorem needs of them is a hypothesis that its witness
  discharges for a concrete instance (theory Examples). Loops are structural recursion over the data, but for
  three that run on fuel, with the value \<open>None\<close> when it ends: ExpandInstances, for which 1001 is proved enough (the loop that carries months into years recurses on the months left);
  Bootstrap, whose rounds the peer decides: against an honest peer one more than the transitions missing is
  proved enough; Live, which ends only with its context: one round more than the checks before it ends is
  proved enough. In the web layer one reading of the clock serves a request, ties in the order of a query go by the
  age of the row, letters and white space are ASCII, and \<open>we_db\<close> says which database calls succeed.

  Not modelled: HTML templates with their display formatters, JSON-LD, the security headers, static files, metrics and logs
  of the web frontend; the SMTP exchange; the encoding of JSON and HTTP; the MCP server (internal/mcp: tools
  over a third-party SDK that call the host service and the product store and encode what these answer); the generated protobuf code; configuration and start-up (cmd); key generation and
  signing (randomness and private keys).
\<close>

end
